(* ===== verification/Agos_Prelude.thy ===== *)
theory Agos_Prelude
  imports Complex_Main "HOL-Library.Multiset" "HOL-Library.List_Lexorder" "HOL-Library.Char_ord"
begin

text \<open>
  Shared vocabulary of the development: results with an error side, a fallible
  collecting map, tables as lists of rows with the effect of UPDATE and DELETE on them,
  rotation of a list, 64-bit signed arithmetic with its wrap-around, and the \<open>f64\<close>
  values a price or a weight can take. Also the three contracts (locales) the
  components share: tag codecs, state machines with an invariant, and decoders that
  may be fed in chunks.
\<close>

named_theorems res_simps \<open>case analysis of results\<close>
named_theorems table_simps \<open>effect of table operations on keys and membership\<close>
named_theorems keeps \<open>preservation of an invariant by an operation\<close>

section \<open>Results\<close>

definition res_bind :: "'e + 'a \<Rightarrow> ('a \<Rightarrow> 'e + 'b) \<Rightarrow> 'e + 'b" where
  "res_bind r f = (case r of Inl e \<Rightarrow> Inl e | Inr x \<Rightarrow> f x)"

lemma res_bind_simps [simp, code]:
  "res_bind (Inl e) f = Inl e"
  "res_bind (Inr x) f = f x"
  by (simp_all add: res_bind_def)

lemma res_bind_Inr [res_simps]: "res_bind r f = Inr y \<longleftrightarrow> (\<exists>x. r = Inr x \<and> f x = Inr y)"
  by (cases r) auto

lemma res_bind_Inl [res_simps]:
  "res_bind r f = Inl e \<longleftrightarrow> r = Inl e \<or> (\<exists>x. r = Inr x \<and> f x = Inl e)"
  by (cases r) auto

lemma res_bind_cong [fundef_cong]:
  "r = r' \<Longrightarrow> (\<And>x. r' = Inr x \<Longrightarrow> f x = g x) \<Longrightarrow> res_bind r f = res_bind r' g"
  by (cases r') auto

text \<open>\<open>ok_or\<close> turns a missing value into an error, as \<open>with_context\<close> does.\<close>

definition ok_or :: "'e \<Rightarrow> 'a option \<Rightarrow> 'e + 'a" where
  "ok_or e x = (case x of None \<Rightarrow> Inl e | Some a \<Rightarrow> Inr a)"

lemma ok_or_simps [simp, code]: "ok_or e None = Inl e" "ok_or e (Some a) = Inr a"
  by (simp_all add: ok_or_def)

lemma ok_or_Inr [res_simps]: "ok_or e x = Inr a \<longleftrightarrow> x = Some a"
  by (cases x) auto

lemma ok_or_Inl [res_simps]: "ok_or e x = Inl e' \<longleftrightarrow> x = None \<and> e' = e"
  by (cases x) auto

text \<open>
  A loop that appends what each element contributes and stops at the first error.
\<close>

fun collect_res :: "('a \<Rightarrow> 'e + 'b list) \<Rightarrow> 'a list \<Rightarrow> 'e + 'b list" where
  "collect_res f [] = Inr []"
| "collect_res f (x # xs) =
     (case f x of Inl e \<Rightarrow> Inl e
      | Inr ys \<Rightarrow> (case collect_res f xs of Inl e \<Rightarrow> Inl e | Inr zs \<Rightarrow> Inr (ys @ zs)))"

lemma collect_res_cong [fundef_cong]:
  "xs = ys \<Longrightarrow> (\<And>x. x \<in> set ys \<Longrightarrow> f x = g x) \<Longrightarrow> collect_res f xs = collect_res g ys"
  by (induction ys arbitrary: xs) (auto split: sum.splits)

lemma collect_res_mem:
  "collect_res f xs = Inr zs \<Longrightarrow> z \<in> set zs \<Longrightarrow> \<exists>x\<in>set xs. \<exists>ys. f x = Inr ys \<and> z \<in> set ys"
  by (induction xs arbitrary: zs) (auto split: sum.splits)

lemma collect_res_all_Inr:
  "(\<And>x. x \<in> set xs \<Longrightarrow> \<exists>ys. f x = Inr ys) \<Longrightarrow> \<exists>zs. collect_res f xs = Inr zs"
proof (induction xs)
  case Nil
  then show ?case by simp
next
  case (Cons x xs)
  obtain ys where "f x = Inr ys" using Cons.prems by auto
  moreover obtain zs where "collect_res f xs = Inr zs" using Cons by auto
  ultimately show ?case by auto
qed

lemma collect_res_Inl:
  "collect_res f xs = Inl e \<Longrightarrow> \<exists>x\<in>set xs. f x = Inl e"
  by (induction xs) (auto split: sum.splits)

lemma collect_res_part:
  "collect_res f xs = Inr zs \<Longrightarrow> x \<in> set xs \<Longrightarrow> \<exists>ys. f x = Inr ys \<and> set ys \<subseteq> set zs"
  by (induction xs arbitrary: zs) (force split: sum.splits)+

text \<open>\<open>into_iter().map(f).collect::<Result<Vec<_>>>()\<close>\<close>

definition map_res :: "('a \<Rightarrow> 'e + 'b) \<Rightarrow> 'a list \<Rightarrow> 'e + 'b list" where
  "map_res f xs = collect_res (\<lambda>x. case f x of Inl e \<Rightarrow> Inl e | Inr y \<Rightarrow> Inr [y]) xs"

lemma map_res_simps [simp, code]:
  "map_res f [] = Inr []"
  "map_res f (x # xs) =
     (case f x of Inl e \<Rightarrow> Inl e
      | Inr y \<Rightarrow> (case map_res f xs of Inl e \<Rightarrow> Inl e | Inr ys \<Rightarrow> Inr (y # ys)))"
  by (auto simp: map_res_def split: sum.splits)

lemma map_res_InrD: "map_res f xs = Inr ys \<Longrightarrow> list_all2 (\<lambda>x y. f x = Inr y) xs ys"
  by (induction xs arbitrary: ys) (auto split: sum.splits)

lemma map_res_keys:
  assumes "map_res f xs = Inr ys" "\<And>x y. f x = Inr y \<Longrightarrow> k' y = k x"
  shows "map k' ys = map k xs"
  using map_res_InrD[OF assms(1)] by (induction rule: list_all2_induct) (simp_all add: assms(2))

lemma map_res_Inr_mem: "map_res f xs = Inr ys \<Longrightarrow> y \<in> set ys \<Longrightarrow> \<exists>x\<in>set xs. f x = Inr y"
  by (induction xs arbitrary: ys) (auto split: sum.splits)

lemma map_res_Inl: "map_res f xs = Inl e \<Longrightarrow> \<exists>x\<in>set xs. f x = Inl e"
  by (induction xs) (auto split: sum.splits)

lemma map_res_total:
  "(\<And>x. x \<in> set xs \<Longrightarrow> f x = Inr (g x)) \<Longrightarrow> map_res f xs = Inr (map g xs)"
  by (induction xs) auto

section \<open>Tables\<close>

text \<open>
  A table is the list of its rows in insertion order. \<open>upd_where\<close> is UPDATE with a
  WHERE clause; \<open>filter\<close> is DELETE and SELECT; the number of rows touched is what
  SQLite reports as changed.
\<close>

definition upd_where :: "('r \<Rightarrow> bool) \<Rightarrow> ('r \<Rightarrow> 'r) \<Rightarrow> 'r list \<Rightarrow> 'r list" where
  "upd_where P g rs = map (\<lambda>r. if P r then g r else r) rs"

definition n_where :: "('r \<Rightarrow> bool) \<Rightarrow> 'r list \<Rightarrow> nat" where
  "n_where P rs = length (filter P rs)"

lemma upd_where_simps [simp, code]:
  "upd_where P g [] = []"
  "upd_where P g (r # rs) = (if P r then g r else r) # upd_where P g rs"
  by (simp_all add: upd_where_def)

lemma n_where_0 [table_simps]: "n_where P rs = 0 \<longleftrightarrow> (\<forall>r\<in>set rs. \<not> P r)"
  by (simp add: n_where_def filter_empty_conv)

lemma set_upd_where [table_simps]:
  "set (upd_where P g rs) = g ` {r \<in> set rs. P r} \<union> {r \<in> set rs. \<not> P r}"
  by (auto simp: upd_where_def)

lemma length_upd_where [simp]: "length (upd_where P g rs) = length rs"
  by (simp add: upd_where_def)

lemma map_upd_where:
  "(\<And>r. P r \<Longrightarrow> k (g r) = k r) \<Longrightarrow> map k (upd_where P g rs) = map k rs"
  by (simp add: upd_where_def)

lemma upd_where_none: "(\<forall>r\<in>set rs. \<not> P r) \<Longrightarrow> upd_where P g rs = rs"
  by (induction rs) auto

lemma find_mem: "find P rs = Some r \<Longrightarrow> r \<in> set rs \<and> P r"
  by (induction rs) (auto split: if_splits)

lemma find_distinct:
  "distinct (map k rs) \<Longrightarrow> r \<in> set rs \<Longrightarrow> find (\<lambda>x. k x = k r) rs = Some r"
  by (induction rs) (auto simp: rev_image_eqI)

lemma find_None_iff2: "find P rs = None \<longleftrightarrow> (\<forall>r\<in>set rs. \<not> P r)"
  by (auto simp: find_None_iff)

lemma distinct_map_filter: "distinct (map k rs) \<Longrightarrow> distinct (map k (filter P rs))"
  by (induction rs) auto

lemma key_unique:
  "distinct (map k rs) \<Longrightarrow> r \<in> set rs \<Longrightarrow> r' \<in> set rs \<Longrightarrow> k r = k r' \<Longrightarrow> r = r'"
  by (induction rs) (auto simp: rev_image_eqI)

lemma distinct_map_snoc:
  "distinct (map k (rs @ [r])) \<longleftrightarrow> distinct (map k rs) \<and> k r \<notin> k ` set rs"
  by auto

text \<open>A total over the rows of a table is the total of the totals over the rows of each owner.\<close>

lemma sum_partition:
  fixes h :: "'a \<Rightarrow> 'b::comm_monoid_add"
  assumes "distinct (map key ks)" "\<forall>x\<in>set xs. own x \<in> key ` set ks"
  shows "sum_list (map (\<lambda>k. sum_list (map h (filter (\<lambda>x. own x = key k) xs))) ks) = sum_list (map h xs)"
  using assms(2)
proof (induction xs)
  case (Cons x xs)
  have "sum_list (map (\<lambda>k. if own x = key k then h x else 0) ks) = (if own x \<in> key ` set ks then h x else 0)"
    using assms(1) by (induction ks) auto
  then have one: "sum_list (map (\<lambda>k. if own x = key k then h x else 0) ks) = h x" using Cons.prems by simp
  have "sum_list (map (\<lambda>k. sum_list (map h (filter (\<lambda>x. own x = key k) (x # xs)))) ks)
      = sum_list (map (\<lambda>k. (if own x = key k then h x else 0) + sum_list (map h (filter (\<lambda>x. own x = key k) xs))) ks)"
    by (intro arg_cong[of _ _ sum_list] map_cong) auto
  also have "\<dots> = h x + sum_list (map h xs)"
    using Cons by (simp add: sum_list_addf one)
  finally show ?case by simp
qed simp

lemma sum_sorted [simp]:
  fixes h :: "'a \<Rightarrow> 'b::comm_monoid_add"
  shows "sum_list (map h (sort_key f xs)) = sum_list (map h xs)"
  by (metis mset_map mset_sort sum_mset_sum_list)

lemma length_as_sum: "length xs = sum_list (map (\<lambda>_. 1) xs)"
  by (induction xs) auto

lemma length_filter_sum: "length (filter P xs) = sum_list (map (\<lambda>x. if P x then 1 else 0) xs)"
  by (induction xs) auto

text \<open>
  Updating the one row with key \<open>i\<close> keeps another column distinct when no other row has the
  value the update writes.
\<close>

lemma distinct_upd_key:
  assumes "distinct (map f rs)" "distinct (map k rs)"
    and "\<And>p q. p \<in> set rs \<Longrightarrow> q \<in> set rs \<Longrightarrow> f p = i \<Longrightarrow> f q \<noteq> i \<Longrightarrow> k q \<noteq> k (g p)"
  shows "distinct (map k (upd_where (\<lambda>r. f r = i) g rs))"
  using assms
proof (induction rs)
  case Nil
  then show ?case by simp
next
  case (Cons r rs)
  show ?case
  proof (cases "f r = i")
    case True
    with Cons.prems(1) have "\<forall>q\<in>set rs. f q \<noteq> i" by (auto simp: image_iff)
    then have "upd_where (\<lambda>r. f r = i) g rs = rs" by (rule upd_where_none)
    moreover have "k (g r) \<noteq> k q" if "q \<in> set rs" for q
      using Cons.prems(3)[of r q] that True \<open>\<forall>q\<in>set rs. f q \<noteq> i\<close> by force
    ultimately show ?thesis using True Cons.prems(2) by (auto simp: image_iff)
  next
    case False
    have "distinct (map k (upd_where (\<lambda>r. f r = i) g rs))"
      using Cons by simp
    moreover have "k r \<notin> k ` set (upd_where (\<lambda>r. f r = i) g rs)"
      using Cons.prems False by (auto simp: set_upd_where)
    ultimately show ?thesis using False by simp
  qed
qed

lemma distinct_upd_same:
  "distinct (map k rs) \<Longrightarrow> (\<And>r. P r \<Longrightarrow> k (g r) = k r) \<Longrightarrow> distinct (map k (upd_where P g rs))"
  by (simp add: map_upd_where)

lemma image_upd_same: "(\<And>r. P r \<Longrightarrow> k (g r) = k r) \<Longrightarrow> k ` set (upd_where P g rs) = k ` set rs"
  by (metis map_upd_where set_map)

lemma ball_upd_where:
  "(\<forall>r\<in>set (upd_where P g rs). Q r) \<longleftrightarrow> (\<forall>r\<in>set rs. if P r then Q (g r) else Q r)"
  by (auto simp: upd_where_def)

section \<open>Rotation\<close>

text \<open>\<open>slice::rotate_left(k)\<close>, which panics when \<open>k\<close> exceeds the length.\<close>

definition rotate_left :: "nat \<Rightarrow> 'a list \<Rightarrow> 'a list" where
  "rotate_left k xs = drop k xs @ take k xs"

lemma rotate_left_rotate: "k \<le> length xs \<Longrightarrow> rotate_left k xs = rotate k xs"
  by (cases "k = length xs") (simp_all add: rotate_left_def rotate_drop_take)

lemma set_rotate_left [simp]: "set (rotate_left k xs) = set xs"
  unfolding rotate_left_def set_append by (metis append_take_drop_id set_append sup_commute)

lemma length_rotate_left [simp]: "length (rotate_left k xs) = length xs"
  by (simp add: rotate_left_def)

lemma mset_rotate_left [simp]: "mset (rotate_left k xs) = mset xs"
  unfolding rotate_left_def by (metis append_take_drop_id mset_append union_commute)

section \<open>Signed 64-bit arithmetic\<close>

text \<open>
  An \<open>i64\<close> is an integer of the range \<open>[-2^63, 2^63)\<close>. The release profile
  compiles without overflow checks, so a sum or product that leaves the range wraps.
\<close>

definition in_i64 :: "int \<Rightarrow> bool" where
  "in_i64 x \<longleftrightarrow> - (2 ^ 63) \<le> x \<and> x < 2 ^ 63"

definition wrap_i64 :: "int \<Rightarrow> int" where
  "wrap_i64 x = (x + 2 ^ 63) mod 2 ^ 64 - 2 ^ 63"

lemma wrap_i64_id: "in_i64 x \<Longrightarrow> wrap_i64 x = x"
  by (simp add: in_i64_def wrap_i64_def)

lemma wrap_i64_range: "in_i64 (wrap_i64 x)"
proof -
  have "0 \<le> (x + 2 ^ 63) mod 2 ^ 64" "(x + 2 ^ 63) mod 2 ^ 64 < (2::int) ^ 64"
    by simp_all
  then show ?thesis by (simp add: in_i64_def wrap_i64_def)
qed

definition add_i64 :: "int \<Rightarrow> int \<Rightarrow> int" where
  "add_i64 a b = wrap_i64 (a + b)"

definition mul_i64 :: "int \<Rightarrow> int \<Rightarrow> int" where
  "mul_i64 a b = wrap_i64 (a * b)"

section \<open>Floating-point values as keys\<close>

text \<open>
  A finite \<open>f64\<close> is a rational (a dyadic one); comparisons of \<open>f64\<close> are exact, so
  rationals, the two infinities and NaN model them without rounding. \<open>f64_le\<close> is the
  IEEE comparison \<open><=\<close>, false as soon as one side is NaN.
\<close>

datatype f64 = FNaN | FNegInf | FFin rat | FPosInf

fun f64_le :: "f64 \<Rightarrow> f64 \<Rightarrow> bool" where
  "f64_le FNaN _ = False"
| "f64_le _ FNaN = False"
| "f64_le FNegInf _ = True"
| "f64_le _ FPosInf = True"
| "f64_le (FFin a) (FFin b) = (a \<le> b)"
| "f64_le _ _ = False"

text \<open>\<open>f64::max(x, 0.0)\<close>: a NaN argument is ignored.\<close>

definition f64_max0 :: "f64 \<Rightarrow> f64" where
  "f64_max0 x = (if f64_le (FFin 0) x then x else FFin 0)"

lemma f64_max0_nonneg [simp]: "f64_le (FFin 0) (f64_max0 x)"
  by (simp add: f64_max0_def)

lemma f64_max0_not_nan [simp]: "f64_max0 x \<noteq> FNaN"
  by (cases x) (auto simp: f64_max0_def)

text \<open>
  A linear order on \<open>f64\<close> so that the library's stable sort can use it as a key. On
  values other than NaN it is the IEEE comparison (\<open>f64_le_less_eq\<close>), which is what
  \<open>partial_cmp\<close> returns there; NaN is put below everything.
\<close>

instantiation f64 :: linorder
begin

fun less_eq_f64 :: "f64 \<Rightarrow> f64 \<Rightarrow> bool" where
  "less_eq_f64 FNaN _ = True"
| "less_eq_f64 _ FNaN = False"
| "less_eq_f64 FNegInf _ = True"
| "less_eq_f64 _ FPosInf = True"
| "less_eq_f64 (FFin a) (FFin b) = (a \<le> b)"
| "less_eq_f64 _ _ = False"

definition less_f64 :: "f64 \<Rightarrow> f64 \<Rightarrow> bool" where
  "less_f64 a b \<longleftrightarrow> a \<le> b \<and> \<not> b \<le> (a::f64)"

instance
proof
  fix x y z :: f64
  show "x < y \<longleftrightarrow> x \<le> y \<and> \<not> y \<le> x" by (simp add: less_f64_def)
  show "x \<le> x" by (cases x) auto
  show "x \<le> y \<Longrightarrow> y \<le> z \<Longrightarrow> x \<le> z" by (cases x; cases y; cases z) auto
  show "x \<le> y \<Longrightarrow> y \<le> x \<Longrightarrow> x = y" by (cases x; cases y) auto
  show "x \<le> y \<or> y \<le> x" by (cases x; cases y) auto
qed

end

lemma f64_le_less_eq: "x \<noteq> FNaN \<Longrightarrow> y \<noteq> FNaN \<Longrightarrow> f64_le x y \<longleftrightarrow> x \<le> y"
  by (cases x; cases y) auto

section \<open>Shared contracts\<close>

text \<open>
  A tag codec stores a value of an enumeration as a short text and reads it back. What
  the reader does with unknown texts is its own business; the contract is that what was
  written is read back.
\<close>

locale tag_codec =
  fixes enc :: "'a \<Rightarrow> string" and dec :: "string \<Rightarrow> 'a option"
  assumes dec_enc: "dec (enc x) = Some x"
begin

lemma enc_inj: "enc x = enc y \<longleftrightarrow> x = y"
  by (metis dec_enc option.inject)

lemma dec_total_on_range: "t \<in> range enc \<Longrightarrow> \<exists>x. dec t = Some x \<and> enc x = t"
  using dec_enc by auto

end

text \<open>A codec whose writer covers every text the reader accepts is a bijection onto them.\<close>

locale exact_tag_codec = tag_codec +
  assumes enc_dec: "dec t = Some x \<Longrightarrow> enc x = t"
begin

lemma dec_Some_iff: "dec t = Some x \<longleftrightarrow> t = enc x"
  using dec_enc enc_dec by auto

lemma dec_None_iff: "dec t = None \<longleftrightarrow> t \<notin> range enc"
  using dec_Some_iff by (metis not_None_eq rangeE rangeI)

end

text \<open>
  A component with a state: what its operations do to the state and an invariant that
  every operation keeps, whatever it returns.
\<close>

locale invariant_machine =
  fixes step :: "'op \<Rightarrow> 's \<Rightarrow> 's" and inv :: "'s \<Rightarrow> bool"
  assumes step_inv: "inv s \<Longrightarrow> inv (step op s)"
begin

lemma run_inv: "inv s \<Longrightarrow> inv (fold step ops s)"
  by (induction ops arbitrary: s) (auto simp: step_inv)

lemma run_prefix_inv: "inv s \<Longrightarrow> inv (fold step (take n ops) s)"
  by (rule run_inv)

end

text \<open>
  A decoder that is fed bytes and hands back the items completed so far. The law says
  that feeding two chunks is feeding their concatenation.
\<close>

definition feed_all ::
  "('s \<Rightarrow> 'b list \<Rightarrow> 'f list \<times> 's) \<Rightarrow> 's \<Rightarrow> 'b list list \<Rightarrow> 'f list \<times> 's" where
  "feed_all feed s cs = fold (\<lambda>c (fs, t). let (gs, u) = feed t c in (fs @ gs, u)) cs ([], s)"

locale chunked_decoder =
  fixes feed :: "'s \<Rightarrow> 'b list \<Rightarrow> 'f list \<times> 's"
  assumes feed_append:
    "feed s (a @ b) = (let (f1, s1) = feed s a; (f2, s2) = feed s1 b in (f1 @ f2, s2))"
    and feed_idle: "feed (snd (feed s a)) [] = ([], snd (feed s a))"
begin

lemma fold_feed:
  "fold (\<lambda>c (fs, t). let (gs, u) = feed t c in (fs @ gs, u)) cs (fs0, snd (feed s a)) =
   (let (gs, u) = feed (snd (feed s a)) (concat cs) in (fs0 @ gs, u))"
proof (induction cs arbitrary: fs0 a)
  case Nil
  then show ?case by (simp add: feed_idle)
next
  case (Cons c cs)
  obtain f1 s1 where 1: "feed (snd (feed s a)) c = (f1, s1)" by fastforce
  have s1: "s1 = snd (feed s (a @ c))"
    using 1 by (auto simp: feed_append Let_def split_beta)
  show ?case
    using Cons.IH[of "fs0 @ f1" "a @ c"] 1
    by (simp add: s1[symmetric] feed_append Let_def split_beta)
qed

lemma feed_all_concat:
  "cs \<noteq> [] \<Longrightarrow> feed_all feed s cs = feed s (concat cs)"
proof (cases cs)
  case (Cons c cs')
  obtain f1 s1 where 1: "feed s c = (f1, s1)" by fastforce
  show ?thesis
    using fold_feed[of cs' f1 s c] 1
    by (simp add: Cons feed_all_def feed_append Let_def split_beta)
qed simp

lemma feed_all_chunking:
  "cs \<noteq> [] \<Longrightarrow> ds \<noteq> [] \<Longrightarrow> concat cs = concat ds \<Longrightarrow> feed_all feed s cs = feed_all feed s ds"
  by (simp add: feed_all_concat)

end

end
