(* ===== verification/Domain.thy ===== *)
theory Domain
  imports Rust_Text
begin

text \<open>
  The domain model (\<open>src/domain/model.rs\<close>): the enumerations, the records of the
  entities, and the pure functions on them. Identifiers and instants are \<open>i64\<close> values,
  read as integers. Record fields carry a short prefix of their type's name.
\<close>

section \<open>Enumerations\<close>

datatype provider_kind = OpenAI | Anthropic | Google | OpenAIResponses | Custom

datatype routing_strategy = Priority | RoundRobin | Weighted | Economy

datatype prompt_cache_policy = Auto | Off

datatype model_status = Healthy | Degraded | Unhealthy | Disabled

text \<open>\<open>PromptCachePolicy::default\<close>, \<open>tag\<close>, \<open>from_tag\<close> and \<open>enabled\<close>\<close>

definition default_policy :: prompt_cache_policy where
  "default_policy = Auto"

fun policy_tag :: "prompt_cache_policy \<Rightarrow> string" where
  "policy_tag Auto = ''auto''"
| "policy_tag Off = ''off''"

definition policy_from_tag :: "string \<Rightarrow> prompt_cache_policy" where
  "policy_from_tag t = (if t = ''off'' then Off else Auto)"

definition policy_enabled :: "prompt_cache_policy \<Rightarrow> bool" where
  "policy_enabled p \<longleftrightarrow> p = Auto"

interpretation policy_codec: tag_codec policy_tag "\<lambda>t. Some (policy_from_tag t)"
proof
  show "Some (policy_from_tag (policy_tag p)) = Some p" for p
    by (cases p) (simp_all add: policy_from_tag_def)
qed

section \<open>Entities\<close>

record profile =
  pf_id :: string
  pf_name :: string
  pf_description :: "string option"
  pf_password_hash :: "string option"
  pf_created_at :: int
  pf_updated_at :: int
  pf_rpm_limit :: int
  pf_default_mask :: "int option"

record masking_server =
  mk_id :: int
  mk_profile_id :: string
  mk_name :: string
  mk_kind :: string
  mk_endpoint_url :: string
  mk_secret :: string
  mk_max_body_bytes :: int
  mk_expected_egress_ip :: "string option"
  mk_verified_ip :: "string option"
  mk_verified_asn :: "string option"
  mk_verified_country :: "string option"
  mk_verified_at :: "int option"
  mk_shared :: bool

record provider =
  pv_id :: int
  pv_profile_id :: string
  pv_name :: string
  pv_description :: "string option"
  pv_base_url :: string
  pv_auth_token :: string
  pv_kind :: provider_kind
  pv_extra_headers :: "(string \<times> string) list"
  pv_mask_id :: "int option"
  pv_mask :: "masking_server option"
  pv_shared :: bool

record proxy =
  px_id :: int
  px_profile_id :: string
  px_name :: string
  px_description :: "string option"

record route =
  rt_id :: int
  rt_proxy_id :: int
  rt_name :: string
  rt_description :: "string option"
  rt_strategy :: routing_strategy
  rt_identity :: "string option"
  rt_max_tokens :: nat
  rt_cache_ttl_secs :: int
  rt_shared :: bool
  rt_prompt_cache :: prompt_cache_policy

record route_capabilities =
  cap_tools :: bool
  cap_vision :: bool
  cap_json_mode :: bool
  cap_max_context :: "nat option"

definition default_caps :: route_capabilities where
  "default_caps = \<lparr>cap_tools = False, cap_vision = False, cap_json_mode = False, cap_max_context = None\<rparr>"

record route_entry =
  re_id :: int
  re_route_id :: int
  re_provider_id :: "int option"
  re_target_route_id :: "int option"
  re_model_id :: string
  re_priority :: int
  re_weight :: f64
  re_status :: model_status
  re_capabilities :: route_capabilities
  re_price_per_1m :: f64
  re_cooldown_until :: int

definition is_nested :: "route_entry \<Rightarrow> bool" where
  "is_nested e \<longleftrightarrow> re_target_route_id e \<noteq> None"

record usage_record =
  us_id :: int
  us_profile_id :: string
  us_entry_id :: int
  us_model_id :: string
  us_streamed :: bool
  us_success :: bool
  us_status_code :: "int option"
  us_error_message :: "string option"
  us_latency_ms :: int
  us_prompt_tokens :: "int option"
  us_completion_tokens :: "int option"
  us_cached_prompt_tokens :: "int option"
  us_created_at :: int

section \<open>Capabilities\<close>

definition NON_CHAT_MODEL_MARKERS :: "string list" where
  "NON_CHAT_MODEL_MARKERS =
     [''embed'', ''rerank'', ''whisper'', ''tts'', ''-audio'', ''audio-'', ''dall-e'', ''dalle'',
      ''stable-diffusion'', ''imagen'', ''moderation'', ''text-davinci'', ''babbage'', ''curie'',
      ''bge-'', ''/bge'', ''e5-'']"

definition infer_from_model_id :: "string \<Rightarrow> route_capabilities" where
  "infer_from_model_id m =
     (let lower = ascii_lower m;
          utility = list_ex (\<lambda>k. contains lower k) NON_CHAT_MODEL_MARKERS
      in \<lparr>cap_tools = \<not> utility, cap_vision = \<not> utility, cap_json_mode = \<not> utility,
          cap_max_context = None\<rparr>)"

fun max_context_or :: "nat option \<Rightarrow> nat option \<Rightarrow> nat option" where
  "max_context_or (Some a) (Some b) = Some (max a b)"
| "max_context_or None b = b"
| "max_context_or a None = a"

definition caps_join :: "route_capabilities \<Rightarrow> route_capabilities \<Rightarrow> route_capabilities" where
  "caps_join a c =
     \<lparr>cap_tools = (cap_tools a \<or> cap_tools c),
      cap_vision = (cap_vision a \<or> cap_vision c),
      cap_json_mode = (cap_json_mode a \<or> cap_json_mode c),
      cap_max_context = max_context_or (cap_max_context a) (cap_max_context c)\<rparr>"

definition caps_union :: "route_capabilities list \<Rightarrow> route_capabilities" where
  "caps_union cs = fold (\<lambda>c acc. caps_join acc c) cs default_caps"

lemma infer_all_or_nothing:
  "cap_tools (infer_from_model_id m) = cap_vision (infer_from_model_id m) \<and>
   cap_json_mode (infer_from_model_id m) = cap_vision (infer_from_model_id m)"
  by (simp add: infer_from_model_id_def Let_def)

lemma fold_caps_flags:
  "cap_tools (fold (\<lambda>c acc. caps_join acc c) cs a) \<longleftrightarrow> cap_tools a \<or> (\<exists>c\<in>set cs. cap_tools c)"
  "cap_vision (fold (\<lambda>c acc. caps_join acc c) cs a) \<longleftrightarrow> cap_vision a \<or> (\<exists>c\<in>set cs. cap_vision c)"
  "cap_json_mode (fold (\<lambda>c acc. caps_join acc c) cs a) \<longleftrightarrow> cap_json_mode a \<or> (\<exists>c\<in>set cs. cap_json_mode c)"
  by (induction cs arbitrary: a) (auto simp: caps_join_def)

lemma caps_union_flags:
  "cap_tools (caps_union cs) \<longleftrightarrow> (\<exists>c\<in>set cs. cap_tools c)"
  "cap_vision (caps_union cs) \<longleftrightarrow> (\<exists>c\<in>set cs. cap_vision c)"
  "cap_json_mode (caps_union cs) \<longleftrightarrow> (\<exists>c\<in>set cs. cap_json_mode c)"
  by (simp_all add: caps_union_def fold_caps_flags default_caps_def)

lemma max_context_or_None [simp]: "max_context_or a None = a"
  by (cases a) auto

lemma max_context_or_eq_None: "max_context_or a b = None \<longleftrightarrow> a = None \<and> b = None"
  by (cases a; cases b) auto

lemma fold_caps_context_upper:
  "c \<in> set cs \<Longrightarrow> cap_max_context c = Some n \<Longrightarrow>
   \<exists>m. cap_max_context (fold (\<lambda>c acc. caps_join acc c) cs a) = Some m \<and> n \<le> m"
proof (induction cs arbitrary: a rule: rev_induct)
  case Nil
  then show ?case by simp
next
  case (snoc d ds)
  show ?case
  proof (cases "c = d")
    case True
    with snoc.prems show ?thesis
      by (cases "cap_max_context (fold (\<lambda>c acc. caps_join acc c) ds a)")
         (auto simp: caps_join_def)
  next
    case False
    with snoc.prems have "c \<in> set ds" by simp
    from snoc.IH[OF this snoc.prems(2)] obtain m where
      "cap_max_context (fold (\<lambda>c acc. caps_join acc c) ds a) = Some m" "n \<le> m" by blast
    then show ?thesis
      by (cases "cap_max_context d") (auto simp: caps_join_def)
  qed
qed

lemma fold_caps_context_attained:
  "cap_max_context (fold (\<lambda>c acc. caps_join acc c) cs a) = Some m \<Longrightarrow>
   cap_max_context a = Some m \<or> (\<exists>c\<in>set cs. cap_max_context c = Some m)"
proof (induction cs rule: rev_induct)
  case Nil
  then show ?case by simp
next
  case (snoc d ds)
  then show ?case
    by (cases "cap_max_context (fold (\<lambda>c acc. caps_join acc c) ds a)"; cases "cap_max_context d")
       (auto simp: caps_join_def max_def split: if_splits)
qed

end
