(* ===== verification/Crypto.thy ===== *)
theory Crypto
  imports Rust_Text
begin

text \<open>
  Secrets at rest (\<open>src/crypto/mod.rs\<close>). ChaCha20-Poly1305 itself belongs to a library
  and is a parameter: a record of its \<open>seal\<close> and \<open>unseal\<close> functions over key, nonce and
  bytes. The documented law used of it is \<open>aead_correct\<close>: unsealing what was sealed with
  the same key and nonce gives the plaintext back. Random bytes are arguments.
\<close>

type_synonym bytes = "char list"

definition MASTER_KEY_LEN :: nat where
  "MASTER_KEY_LEN = 32"

definition NONCE_LEN :: nat where
  "NONCE_LEN = 12"

record aead =
  seal :: "bytes \<Rightarrow> bytes \<Rightarrow> bytes \<Rightarrow> bytes"
  unseal :: "bytes \<Rightarrow> bytes \<Rightarrow> bytes \<Rightarrow> bytes option"

datatype crypto_error = Bad_Key_Length | Ciphertext_Too_Short | Decryption_Failed | Invalid_Utf8

text \<open>The well-formed byte sequences of UTF-8, as \<open>String::from_utf8\<close> accepts them.\<close>

definition cont :: "nat \<Rightarrow> bool" where
  "cont b \<longleftrightarrow> 128 \<le> b \<and> b \<le> 191"

fun utf8 :: "nat list \<Rightarrow> bool" where
  "utf8 [] = True"
| "utf8 (a # bs) =
     (if a < 128 then utf8 bs
      else if 194 \<le> a \<and> a \<le> 223 then (case bs of b # r \<Rightarrow> cont b \<and> utf8 r | _ \<Rightarrow> False)
      else if 224 \<le> a \<and> a \<le> 239 then
        (case bs of b # c # r \<Rightarrow>
           cont b \<and> cont c \<and> (a = 224 \<longrightarrow> 160 \<le> b) \<and> (a = 237 \<longrightarrow> b \<le> 159) \<and> utf8 r
         | _ \<Rightarrow> False)
      else if 240 \<le> a \<and> a \<le> 244 then
        (case bs of b # c # d # r \<Rightarrow>
           cont b \<and> cont c \<and> cont d \<and> (a = 240 \<longrightarrow> 144 \<le> b) \<and> (a = 244 \<longrightarrow> b \<le> 143) \<and> utf8 r
         | _ \<Rightarrow> False)
      else False)"

definition valid_utf8 :: "bytes \<Rightarrow> bool" where
  "valid_utf8 s \<longleftrightarrow> utf8 (map code s)"

lemma valid_utf8_ascii: "(\<forall>c\<in>set s. code c < 128) \<Longrightarrow> valid_utf8 s"
  unfolding valid_utf8_def by (induction s) auto

text \<open>\<open>MasterKey::from_bytes\<close>\<close>

definition key_from_bytes :: "bytes \<Rightarrow> crypto_error + bytes" where
  "key_from_bytes b = (if length b = MASTER_KEY_LEN then Inr b else Inl Bad_Key_Length)"

definition encrypt :: "aead \<Rightarrow> bytes \<Rightarrow> bytes \<Rightarrow> bytes \<Rightarrow> bytes" where
  "encrypt a key nonce plaintext = nonce @ seal a key nonce plaintext"

definition decrypt :: "aead \<Rightarrow> bytes \<Rightarrow> bytes \<Rightarrow> crypto_error + bytes" where
  "decrypt a key ciphertext =
     (if length ciphertext < NONCE_LEN then Inl Ciphertext_Too_Short
      else (case unseal a key (take NONCE_LEN ciphertext) (drop NONCE_LEN ciphertext) of
              None \<Rightarrow> Inl Decryption_Failed
            | Some p \<Rightarrow> if valid_utf8 p then Inr p else Inl Invalid_Utf8))"

definition aead_correct :: "aead \<Rightarrow> bool" where
  "aead_correct a \<longleftrightarrow>
     (\<forall>k n p. length k = MASTER_KEY_LEN \<longrightarrow> length n = NONCE_LEN \<longrightarrow> unseal a k n (seal a k n p) = Some p)"

lemma decrypt_encrypt:
  assumes "aead_correct a" "length k = MASTER_KEY_LEN" "length n = NONCE_LEN" "valid_utf8 p"
  shows "decrypt a k (encrypt a k n p) = Inr p"
  using assms by (simp add: decrypt_def encrypt_def aead_correct_def)

text \<open>
  A concrete cipher that satisfies the law, for witnesses: it appends the key as a tag and
  refuses a ciphertext whose tag is another key. It is no model of ChaCha20-Poly1305.
\<close>

definition tagging_aead :: aead where
  "tagging_aead =
     \<lparr>seal = (\<lambda>k n p. p @ k),
      unseal = (\<lambda>k n c. if suffix k c then Some (take (length c - length k) c) else None)\<rparr>"

lemma tagging_aead_correct: "aead_correct tagging_aead"
  by (simp add: aead_correct_def tagging_aead_def suffix_def)

text \<open>The cipher and the key a store works with.\<close>

record cipher =
  ci_aead :: aead
  ci_key :: bytes

definition cipher_ok :: "cipher \<Rightarrow> bool" where
  "cipher_ok c \<longleftrightarrow> aead_correct (ci_aead c) \<and> length (ci_key c) = MASTER_KEY_LEN"

definition tagging_cipher :: cipher where
  "tagging_cipher = \<lparr>ci_aead = tagging_aead, ci_key = replicate 32 (CHR ''k'')\<rparr>"

lemma tagging_cipher_ok: "cipher_ok tagging_cipher"
  by (simp add: cipher_ok_def tagging_cipher_def tagging_aead_correct MASTER_KEY_LEN_def)

end
