(* ===== verification/Store_Schema.thy ===== *)
theory Store_Schema
  imports Domain Crypto
begin

text \<open>
  The tables behind the store (\<open>src/storage/schema.rs\<close>) and what their constraints do.
  A table is the list of its rows in insertion order; \<open>AUTOINCREMENT\<close> keys come from a
  counter that never goes back. A column that holds a tag holds its text; a column that
  holds JSON holds \<open>Some\<close> of the value the text parses to, or \<open>None\<close> for a text that does
  not parse. Foreign keys are enforced (\<open>PRAGMA foreign_keys = ON\<close>): a deletion cascades
  or sets null as the column declares, everything else is refused.
\<close>

section \<open>Enumerations as tags\<close>

fun provider_kind_tag :: "provider_kind \<Rightarrow> string" where
  "provider_kind_tag OpenAI = ''openai''"
| "provider_kind_tag Anthropic = ''anthropic''"
| "provider_kind_tag Google = ''google''"
| "provider_kind_tag OpenAIResponses = ''openai_responses''"
| "provider_kind_tag Custom = ''custom''"

definition provider_kind_from_tag :: "string \<Rightarrow> provider_kind option" where
  "provider_kind_from_tag t =
     (if t = ''openai'' then Some OpenAI
      else if t = ''anthropic'' then Some Anthropic
      else if t = ''google'' then Some Google
      else if t = ''openai_responses'' then Some OpenAIResponses
      else if t = ''custom'' then Some Custom
      else None)"

fun strategy_tag :: "routing_strategy \<Rightarrow> string" where
  "strategy_tag Priority = ''priority''"
| "strategy_tag RoundRobin = ''round_robin''"
| "strategy_tag Weighted = ''weighted''"
| "strategy_tag Economy = ''economy''"

definition strategy_from_tag :: "string \<Rightarrow> routing_strategy option" where
  "strategy_from_tag t =
     (if t = ''priority'' then Some Priority
      else if t = ''round_robin'' then Some RoundRobin
      else if t = ''weighted'' then Some Weighted
      else if t = ''economy'' then Some Economy
      else None)"

fun status_tag :: "model_status \<Rightarrow> string" where
  "status_tag Healthy = ''healthy''"
| "status_tag Degraded = ''degraded''"
| "status_tag Unhealthy = ''unhealthy''"
| "status_tag Disabled = ''disabled''"

text \<open>The deprecated tag \<open>draining\<close> and every unknown tag read as \<open>Unhealthy\<close>.\<close>

definition status_from_tag :: "string \<Rightarrow> model_status" where
  "status_from_tag t =
     (if t = ''healthy'' then Healthy
      else if t = ''degraded'' then Degraded
      else if t = ''unhealthy'' then Unhealthy
      else if t = ''disabled'' then Disabled
      else Unhealthy)"

interpretation kind_codec: exact_tag_codec provider_kind_tag provider_kind_from_tag
proof
  show "provider_kind_from_tag (provider_kind_tag k) = Some k" for k
    by (cases k) (simp_all add: provider_kind_from_tag_def)
  show "provider_kind_tag k = t" if "provider_kind_from_tag t = Some k" for t k
    using that by (auto simp: provider_kind_from_tag_def split: if_splits)
qed

interpretation strategy_codec: exact_tag_codec strategy_tag strategy_from_tag
proof
  show "strategy_from_tag (strategy_tag s) = Some s" for s
    by (cases s) (simp_all add: strategy_from_tag_def)
  show "strategy_tag s = t" if "strategy_from_tag t = Some s" for t s
    using that by (auto simp: strategy_from_tag_def split: if_splits)
qed

interpretation status_codec: tag_codec status_tag "\<lambda>t. Some (status_from_tag t)"
proof
  show "Some (status_from_tag (status_tag s)) = Some s" for s
    by (cases s) (simp_all add: status_from_tag_def)
qed

lemma status_roundtrip [simp]: "status_from_tag (status_tag s) = s"
  using status_codec.dec_enc by simp

lemma strategy_roundtrip [simp]: "strategy_from_tag (strategy_tag s) = Some s"
  by (rule strategy_codec.dec_enc)

lemma kind_roundtrip [simp]: "provider_kind_from_tag (provider_kind_tag k) = Some k"
  by (rule kind_codec.dec_enc)

section \<open>Rows\<close>

record provider_row =
  pr_id :: int
  pr_profile_id :: string
  pr_name :: string
  pr_description :: "string option"
  pr_base_url :: string
  pr_enc_token :: bytes
  pr_kind_tag :: string
  pr_extra :: "(string \<times> string) list option"
  pr_mask_id :: "int option"
  pr_shared :: bool

record mask_row =
  mr_id :: int
  mr_profile_id :: string
  mr_name :: string
  mr_kind :: string
  mr_endpoint_url :: string
  mr_enc_secret :: bytes
  mr_max_body_bytes :: int
  mr_expected_egress_ip :: "string option"
  mr_verified_ip :: "string option"
  mr_verified_asn :: "string option"
  mr_verified_country :: "string option"
  mr_verified_at :: "int option"
  mr_shared :: bool

record route_row =
  ro_id :: int
  ro_proxy_id :: int
  ro_name :: string
  ro_description :: "string option"
  ro_strategy :: string
  ro_identity :: "string option"
  ro_max_tokens :: int
  ro_cache_ttl_secs :: int
  ro_shared :: bool
  ro_prompt_cache :: string

record entry_row =
  en_id :: int
  en_route_id :: int
  en_provider_id :: "int option"
  en_target_route_id :: "int option"
  en_model_id :: string
  en_priority :: int
  en_weight :: f64
  en_status :: string
  en_capabilities :: "route_capabilities option"
  en_price_per_1m :: f64
  en_cooldown_until :: int

record cache_row =
  ca_route_id :: int
  ca_req_hash :: string
  ca_resp :: bytes
  ca_prompt_tokens :: "int option"
  ca_completion_tokens :: "int option"
  ca_created_at :: int
  ca_expires_at :: int

record db =
  db_master_key :: "bytes option"
  profiles :: "profile list"
  providers :: "provider_row list"
  masks :: "mask_row list"
  proxies :: "proxy list"
  routes :: "route_row list"
  entries :: "entry_row list"
  usage :: "usage_record list"
  cache :: "cache_row list"
  seq_providers :: int
  seq_masks :: int
  seq_proxies :: int
  seq_routes :: int
  seq_entries :: int
  seq_usage :: int

definition empty_db :: db where
  "empty_db = \<lparr>db_master_key = None, profiles = [], providers = [], masks = [], proxies = [],
     routes = [], entries = [], usage = [], cache = [], seq_providers = 0, seq_masks = 0,
     seq_proxies = 0, seq_routes = 0, seq_entries = 0, seq_usage = 0\<rparr>"

section \<open>Keys\<close>

definition profile_ids :: "db \<Rightarrow> string set" where
  "profile_ids d = pf_id ` set (profiles d)"

definition provider_ids :: "db \<Rightarrow> int set" where
  "provider_ids d = pr_id ` set (providers d)"

definition mask_ids :: "db \<Rightarrow> int set" where
  "mask_ids d = mr_id ` set (masks d)"

definition proxy_ids :: "db \<Rightarrow> int set" where
  "proxy_ids d = px_id ` set (proxies d)"

definition route_ids :: "db \<Rightarrow> int set" where
  "route_ids d = ro_id ` set (routes d)"

definition entry_ids :: "db \<Rightarrow> int set" where
  "entry_ids d = en_id ` set (entries d)"

lemmas id_sets = profile_ids_def provider_ids_def mask_ids_def proxy_ids_def route_ids_def entry_ids_def

text \<open>A nullable reference is fine when it is null or its row exists.\<close>

fun ref_ok :: "'k option \<Rightarrow> 'k set \<Rightarrow> bool" where
  "ref_ok None S = True"
| "ref_ok (Some k) S = (k \<in> S)"

lemma ref_ok_iff: "ref_ok x S \<longleftrightarrow> (\<forall>k. x = Some k \<longrightarrow> k \<in> S)"
  by (cases x) auto

text \<open>Whether a nullable reference points at one of some deleted keys.\<close>

definition refers_to :: "'k option \<Rightarrow> 'k list \<Rightarrow> bool" where
  "refers_to m gone = (case m of None \<Rightarrow> False | Some k \<Rightarrow> k \<in> set gone)"

lemma refers_to_iff: "refers_to m gone \<longleftrightarrow> (\<exists>k. m = Some k \<and> k \<in> set gone)"
  by (simp add: refers_to_def split: option.split)

text \<open>The CHECK of \<open>route_entries\<close>: exactly one target kind per entry.\<close>

definition one_target :: "int option \<Rightarrow> int option \<Rightarrow> bool" where
  "one_target p t \<longleftrightarrow> (p \<noteq> None \<and> t = None) \<or> (p = None \<and> t \<noteq> None)"

section \<open>Cascading deletions\<close>

definition del_entries :: "(entry_row \<Rightarrow> bool) \<Rightarrow> db \<Rightarrow> db" where
  "del_entries P d =
     (let gone = map en_id (filter P (entries d))
      in d\<lparr>entries := filter (\<lambda>e. \<not> P e) (entries d),
           usage := filter (\<lambda>u. us_entry_id u \<notin> set gone) (usage d)\<rparr>)"

definition del_routes :: "(route_row \<Rightarrow> bool) \<Rightarrow> db \<Rightarrow> db" where
  "del_routes P d =
     (let gone = map ro_id (filter P (routes d))
      in del_entries
           (\<lambda>e. en_route_id e \<in> set gone \<or> refers_to (en_target_route_id e) gone)
           (d\<lparr>routes := filter (\<lambda>r. \<not> P r) (routes d),
              cache := filter (\<lambda>c. ca_route_id c \<notin> set gone) (cache d)\<rparr>))"

definition del_proxies :: "(proxy \<Rightarrow> bool) \<Rightarrow> db \<Rightarrow> db" where
  "del_proxies P d =
     (let gone = map px_id (filter P (proxies d))
      in del_routes (\<lambda>r. ro_proxy_id r \<in> set gone)
           (d\<lparr>proxies := filter (\<lambda>p. \<not> P p) (proxies d)\<rparr>))"

definition del_providers :: "(provider_row \<Rightarrow> bool) \<Rightarrow> db \<Rightarrow> db" where
  "del_providers P d =
     (let gone = map pr_id (filter P (providers d))
      in del_entries
           (\<lambda>e. refers_to (en_provider_id e) gone)
           (d\<lparr>providers := filter (\<lambda>p. \<not> P p) (providers d)\<rparr>))"

text \<open>\<open>ON DELETE SET NULL\<close>: a deleted mask is unbound, its users stay.\<close>

definition unbind :: "int list \<Rightarrow> int option \<Rightarrow> int option" where
  "unbind gone m = (case m of None \<Rightarrow> None | Some k \<Rightarrow> if k \<in> set gone then None else Some k)"

definition del_masks :: "(mask_row \<Rightarrow> bool) \<Rightarrow> db \<Rightarrow> db" where
  "del_masks P d =
     (let gone = map mr_id (filter P (masks d))
      in d\<lparr>masks := filter (\<lambda>m. \<not> P m) (masks d),
           providers := map (\<lambda>p. p\<lparr>pr_mask_id := unbind gone (pr_mask_id p)\<rparr>) (providers d),
           profiles := map (\<lambda>p. p\<lparr>pf_default_mask := unbind gone (pf_default_mask p)\<rparr>) (profiles d)\<rparr>)"

definition del_profiles :: "(profile \<Rightarrow> bool) \<Rightarrow> db \<Rightarrow> db" where
  "del_profiles P d =
     (let gone = map pf_id (filter P (profiles d))
      in del_proxies (\<lambda>p. px_profile_id p \<in> set gone)
           (del_masks (\<lambda>m. mr_profile_id m \<in> set gone)
             (del_providers (\<lambda>p. pr_profile_id p \<in> set gone)
               (d\<lparr>profiles := filter (\<lambda>p. \<not> P p) (profiles d)\<rparr>))))"

section \<open>The integrity invariant\<close>

text \<open>Every foreign key points at a row that exists.\<close>

definition refs_ok :: "db \<Rightarrow> bool" where
  "refs_ok d \<longleftrightarrow>
     (\<forall>p\<in>set (profiles d). ref_ok (pf_default_mask p) (mask_ids d)) \<and>
     (\<forall>p\<in>set (providers d). pr_profile_id p \<in> profile_ids d \<and> ref_ok (pr_mask_id p) (mask_ids d)) \<and>
     (\<forall>m\<in>set (masks d). mr_profile_id m \<in> profile_ids d) \<and>
     (\<forall>p\<in>set (proxies d). px_profile_id p \<in> profile_ids d) \<and>
     (\<forall>r\<in>set (routes d). ro_proxy_id r \<in> proxy_ids d) \<and>
     (\<forall>e\<in>set (entries d). en_route_id e \<in> route_ids d
        \<and> ref_ok (en_provider_id e) (provider_ids d) \<and> ref_ok (en_target_route_id e) (route_ids d)) \<and>
     (\<forall>u\<in>set (usage d). us_entry_id u \<in> entry_ids d) \<and>
     (\<forall>c\<in>set (cache d). ca_route_id c \<in> route_ids d)"

text \<open>Primary keys, unique indices and the counters behind AUTOINCREMENT.\<close>

definition keys_ok :: "db \<Rightarrow> bool" where
  "keys_ok d \<longleftrightarrow>
     distinct (map pf_id (profiles d)) \<and> distinct (map pf_name (profiles d)) \<and>
     distinct (map pr_id (providers d)) \<and> distinct (map (\<lambda>p. (pr_profile_id p, pr_name p)) (providers d)) \<and>
     distinct (map mr_id (masks d)) \<and> distinct (map (\<lambda>m. (mr_profile_id m, mr_name m)) (masks d)) \<and>
     distinct (map px_id (proxies d)) \<and> distinct (map (\<lambda>p. (px_profile_id p, px_name p)) (proxies d)) \<and>
     distinct (map ro_id (routes d)) \<and> distinct (map (\<lambda>r. (ro_proxy_id r, ro_name r)) (routes d)) \<and>
     distinct (map en_id (entries d)) \<and> distinct (map us_id (usage d)) \<and>
     distinct (map (\<lambda>c. (ca_route_id c, ca_req_hash c)) (cache d))"

definition seq_ok :: "db \<Rightarrow> bool" where
  "seq_ok d \<longleftrightarrow>
     (\<forall>p\<in>set (providers d). pr_id p \<le> seq_providers d) \<and>
     (\<forall>m\<in>set (masks d). mr_id m \<le> seq_masks d) \<and>
     (\<forall>p\<in>set (proxies d). px_id p \<le> seq_proxies d) \<and>
     (\<forall>r\<in>set (routes d). ro_id r \<le> seq_routes d) \<and>
     (\<forall>e\<in>set (entries d). en_id e \<le> seq_entries d) \<and>
     (\<forall>u\<in>set (usage d). us_id u \<le> seq_usage d)"

text \<open>The CHECK constraint, and that every tag and JSON column is one the readers accept.\<close>

definition columns_ok :: "db \<Rightarrow> bool" where
  "columns_ok d \<longleftrightarrow>
     (\<forall>e\<in>set (entries d). one_target (en_provider_id e) (en_target_route_id e)
        \<and> en_capabilities e \<noteq> None \<and> en_weight e \<noteq> FNaN) \<and>
     (\<forall>r\<in>set (routes d). strategy_from_tag (ro_strategy r) \<noteq> None) \<and>
     (\<forall>p\<in>set (providers d). provider_kind_from_tag (pr_kind_tag p) \<noteq> None \<and> pr_extra p \<noteq> None)"

definition db_ok :: "db \<Rightarrow> bool" where
  "db_ok d \<longleftrightarrow> refs_ok d \<and> keys_ok d \<and> seq_ok d \<and> columns_ok d"

lemma empty_db_ok: "db_ok empty_db"
  by (simp add: db_ok_def refs_ok_def keys_ok_def seq_ok_def columns_ok_def empty_db_def)

end
