(* ===== verification/Store.thy ===== *)
theory Store
  imports Store_Schema "HOL-Library.Product_Lexorder"
begin

text \<open>
  The operations of \<open>Store\<close> (\<open>src/storage/mod.rs\<close>). Each takes the database and its
  arguments and returns its result or an error, and the database it leaves. The clock,
  random values and the cipher are arguments. A statement that violates a constraint leaves
  the database as it was. UPDATE and DELETE touch the rows their WHERE clause selects; ORDER BY is a stable sort, so rows
  that tie keep their insertion order.
\<close>

datatype store_error =
    Unique_Violation
  | Foreign_Key_Violation
  | Check_Violation
  | Not_Null_Violation
  | No_Such_Row string
  | Empty_Token
  | Vanished
  | Integer_Overflow
  | Crypto_Failure crypto_error
  | Store_Panic string

type_synonym 'a outcome = "(store_error + 'a) \<times> db"

abbreviation fail :: "store_error \<Rightarrow> db \<Rightarrow> 'a outcome" where
  "fail e d \<equiv> (Inl e, d)"

abbreviation ok :: "'a \<Rightarrow> db \<Rightarrow> 'a outcome" where
  "ok x d \<equiv> (Inr x, d)"

text \<open>\<open>if changed == 0 { bail!(...) }\<close>\<close>

definition require_changed :: "string \<Rightarrow> nat \<Rightarrow> db \<Rightarrow> unit outcome" where
  "require_changed what n d = (if n = 0 then fail (No_Such_Row what) d else ok () d)"

definition lift_crypto :: "crypto_error + 'a \<Rightarrow> store_error + 'a" where
  "lift_crypto r = (case r of Inl e \<Rightarrow> Inl (Crypto_Failure e) | Inr x \<Rightarrow> Inr x)"

section \<open>The master key\<close>

text \<open>The key of the \<open>meta\<close> table, or \<open>fresh\<close> (a random key) stored there at first use.\<close>

definition load_or_generate_master_key :: "bytes \<Rightarrow> db \<Rightarrow> bytes outcome" where
  "load_or_generate_master_key fresh d =
     (case db_master_key d of
        Some b \<Rightarrow> (lift_crypto (key_from_bytes b), d)
      | None \<Rightarrow> ok fresh (d\<lparr>db_master_key := Some fresh\<rparr>))"

section \<open>Profiles\<close>

text \<open>\<open>format!("{a:x}{b:x}")\<close> of two random 64-bit numbers\<close>

definition hex_digit :: "nat \<Rightarrow> char" where
  "hex_digit n = (if n < 10 then char_of (48 + n) else char_of (87 + n))"

fun hex :: "nat \<Rightarrow> string" where
  "hex n = (if n < 16 then [hex_digit n] else hex (n div 16) @ [hex_digit (n mod 16)])"

declare hex.simps [simp del]

definition fresh_token :: "nat \<Rightarrow> nat \<Rightarrow> string" where
  "fresh_token a b = hex a @ hex b"

definition insert_profile ::
  "string \<Rightarrow> string option \<Rightarrow> string option \<Rightarrow> string \<Rightarrow> int \<Rightarrow> db \<Rightarrow> profile outcome" where
  "insert_profile name description password_hash pid now d =
     (let p = \<lparr>pf_id = pid, pf_name = name, pf_description = description,
               pf_password_hash = password_hash, pf_created_at = now, pf_updated_at = now,
               pf_rpm_limit = 0, pf_default_mask = None\<rparr>
      in if pid \<in> profile_ids d \<or> name \<in> pf_name ` set (profiles d) then fail Unique_Violation d
         else ok p (d\<lparr>profiles := profiles d @ [p]\<rparr>))"

definition create_profile ::
  "string \<Rightarrow> string option \<Rightarrow> string option \<Rightarrow> nat \<Rightarrow> nat \<Rightarrow> int \<Rightarrow> db \<Rightarrow> profile outcome" where
  "create_profile name description password_hash a b now d =
     insert_profile name description password_hash (fresh_token a b) now d"

definition create_profile_with_token ::
  "string \<Rightarrow> string option \<Rightarrow> string option \<Rightarrow> string \<Rightarrow> int \<Rightarrow> db \<Rightarrow> profile outcome" where
  "create_profile_with_token name description password_hash token now d =
     (if token = [] then fail Empty_Token d
      else insert_profile name description password_hash token now d)"

definition list_profiles :: "db \<Rightarrow> profile list" where
  "list_profiles d = sort_key pf_name (profiles d)"

definition get_profile_by_id :: "string \<Rightarrow> db \<Rightarrow> profile option" where
  "get_profile_by_id pid d = find (\<lambda>p. pf_id p = pid) (profiles d)"

definition get_profile_by_name :: "string \<Rightarrow> db \<Rightarrow> profile option" where
  "get_profile_by_name name d = find (\<lambda>p. pf_name p = name) (profiles d)"

definition delete_profile :: "string \<Rightarrow> db \<Rightarrow> unit outcome" where
  "delete_profile pid d = ok () (del_profiles (\<lambda>p. pf_id p = pid) d)"

text \<open>Does any row of another table name this profile as its owner?\<close>

definition profile_referenced :: "string \<Rightarrow> db \<Rightarrow> bool" where
  "profile_referenced pid d \<longleftrightarrow>
     (\<exists>p\<in>set (providers d). pr_profile_id p = pid) \<or>
     (\<exists>m\<in>set (masks d). mr_profile_id m = pid) \<or>
     (\<exists>p\<in>set (proxies d). px_profile_id p = pid)"

text \<open>
  \<open>UPDATE profiles SET id = new WHERE id = old\<close>. The references to \<open>profiles(id)\<close> declare
  no \<open>ON UPDATE\<close> action, so a key that is still referenced cannot change.
\<close>

definition rotate_profile_token :: "string \<Rightarrow> nat \<Rightarrow> nat \<Rightarrow> int \<Rightarrow> db \<Rightarrow> string outcome" where
  "rotate_profile_token pid a b now d =
     (let new = fresh_token a b; hit = (\<lambda>p. pf_id p = pid)
      in if n_where hit (profiles d) = 0 then fail (No_Such_Row ''profile'') d
         else if new \<noteq> pid \<and> new \<in> profile_ids d then fail Unique_Violation d
         else if new \<noteq> pid \<and> profile_referenced pid d then fail Foreign_Key_Violation d
         else ok new (d\<lparr>profiles := upd_where hit (\<lambda>p. p\<lparr>pf_id := new, pf_updated_at := now\<rparr>) (profiles d)\<rparr>))"

definition upd_profile :: "string \<Rightarrow> (profile \<Rightarrow> profile) \<Rightarrow> db \<Rightarrow> unit outcome" where
  "upd_profile pid g d =
     require_changed ''profile'' (n_where (\<lambda>p. pf_id p = pid) (profiles d))
       (d\<lparr>profiles := upd_where (\<lambda>p. pf_id p = pid) g (profiles d)\<rparr>)"

definition set_profile_rpm_limit :: "string \<Rightarrow> int \<Rightarrow> int \<Rightarrow> db \<Rightarrow> unit outcome" where
  "set_profile_rpm_limit pid rpm now d =
     upd_profile pid (\<lambda>p. p\<lparr>pf_rpm_limit := rpm, pf_updated_at := now\<rparr>) d"

definition rename_profile :: "string \<Rightarrow> string \<Rightarrow> int \<Rightarrow> db \<Rightarrow> unit outcome" where
  "rename_profile pid new_name now d =
     (if (\<exists>p\<in>set (profiles d). pf_id p = pid) \<and> (\<exists>p\<in>set (profiles d). pf_id p \<noteq> pid \<and> pf_name p = new_name)
      then fail Unique_Violation d
      else upd_profile pid (\<lambda>p. p\<lparr>pf_name := new_name, pf_updated_at := now\<rparr>) d)"

definition set_profile_description :: "string \<Rightarrow> string option \<Rightarrow> int \<Rightarrow> db \<Rightarrow> unit outcome" where
  "set_profile_description pid description now d =
     upd_profile pid (\<lambda>p. p\<lparr>pf_description := description, pf_updated_at := now\<rparr>) d"

definition set_profile_password :: "string \<Rightarrow> string \<Rightarrow> int \<Rightarrow> db \<Rightarrow> unit outcome" where
  "set_profile_password pid h now d =
     upd_profile pid (\<lambda>p. p\<lparr>pf_password_hash := Some h, pf_updated_at := now\<rparr>) d"

definition clear_profile_password :: "string \<Rightarrow> int \<Rightarrow> db \<Rightarrow> unit outcome" where
  "clear_profile_password pid now d =
     upd_profile pid (\<lambda>p. p\<lparr>pf_password_hash := None, pf_updated_at := now\<rparr>) d"

definition set_profile_default_masking :: "string \<Rightarrow> int option \<Rightarrow> int \<Rightarrow> db \<Rightarrow> unit outcome" where
  "set_profile_default_masking pid mask_id now d =
     (if (\<exists>p\<in>set (profiles d). pf_id p = pid) \<and> \<not> ref_ok mask_id (mask_ids d)
      then fail Foreign_Key_Violation d
      else upd_profile pid (\<lambda>p. p\<lparr>pf_default_mask := mask_id, pf_updated_at := now\<rparr>) d)"

section \<open>Masks\<close>

record new_mask =
  nm_name :: string
  nm_kind :: string
  nm_endpoint_url :: string
  nm_secret :: string
  nm_max_body_bytes :: int
  nm_expected_egress_ip :: "string option"
  nm_shared :: bool

definition build_mask :: "cipher \<Rightarrow> mask_row \<Rightarrow> store_error + masking_server" where
  "build_mask c m =
     res_bind (lift_crypto (decrypt (ci_aead c) (ci_key c) (mr_enc_secret m)))
       (\<lambda>secret. Inr \<lparr>mk_id = mr_id m, mk_profile_id = mr_profile_id m, mk_name = mr_name m,
          mk_kind = mr_kind m, mk_endpoint_url = mr_endpoint_url m, mk_secret = secret,
          mk_max_body_bytes = max 0 (mr_max_body_bytes m),
          mk_expected_egress_ip = mr_expected_egress_ip m, mk_verified_ip = mr_verified_ip m,
          mk_verified_asn = mr_verified_asn m, mk_verified_country = mr_verified_country m,
          mk_verified_at = mr_verified_at m, mk_shared = mr_shared m\<rparr>)"

definition get_masking_server :: "cipher \<Rightarrow> int \<Rightarrow> db \<Rightarrow> store_error + masking_server option" where
  "get_masking_server c i d =
     (case find (\<lambda>m. mr_id m = i) (masks d) of
        None \<Rightarrow> Inr None
      | Some m \<Rightarrow> res_bind (build_mask c m) (\<lambda>x. Inr (Some x)))"

definition get_masking_server_named ::
  "cipher \<Rightarrow> string \<Rightarrow> string \<Rightarrow> db \<Rightarrow> store_error + masking_server option" where
  "get_masking_server_named c pid name d =
     (case find (\<lambda>m. mr_profile_id m = pid \<and> mr_name m = name) (masks d) of
        None \<Rightarrow> Inr None
      | Some m \<Rightarrow> res_bind (build_mask c m) (\<lambda>x. Inr (Some x)))"

definition list_masking_servers :: "cipher \<Rightarrow> string \<Rightarrow> db \<Rightarrow> store_error + masking_server list" where
  "list_masking_servers c pid d =
     map_res (build_mask c) (sort_key mr_name (filter (\<lambda>m. mr_profile_id m = pid) (masks d)))"

definition list_masking_servers_for :: "cipher \<Rightarrow> string \<Rightarrow> db \<Rightarrow> store_error + masking_server list" where
  "list_masking_servers_for c pid d =
     map_res (build_mask c)
       (sort_key (\<lambda>m. (mr_profile_id m \<noteq> pid, mr_name m))
         (filter (\<lambda>m. mr_profile_id m = pid \<or> mr_shared m) (masks d)))"

definition create_masking_server ::
  "cipher \<Rightarrow> bytes \<Rightarrow> string \<Rightarrow> new_mask \<Rightarrow> db \<Rightarrow> masking_server outcome" where
  "create_masking_server c nonce pid spec d =
     (let i = seq_masks d + 1;
          m = \<lparr>mr_id = i, mr_profile_id = pid, mr_name = nm_name spec, mr_kind = nm_kind spec,
               mr_endpoint_url = nm_endpoint_url spec,
               mr_enc_secret = encrypt (ci_aead c) (ci_key c) nonce (nm_secret spec),
               mr_max_body_bytes = max 0 (nm_max_body_bytes spec),
               mr_expected_egress_ip = nm_expected_egress_ip spec, mr_verified_ip = None,
               mr_verified_asn = None, mr_verified_country = None, mr_verified_at = None,
               mr_shared = nm_shared spec\<rparr>
      in if (pid, nm_name spec) \<in> (\<lambda>m. (mr_profile_id m, mr_name m)) ` set (masks d)
         then fail Unique_Violation d
         else if pid \<notin> profile_ids d then fail Foreign_Key_Violation d
         else (let d' = d\<lparr>masks := masks d @ [m], seq_masks := i\<rparr>
               in (res_bind (get_masking_server c i d') (ok_or Vanished), d')))"

definition upd_mask :: "int \<Rightarrow> (mask_row \<Rightarrow> mask_row) \<Rightarrow> db \<Rightarrow> unit outcome" where
  "upd_mask i g d =
     require_changed ''mask'' (n_where (\<lambda>m. mr_id m = i) (masks d))
       (d\<lparr>masks := upd_where (\<lambda>m. mr_id m = i) g (masks d)\<rparr>)"

definition set_mask_shared :: "int \<Rightarrow> bool \<Rightarrow> db \<Rightarrow> unit outcome" where
  "set_mask_shared i shared d = upd_mask i (\<lambda>m. m\<lparr>mr_shared := shared\<rparr>) d"

definition probe_row ::
  "string \<Rightarrow> string option \<Rightarrow> string option \<Rightarrow> int \<Rightarrow> mask_row \<Rightarrow> mask_row" where
  "probe_row ip asn country now m =
     m\<lparr>mr_verified_ip := Some ip, mr_verified_asn := asn, mr_verified_country := country,
       mr_verified_at := Some now\<rparr>"

definition set_masking_server_probe ::
  "int \<Rightarrow> string \<Rightarrow> string option \<Rightarrow> string option \<Rightarrow> int \<Rightarrow> db \<Rightarrow> unit outcome" where
  "set_masking_server_probe i ip asn country now d = upd_mask i (probe_row ip asn country now) d"

definition record_mask_probe ::
  "int \<Rightarrow> string \<Rightarrow> string option \<Rightarrow> string option \<Rightarrow> int \<Rightarrow> db \<Rightarrow> unit outcome" where
  "record_mask_probe i ip asn country now d =
     ok () (d\<lparr>masks := upd_where (\<lambda>m. mr_id m = i) (probe_row ip asn country now) (masks d)\<rparr>)"

definition update_masking_server ::
  "cipher \<Rightarrow> bytes \<Rightarrow> int \<Rightarrow> new_mask \<Rightarrow> db \<Rightarrow> unit outcome" where
  "update_masking_server c nonce i spec d =
     (if (\<exists>m\<in>set (masks d). mr_id m = i \<and>
            (\<exists>m'\<in>set (masks d). mr_id m' \<noteq> i \<and> mr_profile_id m' = mr_profile_id m \<and> mr_name m' = nm_name spec))
      then fail Unique_Violation d
      else upd_mask i (\<lambda>m. m\<lparr>mr_name := nm_name spec, mr_kind := nm_kind spec,
             mr_endpoint_url := nm_endpoint_url spec,
             mr_enc_secret := encrypt (ci_aead c) (ci_key c) nonce (nm_secret spec),
             mr_max_body_bytes := max 0 (nm_max_body_bytes spec),
             mr_expected_egress_ip := nm_expected_egress_ip spec, mr_shared := nm_shared spec\<rparr>) d)"

definition delete_masking_server :: "int \<Rightarrow> db \<Rightarrow> unit outcome" where
  "delete_masking_server i d =
     require_changed ''mask'' (n_where (\<lambda>m. mr_id m = i) (masks d)) (del_masks (\<lambda>m. mr_id m = i) d)"

end
