(* ===== verification/Store_Providers.thy ===== *)
theory Store_Providers
  imports Store
begin

text \<open>
  Providers in the store: their rows are joined with the mask their traffic leaves
  through, decrypted on every read, and encrypted on every write
  (\<open>create_provider\<close> to \<open>update_provider\<close> in \<open>src/storage/mod.rs\<close>).
\<close>

record new_provider =
  np_name :: string
  np_description :: "string option"
  np_base_url :: string
  np_auth_token :: string
  np_kind :: provider_kind
  np_extra_headers :: "(string \<times> string) list"
  np_mask_id :: "int option"
  np_shared :: bool

text \<open>
  \<open>COALESCE(p.masking_server_id, (SELECT default_masking_server_id FROM profiles WHERE id
  = p.profile_id))\<close>, joined with the masks.
\<close>

definition effective_mask_id :: "db \<Rightarrow> provider_row \<Rightarrow> int option" where
  "effective_mask_id d p =
     (case pr_mask_id p of
        Some m \<Rightarrow> Some m
      | None \<Rightarrow> (case get_profile_by_id (pr_profile_id p) d of
                   None \<Rightarrow> None
                 | Some pf \<Rightarrow> pf_default_mask pf))"

definition mask_join :: "db \<Rightarrow> provider_row \<Rightarrow> mask_row option" where
  "mask_join d p =
     (case effective_mask_id d p of
        None \<Rightarrow> None
      | Some i \<Rightarrow> find (\<lambda>m. mr_id m = i) (masks d))"

definition build_provider ::
  "cipher \<Rightarrow> provider_row \<Rightarrow> mask_row option \<Rightarrow> store_error + provider" where
  "build_provider c p hop =
     res_bind (lift_crypto (decrypt (ci_aead c) (ci_key c) (pr_enc_token p))) (\<lambda>token.
     res_bind (case hop of None \<Rightarrow> Inr None
               | Some m \<Rightarrow> res_bind (build_mask c m) (\<lambda>x. Inr (Some x))) (\<lambda>ms.
     res_bind (ok_or (Store_Panic ''invalid provider kind in store'')
                 (provider_kind_from_tag (pr_kind_tag p))) (\<lambda>kind.
     res_bind (ok_or (Store_Panic ''invalid provider headers in store'') (pr_extra p)) (\<lambda>headers.
     Inr \<lparr>pv_id = pr_id p, pv_profile_id = pr_profile_id p, pv_name = pr_name p,
          pv_description = pr_description p, pv_base_url = pr_base_url p, pv_auth_token = token,
          pv_kind = kind, pv_extra_headers = headers, pv_mask_id = pr_mask_id p, pv_mask = ms,
          pv_shared = pr_shared p\<rparr>))))"

definition build_joined :: "cipher \<Rightarrow> db \<Rightarrow> provider_row \<Rightarrow> store_error + provider" where
  "build_joined c d p = build_provider c p (mask_join d p)"

definition get_provider :: "cipher \<Rightarrow> int \<Rightarrow> db \<Rightarrow> store_error + provider option" where
  "get_provider c i d =
     (case find (\<lambda>p. pr_id p = i) (providers d) of
        None \<Rightarrow> Inr None
      | Some p \<Rightarrow> res_bind (build_joined c d p) (\<lambda>x. Inr (Some x)))"

definition list_providers :: "cipher \<Rightarrow> string \<Rightarrow> db \<Rightarrow> store_error + provider list" where
  "list_providers c pid d =
     map_res (build_joined c d) (sort_key pr_name (filter (\<lambda>p. pr_profile_id p = pid) (providers d)))"

text \<open>Own providers first, then the shared ones of other profiles, each by name.\<close>

definition list_providers_for :: "cipher \<Rightarrow> string \<Rightarrow> db \<Rightarrow> store_error + provider list" where
  "list_providers_for c pid d =
     map_res (build_joined c d)
       (sort_key (\<lambda>p. (pr_profile_id p \<noteq> pid, pr_name p))
         (filter (\<lambda>p. pr_profile_id p = pid \<or> pr_shared p) (providers d)))"

definition create_provider ::
  "cipher \<Rightarrow> bytes \<Rightarrow> string \<Rightarrow> new_provider \<Rightarrow> db \<Rightarrow> provider outcome" where
  "create_provider c nonce pid spec d =
     (let i = seq_providers d + 1;
          p = \<lparr>pr_id = i, pr_profile_id = pid, pr_name = np_name spec,
               pr_description = np_description spec, pr_base_url = np_base_url spec,
               pr_enc_token = encrypt (ci_aead c) (ci_key c) nonce (np_auth_token spec),
               pr_kind_tag = provider_kind_tag (np_kind spec), pr_extra = Some (np_extra_headers spec),
               pr_mask_id = np_mask_id spec, pr_shared = np_shared spec\<rparr>
      in if (pid, np_name spec) \<in> (\<lambda>p. (pr_profile_id p, pr_name p)) ` set (providers d)
         then fail Unique_Violation d
         else if pid \<notin> profile_ids d \<or> \<not> ref_ok (np_mask_id spec) (mask_ids d)
         then fail Foreign_Key_Violation d
         else (let d' = d\<lparr>providers := providers d @ [p], seq_providers := i\<rparr>
               in (res_bind (get_provider c i d') (ok_or Vanished), d')))"

definition upd_provider :: "int \<Rightarrow> (provider_row \<Rightarrow> provider_row) \<Rightarrow> db \<Rightarrow> unit outcome" where
  "upd_provider i g d =
     require_changed ''provider'' (n_where (\<lambda>p. pr_id p = i) (providers d))
       (d\<lparr>providers := upd_where (\<lambda>p. pr_id p = i) g (providers d)\<rparr>)"

definition set_provider_shared :: "int \<Rightarrow> bool \<Rightarrow> db \<Rightarrow> unit outcome" where
  "set_provider_shared i shared d = upd_provider i (\<lambda>p. p\<lparr>pr_shared := shared\<rparr>) d"

definition set_provider_masking :: "int \<Rightarrow> int option \<Rightarrow> db \<Rightarrow> unit outcome" where
  "set_provider_masking i mask_id d =
     (if (\<exists>p\<in>set (providers d). pr_id p = i) \<and> \<not> ref_ok mask_id (mask_ids d)
      then fail Foreign_Key_Violation d
      else upd_provider i (\<lambda>p. p\<lparr>pr_mask_id := mask_id\<rparr>) d)"

definition delete_provider :: "int \<Rightarrow> db \<Rightarrow> unit outcome" where
  "delete_provider i d = ok () (del_providers (\<lambda>p. pr_id p = i) d)"

definition update_provider :: "cipher \<Rightarrow> bytes \<Rightarrow> int \<Rightarrow> new_provider \<Rightarrow> db \<Rightarrow> unit outcome" where
  "update_provider c nonce i spec d =
     (if (\<exists>p\<in>set (providers d). pr_id p = i \<and>
            (\<exists>q\<in>set (providers d). pr_id q \<noteq> i \<and> pr_profile_id q = pr_profile_id p \<and> pr_name q = np_name spec))
      then fail Unique_Violation d
      else if (\<exists>p\<in>set (providers d). pr_id p = i) \<and> \<not> ref_ok (np_mask_id spec) (mask_ids d)
      then fail Foreign_Key_Violation d
      else upd_provider i (\<lambda>p. p\<lparr>pr_name := np_name spec, pr_description := np_description spec,
             pr_base_url := np_base_url spec,
             pr_enc_token := encrypt (ci_aead c) (ci_key c) nonce (np_auth_token spec),
             pr_kind_tag := provider_kind_tag (np_kind spec),
             pr_extra := Some (np_extra_headers spec), pr_mask_id := np_mask_id spec,
             pr_shared := np_shared spec\<rparr>) d)"

end
