(* ===== verification/Store_Routes.thy ===== *)
theory Store_Routes
  imports Store_Providers
begin

text \<open>
  Proxies, routes and route entries in the store (\<open>create_proxy\<close> to
  \<open>entries_needing_probe\<close> in \<open>src/storage/mod.rs\<close>).
\<close>

section \<open>Proxies\<close>

definition create_proxy :: "string \<Rightarrow> string \<Rightarrow> string option \<Rightarrow> db \<Rightarrow> proxy outcome" where
  "create_proxy pid name description d =
     (let i = seq_proxies d + 1;
          p = \<lparr>px_id = i, px_profile_id = pid, px_name = name, px_description = description\<rparr>
      in if (pid, name) \<in> (\<lambda>p. (px_profile_id p, px_name p)) ` set (proxies d)
         then fail Unique_Violation d
         else if pid \<notin> profile_ids d then fail Foreign_Key_Violation d
         else ok p (d\<lparr>proxies := proxies d @ [p], seq_proxies := i\<rparr>))"

definition list_proxies :: "string \<Rightarrow> db \<Rightarrow> proxy list" where
  "list_proxies pid d = sort_key px_name (filter (\<lambda>p. px_profile_id p = pid) (proxies d))"

definition get_proxy :: "int \<Rightarrow> db \<Rightarrow> proxy option" where
  "get_proxy i d = find (\<lambda>p. px_id p = i) (proxies d)"

definition get_proxy_named :: "string \<Rightarrow> string \<Rightarrow> db \<Rightarrow> proxy option" where
  "get_proxy_named pid name d = find (\<lambda>p. px_profile_id p = pid \<and> px_name p = name) (proxies d)"

definition delete_proxy :: "int \<Rightarrow> db \<Rightarrow> unit outcome" where
  "delete_proxy i d = ok () (del_proxies (\<lambda>p. px_id p = i) d)"

definition update_proxy :: "int \<Rightarrow> string \<Rightarrow> string option \<Rightarrow> db \<Rightarrow> unit outcome" where
  "update_proxy i name description d =
     (if (\<exists>p\<in>set (proxies d). px_id p = i \<and>
            (\<exists>q\<in>set (proxies d). px_id q \<noteq> i \<and> px_profile_id q = px_profile_id p \<and> px_name q = name))
      then fail Unique_Violation d
      else require_changed ''proxy'' (n_where (\<lambda>p. px_id p = i) (proxies d))
             (d\<lparr>proxies := upd_where (\<lambda>p. px_id p = i)
                  (\<lambda>p. p\<lparr>px_name := name, px_description := description\<rparr>) (proxies d)\<rparr>))"

section \<open>Routes\<close>

definition map_route_row :: "route_row \<Rightarrow> store_error + route" where
  "map_route_row r =
     res_bind (ok_or (Store_Panic ''invalid strategy in store'') (strategy_from_tag (ro_strategy r)))
       (\<lambda>s. Inr \<lparr>rt_id = ro_id r, rt_proxy_id = ro_proxy_id r, rt_name = ro_name r,
          rt_description = ro_description r, rt_strategy = s, rt_identity = ro_identity r,
          rt_max_tokens = nat (max 0 (ro_max_tokens r) mod 2 ^ 32),
          rt_cache_ttl_secs = max 0 (ro_cache_ttl_secs r), rt_shared = ro_shared r,
          rt_prompt_cache = policy_from_tag (ro_prompt_cache r)\<rparr>)"

definition create_route ::
  "int \<Rightarrow> string \<Rightarrow> string option \<Rightarrow> routing_strategy \<Rightarrow> string option \<Rightarrow> db \<Rightarrow> route outcome" where
  "create_route proxy_id name description strategy identity d =
     (let i = seq_routes d + 1;
          r = \<lparr>ro_id = i, ro_proxy_id = proxy_id, ro_name = name, ro_description = description,
               ro_strategy = strategy_tag strategy, ro_identity = identity, ro_max_tokens = 0,
               ro_cache_ttl_secs = 0, ro_shared = False, ro_prompt_cache = ''auto''\<rparr>
      in if (proxy_id, name) \<in> (\<lambda>r. (ro_proxy_id r, ro_name r)) ` set (routes d)
         then fail Unique_Violation d
         else if proxy_id \<notin> proxy_ids d then fail Foreign_Key_Violation d
         else ok \<lparr>rt_id = i, rt_proxy_id = proxy_id, rt_name = name, rt_description = description,
                  rt_strategy = strategy, rt_identity = identity, rt_max_tokens = 0,
                  rt_cache_ttl_secs = 0, rt_shared = False, rt_prompt_cache = default_policy\<rparr>
                (d\<lparr>routes := routes d @ [r], seq_routes := i\<rparr>))"

definition upd_route :: "int \<Rightarrow> (route_row \<Rightarrow> route_row) \<Rightarrow> db \<Rightarrow> unit outcome" where
  "upd_route i g d =
     require_changed ''route'' (n_where (\<lambda>r. ro_id r = i) (routes d))
       (d\<lparr>routes := upd_where (\<lambda>r. ro_id r = i) g (routes d)\<rparr>)"

definition set_route_shared :: "int \<Rightarrow> bool \<Rightarrow> db \<Rightarrow> unit outcome" where
  "set_route_shared i shared d = upd_route i (\<lambda>r. r\<lparr>ro_shared := shared\<rparr>) d"

definition set_route_prompt_cache :: "int \<Rightarrow> prompt_cache_policy \<Rightarrow> db \<Rightarrow> unit outcome" where
  "set_route_prompt_cache i policy d = upd_route i (\<lambda>r. r\<lparr>ro_prompt_cache := policy_tag policy\<rparr>) d"

definition set_route_economy :: "int \<Rightarrow> nat \<Rightarrow> int \<Rightarrow> db \<Rightarrow> unit outcome" where
  "set_route_economy i max_tokens cache_ttl_secs d =
     upd_route i (\<lambda>r. r\<lparr>ro_max_tokens := int max_tokens, ro_cache_ttl_secs := cache_ttl_secs\<rparr>) d"

definition update_route ::
  "int \<Rightarrow> string \<Rightarrow> string option \<Rightarrow> routing_strategy \<Rightarrow> string option \<Rightarrow> db \<Rightarrow> unit outcome" where
  "update_route i name description strategy identity d =
     (if (\<exists>r\<in>set (routes d). ro_id r = i \<and>
            (\<exists>q\<in>set (routes d). ro_id q \<noteq> i \<and> ro_proxy_id q = ro_proxy_id r \<and> ro_name q = name))
      then fail Unique_Violation d
      else upd_route i (\<lambda>r. r\<lparr>ro_name := name, ro_description := description,
             ro_strategy := strategy_tag strategy, ro_identity := identity\<rparr>) d)"

definition delete_route :: "int \<Rightarrow> db \<Rightarrow> unit outcome" where
  "delete_route i d = ok () (del_routes (\<lambda>r. ro_id r = i) d)"

definition list_routes :: "int \<Rightarrow> db \<Rightarrow> store_error + route list" where
  "list_routes proxy_id d =
     map_res map_route_row (sort_key ro_name (filter (\<lambda>r. ro_proxy_id r = proxy_id) (routes d)))"

definition opt_route :: "route_row option \<Rightarrow> store_error + route option" where
  "opt_route x = (case x of None \<Rightarrow> Inr None | Some r \<Rightarrow> res_bind (map_route_row r) (\<lambda>y. Inr (Some y)))"

definition get_route_named :: "int \<Rightarrow> string \<Rightarrow> db \<Rightarrow> store_error + route option" where
  "get_route_named proxy_id name d =
     opt_route (find (\<lambda>r. ro_proxy_id r = proxy_id \<and> ro_name r = name) (routes d))"

definition get_route_by_id :: "int \<Rightarrow> db \<Rightarrow> store_error + route option" where
  "get_route_by_id i d = opt_route (find (\<lambda>r. ro_id r = i) (routes d))"

definition route_owner_profile :: "int \<Rightarrow> db \<Rightarrow> string option" where
  "route_owner_profile route_id d =
     (case find (\<lambda>r. ro_id r = route_id) (routes d) of
        None \<Rightarrow> None
      | Some r \<Rightarrow> map_option px_profile_id (find (\<lambda>p. px_id p = ro_proxy_id r) (proxies d)))"

section \<open>Route entries\<close>

text \<open>
  The heuristic blended price; \<open>0.4\<close> is the nearest double, the other two are exact.
\<close>

definition price_cheap :: f64 where
  "price_cheap = FFin (3602879701896397 / 9007199254740992)"

definition default_price_for :: "string \<Rightarrow> f64" where
  "default_price_for model_id =
     (let m = ascii_lower model_id
      in if list_ex (contains m) [''mini'', ''micro'', ''flash'', ''nano''] then price_cheap
         else if list_ex (contains m) [''pro'', ''max'', ''ultra''] then FFin 6
         else FFin 2)"

definition map_route_entry_row :: "entry_row \<Rightarrow> store_error + route_entry" where
  "map_route_entry_row e =
     res_bind (ok_or (Store_Panic ''invalid capabilities in store'') (en_capabilities e))
       (\<lambda>caps. Inr \<lparr>re_id = en_id e, re_route_id = en_route_id e, re_provider_id = en_provider_id e,
          re_target_route_id = en_target_route_id e, re_model_id = en_model_id e,
          re_priority = en_priority e, re_weight = en_weight e,
          re_status = status_from_tag (en_status e), re_capabilities = caps,
          re_price_per_1m = f64_max0 (en_price_per_1m e), re_cooldown_until = en_cooldown_until e\<rparr>)"

definition add_route_entry ::
  "int \<Rightarrow> int \<Rightarrow> string \<Rightarrow> int \<Rightarrow> f64 \<Rightarrow> route_capabilities \<Rightarrow> db \<Rightarrow> route_entry outcome" where
  "add_route_entry route_id provider_id model_id priority weight caps d =
     (let i = seq_entries d + 1;
          e = \<lparr>en_id = i, en_route_id = route_id, en_provider_id = Some provider_id,
               en_target_route_id = None, en_model_id = model_id, en_priority = priority,
               en_weight = weight, en_status = status_tag Healthy, en_capabilities = Some caps,
               en_price_per_1m = default_price_for model_id, en_cooldown_until = 0\<rparr>
      in if weight = FNaN then fail Not_Null_Violation d
         else if route_id \<notin> route_ids d \<or> provider_id \<notin> provider_ids d
         then fail Foreign_Key_Violation d
         else ok \<lparr>re_id = i, re_route_id = route_id, re_provider_id = Some provider_id,
                  re_target_route_id = None, re_model_id = model_id, re_priority = priority,
                  re_weight = weight, re_status = Healthy, re_capabilities = caps,
                  re_price_per_1m = default_price_for model_id, re_cooldown_until = 0\<rparr>
                (d\<lparr>entries := entries d @ [e], seq_entries := i\<rparr>))"

definition add_route_entry_ref ::
  "int \<Rightarrow> int \<Rightarrow> string \<Rightarrow> int \<Rightarrow> f64 \<Rightarrow> db \<Rightarrow> route_entry outcome" where
  "add_route_entry_ref route_id target_route_id label priority weight d =
     (let i = seq_entries d + 1;
          e = \<lparr>en_id = i, en_route_id = route_id, en_provider_id = None,
               en_target_route_id = Some target_route_id, en_model_id = label,
               en_priority = priority, en_weight = weight, en_status = status_tag Healthy,
               en_capabilities = Some default_caps, en_price_per_1m = FFin 0, en_cooldown_until = 0\<rparr>
      in if weight = FNaN then fail Not_Null_Violation d
         else if route_id \<notin> route_ids d \<or> target_route_id \<notin> route_ids d
         then fail Foreign_Key_Violation d
         else ok \<lparr>re_id = i, re_route_id = route_id, re_provider_id = None,
                  re_target_route_id = Some target_route_id, re_model_id = label,
                  re_priority = priority, re_weight = weight, re_status = Healthy,
                  re_capabilities = default_caps, re_price_per_1m = FFin 0, re_cooldown_until = 0\<rparr>
                (d\<lparr>entries := entries d @ [e], seq_entries := i\<rparr>))"

text \<open>An UPDATE of one entry that does not look at the number of rows it changed.\<close>

definition upd_entry :: "int \<Rightarrow> (entry_row \<Rightarrow> entry_row) \<Rightarrow> db \<Rightarrow> db" where
  "upd_entry i g d = d\<lparr>entries := upd_where (\<lambda>e. en_id e = i) g (entries d)\<rparr>"

definition set_route_entry_price :: "int \<Rightarrow> f64 \<Rightarrow> db \<Rightarrow> unit outcome" where
  "set_route_entry_price i price d =
     ok () (upd_entry i (\<lambda>e. e\<lparr>en_price_per_1m := f64_max0 price\<rparr>) d)"

definition set_route_entry_status :: "int \<Rightarrow> model_status \<Rightarrow> db \<Rightarrow> unit outcome" where
  "set_route_entry_status i status d =
     ok () (upd_entry i (\<lambda>e. e\<lparr>en_status := status_tag status\<rparr>) d)"

definition set_route_entry_cooldown :: "int \<Rightarrow> int \<Rightarrow> db \<Rightarrow> unit outcome" where
  "set_route_entry_cooldown i until d =
     ok () (upd_entry i (\<lambda>e. e\<lparr>en_cooldown_until := max 0 until\<rparr>) d)"

definition set_route_entry_priority :: "int \<Rightarrow> int \<Rightarrow> db \<Rightarrow> unit outcome" where
  "set_route_entry_priority i priority d =
     ok () (upd_entry i (\<lambda>e. e\<lparr>en_priority := priority\<rparr>) d)"

text \<open>Unreadable capabilities are reset to the defaults before the flag is set.\<close>

definition set_route_entry_vision :: "int \<Rightarrow> bool \<Rightarrow> db \<Rightarrow> unit outcome" where
  "set_route_entry_vision i vision d =
     (case find (\<lambda>e. en_id e = i) (entries d) of
        None \<Rightarrow> ok () d
      | Some e \<Rightarrow>
          (let caps = (case en_capabilities e of None \<Rightarrow> default_caps | Some c \<Rightarrow> c)
           in if cap_vision caps = vision then ok () d
              else ok () (upd_entry i (\<lambda>e. e\<lparr>en_capabilities := Some (caps\<lparr>cap_vision := vision\<rparr>)\<rparr>) d)))"

definition delete_route_entry :: "int \<Rightarrow> db \<Rightarrow> unit outcome" where
  "delete_route_entry i d = ok () (del_entries (\<lambda>e. en_id e = i) d)"

definition update_route_entry ::
  "int \<Rightarrow> string \<Rightarrow> int \<Rightarrow> f64 \<Rightarrow> route_capabilities \<Rightarrow> db \<Rightarrow> unit outcome" where
  "update_route_entry i model_id provider_id weight caps d =
     (let hit = (\<lambda>e. en_id e = i)
      in if (\<exists>e\<in>set (entries d). hit e) \<and> weight = FNaN then fail Not_Null_Violation d
         else if (\<exists>e\<in>set (entries d). hit e \<and> \<not> one_target (Some provider_id) (en_target_route_id e))
         then fail Check_Violation d
         else if (\<exists>e\<in>set (entries d). hit e) \<and> provider_id \<notin> provider_ids d
         then fail Foreign_Key_Violation d
         else require_changed ''route model'' (n_where hit (entries d))
                (upd_entry i (\<lambda>e. e\<lparr>en_model_id := model_id, en_provider_id := Some provider_id,
                     en_weight := weight, en_capabilities := Some caps\<rparr>) d))"

definition route_entries :: "int \<Rightarrow> db \<Rightarrow> store_error + route_entry list" where
  "route_entries route_id d =
     map_res map_route_entry_row
       (sort_key en_priority (filter (\<lambda>e. en_route_id e = route_id) (entries d)))"

text \<open>
  The entries the health probe looks at: neither healthy nor disabled, and with a
  provider; each with that provider and its mask.
\<close>

definition probe_candidate :: "entry_row \<Rightarrow> bool" where
  "probe_candidate e \<longleftrightarrow>
     en_status e \<noteq> status_tag Healthy \<and> en_status e \<noteq> status_tag Disabled \<and> en_provider_id e \<noteq> None"

definition entries_needing_probe :: "cipher \<Rightarrow> db \<Rightarrow> store_error + (route_entry \<times> provider) list" where
  "entries_needing_probe c d =
     (let rows = concat (map (\<lambda>e. map (\<lambda>p. (e, p)) (filter (\<lambda>p. en_provider_id e = Some (pr_id p)) (providers d)))
                   (filter probe_candidate (entries d)))
      in res_bind (map_res (\<lambda>(e, p). res_bind (map_route_entry_row e) (\<lambda>x. Inr (x, p))) rows) (\<lambda>raws.
         map_res (\<lambda>(x, p). res_bind (build_joined c d p) (\<lambda>y. Inr (x, y))) raws))"

end
