(* ===== verification/Store_Usage.thy ===== *)
theory Store_Usage
  imports Store_Routes
begin

text \<open>
  The usage log and the exact-match response cache in the store (\<open>record_usage\<close> to
  \<open>prune_response_cache\<close> in \<open>src/storage/mod.rs\<close>).
\<close>

section \<open>The usage log\<close>

record new_usage =
  nu_profile_id :: string
  nu_entry_id :: int
  nu_model_id :: string
  nu_streamed :: bool
  nu_success :: bool
  nu_status_code :: "int option"
  nu_error_message :: "string option"
  nu_latency_ms :: int
  nu_prompt_tokens :: "int option"
  nu_completion_tokens :: "int option"
  nu_cached_prompt_tokens :: "int option"

definition record_usage :: "new_usage \<Rightarrow> int \<Rightarrow> db \<Rightarrow> usage_record outcome" where
  "record_usage rec now d =
     (let i = seq_usage d + 1;
          u = \<lparr>us_id = i, us_profile_id = nu_profile_id rec, us_entry_id = nu_entry_id rec,
               us_model_id = nu_model_id rec, us_streamed = nu_streamed rec,
               us_success = nu_success rec, us_status_code = nu_status_code rec,
               us_error_message = nu_error_message rec, us_latency_ms = nu_latency_ms rec,
               us_prompt_tokens = nu_prompt_tokens rec,
               us_completion_tokens = nu_completion_tokens rec,
               us_cached_prompt_tokens = nu_cached_prompt_tokens rec, us_created_at = now\<rparr>
      in if nu_entry_id rec \<notin> entry_ids d then fail Foreign_Key_Violation d
         else ok u (d\<lparr>usage := usage d @ [u], seq_usage := i\<rparr>))"

text \<open>Newest first: by creation time, then by id.\<close>

definition list_usage :: "string \<Rightarrow> nat \<Rightarrow> db \<Rightarrow> usage_record list" where
  "list_usage pid limit d =
     take limit (sort_key (\<lambda>u. (- us_created_at u, - us_id u))
                   (filter (\<lambda>u. us_profile_id u = pid) (usage d)))"

definition MILLIS_PER_DAY :: int where
  "MILLIS_PER_DAY = 86400000"

definition prune_usage_log :: "nat \<Rightarrow> int \<Rightarrow> db \<Rightarrow> nat outcome" where
  "prune_usage_log keep_days now d =
     (let cutoff = now - int keep_days * MILLIS_PER_DAY; old = (\<lambda>u. us_created_at u < cutoff)
      in ok (n_where old (usage d)) (d\<lparr>usage := filter (\<lambda>u. \<not> old u) (usage d)\<rparr>))"

section \<open>The response cache\<close>

type_synonym cache_hit = "bytes \<times> int option \<times> int option"

definition drop_expired :: "int \<Rightarrow> db \<Rightarrow> db" where
  "drop_expired now d = d\<lparr>cache := filter (\<lambda>c. now < ca_expires_at c) (cache d)\<rparr>"

text \<open>A lookup first deletes every expired row, then reads a row that is still fresh.\<close>

definition cache_get :: "int \<Rightarrow> string \<Rightarrow> int \<Rightarrow> db \<Rightarrow> cache_hit option outcome" where
  "cache_get route_id req_hash now d =
     (let d' = drop_expired now d
      in ok (map_option (\<lambda>c. (ca_resp c, ca_prompt_tokens c, ca_completion_tokens c))
               (find (\<lambda>c. ca_route_id c = route_id \<and> ca_req_hash c = req_hash \<and> now < ca_expires_at c)
                  (cache d')))
            d')"

definition cache_expiry :: "int \<Rightarrow> int \<Rightarrow> int" where
  "cache_expiry now ttl_secs = add_i64 now (mul_i64 ttl_secs 1000)"

text \<open>\<open>INSERT ... ON CONFLICT(route_id, req_hash) DO UPDATE\<close>\<close>

definition cache_put ::
  "int \<Rightarrow> string \<Rightarrow> bytes \<Rightarrow> int option \<Rightarrow> int option \<Rightarrow> int \<Rightarrow> int \<Rightarrow> db \<Rightarrow> unit outcome" where
  "cache_put route_id req_hash resp prompt completion now ttl_secs d =
     (if ttl_secs \<le> 0 then ok () d
      else (let row = \<lparr>ca_route_id = route_id, ca_req_hash = req_hash, ca_resp = resp,
                       ca_prompt_tokens = prompt, ca_completion_tokens = completion,
                       ca_created_at = now, ca_expires_at = cache_expiry now ttl_secs\<rparr>;
                hit = (\<lambda>c. ca_route_id c = route_id \<and> ca_req_hash c = req_hash)
            in if n_where hit (cache d) > 0
               then ok () (d\<lparr>cache := upd_where hit (\<lambda>c. row) (cache d)\<rparr>)
               else if route_id \<notin> route_ids d then fail Foreign_Key_Violation d
               else ok () (d\<lparr>cache := cache d @ [row]\<rparr>)))"

definition prune_response_cache :: "int \<Rightarrow> db \<Rightarrow> nat outcome" where
  "prune_response_cache now d =
     ok (n_where (\<lambda>c. ca_expires_at c \<le> now) (cache d)) (drop_expired now d)"

end
