(* ===== verification/Store_Integrity.thy ===== *)
theory Store_Integrity
  imports Store_Usage
begin

text \<open>
  Referential and key integrity of the store. Every operation, successful or refused,
  keeps \<open>db_ok\<close>: foreign keys point at rows that exist, primary keys and unique indices
  hold, the counters are ahead of the keys they hand out, entries have exactly one target,
  and every tag and JSON column is readable. The operations form a machine whose invariant
  this is, so every store reached from an empty one by any sequence of operations has it.
\<close>

section \<open>Key sets after a change of one table\<close>

lemma ids_profiles [simp]:
  "profile_ids (d\<lparr>profiles := T\<rparr>) = pf_id ` set T"
  "provider_ids (d\<lparr>profiles := T\<rparr>) = provider_ids d"
  "mask_ids (d\<lparr>profiles := T\<rparr>) = mask_ids d"
  "proxy_ids (d\<lparr>profiles := T\<rparr>) = proxy_ids d"
  "route_ids (d\<lparr>profiles := T\<rparr>) = route_ids d"
  "entry_ids (d\<lparr>profiles := T\<rparr>) = entry_ids d"
  by (simp_all add: id_sets)

lemma ids_providers [simp]:
  "profile_ids (d\<lparr>providers := T\<rparr>) = profile_ids d"
  "provider_ids (d\<lparr>providers := T\<rparr>) = pr_id ` set T"
  "mask_ids (d\<lparr>providers := T\<rparr>) = mask_ids d"
  "proxy_ids (d\<lparr>providers := T\<rparr>) = proxy_ids d"
  "route_ids (d\<lparr>providers := T\<rparr>) = route_ids d"
  "entry_ids (d\<lparr>providers := T\<rparr>) = entry_ids d"
  by (simp_all add: id_sets)

lemma ids_masks [simp]:
  "profile_ids (d\<lparr>masks := T\<rparr>) = profile_ids d"
  "provider_ids (d\<lparr>masks := T\<rparr>) = provider_ids d"
  "mask_ids (d\<lparr>masks := T\<rparr>) = mr_id ` set T"
  "proxy_ids (d\<lparr>masks := T\<rparr>) = proxy_ids d"
  "route_ids (d\<lparr>masks := T\<rparr>) = route_ids d"
  "entry_ids (d\<lparr>masks := T\<rparr>) = entry_ids d"
  by (simp_all add: id_sets)

lemma ids_proxies [simp]:
  "profile_ids (d\<lparr>proxies := T\<rparr>) = profile_ids d"
  "provider_ids (d\<lparr>proxies := T\<rparr>) = provider_ids d"
  "mask_ids (d\<lparr>proxies := T\<rparr>) = mask_ids d"
  "proxy_ids (d\<lparr>proxies := T\<rparr>) = px_id ` set T"
  "route_ids (d\<lparr>proxies := T\<rparr>) = route_ids d"
  "entry_ids (d\<lparr>proxies := T\<rparr>) = entry_ids d"
  by (simp_all add: id_sets)

lemma ids_routes [simp]:
  "profile_ids (d\<lparr>routes := T\<rparr>) = profile_ids d"
  "provider_ids (d\<lparr>routes := T\<rparr>) = provider_ids d"
  "mask_ids (d\<lparr>routes := T\<rparr>) = mask_ids d"
  "proxy_ids (d\<lparr>routes := T\<rparr>) = proxy_ids d"
  "route_ids (d\<lparr>routes := T\<rparr>) = ro_id ` set T"
  "entry_ids (d\<lparr>routes := T\<rparr>) = entry_ids d"
  by (simp_all add: id_sets)

lemma ids_entries [simp]:
  "profile_ids (d\<lparr>entries := T\<rparr>) = profile_ids d"
  "provider_ids (d\<lparr>entries := T\<rparr>) = provider_ids d"
  "mask_ids (d\<lparr>entries := T\<rparr>) = mask_ids d"
  "proxy_ids (d\<lparr>entries := T\<rparr>) = proxy_ids d"
  "route_ids (d\<lparr>entries := T\<rparr>) = route_ids d"
  "entry_ids (d\<lparr>entries := T\<rparr>) = en_id ` set T"
  by (simp_all add: id_sets)

lemma ids_usage [simp]:
  "profile_ids (d\<lparr>usage := T\<rparr>) = profile_ids d"
  "provider_ids (d\<lparr>usage := T\<rparr>) = provider_ids d"
  "mask_ids (d\<lparr>usage := T\<rparr>) = mask_ids d"
  "proxy_ids (d\<lparr>usage := T\<rparr>) = proxy_ids d"
  "route_ids (d\<lparr>usage := T\<rparr>) = route_ids d"
  "entry_ids (d\<lparr>usage := T\<rparr>) = entry_ids d"
  by (simp_all add: id_sets)

lemma ids_cache [simp]:
  "profile_ids (d\<lparr>cache := T\<rparr>) = profile_ids d"
  "provider_ids (d\<lparr>cache := T\<rparr>) = provider_ids d"
  "mask_ids (d\<lparr>cache := T\<rparr>) = mask_ids d"
  "proxy_ids (d\<lparr>cache := T\<rparr>) = proxy_ids d"
  "route_ids (d\<lparr>cache := T\<rparr>) = route_ids d"
  "entry_ids (d\<lparr>cache := T\<rparr>) = entry_ids d"
  by (simp_all add: id_sets)

lemma ids_seq_providers [simp]:
  "profile_ids (d\<lparr>seq_providers := n\<rparr>) = profile_ids d"
  "provider_ids (d\<lparr>seq_providers := n\<rparr>) = provider_ids d"
  "mask_ids (d\<lparr>seq_providers := n\<rparr>) = mask_ids d"
  "proxy_ids (d\<lparr>seq_providers := n\<rparr>) = proxy_ids d"
  "route_ids (d\<lparr>seq_providers := n\<rparr>) = route_ids d"
  "entry_ids (d\<lparr>seq_providers := n\<rparr>) = entry_ids d"
  by (simp_all add: id_sets)

lemma ids_seq_masks [simp]:
  "profile_ids (d\<lparr>seq_masks := n\<rparr>) = profile_ids d"
  "provider_ids (d\<lparr>seq_masks := n\<rparr>) = provider_ids d"
  "mask_ids (d\<lparr>seq_masks := n\<rparr>) = mask_ids d"
  "proxy_ids (d\<lparr>seq_masks := n\<rparr>) = proxy_ids d"
  "route_ids (d\<lparr>seq_masks := n\<rparr>) = route_ids d"
  "entry_ids (d\<lparr>seq_masks := n\<rparr>) = entry_ids d"
  by (simp_all add: id_sets)

lemma ids_seq_proxies [simp]:
  "profile_ids (d\<lparr>seq_proxies := n\<rparr>) = profile_ids d"
  "provider_ids (d\<lparr>seq_proxies := n\<rparr>) = provider_ids d"
  "mask_ids (d\<lparr>seq_proxies := n\<rparr>) = mask_ids d"
  "proxy_ids (d\<lparr>seq_proxies := n\<rparr>) = proxy_ids d"
  "route_ids (d\<lparr>seq_proxies := n\<rparr>) = route_ids d"
  "entry_ids (d\<lparr>seq_proxies := n\<rparr>) = entry_ids d"
  by (simp_all add: id_sets)

lemma ids_seq_routes [simp]:
  "profile_ids (d\<lparr>seq_routes := n\<rparr>) = profile_ids d"
  "provider_ids (d\<lparr>seq_routes := n\<rparr>) = provider_ids d"
  "mask_ids (d\<lparr>seq_routes := n\<rparr>) = mask_ids d"
  "proxy_ids (d\<lparr>seq_routes := n\<rparr>) = proxy_ids d"
  "route_ids (d\<lparr>seq_routes := n\<rparr>) = route_ids d"
  "entry_ids (d\<lparr>seq_routes := n\<rparr>) = entry_ids d"
  by (simp_all add: id_sets)

lemma ids_seq_entries [simp]:
  "profile_ids (d\<lparr>seq_entries := n\<rparr>) = profile_ids d"
  "provider_ids (d\<lparr>seq_entries := n\<rparr>) = provider_ids d"
  "mask_ids (d\<lparr>seq_entries := n\<rparr>) = mask_ids d"
  "proxy_ids (d\<lparr>seq_entries := n\<rparr>) = proxy_ids d"
  "route_ids (d\<lparr>seq_entries := n\<rparr>) = route_ids d"
  "entry_ids (d\<lparr>seq_entries := n\<rparr>) = entry_ids d"
  by (simp_all add: id_sets)

lemma ids_seq_usage [simp]:
  "profile_ids (d\<lparr>seq_usage := n\<rparr>) = profile_ids d"
  "provider_ids (d\<lparr>seq_usage := n\<rparr>) = provider_ids d"
  "mask_ids (d\<lparr>seq_usage := n\<rparr>) = mask_ids d"
  "proxy_ids (d\<lparr>seq_usage := n\<rparr>) = proxy_ids d"
  "route_ids (d\<lparr>seq_usage := n\<rparr>) = route_ids d"
  "entry_ids (d\<lparr>seq_usage := n\<rparr>) = entry_ids d"
  by (simp_all add: id_sets)

lemma ids_db_master_key [simp]:
  "profile_ids (d\<lparr>db_master_key := n\<rparr>) = profile_ids d"
  "provider_ids (d\<lparr>db_master_key := n\<rparr>) = provider_ids d"
  "mask_ids (d\<lparr>db_master_key := n\<rparr>) = mask_ids d"
  "proxy_ids (d\<lparr>db_master_key := n\<rparr>) = proxy_ids d"
  "route_ids (d\<lparr>db_master_key := n\<rparr>) = route_ids d"
  "entry_ids (d\<lparr>db_master_key := n\<rparr>) = entry_ids d"
  by (simp_all add: id_sets)

section \<open>Replacing one table\<close>

text \<open>
  One lemma per table: a new table keeps the invariant when its rows are fine, its keys and
  unique columns are distinct, and what other tables refer to is still there. Insertions,
  updates and deletions are instances.
\<close>

lemmas db_ok_defs = db_ok_def refs_ok_def keys_ok_def seq_ok_def columns_ok_def

lemma set_profiles_ok:
  assumes "db_ok d" "\<forall>p\<in>set T. ref_ok (pf_default_mask p) (mask_ids d)"
    "distinct (map pf_id T)" "distinct (map pf_name T)"
    "\<forall>p\<in>set (providers d). pr_profile_id p \<in> pf_id ` set T"
    "\<forall>m\<in>set (masks d). mr_profile_id m \<in> pf_id ` set T"
    "\<forall>p\<in>set (proxies d). px_profile_id p \<in> pf_id ` set T"
  shows "db_ok (d\<lparr>profiles := T\<rparr>)"
  using assms by (simp add: db_ok_defs)

lemma set_providers_ok:
  assumes "db_ok d"
    "\<forall>p\<in>set T. pr_profile_id p \<in> profile_ids d \<and> ref_ok (pr_mask_id p) (mask_ids d)
       \<and> provider_kind_from_tag (pr_kind_tag p) \<noteq> None \<and> pr_extra p \<noteq> None \<and> pr_id p \<le> n"
    "distinct (map pr_id T)" "distinct (map (\<lambda>p. (pr_profile_id p, pr_name p)) T)"
    "\<forall>e\<in>set (entries d). ref_ok (en_provider_id e) (pr_id ` set T)"
  shows "db_ok (d\<lparr>providers := T, seq_providers := n\<rparr>)"
  using assms by (simp add: db_ok_defs)

lemma set_masks_ok:
  assumes "db_ok d" "\<forall>m\<in>set T. mr_profile_id m \<in> profile_ids d \<and> mr_id m \<le> n"
    "distinct (map mr_id T)" "distinct (map (\<lambda>m. (mr_profile_id m, mr_name m)) T)"
    "\<forall>p\<in>set (profiles d). ref_ok (pf_default_mask p) (mr_id ` set T)"
    "\<forall>p\<in>set (providers d). ref_ok (pr_mask_id p) (mr_id ` set T)"
  shows "db_ok (d\<lparr>masks := T, seq_masks := n\<rparr>)"
  using assms by (simp add: db_ok_defs)

lemma set_proxies_ok:
  assumes "db_ok d" "\<forall>p\<in>set T. px_profile_id p \<in> profile_ids d \<and> px_id p \<le> n"
    "distinct (map px_id T)" "distinct (map (\<lambda>p. (px_profile_id p, px_name p)) T)"
    "\<forall>r\<in>set (routes d). ro_proxy_id r \<in> px_id ` set T"
  shows "db_ok (d\<lparr>proxies := T, seq_proxies := n\<rparr>)"
  using assms by (simp add: db_ok_defs)

lemma set_routes_ok:
  assumes "db_ok d"
    "\<forall>r\<in>set T. ro_proxy_id r \<in> proxy_ids d \<and> strategy_from_tag (ro_strategy r) \<noteq> None \<and> ro_id r \<le> n"
    "distinct (map ro_id T)" "distinct (map (\<lambda>r. (ro_proxy_id r, ro_name r)) T)"
    "\<forall>e\<in>set (entries d). en_route_id e \<in> ro_id ` set T \<and> ref_ok (en_target_route_id e) (ro_id ` set T)"
    "\<forall>c\<in>set C. ca_route_id c \<in> ro_id ` set T" "distinct (map (\<lambda>c. (ca_route_id c, ca_req_hash c)) C)"
  shows "db_ok (d\<lparr>routes := T, cache := C, seq_routes := n\<rparr>)"
  using assms by (simp add: db_ok_defs)

definition entry_ok :: "db \<Rightarrow> entry_row \<Rightarrow> bool" where
  "entry_ok d e \<longleftrightarrow> en_route_id e \<in> route_ids d \<and> ref_ok (en_provider_id e) (provider_ids d)
     \<and> ref_ok (en_target_route_id e) (route_ids d) \<and> one_target (en_provider_id e) (en_target_route_id e)
     \<and> en_capabilities e \<noteq> None \<and> en_weight e \<noteq> FNaN"

lemma set_entries_ok:
  assumes "db_ok d" "\<forall>e\<in>set T. entry_ok d e \<and> en_id e \<le> n" "distinct (map en_id T)"
    "\<forall>u\<in>set U. us_entry_id u \<in> en_id ` set T \<and> us_id u \<le> m" "distinct (map us_id U)"
  shows "db_ok (d\<lparr>entries := T, usage := U, seq_entries := n, seq_usage := m\<rparr>)"
  using assms by (simp add: db_ok_defs entry_ok_def)

lemma set_cache_ok:
  assumes "db_ok d" "\<forall>c\<in>set C. ca_route_id c \<in> route_ids d"
    "distinct (map (\<lambda>c. (ca_route_id c, ca_req_hash c)) C)"
  shows "db_ok (d\<lparr>cache := C\<rparr>)"
  using assms by (simp add: db_ok_defs)

lemma db_seq_self [simp]:
  "d\<lparr>providers := P, seq_providers := seq_providers d\<rparr> = d\<lparr>providers := P\<rparr>"
  "d\<lparr>masks := M, seq_masks := seq_masks d\<rparr> = d\<lparr>masks := M\<rparr>"
  "d\<lparr>proxies := X, seq_proxies := seq_proxies d\<rparr> = d\<lparr>proxies := X\<rparr>"
  "d\<lparr>routes := R, cache := cache d, seq_routes := n\<rparr> = d\<lparr>routes := R, seq_routes := n\<rparr>"
  "d\<lparr>routes := R, cache := C, seq_routes := seq_routes d\<rparr> = d\<lparr>routes := R, cache := C\<rparr>"
  "d\<lparr>routes := R, seq_routes := seq_routes d\<rparr> = d\<lparr>routes := R\<rparr>"
  "d\<lparr>entries := T, usage := usage d, seq_entries := n, seq_usage := seq_usage d\<rparr> =
   d\<lparr>entries := T, seq_entries := n\<rparr>"
  "d\<lparr>entries := T, usage := U, seq_entries := seq_entries d, seq_usage := m\<rparr> =
   d\<lparr>entries := T, usage := U, seq_usage := m\<rparr>"
  "d\<lparr>entries := T, usage := U, seq_usage := seq_usage d\<rparr> = d\<lparr>entries := T, usage := U\<rparr>"
  "d\<lparr>entries := T, seq_entries := seq_entries d\<rparr> = d\<lparr>entries := T\<rparr>"
  "d\<lparr>entries := entries d, usage := U, seq_usage := m\<rparr> = d\<lparr>usage := U, seq_usage := m\<rparr>"
  "d\<lparr>usage := U, seq_usage := seq_usage d\<rparr> = d\<lparr>usage := U\<rparr>"
  by (cases d; simp)+

section \<open>What the invariant says of each row\<close>

lemma profile_rowD: "db_ok d \<Longrightarrow> p \<in> set (profiles d) \<Longrightarrow> ref_ok (pf_default_mask p) (mask_ids d)"
  by (simp add: db_ok_def refs_ok_def)

definition provider_ok :: "db \<Rightarrow> provider_row \<Rightarrow> bool" where
  "provider_ok d p \<longleftrightarrow> pr_profile_id p \<in> profile_ids d \<and> ref_ok (pr_mask_id p) (mask_ids d)
     \<and> provider_kind_from_tag (pr_kind_tag p) \<noteq> None \<and> pr_extra p \<noteq> None"

lemma provider_rowD: "db_ok d \<Longrightarrow> p \<in> set (providers d) \<Longrightarrow> provider_ok d p \<and> pr_id p \<le> seq_providers d"
  by (simp add: db_ok_defs provider_ok_def)

lemma mask_rowD: "db_ok d \<Longrightarrow> m \<in> set (masks d) \<Longrightarrow> mr_profile_id m \<in> profile_ids d \<and> mr_id m \<le> seq_masks d"
  by (simp add: db_ok_defs)

lemma proxy_rowD: "db_ok d \<Longrightarrow> p \<in> set (proxies d) \<Longrightarrow> px_profile_id p \<in> profile_ids d \<and> px_id p \<le> seq_proxies d"
  by (simp add: db_ok_defs)

definition route_ok :: "db \<Rightarrow> route_row \<Rightarrow> bool" where
  "route_ok d r \<longleftrightarrow> ro_proxy_id r \<in> proxy_ids d \<and> strategy_from_tag (ro_strategy r) \<noteq> None"

lemma route_rowD: "db_ok d \<Longrightarrow> r \<in> set (routes d) \<Longrightarrow> route_ok d r \<and> ro_id r \<le> seq_routes d"
  by (simp add: db_ok_defs route_ok_def)

lemma entry_rowD: "db_ok d \<Longrightarrow> e \<in> set (entries d) \<Longrightarrow> entry_ok d e \<and> en_id e \<le> seq_entries d"
  by (simp add: db_ok_defs entry_ok_def)

lemma usage_rowD: "db_ok d \<Longrightarrow> u \<in> set (usage d) \<Longrightarrow> us_entry_id u \<in> entry_ids d \<and> us_id u \<le> seq_usage d"
  by (simp add: db_ok_defs)

lemma cache_rowD: "db_ok d \<Longrightarrow> c \<in> set (cache d) \<Longrightarrow> ca_route_id c \<in> route_ids d"
  by (simp add: db_ok_defs)

lemmas row_dests = profile_rowD provider_rowD mask_rowD proxy_rowD route_rowD entry_rowD usage_rowD cache_rowD

lemma db_keys:
  assumes "db_ok d"
  shows "distinct (map pf_id (profiles d))" "distinct (map pf_name (profiles d))"
    "distinct (map pr_id (providers d))" "distinct (map (\<lambda>p. (pr_profile_id p, pr_name p)) (providers d))"
    "distinct (map mr_id (masks d))" "distinct (map (\<lambda>m. (mr_profile_id m, mr_name m)) (masks d))"
    "distinct (map px_id (proxies d))" "distinct (map (\<lambda>p. (px_profile_id p, px_name p)) (proxies d))"
    "distinct (map ro_id (routes d))" "distinct (map (\<lambda>r. (ro_proxy_id r, ro_name r)) (routes d))"
    "distinct (map en_id (entries d))" "distinct (map us_id (usage d))"
    "distinct (map (\<lambda>c. (ca_route_id c, ca_req_hash c)) (cache d))"
  using assms by (simp_all add: db_ok_def keys_ok_def)

section \<open>Updates\<close>

lemma upd_profiles_ok:
  assumes ok: "db_ok d"
    and id: "\<And>p. pf_id (g p) = pf_id p"
    and row: "\<And>p. p \<in> set (profiles d) \<Longrightarrow> P p \<Longrightarrow> ref_ok (pf_default_mask (g p)) (mask_ids d)"
    and name: "distinct (map pf_name (upd_where P g (profiles d)))"
  shows "db_ok (d\<lparr>profiles := upd_where P g (profiles d)\<rparr>)"
proof (rule set_profiles_ok[OF ok])
  have ids: "pf_id ` set (upd_where P g (profiles d)) = profile_ids d"
    by (simp add: image_upd_same id profile_ids_def)
  show "\<forall>p\<in>set (upd_where P g (profiles d)). ref_ok (pf_default_mask p) (mask_ids d)"
    using row profile_rowD[OF ok] by (simp add: ball_upd_where)
  show "distinct (map pf_id (upd_where P g (profiles d)))"
    using db_keys(1)[OF ok] by (simp add: distinct_upd_same id)
  show "distinct (map pf_name (upd_where P g (profiles d)))" by (rule name)
qed (use provider_rowD[OF ok] mask_rowD[OF ok] proxy_rowD[OF ok] in
      \<open>auto simp: image_upd_same id provider_ok_def profile_ids_def\<close>)

lemma upd_providers_ok:
  assumes ok: "db_ok d"
    and id: "\<And>p. pr_id (g p) = pr_id p"
    and row: "\<And>p. p \<in> set (providers d) \<Longrightarrow> P p \<Longrightarrow> provider_ok d (g p)"
    and name: "distinct (map (\<lambda>p. (pr_profile_id p, pr_name p)) (upd_where P g (providers d)))"
  shows "db_ok (d\<lparr>providers := upd_where P g (providers d)\<rparr>)"
proof -
  have ids: "pr_id ` set (upd_where P g (providers d)) = provider_ids d"
    by (simp add: image_upd_same id provider_ids_def)
  have "db_ok (d\<lparr>providers := upd_where P g (providers d), seq_providers := seq_providers d\<rparr>)"
    using row provider_rowD[OF ok] db_keys(3)[OF ok] name entry_rowD[OF ok]
    by (intro set_providers_ok[OF ok])
       (simp_all add: ball_upd_where provider_ok_def distinct_upd_same id ids entry_ok_def)
  then show ?thesis by simp
qed

lemma upd_masks_ok:
  assumes ok: "db_ok d"
    and id: "\<And>m. mr_id (g m) = mr_id m" "\<And>m. mr_profile_id (g m) = mr_profile_id m"
    and name: "distinct (map (\<lambda>m. (mr_profile_id m, mr_name m)) (upd_where P g (masks d)))"
  shows "db_ok (d\<lparr>masks := upd_where P g (masks d)\<rparr>)"
proof -
  have ids: "mr_id ` set (upd_where P g (masks d)) = mask_ids d"
    by (simp add: image_upd_same id mask_ids_def)
  have "db_ok (d\<lparr>masks := upd_where P g (masks d), seq_masks := seq_masks d\<rparr>)"
    using mask_rowD[OF ok] db_keys(5)[OF ok] name profile_rowD[OF ok] provider_rowD[OF ok]
    by (intro set_masks_ok[OF ok])
       (simp_all add: ball_upd_where provider_ok_def distinct_upd_same id ids)
  then show ?thesis by simp
qed

lemma upd_proxies_ok:
  assumes ok: "db_ok d"
    and id: "\<And>m. px_id (g m) = px_id m" "\<And>m. px_profile_id (g m) = px_profile_id m"
    and name: "distinct (map (\<lambda>m. (px_profile_id m, px_name m)) (upd_where P g (proxies d)))"
  shows "db_ok (d\<lparr>proxies := upd_where P g (proxies d)\<rparr>)"
proof -
  have ids: "px_id ` set (upd_where P g (proxies d)) = proxy_ids d"
    by (simp add: image_upd_same id proxy_ids_def)
  have "db_ok (d\<lparr>proxies := upd_where P g (proxies d), seq_proxies := seq_proxies d\<rparr>)"
    using proxy_rowD[OF ok] db_keys(7)[OF ok] name route_rowD[OF ok]
    by (intro set_proxies_ok[OF ok])
       (simp_all add: ball_upd_where route_ok_def distinct_upd_same id ids)
  then show ?thesis by simp
qed

lemma upd_routes_ok:
  assumes ok: "db_ok d"
    and id: "\<And>r. ro_id (g r) = ro_id r"
    and row: "\<And>r. r \<in> set (routes d) \<Longrightarrow> P r \<Longrightarrow> route_ok d (g r)"
    and name: "distinct (map (\<lambda>r. (ro_proxy_id r, ro_name r)) (upd_where P g (routes d)))"
  shows "db_ok (d\<lparr>routes := upd_where P g (routes d)\<rparr>)"
proof -
  have ids: "ro_id ` set (upd_where P g (routes d)) = route_ids d"
    by (simp add: image_upd_same id route_ids_def)
  have "db_ok (d\<lparr>routes := upd_where P g (routes d), cache := cache d, seq_routes := seq_routes d\<rparr>)"
    using row route_rowD[OF ok] db_keys(9,13)[OF ok] name entry_rowD[OF ok] cache_rowD[OF ok]
    by (intro set_routes_ok[OF ok])
       (simp_all add: ball_upd_where route_ok_def distinct_upd_same id ids entry_ok_def)
  then show ?thesis by simp
qed

lemma upd_entries_ok:
  assumes ok: "db_ok d"
    and id: "\<And>e. en_id (g e) = en_id e"
    and row: "\<And>e. e \<in> set (entries d) \<Longrightarrow> P e \<Longrightarrow> entry_ok d (g e)"
  shows "db_ok (d\<lparr>entries := upd_where P g (entries d)\<rparr>)"
proof -
  have ids: "en_id ` set (upd_where P g (entries d)) = entry_ids d"
    by (simp add: image_upd_same id entry_ids_def)
  have "db_ok (d\<lparr>entries := upd_where P g (entries d), usage := usage d,
      seq_entries := seq_entries d, seq_usage := seq_usage d\<rparr>)"
    using row entry_rowD[OF ok] db_keys(11,12)[OF ok] usage_rowD[OF ok]
    by (intro set_entries_ok[OF ok])
       (simp_all add: ball_upd_where distinct_upd_same id ids)
  then show ?thesis by simp
qed

section \<open>Deletions\<close>

lemma del_entries_fields [simp]:
  "profiles (del_entries P d) = profiles d" "providers (del_entries P d) = providers d"
  "masks (del_entries P d) = masks d" "proxies (del_entries P d) = proxies d"
  "routes (del_entries P d) = routes d" "cache (del_entries P d) = cache d"
  "entries (del_entries P d) = filter (\<lambda>e. \<not> P e) (entries d)"
  by (simp_all add: del_entries_def Let_def)

lemma del_entries_ok:
  assumes ok: "db_ok d"
  shows "db_ok (del_entries P d)"
proof -
  have "us_entry_id u \<in> en_id ` {e \<in> set (entries d). \<not> P e}"
    if "u \<in> set (usage d)" "us_entry_id u \<notin> en_id ` {e \<in> set (entries d). P e}" for u
    using usage_rowD[OF ok that(1)] that(2) by (auto simp: entry_ids_def)
  then have "db_ok (d\<lparr>entries := filter (\<lambda>e. \<not> P e) (entries d),
      usage := filter (\<lambda>u. us_entry_id u \<notin> set (map en_id (filter P (entries d)))) (usage d),
      seq_entries := seq_entries d, seq_usage := seq_usage d\<rparr>)"
    using entry_rowD[OF ok] usage_rowD[OF ok] db_keys(11,12)[OF ok]
    by (intro set_entries_ok[OF ok]) (auto simp: distinct_map_filter)
  then show ?thesis by (simp add: del_entries_def Let_def)
qed

lemma kept_key:
  "k \<in> f ` set rs \<Longrightarrow> k \<notin> set (map f (filter P rs)) \<Longrightarrow> k \<in> f ` {r \<in> set rs. \<not> P r}"
  by auto

lemma kept_ref:
  "ref_ok m (f ` set rs) \<Longrightarrow> \<not> refers_to m (map f (filter P rs)) \<Longrightarrow> ref_ok m (f ` {r \<in> set rs. \<not> P r})"
  by (cases m) (auto simp: refers_to_def)

lemma del_routes_alt:
  "del_routes P d =
     (let gone = map ro_id (filter P (routes d));
          d' = del_entries (\<lambda>e. en_route_id e \<in> set gone \<or> refers_to (en_target_route_id e) gone) d
      in d'\<lparr>routes := filter (\<lambda>r. \<not> P r) (routes d'),
            cache := filter (\<lambda>c. ca_route_id c \<notin> set gone) (cache d')\<rparr>)"
  by (simp add: del_routes_def del_entries_def Let_def)

lemma del_routes_ok:
  assumes ok: "db_ok d"
  shows "db_ok (del_routes P d)"
proof -
  define gone where "gone = map ro_id (filter P (routes d))"
  define d' where "d' = del_entries (\<lambda>e. en_route_id e \<in> set gone \<or> refers_to (en_target_route_id e) gone) d"
  have ok': "db_ok d'" unfolding d'_def by (rule del_entries_ok[OF ok])
  have gone': "gone = map ro_id (filter P (routes d'))" by (simp add: gone_def d'_def)
  have e: "en_route_id e \<in> ro_id ` {r \<in> set (routes d'). \<not> P r}
      \<and> ref_ok (en_target_route_id e) (ro_id ` {r \<in> set (routes d'). \<not> P r})"
    if "e \<in> set (entries d')" for e
  proof -
    have "en_route_id e \<notin> set gone" "\<not> refers_to (en_target_route_id e) gone"
      using that by (auto simp: d'_def)
    moreover have "en_route_id e \<in> ro_id ` set (routes d')"
      "ref_ok (en_target_route_id e) (ro_id ` set (routes d'))"
      using entry_rowD[OF ok' that] by (auto simp: entry_ok_def route_ids_def)
    ultimately show ?thesis unfolding gone' by (intro conjI kept_key kept_ref)
  qed
  have c: "ca_route_id c \<in> ro_id ` {r \<in> set (routes d'). \<not> P r}"
    if "c \<in> set (cache d')" "ca_route_id c \<notin> set gone" for c
    using cache_rowD[OF ok' that(1)] that(2) unfolding gone' route_ids_def by (rule kept_key)
  have "db_ok (d'\<lparr>routes := filter (\<lambda>r. \<not> P r) (routes d'),
      cache := filter (\<lambda>c. ca_route_id c \<notin> set gone) (cache d'), seq_routes := seq_routes d'\<rparr>)"
    using route_rowD[OF ok'] db_keys(9,10,13)[OF ok'] e c
    by (intro set_routes_ok[OF ok']) (simp_all add: distinct_map_filter route_ok_def)
  then show ?thesis
    unfolding del_routes_alt Let_def d'_def[symmetric] gone_def[symmetric] by simp
qed

lemma del_routes_fields [simp]:
  "profiles (del_routes P d) = profiles d" "providers (del_routes P d) = providers d"
  "masks (del_routes P d) = masks d" "proxies (del_routes P d) = proxies d"
  "routes (del_routes P d) = filter (\<lambda>r. \<not> P r) (routes d)"
  by (simp_all add: del_routes_def Let_def)

lemma del_proxies_alt:
  "del_proxies P d =
     (let gone = map px_id (filter P (proxies d));
          d' = del_routes (\<lambda>r. ro_proxy_id r \<in> set gone) d
      in d'\<lparr>proxies := filter (\<lambda>p. \<not> P p) (proxies d')\<rparr>)"
  by (simp add: del_proxies_def del_routes_def del_entries_def Let_def)

lemma del_proxies_ok:
  assumes ok: "db_ok d"
  shows "db_ok (del_proxies P d)"
proof -
  define gone where "gone = map px_id (filter P (proxies d))"
  define d' where "d' = del_routes (\<lambda>r. ro_proxy_id r \<in> set gone) d"
  have ok': "db_ok d'" unfolding d'_def by (rule del_routes_ok[OF ok])
  have gone': "gone = map px_id (filter P (proxies d'))" by (simp add: gone_def d'_def)
  have "ro_proxy_id r \<in> px_id ` {p \<in> set (proxies d'). \<not> P p}" if "r \<in> set (routes d')" for r
  proof (rule kept_key[of _ px_id "proxies d'"])
    show "ro_proxy_id r \<in> px_id ` set (proxies d')"
      using route_rowD[OF ok' that] by (auto simp: route_ok_def proxy_ids_def)
    show "ro_proxy_id r \<notin> set (map px_id (filter P (proxies d')))"
      using that unfolding gone'[symmetric] by (simp add: d'_def)
  qed
  then have "db_ok (d'\<lparr>proxies := filter (\<lambda>p. \<not> P p) (proxies d'), seq_proxies := seq_proxies d'\<rparr>)"
    using proxy_rowD[OF ok'] db_keys(7,8)[OF ok']
    by (intro set_proxies_ok[OF ok']) (simp_all add: distinct_map_filter)
  then show ?thesis unfolding del_proxies_alt Let_def gone_def[symmetric] d'_def[symmetric] by simp
qed

lemma del_providers_alt:
  "del_providers P d =
     (let gone = map pr_id (filter P (providers d));
          d' = del_entries (\<lambda>e. refers_to (en_provider_id e) gone) d
      in d'\<lparr>providers := filter (\<lambda>p. \<not> P p) (providers d')\<rparr>)"
  by (simp add: del_providers_def del_entries_def Let_def)

lemma del_providers_ok:
  assumes ok: "db_ok d"
  shows "db_ok (del_providers P d)"
proof -
  define gone where "gone = map pr_id (filter P (providers d))"
  define d' where "d' = del_entries (\<lambda>e. refers_to (en_provider_id e) gone) d"
  have ok': "db_ok d'" unfolding d'_def by (rule del_entries_ok[OF ok])
  have gone': "gone = map pr_id (filter P (providers d'))" by (simp add: gone_def d'_def)
  have "ref_ok (en_provider_id e) (pr_id ` {p \<in> set (providers d'). \<not> P p})"
    if "e \<in> set (entries d')" for e
  proof (rule kept_ref)
    show "ref_ok (en_provider_id e) (pr_id ` set (providers d'))"
      using entry_rowD[OF ok' that] by (auto simp: entry_ok_def provider_ids_def)
    show "\<not> refers_to (en_provider_id e) (map pr_id (filter P (providers d')))"
      using that unfolding gone'[symmetric] by (simp add: d'_def)
  qed
  then have "db_ok (d'\<lparr>providers := filter (\<lambda>p. \<not> P p) (providers d'), seq_providers := seq_providers d'\<rparr>)"
    using provider_rowD[OF ok'] db_keys(3,4)[OF ok']
    by (intro set_providers_ok[OF ok']) (simp_all add: distinct_map_filter provider_ok_def)
  then show ?thesis unfolding del_providers_alt Let_def gone_def[symmetric] d'_def[symmetric] by simp
qed

lemma ref_ok_unbind:
  "ref_ok m (f ` set rs) \<Longrightarrow> ref_ok (unbind (map f (filter P rs)) m) (f ` {r \<in> set rs. \<not> P r})"
  by (auto simp: ref_ok_iff unbind_def split: option.splits if_splits)

lemma del_masks_ok:
  assumes ok: "db_ok d"
  shows "db_ok (del_masks P d)"
  using ok ref_ok_unbind[where f = mr_id and rs = "masks d" and P = P]
  by (simp add: db_ok_defs del_masks_def Let_def id_sets distinct_map_filter image_image o_def)

lemma del_fields [simp]:
  "profiles (del_proxies P d) = profiles d" "providers (del_proxies P d) = providers d"
  "masks (del_proxies P d) = masks d" "proxies (del_proxies P d) = filter (\<lambda>p. \<not> P p) (proxies d)"
  "profiles (del_providers Q d) = profiles d" "masks (del_providers Q d) = masks d"
  "proxies (del_providers Q d) = proxies d" "providers (del_providers Q d) = filter (\<lambda>p. \<not> Q p) (providers d)"
  "masks (del_masks R d) = filter (\<lambda>m. \<not> R m) (masks d)" "proxies (del_masks R d) = proxies d"
  by (simp_all add: del_proxies_def del_providers_def del_masks_def Let_def)

lemma del_set_profiles:
  "del_entries E (d\<lparr>profiles := T\<rparr>) = (del_entries E d)\<lparr>profiles := T\<rparr>"
  "del_routes R (d\<lparr>profiles := T\<rparr>) = (del_routes R d)\<lparr>profiles := T\<rparr>"
  "del_proxies P (d\<lparr>profiles := T\<rparr>) = (del_proxies P d)\<lparr>profiles := T\<rparr>"
  "del_providers Q (d\<lparr>profiles := T\<rparr>) = (del_providers Q d)\<lparr>profiles := T\<rparr>"
  by (simp_all add: del_entries_def del_routes_def del_proxies_def del_providers_def Let_def)

lemma del_masks_filter_profiles:
  assumes "\<And>p m. P (p\<lparr>pf_default_mask := m\<rparr>) = P p"
  shows "del_masks R (d\<lparr>profiles := filter P T\<rparr>) =
    (del_masks R d)\<lparr>profiles := filter P (profiles (del_masks R (d\<lparr>profiles := T\<rparr>)))\<rparr>"
proof -
  have "filter P (map (\<lambda>p. p\<lparr>pf_default_mask := unbind g (pf_default_mask p)\<rparr>) T) =
      map (\<lambda>p. p\<lparr>pf_default_mask := unbind g (pf_default_mask p)\<rparr>) (filter P T)" for g
    by (induction T) (auto simp: assms)
  then show ?thesis by (simp add: del_masks_def Let_def)
qed

lemma del_profiles_alt:
  assumes same: "\<And>p m. P (p\<lparr>pf_default_mask := m\<rparr>) = P p"
  shows "del_profiles P d =
    (let gone = set (map pf_id (filter P (profiles d)));
         d' = del_proxies (\<lambda>p. px_profile_id p \<in> gone)
                (del_masks (\<lambda>m. mr_profile_id m \<in> gone)
                  (del_providers (\<lambda>p. pr_profile_id p \<in> gone) d))
     in d'\<lparr>profiles := filter (\<lambda>p. \<not> P p) (profiles d')\<rparr>)"
proof -
  have id: "(del_providers Q d)\<lparr>profiles := profiles d\<rparr> = del_providers Q d" for Q
    by (simp add: del_providers_def del_entries_def Let_def)
  show ?thesis
    by (simp only: del_profiles_def Let_def del_set_profiles id del_fields
        del_masks_filter_profiles[where P = "\<lambda>p. \<not> P p", simplified same, OF refl])
qed

lemma del_profiles_ok:
  assumes ok: "db_ok d" and same: "\<And>p m. P (p\<lparr>pf_default_mask := m\<rparr>) = P p"
  shows "db_ok (del_profiles P d)"
proof -
  define gone where "gone = set (map pf_id (filter P (profiles d)))"
  define d1 where "d1 = del_providers (\<lambda>p. pr_profile_id p \<in> gone) d"
  define d2 where "d2 = del_masks (\<lambda>m. mr_profile_id m \<in> gone) d1"
  define d' where "d' = del_proxies (\<lambda>p. px_profile_id p \<in> gone) d2"
  have ok': "db_ok d'"
    unfolding d'_def d2_def d1_def by (intro del_proxies_ok del_masks_ok del_providers_ok ok)
  have eq: "del_profiles P d = d'\<lparr>profiles := filter (\<lambda>p. \<not> P p) (profiles d')\<rparr>"
    unfolding del_profiles_alt[OF same] Let_def gone_def[symmetric] d1_def[symmetric] d2_def[symmetric]
      d'_def[symmetric] ..
  have prof: "profiles d' = map (\<lambda>p. p\<lparr>pf_default_mask := unbind (map mr_id (filter (\<lambda>m. mr_profile_id m \<in> gone) (masks d))) (pf_default_mask p)\<rparr>) (profiles d)"
    by (simp add: d'_def d2_def d1_def del_masks_def Let_def)
  have keep: "k \<in> pf_id ` {p \<in> set (profiles d'). \<not> P p}" if "k \<in> profile_ids d'" "k \<notin> gone" for k
    using that by (force simp: profile_ids_def prof gone_def same)
  have "pr_profile_id p \<notin> gone" if "p \<in> set (providers d')" for p
    using that by (auto simp: d'_def d2_def d1_def del_masks_def Let_def)
  moreover have "mr_profile_id m \<notin> gone" if "m \<in> set (masks d')" for m
    using that by (auto simp: d'_def d2_def)
  moreover have "px_profile_id x \<notin> gone" if "x \<in> set (proxies d')" for x
    using that by (auto simp: d'_def)
  ultimately show ?thesis
    unfolding eq
    using profile_rowD[OF ok'] db_keys(1,2)[OF ok'] provider_rowD[OF ok'] mask_rowD[OF ok'] proxy_rowD[OF ok'] keep
    by (intro set_profiles_ok[OF ok']) (simp_all add: distinct_map_filter provider_ok_def)
qed

end
