(* ===== verification/Store_Machine.thy ===== *)
theory Store_Machine
  imports Store_Integrity
begin

text \<open>
  The store as a machine: one constructor per operation that writes, and the step it makes.
  Each operation keeps \<open>db_ok\<close>; the operations that refuse leave the database as it was.
\<close>

section \<open>Each operation keeps the invariant\<close>

lemma snd_require_changed [simp]: "snd (require_changed w n d) = d"
  by (simp add: require_changed_def)

lemma load_key_ok [keeps]: "db_ok d \<Longrightarrow> db_ok (snd (load_or_generate_master_key k d))"
  by (auto simp: load_or_generate_master_key_def db_ok_defs id_sets split: option.split)

subsection \<open>Profiles\<close>

lemma insert_profile_ok [keeps]:
  assumes "db_ok d" shows "db_ok (snd (insert_profile n desc h pid now d))"
  unfolding insert_profile_def Let_def
  using profile_rowD[OF assms] db_keys(1,2)[OF assms] provider_rowD[OF assms] mask_rowD[OF assms]
    proxy_rowD[OF assms]
  by (auto intro!: set_profiles_ok[OF assms] simp: assms profile_ids_def provider_ok_def)

lemma create_profile_ok [keeps]: "db_ok d \<Longrightarrow> db_ok (snd (create_profile n desc h a b now d))"
  by (simp add: create_profile_def keeps)

lemma create_profile_with_token_ok [keeps]:
  "db_ok d \<Longrightarrow> db_ok (snd (create_profile_with_token n desc h t now d))"
  by (simp add: create_profile_with_token_def keeps)

lemma delete_profile_ok [keeps]: "db_ok d \<Longrightarrow> db_ok (snd (delete_profile pid d))"
  by (simp add: delete_profile_def del_profiles_ok)

lemma rotate_profile_token_ok [keeps]:
  assumes ok: "db_ok d" shows "db_ok (snd (rotate_profile_token pid a b now d))"
proof (cases "fresh_token a b = pid")
  case True
  have "db_ok (d\<lparr>profiles := upd_where (\<lambda>p. pf_id p = pid) (\<lambda>p. p\<lparr>pf_id := pid, pf_updated_at := now\<rparr>) (profiles d)\<rparr>)"
  proof (rule set_profiles_ok[OF ok])
    have ids: "pf_id ` set (upd_where (\<lambda>p. pf_id p = pid) (\<lambda>p. p\<lparr>pf_id := pid, pf_updated_at := now\<rparr>) (profiles d)) = profile_ids d"
      by (simp add: image_upd_same profile_ids_def)
    show "\<forall>p\<in>set (providers d). pr_profile_id p \<in> pf_id ` set (upd_where (\<lambda>p. pf_id p = pid) (\<lambda>p. p\<lparr>pf_id := pid, pf_updated_at := now\<rparr>) (profiles d))"
      using provider_rowD[OF ok] by (simp add: ids provider_ok_def)
    show "\<forall>p\<in>set (masks d). mr_profile_id p \<in> pf_id ` set (upd_where (\<lambda>p. pf_id p = pid) (\<lambda>p. p\<lparr>pf_id := pid, pf_updated_at := now\<rparr>) (profiles d))"
      using mask_rowD[OF ok] by (simp add: ids)
    show "\<forall>p\<in>set (proxies d). px_profile_id p \<in> pf_id ` set (upd_where (\<lambda>p. pf_id p = pid) (\<lambda>p. p\<lparr>pf_id := pid, pf_updated_at := now\<rparr>) (profiles d))"
      using proxy_rowD[OF ok] by (simp add: ids)
  qed (use profile_rowD[OF ok] db_keys(1,2)[OF ok] in \<open>simp_all add: ball_upd_where distinct_upd_same\<close>)
  then show ?thesis using ok True by (simp add: rotate_profile_token_def Let_def)
next
  case False
  let ?new = "fresh_token a b"
  let ?T = "upd_where (\<lambda>p. pf_id p = pid) (\<lambda>p. p\<lparr>pf_id := ?new, pf_updated_at := now\<rparr>) (profiles d)"
  have "db_ok (d\<lparr>profiles := ?T\<rparr>)" if new: "?new \<notin> profile_ids d" and free: "\<not> profile_referenced pid d"
  proof (rule set_profiles_ok[OF ok])
    have keep: "k \<in> pf_id ` set ?T" if "k \<in> profile_ids d" "k \<noteq> pid" for k
      using that by (auto simp: set_upd_where profile_ids_def)
    show "\<forall>p\<in>set (providers d). pr_profile_id p \<in> pf_id ` set ?T"
      using provider_rowD[OF ok] free keep by (auto simp: provider_ok_def profile_referenced_def)
    show "\<forall>p\<in>set (masks d). mr_profile_id p \<in> pf_id ` set ?T"
      using mask_rowD[OF ok] free keep by (auto simp: profile_referenced_def)
    show "\<forall>p\<in>set (proxies d). px_profile_id p \<in> pf_id ` set ?T"
      using proxy_rowD[OF ok] free keep by (auto simp: profile_referenced_def)
    show "distinct (map pf_id ?T)"
      by (rule distinct_upd_key) (use db_keys(1)[OF ok] new in \<open>auto simp: profile_ids_def image_iff\<close>)
  qed (use profile_rowD[OF ok] db_keys(2)[OF ok] in \<open>simp_all add: ball_upd_where distinct_upd_same\<close>)
  then show ?thesis using ok False by (auto simp: rotate_profile_token_def Let_def)
qed

lemma upd_profile_ok:
  assumes "db_ok d" "\<And>p. pf_id (g p) = pf_id p" "\<And>p. pf_name (g p) = pf_name p"
    "\<And>p. p \<in> set (profiles d) \<Longrightarrow> pf_id p = pid \<Longrightarrow> ref_ok (pf_default_mask (g p)) (mask_ids d)"
  shows "db_ok (snd (upd_profile pid g d))"
  using assms db_keys(2)[OF assms(1)]
  by (simp add: upd_profile_def) (intro upd_profiles_ok, simp_all add: distinct_upd_same)

lemma set_profile_rpm_limit_ok [keeps]: "db_ok d \<Longrightarrow> db_ok (snd (set_profile_rpm_limit pid l now d))"
  unfolding set_profile_rpm_limit_def by (rule upd_profile_ok) (simp_all add: profile_rowD)

lemma set_profile_description_ok [keeps]: "db_ok d \<Longrightarrow> db_ok (snd (set_profile_description pid x now d))"
  unfolding set_profile_description_def by (rule upd_profile_ok) (simp_all add: profile_rowD)

lemma set_profile_password_ok [keeps]: "db_ok d \<Longrightarrow> db_ok (snd (set_profile_password pid x now d))"
  unfolding set_profile_password_def by (rule upd_profile_ok) (simp_all add: profile_rowD)

lemma clear_profile_password_ok [keeps]: "db_ok d \<Longrightarrow> db_ok (snd (clear_profile_password pid now d))"
  unfolding clear_profile_password_def by (rule upd_profile_ok) (simp_all add: profile_rowD)

lemma set_profile_default_masking_ok [keeps]:
  "db_ok d \<Longrightarrow> db_ok (snd (set_profile_default_masking pid m now d))"
  by (auto simp: set_profile_default_masking_def intro!: upd_profile_ok)

lemma rename_profile_ok [keeps]:
  assumes ok: "db_ok d" shows "db_ok (snd (rename_profile pid n now d))"
proof -
  have "db_ok (d\<lparr>profiles := upd_where (\<lambda>p. pf_id p = pid)
      (\<lambda>p. p\<lparr>pf_name := n, pf_updated_at := now\<rparr>) (profiles d)\<rparr>)"
    if "\<not> ((\<exists>p\<in>set (profiles d). pf_id p = pid) \<and> (\<exists>p\<in>set (profiles d). pf_id p \<noteq> pid \<and> pf_name p = n))"
  proof (rule upd_profiles_ok[OF ok])
    show "distinct (map pf_name (upd_where (\<lambda>p. pf_id p = pid)
      (\<lambda>p. p\<lparr>pf_name := n, pf_updated_at := now\<rparr>) (profiles d)))"
      by (rule distinct_upd_key) (use db_keys(1,2)[OF ok] that in auto)
  qed (simp_all add: profile_rowD[OF ok])
  then show ?thesis using ok by (auto simp: rename_profile_def upd_profile_def)
qed

subsection \<open>Masks\<close>

lemma create_masking_server_ok [keeps]:
  assumes ok: "db_ok d" shows "db_ok (snd (create_masking_server c nonce pid spec d))"
proof -
  have "db_ok (d\<lparr>masks := masks d @ [m], seq_masks := seq_masks d + 1\<rparr>)"
    if "mr_id m = seq_masks d + 1" "mr_profile_id m \<in> profile_ids d"
      "(mr_profile_id m, mr_name m) \<notin> (\<lambda>m. (mr_profile_id m, mr_name m)) ` set (masks d)" for m
    using that db_keys(5,6)[OF ok] mask_rowD[OF ok] profile_rowD[OF ok] provider_rowD[OF ok]
    by (intro set_masks_ok[OF ok])
       (fastforce simp: mask_ids_def provider_ok_def ref_ok_iff)+
  then show ?thesis using ok by (auto simp: create_masking_server_def Let_def)
qed

lemma upd_mask_ok:
  assumes "db_ok d" "\<And>m. mr_id (g m) = mr_id m" "\<And>m. mr_profile_id (g m) = mr_profile_id m"
    "\<And>m. mr_name (g m) = mr_name m"
  shows "db_ok (snd (upd_mask i g d))"
  using assms db_keys(6)[OF assms(1)]
  by (simp add: upd_mask_def) (intro upd_masks_ok, simp_all add: distinct_upd_same)

lemma set_mask_shared_ok [keeps]: "db_ok d \<Longrightarrow> db_ok (snd (set_mask_shared i b d))"
  unfolding set_mask_shared_def by (rule upd_mask_ok) simp_all

lemma set_masking_server_probe_ok [keeps]:
  "db_ok d \<Longrightarrow> db_ok (snd (set_masking_server_probe i ip asn country now d))"
  unfolding set_masking_server_probe_def by (rule upd_mask_ok) (simp_all add: probe_row_def)

lemma record_mask_probe_ok [keeps]: "db_ok d \<Longrightarrow> db_ok (snd (record_mask_probe i ip asn country now d))"
  using set_masking_server_probe_ok[of d i ip asn country now]
  by (simp add: set_masking_server_probe_def upd_mask_def record_mask_probe_def)

lemma update_masking_server_ok [keeps]:
  assumes ok: "db_ok d" shows "db_ok (snd (update_masking_server c nonce i spec d))"
proof -
  let ?g = "\<lambda>m. m\<lparr>mr_name := nm_name spec, mr_kind := nm_kind spec,
             mr_endpoint_url := nm_endpoint_url spec,
             mr_enc_secret := encrypt (ci_aead c) (ci_key c) nonce (nm_secret spec),
             mr_max_body_bytes := max 0 (nm_max_body_bytes spec),
             mr_expected_egress_ip := nm_expected_egress_ip spec, mr_shared := nm_shared spec\<rparr>"
  have "db_ok (d\<lparr>masks := upd_where (\<lambda>m. mr_id m = i) ?g (masks d)\<rparr>)"
    if "\<not> (\<exists>m\<in>set (masks d). mr_id m = i \<and>
          (\<exists>m'\<in>set (masks d). mr_id m' \<noteq> i \<and> mr_profile_id m' = mr_profile_id m \<and> mr_name m' = nm_name spec))"
  proof (rule upd_masks_ok[OF ok])
    show "distinct (map (\<lambda>m. (mr_profile_id m, mr_name m)) (upd_where (\<lambda>m. mr_id m = i) ?g (masks d)))"
      by (rule distinct_upd_key) (use db_keys(5,6)[OF ok] that in auto)
  qed simp_all
  then show ?thesis using ok by (auto simp: update_masking_server_def upd_mask_def)
qed

lemma delete_masking_server_ok [keeps]: "db_ok d \<Longrightarrow> db_ok (snd (delete_masking_server i d))"
  by (simp add: delete_masking_server_def del_masks_ok)

subsection \<open>Providers\<close>

lemma create_provider_ok [keeps]:
  assumes ok: "db_ok d" shows "db_ok (snd (create_provider c nonce pid spec d))"
proof -
  have "db_ok (d\<lparr>providers := providers d @ [p], seq_providers := seq_providers d + 1\<rparr>)"
    if "pr_id p = seq_providers d + 1" "provider_ok d p"
      "(pr_profile_id p, pr_name p) \<notin> (\<lambda>p. (pr_profile_id p, pr_name p)) ` set (providers d)" for p
    using that db_keys(3,4)[OF ok] provider_rowD[OF ok] entry_rowD[OF ok]
    by (intro set_providers_ok[OF ok])
       (fastforce simp: provider_ids_def provider_ok_def entry_ok_def ref_ok_iff)+
  then show ?thesis using ok by (auto simp: create_provider_def Let_def provider_ok_def)
qed

lemma upd_provider_ok:
  assumes "db_ok d" "\<And>p. pr_id (g p) = pr_id p" "\<And>p. pr_profile_id (g p) = pr_profile_id p"
    "\<And>p. pr_name (g p) = pr_name p"
    "\<And>p. p \<in> set (providers d) \<Longrightarrow> provider_ok d p \<Longrightarrow> provider_ok d (g p)"
  shows "db_ok (snd (upd_provider i g d))"
  using assms db_keys(4)[OF assms(1)] provider_rowD[OF assms(1)]
  by (simp add: upd_provider_def) (intro upd_providers_ok, simp_all add: distinct_upd_same)

lemma set_provider_shared_ok [keeps]: "db_ok d \<Longrightarrow> db_ok (snd (set_provider_shared i b d))"
  unfolding set_provider_shared_def by (rule upd_provider_ok) (simp_all add: provider_ok_def)

lemma set_provider_masking_ok [keeps]:
  assumes ok: "db_ok d" shows "db_ok (snd (set_provider_masking i m d))"
proof (cases "\<exists>p\<in>set (providers d). pr_id p = i")
  case True
  have "db_ok (snd (upd_provider i (\<lambda>p. p\<lparr>pr_mask_id := m\<rparr>) d))" if "ref_ok m (mask_ids d)"
    by (rule upd_provider_ok[OF ok]) (use that in \<open>simp_all add: provider_ok_def\<close>)
  then show ?thesis using ok True by (simp add: set_provider_masking_def)
next
  case False
  then show ?thesis using ok by (simp add: set_provider_masking_def upd_provider_def upd_where_none)
qed

lemma delete_provider_ok [keeps]: "db_ok d \<Longrightarrow> db_ok (snd (delete_provider i d))"
  by (simp add: delete_provider_def del_providers_ok)

lemma update_provider_ok [keeps]:
  assumes ok: "db_ok d" shows "db_ok (snd (update_provider c nonce i spec d))"
proof -
  let ?g = "\<lambda>p. p\<lparr>pr_name := np_name spec, pr_description := np_description spec,
             pr_base_url := np_base_url spec,
             pr_enc_token := encrypt (ci_aead c) (ci_key c) nonce (np_auth_token spec),
             pr_kind_tag := provider_kind_tag (np_kind spec),
             pr_extra := Some (np_extra_headers spec), pr_mask_id := np_mask_id spec,
             pr_shared := np_shared spec\<rparr>"
  have "db_ok (d\<lparr>providers := upd_where (\<lambda>p. pr_id p = i) ?g (providers d)\<rparr>)"
    if fresh: "\<not> (\<exists>p\<in>set (providers d). pr_id p = i \<and>
            (\<exists>q\<in>set (providers d). pr_id q \<noteq> i \<and> pr_profile_id q = pr_profile_id p \<and> pr_name q = np_name spec))"
      and ref: "(\<exists>p\<in>set (providers d). pr_id p = i) \<longrightarrow> ref_ok (np_mask_id spec) (mask_ids d)"
  proof (rule upd_providers_ok[OF ok])
    show "distinct (map (\<lambda>p. (pr_profile_id p, pr_name p)) (upd_where (\<lambda>p. pr_id p = i) ?g (providers d)))"
      by (rule distinct_upd_key) (use db_keys(3,4)[OF ok] fresh in auto)
    show "provider_ok d (?g p)" if "p \<in> set (providers d)" "pr_id p = i" for p
      using that ref provider_rowD[OF ok] by (auto simp: provider_ok_def)
  qed simp_all
  then show ?thesis using ok by (auto simp: update_provider_def upd_provider_def)
qed

subsection \<open>Proxies and routes\<close>

lemma create_proxy_ok [keeps]:
  assumes ok: "db_ok d" shows "db_ok (snd (create_proxy pid n desc d))"
proof -
  have "db_ok (d\<lparr>proxies := proxies d @ [p], seq_proxies := seq_proxies d + 1\<rparr>)"
    if "px_id p = seq_proxies d + 1" "px_profile_id p \<in> profile_ids d"
      "(px_profile_id p, px_name p) \<notin> (\<lambda>p. (px_profile_id p, px_name p)) ` set (proxies d)" for p
    using that db_keys(7,8)[OF ok] proxy_rowD[OF ok] route_rowD[OF ok]
    by (intro set_proxies_ok[OF ok]) (fastforce simp: proxy_ids_def route_ok_def)+
  then show ?thesis using ok by (auto simp: create_proxy_def Let_def)
qed

lemma delete_proxy_ok [keeps]: "db_ok d \<Longrightarrow> db_ok (snd (delete_proxy i d))"
  by (simp add: delete_proxy_def del_proxies_ok)

lemma update_proxy_ok [keeps]:
  assumes ok: "db_ok d" shows "db_ok (snd (update_proxy i n desc d))"
proof -
  let ?g = "\<lambda>p. p\<lparr>px_name := n, px_description := desc\<rparr>"
  have "db_ok (d\<lparr>proxies := upd_where (\<lambda>p. px_id p = i) ?g (proxies d)\<rparr>)"
    if "\<not> (\<exists>p\<in>set (proxies d). px_id p = i \<and>
            (\<exists>q\<in>set (proxies d). px_id q \<noteq> i \<and> px_profile_id q = px_profile_id p \<and> px_name q = n))"
  proof (rule upd_proxies_ok[OF ok])
    show "distinct (map (\<lambda>p. (px_profile_id p, px_name p)) (upd_where (\<lambda>p. px_id p = i) ?g (proxies d)))"
      by (rule distinct_upd_key) (use db_keys(7,8)[OF ok] that in auto)
  qed simp_all
  then show ?thesis using ok by (auto simp: update_proxy_def)
qed

lemma create_route_ok [keeps]:
  assumes ok: "db_ok d" shows "db_ok (snd (create_route x n desc s ident d))"
proof -
  have "db_ok (d\<lparr>routes := routes d @ [r], cache := cache d, seq_routes := seq_routes d + 1\<rparr>)"
    if "ro_id r = seq_routes d + 1" "route_ok d r"
      "(ro_proxy_id r, ro_name r) \<notin> (\<lambda>r. (ro_proxy_id r, ro_name r)) ` set (routes d)" for r
    using that db_keys(9,10,13)[OF ok] route_rowD[OF ok] entry_rowD[OF ok] cache_rowD[OF ok]
    by (intro set_routes_ok[OF ok])
       (fastforce simp: route_ids_def route_ok_def entry_ok_def ref_ok_iff)+
  then show ?thesis using ok by (auto simp: create_route_def Let_def route_ok_def)
qed

lemma upd_route_ok:
  assumes "db_ok d" "\<And>r. ro_id (g r) = ro_id r" "\<And>r. ro_proxy_id (g r) = ro_proxy_id r"
    "\<And>r. ro_name (g r) = ro_name r"
    "\<And>r. strategy_from_tag (ro_strategy r) \<noteq> None \<Longrightarrow> strategy_from_tag (ro_strategy (g r)) \<noteq> None"
  shows "db_ok (snd (upd_route i g d))"
  using assms db_keys(10)[OF assms(1)] route_rowD[OF assms(1)]
  by (simp add: upd_route_def) (intro upd_routes_ok, simp_all add: distinct_upd_same route_ok_def)

lemma set_route_shared_ok [keeps]: "db_ok d \<Longrightarrow> db_ok (snd (set_route_shared i b d))"
  unfolding set_route_shared_def by (rule upd_route_ok) simp_all

lemma set_route_prompt_cache_ok [keeps]: "db_ok d \<Longrightarrow> db_ok (snd (set_route_prompt_cache i p d))"
  unfolding set_route_prompt_cache_def by (rule upd_route_ok) simp_all

lemma set_route_economy_ok [keeps]: "db_ok d \<Longrightarrow> db_ok (snd (set_route_economy i m t d))"
  unfolding set_route_economy_def by (rule upd_route_ok) simp_all

lemma update_route_ok [keeps]:
  assumes ok: "db_ok d" shows "db_ok (snd (update_route i n desc s ident d))"
proof -
  let ?g = "\<lambda>r. r\<lparr>ro_name := n, ro_description := desc, ro_strategy := strategy_tag s, ro_identity := ident\<rparr>"
  have "db_ok (d\<lparr>routes := upd_where (\<lambda>r. ro_id r = i) ?g (routes d)\<rparr>)"
    if "\<not> (\<exists>r\<in>set (routes d). ro_id r = i \<and>
            (\<exists>q\<in>set (routes d). ro_id q \<noteq> i \<and> ro_proxy_id q = ro_proxy_id r \<and> ro_name q = n))"
  proof (rule upd_routes_ok[OF ok])
    show "distinct (map (\<lambda>r. (ro_proxy_id r, ro_name r)) (upd_where (\<lambda>r. ro_id r = i) ?g (routes d)))"
      by (rule distinct_upd_key) (use db_keys(9,10)[OF ok] that in auto)
    show "route_ok d (?g r)" if "r \<in> set (routes d)" for r
      using route_rowD[OF ok that] by (simp add: route_ok_def)
  qed simp_all
  then show ?thesis using ok by (auto simp: update_route_def upd_route_def)
qed

lemma delete_route_ok [keeps]: "db_ok d \<Longrightarrow> db_ok (snd (delete_route i d))"
  by (simp add: delete_route_def del_routes_ok)

subsection \<open>Entries\<close>

lemma insert_entry_ok:
  assumes ok: "db_ok d" and row: "en_id e = seq_entries d + 1" "entry_ok d e"
  shows "db_ok (d\<lparr>entries := entries d @ [e], seq_entries := seq_entries d + 1\<rparr>)"
proof -
  have "db_ok (d\<lparr>entries := entries d @ [e], usage := usage d, seq_entries := seq_entries d + 1,
      seq_usage := seq_usage d\<rparr>)"
    using row db_keys(11,12)[OF ok] entry_rowD[OF ok] usage_rowD[OF ok]
    by (intro set_entries_ok[OF ok]) (fastforce simp: entry_ids_def)+
  then show ?thesis by simp
qed

lemma add_route_entry_ok [keeps]:
  "db_ok d \<Longrightarrow> db_ok (snd (add_route_entry r p m pri w caps d))"
  by (auto simp: add_route_entry_def Let_def entry_ok_def one_target_def intro!: insert_entry_ok)

lemma add_route_entry_ref_ok [keeps]:
  "db_ok d \<Longrightarrow> db_ok (snd (add_route_entry_ref r t l pri w d))"
  by (auto simp: add_route_entry_ref_def Let_def entry_ok_def one_target_def intro!: insert_entry_ok)

lemma upd_entry_ok:
  assumes "db_ok d" "\<And>e. en_id (g e) = en_id e" "\<And>e. entry_ok d e \<Longrightarrow> entry_ok d (g e)"
  shows "db_ok (upd_entry i g d)"
  unfolding upd_entry_def using assms entry_rowD[OF assms(1)] by (intro upd_entries_ok) simp_all

lemma set_route_entry_price_ok [keeps]: "db_ok d \<Longrightarrow> db_ok (snd (set_route_entry_price i x d))"
  by (simp add: set_route_entry_price_def) (rule upd_entry_ok, simp_all add: entry_ok_def)

lemma set_route_entry_status_ok [keeps]: "db_ok d \<Longrightarrow> db_ok (snd (set_route_entry_status i x d))"
  by (simp add: set_route_entry_status_def) (rule upd_entry_ok, simp_all add: entry_ok_def)

lemma set_route_entry_cooldown_ok [keeps]: "db_ok d \<Longrightarrow> db_ok (snd (set_route_entry_cooldown i x d))"
  by (simp add: set_route_entry_cooldown_def) (rule upd_entry_ok, simp_all add: entry_ok_def)

lemma set_route_entry_priority_ok [keeps]: "db_ok d \<Longrightarrow> db_ok (snd (set_route_entry_priority i x d))"
  by (simp add: set_route_entry_priority_def) (rule upd_entry_ok, simp_all add: entry_ok_def)

lemma set_route_entry_vision_ok [keeps]: "db_ok d \<Longrightarrow> db_ok (snd (set_route_entry_vision i x d))"
  by (auto simp: set_route_entry_vision_def Let_def entry_ok_def split: option.split intro!: upd_entry_ok)

lemma delete_route_entry_ok [keeps]: "db_ok d \<Longrightarrow> db_ok (snd (delete_route_entry i d))"
  by (simp add: delete_route_entry_def del_entries_ok)

lemma update_route_entry_ok [keeps]:
  assumes ok: "db_ok d" shows "db_ok (snd (update_route_entry i m p w caps d))"
proof -
  let ?g = "\<lambda>e. e\<lparr>en_model_id := m, en_provider_id := Some p, en_weight := w, en_capabilities := Some caps\<rparr>"
  have "db_ok (upd_entry i ?g d)"
    if "(\<exists>e\<in>set (entries d). en_id e = i) \<longrightarrow> w \<noteq> FNaN \<and> p \<in> provider_ids d"
      "\<forall>e\<in>set (entries d). en_id e = i \<longrightarrow> one_target (Some p) (en_target_route_id e)"
    unfolding upd_entry_def
  proof (rule upd_entries_ok[OF ok])
    show "entry_ok d (?g e)" if e: "e \<in> set (entries d)" "en_id e = i" for e
      using entry_rowD[OF ok e(1)] e \<open>_ \<longrightarrow> w \<noteq> FNaN \<and> _\<close> \<open>\<forall>e\<in>_. _\<close> by (auto simp: entry_ok_def)
  qed simp
  then show ?thesis using ok by (auto simp: update_route_entry_def Let_def)
qed

subsection \<open>Usage and cache\<close>

lemma record_usage_ok [keeps]:
  assumes ok: "db_ok d" shows "db_ok (snd (record_usage r now d))"
proof -
  have "db_ok (d\<lparr>entries := entries d, usage := usage d @ [u], seq_entries := seq_entries d,
      seq_usage := seq_usage d + 1\<rparr>)"
    if "us_id u = seq_usage d + 1" "us_entry_id u \<in> entry_ids d" for u
    using that db_keys(11,12)[OF ok] entry_rowD[OF ok] usage_rowD[OF ok]
    by (intro set_entries_ok[OF ok]) (fastforce simp: entry_ids_def)+
  then show ?thesis using ok by (auto simp: record_usage_def Let_def)
qed

lemma prune_usage_log_ok [keeps]:
  assumes ok: "db_ok d" shows "db_ok (snd (prune_usage_log k now d))"
proof -
  have "db_ok (d\<lparr>entries := entries d, usage := filter P (usage d), seq_entries := seq_entries d,
      seq_usage := seq_usage d\<rparr>)" for P
    using db_keys(11,12)[OF ok] entry_rowD[OF ok] usage_rowD[OF ok]
    by (intro set_entries_ok[OF ok]) (simp_all add: entry_ids_def distinct_map_filter)
  then show ?thesis using ok by (simp add: prune_usage_log_def Let_def)
qed

lemma drop_expired_ok [keeps]: "db_ok d \<Longrightarrow> db_ok (drop_expired now d)"
  unfolding drop_expired_def
  by (intro set_cache_ok) (simp_all add: cache_rowD distinct_map_filter db_keys)

lemma cache_get_ok [keeps]: "db_ok d \<Longrightarrow> db_ok (snd (cache_get r h now d))"
  by (simp add: cache_get_def Let_def keeps)

lemma prune_response_cache_ok [keeps]: "db_ok d \<Longrightarrow> db_ok (snd (prune_response_cache now d))"
  by (simp add: prune_response_cache_def keeps)

lemma cache_put_ok [keeps]:
  assumes ok: "db_ok d" shows "db_ok (snd (cache_put r h b p c now ttl d))"
proof -
  let ?row = "\<lparr>ca_route_id = r, ca_req_hash = h, ca_resp = b, ca_prompt_tokens = p,
    ca_completion_tokens = c, ca_created_at = now, ca_expires_at = cache_expiry now ttl\<rparr>"
  let ?hit = "\<lambda>c. ca_route_id c = r \<and> ca_req_hash c = h"
  let ?key = "\<lambda>c. (ca_route_id c, ca_req_hash c)"
  have upd: "db_ok (d\<lparr>cache := upd_where ?hit (\<lambda>c. ?row) (cache d)\<rparr>)"
  proof (rule set_cache_ok[OF ok])
    show "\<forall>c\<in>set (upd_where ?hit (\<lambda>c. ?row) (cache d)). ca_route_id c \<in> route_ids d"
      using cache_rowD[OF ok] by (auto simp: ball_upd_where)
    show "distinct (map ?key (upd_where ?hit (\<lambda>c. ?row) (cache d)))"
      by (rule distinct_upd_same[OF db_keys(13)[OF ok]]) simp
  qed
  have ins: "db_ok (d\<lparr>cache := cache d @ [?row]\<rparr>)"
    if "r \<in> route_ids d" "n_where ?hit (cache d) = 0"
    using that cache_rowD[OF ok] db_keys(13)[OF ok]
    by (intro set_cache_ok[OF ok]) (auto simp: n_where_0)
  show ?thesis using ok upd ins by (simp add: cache_put_def Let_def)
qed

section \<open>The machine\<close>

text \<open>
  One constructor per operation of \<open>Store\<close> that may write; its arguments are those of the
  operation, the clock, random and cipher values included.
\<close>

datatype profile_op =
    Load_Key bytes
  | Create_Profile string "string option" "string option" nat nat int
  | Create_Profile_With_Token string "string option" "string option" string int
  | Delete_Profile string
  | Rotate_Token string nat nat int
  | Set_Rpm string int int
  | Rename_Profile string string int
  | Describe_Profile string "string option" int
  | Set_Password string string int
  | Clear_Password string int
  | Default_Mask string "int option" int

primrec exec_profile :: "profile_op \<Rightarrow> db \<Rightarrow> db" where
  "exec_profile (Load_Key x1) d = snd (load_or_generate_master_key x1 d)"
| "exec_profile (Create_Profile x1 x2 x3 x4 x5 x6) d = snd (create_profile x1 x2 x3 x4 x5 x6 d)"
| "exec_profile (Create_Profile_With_Token x1 x2 x3 x4 x5) d = snd (create_profile_with_token x1 x2 x3 x4 x5 d)"
| "exec_profile (Delete_Profile x1) d = snd (delete_profile x1 d)"
| "exec_profile (Rotate_Token x1 x2 x3 x4) d = snd (rotate_profile_token x1 x2 x3 x4 d)"
| "exec_profile (Set_Rpm x1 x2 x3) d = snd (set_profile_rpm_limit x1 x2 x3 d)"
| "exec_profile (Rename_Profile x1 x2 x3) d = snd (rename_profile x1 x2 x3 d)"
| "exec_profile (Describe_Profile x1 x2 x3) d = snd (set_profile_description x1 x2 x3 d)"
| "exec_profile (Set_Password x1 x2 x3) d = snd (set_profile_password x1 x2 x3 d)"
| "exec_profile (Clear_Password x1 x2) d = snd (clear_profile_password x1 x2 d)"
| "exec_profile (Default_Mask x1 x2 x3) d = snd (set_profile_default_masking x1 x2 x3 d)"

lemma exec_profile_ok [keeps]: "db_ok d \<Longrightarrow> db_ok (exec_profile op d)"
  by (cases op) (simp_all add: keeps)

datatype mask_op =
    Create_Mask cipher bytes string new_mask
  | Share_Mask int bool
  | Probe_Mask int string "string option" "string option" int
  | Record_Probe int string "string option" "string option" int
  | Update_Mask cipher bytes int new_mask
  | Delete_Mask int

primrec exec_mask :: "mask_op \<Rightarrow> db \<Rightarrow> db" where
  "exec_mask (Create_Mask x1 x2 x3 x4) d = snd (create_masking_server x1 x2 x3 x4 d)"
| "exec_mask (Share_Mask x1 x2) d = snd (set_mask_shared x1 x2 d)"
| "exec_mask (Probe_Mask x1 x2 x3 x4 x5) d = snd (set_masking_server_probe x1 x2 x3 x4 x5 d)"
| "exec_mask (Record_Probe x1 x2 x3 x4 x5) d = snd (record_mask_probe x1 x2 x3 x4 x5 d)"
| "exec_mask (Update_Mask x1 x2 x3 x4) d = snd (update_masking_server x1 x2 x3 x4 d)"
| "exec_mask (Delete_Mask x1) d = snd (delete_masking_server x1 d)"

lemma exec_mask_ok [keeps]: "db_ok d \<Longrightarrow> db_ok (exec_mask op d)"
  by (cases op) (simp_all add: keeps)

datatype provider_op =
    Create_Provider cipher bytes string new_provider
  | Share_Provider int bool
  | Bind_Mask int "int option"
  | Delete_Provider int
  | Update_Provider cipher bytes int new_provider

primrec exec_provider :: "provider_op \<Rightarrow> db \<Rightarrow> db" where
  "exec_provider (Create_Provider x1 x2 x3 x4) d = snd (create_provider x1 x2 x3 x4 d)"
| "exec_provider (Share_Provider x1 x2) d = snd (set_provider_shared x1 x2 d)"
| "exec_provider (Bind_Mask x1 x2) d = snd (set_provider_masking x1 x2 d)"
| "exec_provider (Delete_Provider x1) d = snd (delete_provider x1 d)"
| "exec_provider (Update_Provider x1 x2 x3 x4) d = snd (update_provider x1 x2 x3 x4 d)"

lemma exec_provider_ok [keeps]: "db_ok d \<Longrightarrow> db_ok (exec_provider op d)"
  by (cases op) (simp_all add: keeps)

datatype route_op =
    Create_Proxy string string "string option"
  | Delete_Proxy int
  | Update_Proxy int string "string option"
  | Create_Route int string "string option" routing_strategy "string option"
  | Share_Route int bool
  | Route_Cache_Policy int prompt_cache_policy
  | Route_Economy int nat int
  | Update_Route int string "string option" routing_strategy "string option"
  | Delete_Route int

primrec exec_route :: "route_op \<Rightarrow> db \<Rightarrow> db" where
  "exec_route (Create_Proxy x1 x2 x3) d = snd (create_proxy x1 x2 x3 d)"
| "exec_route (Delete_Proxy x1) d = snd (delete_proxy x1 d)"
| "exec_route (Update_Proxy x1 x2 x3) d = snd (update_proxy x1 x2 x3 d)"
| "exec_route (Create_Route x1 x2 x3 x4 x5) d = snd (create_route x1 x2 x3 x4 x5 d)"
| "exec_route (Share_Route x1 x2) d = snd (set_route_shared x1 x2 d)"
| "exec_route (Route_Cache_Policy x1 x2) d = snd (set_route_prompt_cache x1 x2 d)"
| "exec_route (Route_Economy x1 x2 x3) d = snd (set_route_economy x1 x2 x3 d)"
| "exec_route (Update_Route x1 x2 x3 x4 x5) d = snd (update_route x1 x2 x3 x4 x5 d)"
| "exec_route (Delete_Route x1) d = snd (delete_route x1 d)"

lemma exec_route_ok [keeps]: "db_ok d \<Longrightarrow> db_ok (exec_route op d)"
  by (cases op) (simp_all add: keeps)

datatype entry_op =
    Add_Entry int int string int f64 route_capabilities
  | Add_Nested_Entry int int string int f64
  | Price_Entry int f64
  | Entry_Status int model_status
  | Entry_Cooldown int int
  | Entry_Priority int int
  | Entry_Vision int bool
  | Delete_Entry int
  | Update_Entry int string int f64 route_capabilities

primrec exec_entry :: "entry_op \<Rightarrow> db \<Rightarrow> db" where
  "exec_entry (Add_Entry x1 x2 x3 x4 x5 x6) d = snd (add_route_entry x1 x2 x3 x4 x5 x6 d)"
| "exec_entry (Add_Nested_Entry x1 x2 x3 x4 x5) d = snd (add_route_entry_ref x1 x2 x3 x4 x5 d)"
| "exec_entry (Price_Entry x1 x2) d = snd (set_route_entry_price x1 x2 d)"
| "exec_entry (Entry_Status x1 x2) d = snd (set_route_entry_status x1 x2 d)"
| "exec_entry (Entry_Cooldown x1 x2) d = snd (set_route_entry_cooldown x1 x2 d)"
| "exec_entry (Entry_Priority x1 x2) d = snd (set_route_entry_priority x1 x2 d)"
| "exec_entry (Entry_Vision x1 x2) d = snd (set_route_entry_vision x1 x2 d)"
| "exec_entry (Delete_Entry x1) d = snd (delete_route_entry x1 d)"
| "exec_entry (Update_Entry x1 x2 x3 x4 x5) d = snd (update_route_entry x1 x2 x3 x4 x5 d)"

lemma exec_entry_ok [keeps]: "db_ok d \<Longrightarrow> db_ok (exec_entry op d)"
  by (cases op) (simp_all add: keeps)

datatype log_op =
    Record_Usage new_usage int
  | Prune_Usage nat int
  | Cache_Get int string int
  | Cache_Put int string bytes "int option" "int option" int int
  | Prune_Cache int

primrec exec_log :: "log_op \<Rightarrow> db \<Rightarrow> db" where
  "exec_log (Record_Usage x1 x2) d = snd (record_usage x1 x2 d)"
| "exec_log (Prune_Usage x1 x2) d = snd (prune_usage_log x1 x2 d)"
| "exec_log (Cache_Get x1 x2 x3) d = snd (cache_get x1 x2 x3 d)"
| "exec_log (Cache_Put x1 x2 x3 x4 x5 x6 x7) d = snd (cache_put x1 x2 x3 x4 x5 x6 x7 d)"
| "exec_log (Prune_Cache x1) d = snd (prune_response_cache x1 d)"

lemma exec_log_ok [keeps]: "db_ok d \<Longrightarrow> db_ok (exec_log op d)"
  by (cases op) (simp_all add: keeps)

datatype store_op =
    On_Profile profile_op
  | On_Mask mask_op
  | On_Provider provider_op
  | On_Route route_op
  | On_Entry entry_op
  | On_Log log_op

primrec exec_op :: "store_op \<Rightarrow> db \<Rightarrow> db" where
  "exec_op (On_Profile x) d = exec_profile x d"
| "exec_op (On_Mask x) d = exec_mask x d"
| "exec_op (On_Provider x) d = exec_provider x d"
| "exec_op (On_Route x) d = exec_route x d"
| "exec_op (On_Entry x) d = exec_entry x d"
| "exec_op (On_Log x) d = exec_log x d"

lemma exec_op_ok [keeps]: "db_ok d \<Longrightarrow> db_ok (exec_op op d)"
  by (cases op) (simp_all add: keeps)

interpretation store: invariant_machine exec_op db_ok
  by unfold_locales (rule exec_op_ok)

text \<open>A store that was reached from an empty file by some operations.\<close>

definition reached :: "store_op list \<Rightarrow> db" where
  "reached ops = fold exec_op ops empty_db"

lemma reached_ok [simp]: "db_ok (reached ops)"
  unfolding reached_def by (rule store.run_inv[OF empty_db_ok])

end
