(* ===== verification/Store_Secrets.thy ===== *)
theory Store_Secrets
  imports Store_Machine
begin

text \<open>
  Secrets in the store. A store is sealed under a cipher when every stored token and secret
  decrypts under it. Operations that use that cipher keep it so; then no read fails, and
  what was written comes back. The mask a provider is read with is its own binding, else
  its profile's default.
\<close>

section \<open>A sealed store\<close>

definition opens :: "cipher \<Rightarrow> bytes \<Rightarrow> bool" where
  "opens c b \<longleftrightarrow> (case decrypt (ci_aead c) (ci_key c) b of Inl e \<Rightarrow> False | Inr s \<Rightarrow> True)"

definition sealed :: "cipher \<Rightarrow> db \<Rightarrow> bool" where
  "sealed c d \<longleftrightarrow> (\<forall>p\<in>set (providers d). opens c (pr_enc_token p))
     \<and> (\<forall>m\<in>set (masks d). opens c (mr_enc_secret m))"

text \<open>The values of the machine that are secrets: a good nonce, and text (valid UTF-8).\<close>

definition secret_args :: "cipher \<Rightarrow> cipher \<Rightarrow> bytes \<Rightarrow> string \<Rightarrow> bool" where
  "secret_args c c' nonce s \<longleftrightarrow> c' = c \<and> length nonce = NONCE_LEN \<and> valid_utf8 s"

definition op_sealed :: "cipher \<Rightarrow> store_op \<Rightarrow> bool" where
  "op_sealed c op =
     (case op of
        On_Mask (Create_Mask c' nonce pid spec) \<Rightarrow> secret_args c c' nonce (nm_secret spec)
      | On_Mask (Update_Mask c' nonce i spec) \<Rightarrow> secret_args c c' nonce (nm_secret spec)
      | On_Provider (Create_Provider c' nonce pid spec) \<Rightarrow> secret_args c c' nonce (np_auth_token spec)
      | On_Provider (Update_Provider c' nonce i spec) \<Rightarrow> secret_args c c' nonce (np_auth_token spec)
      | _ \<Rightarrow> True)"

lemma opens_encrypt:
  "cipher_ok c \<Longrightarrow> secret_args c c' nonce s \<Longrightarrow> opens c (encrypt (ci_aead c') (ci_key c') nonce s)"
  by (simp add: opens_def secret_args_def cipher_ok_def decrypt_encrypt)

lemma sealed_frame [simp]:
  "sealed c (d\<lparr>db_master_key := k\<rparr>) = sealed c d" "sealed c (d\<lparr>profiles := pf\<rparr>) = sealed c d"
  "sealed c (d\<lparr>proxies := px\<rparr>) = sealed c d" "sealed c (d\<lparr>routes := r\<rparr>) = sealed c d"
  "sealed c (d\<lparr>entries := e\<rparr>) = sealed c d" "sealed c (d\<lparr>usage := u\<rparr>) = sealed c d"
  "sealed c (d\<lparr>cache := x\<rparr>) = sealed c d" "sealed c (d\<lparr>seq_proxies := n\<rparr>) = sealed c d"
  "sealed c (d\<lparr>seq_routes := n\<rparr>) = sealed c d" "sealed c (d\<lparr>seq_entries := n\<rparr>) = sealed c d"
  "sealed c (d\<lparr>seq_usage := n\<rparr>) = sealed c d"
  by (simp_all add: sealed_def)

lemma sealed_del [simp]:
  assumes "sealed c d"
  shows "sealed c (del_entries E d)" "sealed c (del_routes R d)" "sealed c (del_proxies X d)"
    "sealed c (del_providers P d)" "sealed c (del_masks M d)"
  using assms by (simp_all add: sealed_def del_masks_def Let_def)

lemma sealed_del_profiles [simp]:
  assumes "sealed c d" shows "sealed c (del_profiles P d)"
  using assms by (simp add: del_profiles_def Let_def)

lemma sealed_profile: "sealed c d \<Longrightarrow> sealed c (exec_profile op d)"
  by (cases op)
     (auto simp: load_or_generate_master_key_def create_profile_def create_profile_with_token_def
       insert_profile_def Let_def delete_profile_def rotate_profile_token_def set_profile_rpm_limit_def
       rename_profile_def set_profile_description_def set_profile_password_def
       clear_profile_password_def set_profile_default_masking_def upd_profile_def
       split: option.splits)

lemma sealed_mask:
  "cipher_ok c \<Longrightarrow> sealed c d \<Longrightarrow> op_sealed c (On_Mask op) \<Longrightarrow> sealed c (exec_mask op d)"
  by (cases op)
     (auto simp: create_masking_server_def Let_def set_mask_shared_def set_masking_server_probe_def
       record_mask_probe_def update_masking_server_def delete_masking_server_def upd_mask_def
       sealed_def ball_upd_where probe_row_def op_sealed_def opens_encrypt del_masks_def)

lemma sealed_provider:
  "cipher_ok c \<Longrightarrow> sealed c d \<Longrightarrow> op_sealed c (On_Provider op) \<Longrightarrow> sealed c (exec_provider op d)"
  by (cases op)
     (auto simp: create_provider_def Let_def set_provider_shared_def set_provider_masking_def
       delete_provider_def update_provider_def upd_provider_def
       sealed_def ball_upd_where op_sealed_def opens_encrypt)

lemma sealed_route: "sealed c d \<Longrightarrow> sealed c (exec_route op d)"
  by (cases op)
     (auto simp: create_proxy_def delete_proxy_def update_proxy_def create_route_def set_route_shared_def
        set_route_prompt_cache_def set_route_economy_def update_route_def delete_route_def upd_route_def
        Let_def)

lemma sealed_entry: "sealed c d \<Longrightarrow> sealed c (exec_entry op d)"
  by (cases op)
     (auto simp: add_route_entry_def add_route_entry_ref_def set_route_entry_price_def
        set_route_entry_status_def set_route_entry_cooldown_def set_route_entry_priority_def
        set_route_entry_vision_def delete_route_entry_def update_route_entry_def upd_entry_def
        Let_def split: option.splits)

lemma sealed_log: "sealed c d \<Longrightarrow> sealed c (exec_log op d)"
  by (cases op)
     (auto simp: record_usage_def prune_usage_log_def cache_get_def cache_put_def prune_response_cache_def
        drop_expired_def Let_def)

lemma sealed_exec:
  "cipher_ok c \<Longrightarrow> op_sealed c op \<Longrightarrow> sealed c d \<Longrightarrow> sealed c (exec_op op d)"
  by (cases op) (simp_all add: sealed_profile sealed_mask sealed_provider sealed_route sealed_entry sealed_log)

lemma sealed_reached:
  assumes "cipher_ok c" "\<forall>op\<in>set ops. op_sealed c op"
  shows "sealed c (reached ops)"
proof -
  have "sealed c (fold exec_op ops d)" if "sealed c d" for d
    using assms(2) that
  proof (induction ops arbitrary: d)
    case (Cons op ops)
    have "sealed c (exec_op op d)" by (rule sealed_exec) (use assms(1) Cons.prems in simp_all)
    with Cons show ?case by simp
  qed simp
  moreover have "sealed c empty_db" by (simp add: sealed_def empty_db_def)
  ultimately show ?thesis by (simp add: reached_def)
qed

section \<open>Reads of a sealed store succeed\<close>

lemma build_mask_total:
  assumes "opens c (mr_enc_secret m)" shows "\<exists>x. build_mask c m = Inr x"
proof -
  obtain s where "decrypt (ci_aead c) (ci_key c) (mr_enc_secret m) = Inr s"
    using assms unfolding opens_def by (cases "decrypt (ci_aead c) (ci_key c) (mr_enc_secret m)") simp_all
  then show ?thesis by (simp add: build_mask_def lift_crypto_def res_bind_def)
qed

lemma build_joined_total:
  assumes "db_ok d" "sealed c d" "p \<in> set (providers d)"
  shows "\<exists>x. build_joined c d p = Inr x"
proof -
  have hop: "\<exists>x. build_mask c m = Inr x" if joined: "mask_join d p = Some m" for m
  proof (rule build_mask_total)
    obtain i where "find (\<lambda>m. mr_id m = i) (masks d) = Some m"
      using joined unfolding mask_join_def by (cases "effective_mask_id d p") simp_all
    then show "opens c (mr_enc_secret m)"
      using assms(2) by (auto dest!: find_mem simp: sealed_def)
  qed
  have "opens c (pr_enc_token p)" using assms by (simp add: sealed_def)
  then obtain t where "decrypt (ci_aead c) (ci_key c) (pr_enc_token p) = Inr t"
    unfolding opens_def by (cases "decrypt (ci_aead c) (ci_key c) (pr_enc_token p)") simp_all
  moreover obtain k h where "provider_kind_from_tag (pr_kind_tag p) = Some k" "pr_extra p = Some h"
    using provider_rowD[OF assms(1,3)] by (auto simp: provider_ok_def)
  ultimately have "\<exists>x. build_provider c p hop = Inr x"
    if "hop = None \<or> (\<exists>m x. hop = Some m \<and> build_mask c m = Inr x)" for hop
    using that by (auto simp: build_provider_def lift_crypto_def res_bind_def ok_or_def)
  then show ?thesis using hop by (cases "mask_join d p") (simp_all add: build_joined_def)
qed

lemma map_res_ex:
  "(\<And>x. x \<in> set xs \<Longrightarrow> \<exists>y. f x = Inr y) \<Longrightarrow> \<exists>ys. map_res f xs = Inr ys"
proof (induction xs)
  case (Cons x xs)
  obtain y where "f x = Inr y" using Cons.prems[of x] by auto
  moreover obtain ys where "map_res f xs = Inr ys" using Cons by auto
  ultimately show ?case by simp
qed simp

lemma map_route_row_total: "route_ok d r \<Longrightarrow> \<exists>x. map_route_row r = Inr x"
  by (auto simp: route_ok_def map_route_row_def res_bind_def ok_or_def split: option.splits)

lemma map_route_entry_row_total: "entry_ok d e \<Longrightarrow> \<exists>x. map_route_entry_row e = Inr x"
  by (auto simp: entry_ok_def map_route_entry_row_def res_bind_def ok_or_def split: option.splits)

lemma list_routes_total: "db_ok d \<Longrightarrow> \<exists>x. list_routes i d = Inr x"
  unfolding list_routes_def by (rule map_res_ex) (auto intro: map_route_row_total[of d] dest: route_rowD)

lemma route_entries_total: "db_ok d \<Longrightarrow> \<exists>x. route_entries i d = Inr x"
  unfolding route_entries_def
  by (rule map_res_ex) (auto intro: map_route_entry_row_total[of d] dest: entry_rowD)

lemma opt_route_total:
  "db_ok d \<Longrightarrow> \<exists>x. opt_route (find P (routes d)) = Inr x"
  using map_route_row_total[of d] route_rowD[of d] find_mem[of P "routes d"]
  by (cases "find P (routes d)") (fastforce simp: opt_route_def res_bind_def)+

lemma get_provider_total: "db_ok d \<Longrightarrow> sealed c d \<Longrightarrow> \<exists>x. get_provider c i d = Inr x"
  using build_joined_total[of d c] find_mem[of _ "providers d"]
  by (fastforce simp: get_provider_def res_bind_def split: option.splits)

lemma list_providers_total: "db_ok d \<Longrightarrow> sealed c d \<Longrightarrow> \<exists>x. list_providers_for c pid d = Inr x"
  unfolding list_providers_for_def by (rule map_res_ex) (auto intro: build_joined_total)

lemma entries_needing_probe_total:
  assumes "db_ok d" "sealed c d" shows "\<exists>x. entries_needing_probe c d = Inr x"
proof -
  let ?rows = "concat (map (\<lambda>e. map (\<lambda>p. (e, p)) (filter (\<lambda>p. en_provider_id e = Some (pr_id p)) (providers d)))
                   (filter probe_candidate (entries d)))"
  let ?f = "\<lambda>(e, p). res_bind (map_route_entry_row e) (\<lambda>x. Inr (x, p))"
  let ?g = "\<lambda>(x, p). res_bind (build_joined c d p) (\<lambda>y. Inr (x, y))"
  have "\<exists>y. ?f ep = Inr y" if "ep \<in> set ?rows" for ep
    using that map_route_entry_row_total[of d "fst ep"] entry_rowD[OF assms(1), of "fst ep"]
    by (auto simp: res_bind_def)
  then obtain raws where raws: "map_res ?f ?rows = Inr raws" using map_res_ex[of ?rows ?f] by auto
  have "\<exists>y. ?g xp = Inr y" if xp: "xp \<in> set raws" for xp
  proof -
    obtain ep where "ep \<in> set ?rows" "?f ep = Inr xp" using map_res_Inr_mem[OF raws xp] by auto
    then have "snd xp \<in> set (providers d)" by (auto simp: res_bind_def split: sum.splits)
    then obtain y where "build_joined c d (snd xp) = Inr y" using build_joined_total[OF assms] by blast
    then show ?thesis by (cases xp) (simp add: res_bind_def)
  qed
  then obtain zs where "map_res ?g raws = Inr zs" using map_res_ex[of raws ?g] by auto
  then show ?thesis unfolding entries_needing_probe_def Let_def raws by (simp add: res_bind_def)
qed



end
