(* ===== verification/Store_Contracts.thy ===== *)
theory Store_Contracts
  imports Store_Secrets
begin

text \<open>
  The contracts callers of the store rely on: a provider reads back as it was written, with
  the mask its traffic must leave through; deletions take exactly what they should; a
  token rotates only under the conditions SQLite imposes; and the response cache is a
  partial map with expiry.
\<close>

section \<open>Providers and their masks\<close>

definition provider_of :: "int \<Rightarrow> string \<Rightarrow> new_provider \<Rightarrow> masking_server option \<Rightarrow> provider" where
  "provider_of i pid spec ms =
     \<lparr>pv_id = i, pv_profile_id = pid, pv_name = np_name spec, pv_description = np_description spec,
      pv_base_url = np_base_url spec, pv_auth_token = np_auth_token spec, pv_kind = np_kind spec,
      pv_extra_headers = np_extra_headers spec, pv_mask_id = np_mask_id spec, pv_mask = ms,
      pv_shared = np_shared spec\<rparr>"

lemma find_snoc: "find P (xs @ [x]) = (case find P xs of Some y \<Rightarrow> Some y | None \<Rightarrow> if P x then Some x else None)"
  by (induction xs) auto

lemma fresh_id_not_found: "db_ok d \<Longrightarrow> find (\<lambda>p. pr_id p = seq_providers d + 1) (providers d) = None"
  using provider_rowD[of d] by (fastforce simp: find_None_iff2)

lemma effective_mask_cong [simp]:
  "effective_mask_id (d\<lparr>providers := T, seq_providers := n\<rparr>) p = effective_mask_id d p"
  "mask_join (d\<lparr>providers := T, seq_providers := n\<rparr>) p = mask_join d p"
  "build_joined c (d\<lparr>providers := T, seq_providers := n\<rparr>) p = build_joined c d p"
  by (simp_all add: effective_mask_id_def mask_join_def build_joined_def get_profile_by_id_def
      cong: option.case_cong)

text \<open>
  A provider that does not clash with another one is created, and reading it back gives
  exactly the fields and the token that were passed in, decrypted; every other provider
  reads as before.
\<close>

theorem provider_roundtrip:
  assumes ok: "db_ok d" and sealed: "sealed c d" and cip: "cipher_ok c"
    and secret: "secret_args c c nonce (np_auth_token spec)"
    and owner: "pid \<in> profile_ids d" and mask: "ref_ok (np_mask_id spec) (mask_ids d)"
    and free: "(pid, np_name spec) \<notin> (\<lambda>p. (pr_profile_id p, pr_name p)) ` set (providers d)"
  shows "\<exists>ms d'. create_provider c nonce pid spec d = ok (provider_of (seq_providers d + 1) pid spec ms) d'
      \<and> get_provider c (seq_providers d + 1) d' = Inr (Some (provider_of (seq_providers d + 1) pid spec ms))
      \<and> (\<forall>i. i \<noteq> seq_providers d + 1 \<longrightarrow> get_provider c i d' = get_provider c i d)"
proof -
  define i where "i = seq_providers d + 1"
  define p where "p = \<lparr>pr_id = i, pr_profile_id = pid, pr_name = np_name spec,
               pr_description = np_description spec, pr_base_url = np_base_url spec,
               pr_enc_token = encrypt (ci_aead c) (ci_key c) nonce (np_auth_token spec),
               pr_kind_tag = provider_kind_tag (np_kind spec), pr_extra = Some (np_extra_headers spec),
               pr_mask_id = np_mask_id spec, pr_shared = np_shared spec\<rparr>"
  define d' where "d' = d\<lparr>providers := providers d @ [p], seq_providers := i\<rparr>"
  have dec: "decrypt (ci_aead c) (ci_key c) (pr_enc_token p) = Inr (np_auth_token spec)"
    using cip secret by (simp add: p_def cipher_ok_def secret_args_def decrypt_encrypt)
  have create: "create_provider c nonce pid spec d = (res_bind (get_provider c i d') (ok_or Vanished), d')"
    using owner mask free by (simp add: create_provider_def i_def p_def d'_def Let_def)
  have "op_sealed c (On_Provider (Create_Provider c nonce pid spec))"
    using secret by (simp add: op_sealed_def)
  then have "sealed c d'" "db_ok d'"
    using sealed_exec[OF cip _ sealed, of "On_Provider (Create_Provider c nonce pid spec)"]
      exec_op_ok[OF ok, of "On_Provider (Create_Provider c nonce pid spec)"] create by simp_all
  then obtain x where x: "build_joined c d' p = Inr x"
    using build_joined_total[of d' c p] by (auto simp: d'_def)
  obtain ms where "x = provider_of i pid spec ms"
    using x dec by (auto simp: build_joined_def build_provider_def res_bind_def lift_crypto_def
        ok_or_def p_def provider_of_def split: sum.splits option.splits)
  moreover have "get_provider c i d' = Inr (Some x)"
    using x fresh_id_not_found[OF ok]
    by (simp add: get_provider_def d'_def find_snoc i_def p_def res_bind_def)
  moreover have "get_provider c j d' = get_provider c j d" if "j \<noteq> i" for j
    using that by (auto simp: get_provider_def d'_def find_snoc p_def split: option.split)
  ultimately show ?thesis using create by (auto simp: i_def res_bind_def ok_or_def)
qed

text \<open>A store with one profile and no provider, for witnesses.\<close>

definition one_profile :: db where
  "one_profile = reached [On_Profile (Create_Profile_With_Token ''me'' None None ''t'' 0)]"

lemma one_profile_eq:
  "one_profile = empty_db\<lparr>profiles := [\<lparr>pf_id = ''t'', pf_name = ''me'', pf_description = None,
     pf_password_hash = None, pf_created_at = 0, pf_updated_at = 0, pf_rpm_limit = 0,
     pf_default_mask = None\<rparr>]\<rparr>"
  by (simp add: one_profile_def reached_def create_profile_with_token_def insert_profile_def Let_def
      empty_db_def profile_ids_def)

definition spec_x :: new_provider where
  "spec_x = \<lparr>np_name = ''x'', np_description = None, np_base_url = ''https://h'', np_auth_token = ''sk'',
          np_kind = Anthropic, np_extra_headers = [], np_mask_id = None, np_shared = False\<rparr>"

lemma one_profile_facts [simp]:
  "db_ok one_profile" "sealed tagging_cipher one_profile" "profile_ids one_profile = {''t''}"
  "providers one_profile = []" "seq_providers one_profile = 0" "masks one_profile = []"
  by (simp add: one_profile_def) (simp_all add: one_profile_eq sealed_def profile_ids_def empty_db_def)

lemma spec_x_secret: "secret_args tagging_cipher tagging_cipher (replicate 12 CHR ''n'') (np_auth_token spec_x)"
  by (simp add: secret_args_def NONCE_LEN_def valid_utf8_ascii code_def spec_x_def)

theorem provider_roundtrip_witness:
  "\<exists>ms d'. create_provider tagging_cipher (replicate 12 CHR ''n'') ''t'' spec_x one_profile
     = ok (provider_of 1 ''t'' spec_x ms) d'"
  using provider_roundtrip[OF one_profile_facts(1,2) tagging_cipher_ok spec_x_secret, of "''t''"]
  by (auto simp: spec_x_def)

text \<open>
  The mask a provider is read with is the one it binds, else its profile's default: it
  has none only if both are null, so a provider that must leave through a mask is never
  handed out without it, and the mask it carries is the stored, decrypted one.
\<close>

theorem provider_mask:
  assumes ok: "db_ok d" and pv: "get_provider c i d = Inr (Some pv)"
  shows "\<exists>pf. get_profile_by_id (pv_profile_id pv) d = Some pf \<and>
    (case pv_mask pv of
       None \<Rightarrow> pv_mask_id pv = None \<and> pf_default_mask pf = None
     | Some ms \<Rightarrow> Some (mk_id ms) = (case pv_mask_id pv of None \<Rightarrow> pf_default_mask pf | m \<Rightarrow> m)
         \<and> get_masking_server c (mk_id ms) d = Inr (Some ms))"
proof -
  obtain p where p: "find (\<lambda>p. pr_id p = i) (providers d) = Some p" and b: "build_joined c d p = Inr pv"
    using pv by (auto simp: get_provider_def res_bind_def split: option.splits sum.splits)
  have pset: "p \<in> set (providers d)" using find_mem[OF p] by simp
  have row: "pr_profile_id p \<in> profile_ids d" "ref_ok (pr_mask_id p) (mask_ids d)"
    using provider_rowD[OF ok pset] by (simp_all add: provider_ok_def)
  obtain pf where pf: "get_profile_by_id (pr_profile_id p) d = Some pf"
    using row(1) by (cases "get_profile_by_id (pr_profile_id p) d")
      (auto simp: get_profile_by_id_def find_None_iff2 profile_ids_def)
  have "pf \<in> set (profiles d)" using pf find_mem unfolding get_profile_by_id_def by fastforce
  then have dflt: "ref_ok (pf_default_mask pf) (mask_ids d)" by (rule profile_rowD[OF ok])
  have eff: "effective_mask_id d p = (case pr_mask_id p of None \<Rightarrow> pf_default_mask pf | m \<Rightarrow> m)"
    by (simp add: effective_mask_id_def pf split: option.split)
  have fields: "pv_profile_id pv = pr_profile_id p" "pv_mask_id pv = pr_mask_id p"
    and hop: "case mask_join d p of None \<Rightarrow> pv_mask pv = None
       | Some m \<Rightarrow> \<exists>ms. build_mask c m = Inr ms \<and> pv_mask pv = Some ms"
    using b by (auto simp: build_joined_def build_provider_def res_bind_def ok_or_def lift_crypto_def
        split: sum.splits option.splits)
  show ?thesis
  proof (cases "effective_mask_id d p")
    case None
    then show ?thesis using pf fields hop eff by (auto simp: mask_join_def split: option.splits)
  next
    case (Some k)
    have "k \<in> mask_ids d"
      using Some row(2) dflt unfolding eff by (auto simp: ref_ok_iff split: option.splits)
    then obtain m where m: "find (\<lambda>m. mr_id m = k) (masks d) = Some m"
      by (cases "find (\<lambda>m. mr_id m = k) (masks d)") (auto simp: find_None_iff2 mask_ids_def)
    then obtain ms where ms: "build_mask c m = Inr ms" "pv_mask pv = Some ms"
      using hop Some by (auto simp: mask_join_def)
    have "mk_id ms = k"
      using ms(1) find_mem[OF m] by (auto simp: build_mask_def res_bind_def split: sum.splits)
    then show ?thesis using pf fields ms m eff Some
      by (auto simp: get_masking_server_def res_bind_def)
  qed
qed

text \<open>A profile whose default mask is 1, that mask, and a provider that binds none.\<close>

definition masked_store :: db where
  "masked_store = reached
     [On_Profile (Create_Profile_With_Token ''me'' None None ''t'' 0),
      On_Mask (Create_Mask tagging_cipher (replicate 12 CHR ''n'') ''t''
        \<lparr>nm_name = ''m'', nm_kind = ''vercel'', nm_endpoint_url = ''https://m'', nm_secret = ''s'',
         nm_max_body_bytes = 0, nm_expected_egress_ip = None, nm_shared = False\<rparr>),
      On_Profile (Default_Mask ''t'' (Some 1) 0),
      On_Provider (Create_Provider tagging_cipher (replicate 12 CHR ''n'') ''t'' spec_x)]"

lemma masked_store_provider: "(case get_provider tagging_cipher 1 masked_store of Inr (Some pv) \<Rightarrow> pv_mask_id pv = None | _ \<Rightarrow> False)"
  by code_simp

theorem provider_mask_witness:
  "\<exists>pv pf. get_provider tagging_cipher 1 masked_store = Inr (Some pv) \<and> pv_mask_id pv = None
     \<and> get_profile_by_id (pv_profile_id pv) masked_store = Some pf"
proof -
  obtain pv where "get_provider tagging_cipher 1 masked_store = Inr (Some pv)" "pv_mask_id pv = None"
    using masked_store_provider by (auto split: sum.splits option.splits)
  moreover have "db_ok masked_store" by (simp add: masked_store_def)
  ultimately show ?thesis using provider_mask by blast
qed

section \<open>Token rotation\<close>

text \<open>
  Rotating a profile's token succeeds exactly when the profile exists and the new token
  is its own id again, or is no profile's id while no provider, mask or proxy belongs to the
  profile; then the new token opens the same profile and the old one opens nothing. In
  particular a profile that owns anything keeps its old token: its id is a referenced key.
\<close>

theorem rotate_token_iff:
  shows "((\<exists>d'. rotate_profile_token pid a b now d = ok (fresh_token a b) d') \<longleftrightarrow>
      pid \<in> profile_ids d \<and>
      (fresh_token a b = pid \<or> (fresh_token a b \<notin> profile_ids d \<and> \<not> profile_referenced pid d)))
    \<and> (rotate_profile_token pid a b now d = ok t d' \<and> t \<noteq> pid \<longrightarrow>
      get_profile_by_id pid d' = None \<and>
      get_profile_by_id t d' =
        map_option (\<lambda>p. p\<lparr>pf_id := t, pf_updated_at := now\<rparr>) (get_profile_by_id pid d))"
proof (intro conjI[rotated] impI)
  show "(\<exists>d'. rotate_profile_token pid a b now d = ok (fresh_token a b) d') \<longleftrightarrow>
      pid \<in> profile_ids d \<and>
      (fresh_token a b = pid \<or> (fresh_token a b \<notin> profile_ids d \<and> \<not> profile_referenced pid d))"
    by (force simp: rotate_profile_token_def Let_def n_where_0 profile_ids_def image_iff)
next
  assume "rotate_profile_token pid a b now d = ok t d' \<and> t \<noteq> pid"
  then have r: "rotate_profile_token pid a b now d = ok t d'" and t: "t \<noteq> pid" by simp_all
  let ?g = "\<lambda>p. p\<lparr>pf_id := t, pf_updated_at := now\<rparr>"
  have d': "profiles d' = upd_where (\<lambda>p. pf_id p = pid) ?g (profiles d)" and new: "t \<notin> profile_ids d"
    using r t by (auto simp: rotate_profile_token_def Let_def split: if_splits)
  have "find (\<lambda>p. pf_id p = t) (upd_where (\<lambda>p. pf_id p = pid) ?g ps) = map_option ?g (find (\<lambda>p. pf_id p = pid) ps)"
    if "t \<notin> pf_id ` set ps" for ps :: "profile list"
    using that by (induction ps) auto
  moreover have "find (\<lambda>p. pf_id p = pid) (upd_where (\<lambda>p. pf_id p = pid) ?g ps) = None" for ps :: "profile list"
    using t by (induction ps) auto
  ultimately have "get_profile_by_id pid d' = None \<and> get_profile_by_id t d' = map_option ?g (get_profile_by_id pid d)"
    using new by (simp add: get_profile_by_id_def d' profile_ids_def)
  then show "get_profile_by_id pid d' = None" "get_profile_by_id t d' = map_option ?g (get_profile_by_id pid d)"
    by simp_all
qed

section \<open>Deletions\<close>

text \<open>
  Deleting a mask unbinds it and deletes nothing else: it is gone, no provider binds it
  and no profile has it as default any more, every provider and profile is otherwise the row
  it was, and proxies, routes, entries, usage and cache are untouched.
\<close>

theorem delete_mask_unbinds:
  assumes "i \<in> mask_ids d"
  shows "\<exists>d'. delete_masking_server i d = ok () d' \<and> mask_ids d' = mask_ids d - {i}
    \<and> (\<forall>p\<in>set (providers d'). pr_mask_id p \<noteq> Some i)
    \<and> (\<forall>p\<in>set (profiles d'). pf_default_mask p \<noteq> Some i)
    \<and> list_all2 (\<lambda>p q. q = p \<or> (pr_mask_id p = Some i \<and> q = p\<lparr>pr_mask_id := None\<rparr>)) (providers d) (providers d')
    \<and> list_all2 (\<lambda>p q. q = p \<or> (pf_default_mask p = Some i \<and> q = p\<lparr>pf_default_mask := None\<rparr>)) (profiles d) (profiles d')
    \<and> proxies d' = proxies d \<and> routes d' = routes d \<and> entries d' = entries d
    \<and> usage d' = usage d \<and> cache d' = cache d"
proof -
  let ?gone = "map mr_id (filter (\<lambda>m. mr_id m = i) (masks d))"
  have gone: "set ?gone = {i}" using assms by (auto simp: mask_ids_def)
  have unbind: "unbind ?gone m = (if m = Some i then None else m)" for m
    unfolding unbind_def gone by (simp split: option.split)
  have "n_where (\<lambda>m. mr_id m = i) (masks d) \<noteq> 0"
    using assms by (auto simp: n_where_0 mask_ids_def)
  then have "delete_masking_server i d = ok () (del_masks (\<lambda>m. mr_id m = i) d)"
    by (simp add: delete_masking_server_def require_changed_def)
  moreover have "mr_id ` {m \<in> set (masks d). mr_id m \<noteq> i} = mr_id ` set (masks d) - {i}" by auto
  moreover have "list_all2 (\<lambda>p q. q = p \<or> (pr_mask_id p = Some i \<and> q = p\<lparr>pr_mask_id := None\<rparr>)) ps
      (map (\<lambda>p. p\<lparr>pr_mask_id := if pr_mask_id p = Some i then None else pr_mask_id p\<rparr>) ps)" for ps
    by (induction ps) auto
  moreover have "list_all2 (\<lambda>p q. q = p \<or> (pf_default_mask p = Some i \<and> q = p\<lparr>pf_default_mask := None\<rparr>)) ps
      (map (\<lambda>p. p\<lparr>pf_default_mask := if pf_default_mask p = Some i then None else pf_default_mask p\<rparr>) ps)" for ps
    by (induction ps) auto
  ultimately show ?thesis
    by (auto simp: del_masks_def Let_def unbind mask_ids_def)
qed

theorem delete_mask_unbinds_witness:
  "\<exists>d'. delete_masking_server 1 masked_store = ok () d' \<and> providers d' = providers masked_store"
proof -
  have "1 \<in> mask_ids masked_store" "list_all (\<lambda>p. pr_mask_id p = None) (providers masked_store)"
    by code_simp+
  then obtain d' where d': "delete_masking_server 1 masked_store = ok () d'"
    "list_all2 (\<lambda>p q. q = p \<or> (pr_mask_id p = Some 1 \<and> q = p\<lparr>pr_mask_id := None\<rparr>)) (providers masked_store) (providers d')"
    using delete_mask_unbinds by meson
  have "list_all2 (\<lambda>p q. q = p \<or> (pr_mask_id p = Some 1 \<and> q = p\<lparr>pr_mask_id := None\<rparr>)) ps qs \<Longrightarrow>
      list_all (\<lambda>p. pr_mask_id p = None) ps \<Longrightarrow> qs = ps" for ps qs :: "provider_row list"
    by (induction rule: list_all2_induct) auto
  with d' \<open>list_all _ _\<close> show ?thesis by blast
qed

lemma kept_iff:
  assumes "distinct (map f rs)" "k \<in> f ` set rs"
  shows "k \<notin> set (map f (filter P rs)) \<longleftrightarrow> k \<in> f ` set (filter (\<lambda>r. \<not> P r) rs)"
proof -
  obtain r where r: "r \<in> set rs" "k = f r" using assms(2) by auto
  have "f r' = f r \<longleftrightarrow> r' = r" if "r' \<in> set rs" for r'
    using key_unique[OF assms(1) that r(1)] by auto
  then have "(\<exists>x\<in>set rs. \<not> P x \<and> f r = f x) \<longleftrightarrow> \<not> P r" "(\<exists>x\<in>set rs. P x \<and> f r = f x) \<longleftrightarrow> P r"
    using r(1) by metis+
  then show ?thesis unfolding r(2) by (auto simp: image_iff)
qed

lemma kept_ref_iff:
  assumes "distinct (map f rs)" "ref_ok m (f ` set rs)"
  shows "\<not> refers_to m (map f (filter P rs)) \<longleftrightarrow> ref_ok m (f ` set (filter (\<lambda>r. \<not> P r) rs))"
  using kept_iff[OF assms(1)] assms(2) by (cases m) (simp_all add: refers_to_def)

lemma entries_del_routes:
  "entries (del_routes R d) = filter (\<lambda>e. en_route_id e \<notin> set (map ro_id (filter R (routes d)))
     \<and> \<not> refers_to (en_target_route_id e) (map ro_id (filter R (routes d)))) (entries d)"
  by (simp add: del_routes_def Let_def)

lemma entries_del_providers:
  "entries (del_providers P d) =
     filter (\<lambda>e. \<not> refers_to (en_provider_id e) (map pr_id (filter P (providers d)))) (entries d)"
  by (simp add: del_providers_def Let_def)

lemma entry_kept_iff:
  assumes ok: "db_ok d" and e: "e \<in> set (entries d)"
  shows "en_route_id e \<notin> set (map ro_id (filter R (routes d)))
        \<and> \<not> refers_to (en_target_route_id e) (map ro_id (filter R (routes d)))
        \<and> \<not> refers_to (en_provider_id e) (map pr_id (filter P (providers d)))
    \<longleftrightarrow> en_route_id e \<in> ro_id ` set (filter (\<lambda>r. \<not> R r) (routes d))
        \<and> ref_ok (en_target_route_id e) (ro_id ` set (filter (\<lambda>r. \<not> R r) (routes d)))
        \<and> ref_ok (en_provider_id e) (pr_id ` set (filter (\<lambda>r. \<not> P r) (providers d)))"
proof -
  have "en_route_id e \<in> ro_id ` set (routes d)" "ref_ok (en_target_route_id e) (ro_id ` set (routes d))"
    "ref_ok (en_provider_id e) (pr_id ` set (providers d))"
    using entry_rowD[OF ok e] by (simp_all add: entry_ok_def id_sets)
  then show ?thesis
    by (simp only: kept_iff[OF db_keys(9)[OF ok]] kept_ref_iff[OF db_keys(9)[OF ok]]
        kept_ref_iff[OF db_keys(3)[OF ok]])
qed

text \<open>
  Deleting a profile takes all that is its own and nothing of anybody else: its
  providers, masks and proxies, the routes of its proxies, and the entries that sit in or
  point at something that goes; every other provider, mask, proxy, route and entry stays
  (a foreign provider only loses a binding to a mask that went).
\<close>

theorem delete_profile_scope:
  assumes ok: "db_ok d" and del: "delete_profile pid d = ok () d'"
  shows "profile_ids d' = profile_ids d - {pid}
    \<and> masks d' = filter (\<lambda>m. mr_profile_id m \<noteq> pid) (masks d)
    \<and> provider_ids d' = pr_id ` {p \<in> set (providers d). pr_profile_id p \<noteq> pid}
    \<and> proxies d' = filter (\<lambda>p. px_profile_id p \<noteq> pid) (proxies d)
    \<and> routes d' = filter (\<lambda>r. ro_proxy_id r \<in> proxy_ids d') (routes d)
    \<and> (\<forall>e. e \<in> set (entries d') \<longleftrightarrow> e \<in> set (entries d) \<and> en_route_id e \<in> route_ids d'
          \<and> ref_ok (en_target_route_id e) (route_ids d') \<and> ref_ok (en_provider_id e) (provider_ids d'))"
proof -
  define gone where "gone = set (map pf_id (filter (\<lambda>p. pf_id p = pid) (profiles d)))"
  define d1 where "d1 = del_providers (\<lambda>p. pr_profile_id p \<in> gone) d"
  define d2 where "d2 = del_masks (\<lambda>m. mr_profile_id m \<in> gone) d1"
  define goneX where "goneX = map px_id (filter (\<lambda>p. px_profile_id p \<in> gone) (proxies d))"
  define R :: "route_row \<Rightarrow> bool" where "R = (\<lambda>r. ro_proxy_id r \<in> set goneX)"
  have gone: "x \<in> gone \<longleftrightarrow> x = pid" if "x \<in> profile_ids d" for x
    using that by (auto simp: gone_def profile_ids_def)
  have eq: "d' = (del_proxies (\<lambda>p. px_profile_id p \<in> gone) d2)\<lparr>profiles := filter (\<lambda>p. pf_id p \<noteq> pid) (profiles d2)\<rparr>"
    using del unfolding delete_profile_def d2_def d1_def gone_def
    by (auto simp: del_profiles_alt Let_def)
  have m2: "profiles d2 = map (\<lambda>p. p\<lparr>pf_default_mask := unbind (map mr_id (filter (\<lambda>m. mr_profile_id m \<in> gone) (masks d))) (pf_default_mask p)\<rparr>) (profiles d)"
    "providers d2 = map (\<lambda>p. p\<lparr>pr_mask_id := unbind (map mr_id (filter (\<lambda>m. mr_profile_id m \<in> gone) (masks d))) (pr_mask_id p)\<rparr>)
       (filter (\<lambda>p. pr_profile_id p \<notin> gone) (providers d))"
    "entries d2 = entries d1" "routes d2 = routes d" "proxies d2 = proxies d"
    by (simp_all add: d2_def d1_def del_masks_def del_providers_def Let_def)
  have prov: "provider_ids d' = pr_id ` set (filter (\<lambda>p. pr_profile_id p \<notin> gone) (providers d))"
    by (simp add: provider_ids_def eq m2 image_image)
  have prox: "proxies d' = filter (\<lambda>p. px_profile_id p \<notin> gone) (proxies d)" by (simp add: eq m2)
  have rts: "routes d' = filter (\<lambda>r. \<not> R r) (routes d)"
    unfolding R_def goneX_def by (simp add: eq m2 del_proxies_def Let_def)
  have ents: "entries d' = filter (\<lambda>e. en_route_id e \<notin> set (map ro_id (filter R (routes d)))
     \<and> \<not> refers_to (en_target_route_id e) (map ro_id (filter R (routes d)))) (entries d1)"
    unfolding R_def goneX_def by (simp add: eq m2 del_proxies_def Let_def entries_del_routes)
  have 1: "profile_ids d' = profile_ids d - {pid}" 
  proof -
    have "profile_ids d' = pf_id ` set (profiles d2) - {pid}" by (auto simp: profile_ids_def eq)
    moreover have "pf_id ` set (profiles d2) = profile_ids d" by (simp add: m2 profile_ids_def image_image)
    ultimately show ?thesis by simp
  qed
  have 2: "masks d' = filter (\<lambda>m. mr_profile_id m \<noteq> pid) (masks d)"
    using mask_rowD[OF ok] gone by (auto simp: eq d2_def d1_def intro!: filter_cong)
  have 3: "provider_ids d' = pr_id ` {p \<in> set (providers d). pr_profile_id p \<noteq> pid}"
    using provider_rowD[OF ok] gone unfolding prov by (auto simp: provider_ok_def intro!: image_cong)
  have 4: "proxies d' = filter (\<lambda>p. px_profile_id p \<noteq> pid) (proxies d)"
    using proxy_rowD[OF ok] gone unfolding prox by (auto intro!: filter_cong)
  have 5: "routes d' = filter (\<lambda>r. ro_proxy_id r \<in> proxy_ids d') (routes d)"
    unfolding rts
  proof (rule filter_cong[OF refl])
    fix r assume "r \<in> set (routes d)"
    then have "ro_proxy_id r \<in> px_id ` set (proxies d)"
      using route_rowD[OF ok] by (auto simp: route_ok_def proxy_ids_def)
    then show "(\<not> R r) = (ro_proxy_id r \<in> proxy_ids d')"
      using kept_iff[OF db_keys(7)[OF ok], of "ro_proxy_id r" "\<lambda>p. px_profile_id p \<in> gone"]
      unfolding R_def goneX_def proxy_ids_def prox by blast
  qed
  have 6: "e \<in> set (entries d') \<longleftrightarrow> e \<in> set (entries d) \<and> en_route_id e \<in> route_ids d'
          \<and> ref_ok (en_target_route_id e) (route_ids d') \<and> ref_ok (en_provider_id e) (provider_ids d')" for e
    using entry_kept_iff[OF ok, of e R "\<lambda>p. pr_profile_id p \<in> gone"]
    unfolding route_ids_def rts prov ents d1_def entries_del_providers by auto
  show ?thesis using 1 2 3 4 5 6 by blast
qed

theorem delete_profile_scope_witness:
  "\<exists>d'. delete_profile ''t'' masked_store = ok () d' \<and> profile_ids d' = profile_ids masked_store - {''t''}
     \<and> masks d' = filter (\<lambda>m. mr_profile_id m \<noteq> ''t'') (masks masked_store)"
proof -
  have ok: "db_ok masked_store" by (simp add: masked_store_def)
  have "delete_profile ''t'' masked_store = ok () (snd (delete_profile ''t'' masked_store))"
    by (simp add: delete_profile_def)
  from delete_profile_scope[OF ok this] show ?thesis by (auto simp: delete_profile_def)
qed

theorem rotate_token_iff_witness:
  "\<exists>d'. rotate_profile_token ''t'' 1 2 5 one_profile = ok ''12'' d'
     \<and> get_profile_by_id ''t'' d' = None \<and> get_profile_by_id ''12'' d' \<noteq> None"
proof -
  have tok: "fresh_token 1 2 = ''12''" by code_simp
  have "\<not> profile_referenced ''t'' one_profile" by code_simp
  then obtain d' where d': "rotate_profile_token ''t'' 1 2 5 one_profile = ok ''12'' d'"
    using rotate_token_iff[of "''t''" 1 2 5 one_profile] unfolding tok by auto
  moreover have "get_profile_by_id ''t'' one_profile \<noteq> None" by code_simp
  ultimately show ?thesis using rotate_token_iff[of "''t''" 1 2 5 one_profile] by auto
qed

section \<open>The response cache\<close>

text \<open>
  What the cache promises: a partial map from route and request hash to a response and the
  instant it expires.
\<close>

type_synonym cache_spec = "int \<times> string \<Rightarrow> (cache_hit \<times> int) option"

definition cache_abs :: "db \<Rightarrow> cache_spec" where
  "cache_abs d k = map_option (\<lambda>c. ((ca_resp c, ca_prompt_tokens c, ca_completion_tokens c), ca_expires_at c))
     (find (\<lambda>c. (ca_route_id c, ca_req_hash c) = k) (cache d))"

definition spec_lookup :: "cache_spec \<Rightarrow> int \<times> string \<Rightarrow> int \<Rightarrow> cache_hit option" where
  "spec_lookup m k now = (case m k of None \<Rightarrow> None | Some (x, e) \<Rightarrow> if now < e then Some x else None)"

definition spec_evict :: "int \<Rightarrow> cache_spec \<Rightarrow> cache_spec" where
  "spec_evict now m k = (case m k of None \<Rightarrow> None | Some (x, e) \<Rightarrow> if now < e then Some (x, e) else None)"

lemma find_filter_key:
  "distinct (map k cs) \<Longrightarrow> find (\<lambda>c. k c = x) (filter P cs) =
     (case find (\<lambda>c. k c = x) cs of None \<Rightarrow> None | Some c \<Rightarrow> if P c then Some c else None)"
proof (induction cs)
  case (Cons c cs)
  have "find (\<lambda>c. k c = k a) (filter P cs) = None" if "k a = k c" for a
    using Cons.prems that by (auto simp: find_None_iff2 image_iff)
  with Cons show ?case by auto
qed simp

lemma find_conj_key:
  "distinct (map k cs) \<Longrightarrow> find (\<lambda>c. k c = x \<and> P c) cs =
     (case find (\<lambda>c. k c = x) cs of None \<Rightarrow> None | Some c \<Rightarrow> if P c then Some c else None)"
proof (induction cs)
  case (Cons c cs)
  have "find (\<lambda>c. k c = k a) cs = None" if "k a = k c" for a
    using Cons.prems that by (auto simp: find_None_iff2 image_iff)
  with Cons show ?case by auto
qed simp

lemma find_upd_key:
  "k r = x \<Longrightarrow> find (\<lambda>c. k c = y) (upd_where (\<lambda>c. k c = x) (\<lambda>c. r) cs) =
     (if y = x then (if n_where (\<lambda>c. k c = x) cs > 0 then Some r else None) else find (\<lambda>c. k c = y) cs)"
  by (induction cs) (auto simp: n_where_def)

lemma cache_abs_evict: "db_ok d \<Longrightarrow> cache_abs (drop_expired now d) = spec_evict now (cache_abs d)"
  using find_filter_key[OF db_keys(13)[of d]]
  by (auto simp: fun_eq_iff cache_abs_def drop_expired_def spec_evict_def split: option.split)

lemma cache_ops_abs:
  assumes ok: "db_ok d"
  shows "fst (cache_get r h now d) = Inr (spec_lookup (cache_abs d) (r, h) now)"
    and "cache_abs (snd (cache_get r h now d)) = spec_evict now (cache_abs d)"
    and "ttl > 0 \<Longrightarrow> r \<in> route_ids d \<Longrightarrow>
      cache_abs (snd (cache_put r h b p c now ttl d)) = (cache_abs d)((r, h) \<mapsto> ((b, p, c), cache_expiry now ttl))"
    and "ttl \<le> 0 \<Longrightarrow> snd (cache_put r h b p c now ttl d) = d"
proof -
  let ?k = "\<lambda>c. (ca_route_id c, ca_req_hash c)"
  have dist: "distinct (map ?k (filter P (cache d)))" for P by (rule distinct_map_filter[OF db_keys(13)[OF ok]])
  have key: "(\<lambda>c. ca_route_id c = r \<and> ca_req_hash c = h \<and> P c) = (\<lambda>c. ?k c = (r, h) \<and> P c)" for P by auto
  have hit: "(\<lambda>c. ca_route_id c = r \<and> ca_req_hash c = h) = (\<lambda>c. ?k c = (r, h))" by auto
  show "fst (cache_get r h now d) = Inr (spec_lookup (cache_abs d) (r, h) now)"
    unfolding cache_get_def Let_def key drop_expired_def cache_abs_def spec_lookup_def
    by (simp del: prod.inject add: find_conj_key[OF dist] find_filter_key[OF db_keys(13)[OF ok]]
        split: option.split)
  show "cache_abs (snd (cache_get r h now d)) = spec_evict now (cache_abs d)"
    by (simp add: cache_get_def Let_def cache_abs_evict[OF ok])
  show "cache_abs (snd (cache_put r h b p c now ttl d)) = (cache_abs d)((r, h) \<mapsto> ((b, p, c), cache_expiry now ttl))"
    if pos: "ttl > 0" "r \<in> route_ids d"
  proof -
    define row where "row = \<lparr>ca_route_id = r, ca_req_hash = h, ca_resp = b, ca_prompt_tokens = p,
      ca_completion_tokens = c, ca_created_at = now, ca_expires_at = cache_expiry now ttl\<rparr>"
    have k: "?k row = (r, h)" by (simp add: row_def)
    have val: "((ca_resp row, ca_prompt_tokens row, ca_completion_tokens row), ca_expires_at row) = ((b, p, c), cache_expiry now ttl)"
      by (simp add: row_def)
    show ?thesis
    proof (cases "n_where (\<lambda>c. ?k c = (r, h)) (cache d) > 0")
      case True
      then have "cache (snd (cache_put r h b p c now ttl d)) = upd_where (\<lambda>c. ?k c = (r, h)) (\<lambda>c. row) (cache d)"
        using pos unfolding cache_put_def Let_def hit row_def[symmetric] by simp
      then have "cache_abs (snd (cache_put r h b p c now ttl d)) x = ((cache_abs d)((r, h) \<mapsto> ((b, p, c), cache_expiry now ttl))) x" for x
        using True by (simp del: prod.inject add: cache_abs_def find_upd_key[where k = ?k, OF k] val)
      then show ?thesis by blast
    next
      case False
      then have none: "find (\<lambda>c. ?k c = (r, h)) (cache d) = None"
        unfolding find_None_iff2 by (auto simp: n_where_0)
      have "cache (snd (cache_put r h b p c now ttl d)) = cache d @ [row]"
        using pos False unfolding cache_put_def Let_def hit row_def[symmetric] by simp
      then have "cache_abs (snd (cache_put r h b p c now ttl d)) x = ((cache_abs d)((r, h) \<mapsto> ((b, p, c), cache_expiry now ttl))) x" for x
        using none k by (simp del: prod.inject add: cache_abs_def find_snoc val split: option.split)
      then show ?thesis by blast
    qed
  qed
  show "snd (cache_put r h b p c now ttl d) = d" if "ttl \<le> 0"
    using that by (simp add: cache_put_def)
qed

text \<open>
  C28. The cache table refines that map: a lookup is the specification's lookup and evicts
  what has expired; a put with a positive time to live updates the map at its key and
  nowhere else, and one without changes nothing.
\<close>

theorem cache_refines:
  assumes ok: "db_ok d"
  shows "fst (cache_get r h now d) = Inr (spec_lookup (cache_abs d) (r, h) now)
    \<and> cache_abs (snd (cache_get r h now d)) = spec_evict now (cache_abs d)
    \<and> (ttl > 0 \<and> r \<in> route_ids d \<longrightarrow>
      cache_abs (snd (cache_put r h b p c now ttl d)) = (cache_abs d)((r, h) \<mapsto> ((b, p, c), cache_expiry now ttl)))
    \<and> (ttl \<le> 0 \<longrightarrow> snd (cache_put r h b p c now ttl d) = d)"
  using cache_ops_abs[OF ok] by simp

text \<open>A store with one route and one provider, for witnesses.\<close>

definition routed_store :: db where
  "routed_store = reached
     [On_Profile (Create_Profile_With_Token ''me'' None None ''t'' 0),
      On_Provider (Create_Provider tagging_cipher (replicate 12 CHR ''n'') ''t'' spec_x),
      On_Route (Create_Proxy ''t'' ''p'' None), On_Route (Create_Route 1 ''r'' None Priority None),
      On_Entry (Add_Nested_Entry 1 1 ''self'' 0 (FFin 1))]"

lemma routed_store_facts: "db_ok routed_store" "1 \<in> route_ids routed_store"
proof -
  show "db_ok routed_store" by (simp add: routed_store_def)
  show "1 \<in> route_ids routed_store" by code_simp
qed

theorem cache_refines_witness:
  "cache_abs (snd (cache_put 1 ''h'' ''b'' None None 0 60 routed_store)) (1, ''h'') =
     Some ((''b'', None, None), cache_expiry 0 60)"
  using cache_refines[OF routed_store_facts(1), where r = 1 and h = "''h''" and b = "''b''" and p = None
      and c = None and now = 0 and ttl = 60] routed_store_facts(2) by simp

lemma cache_expiry_wrap: "cache_expiry now ttl = wrap_i64 (now + ttl * 1000)"
  unfolding cache_expiry_def add_i64_def mul_i64_def wrap_i64_def
  by (metis (no_types, opaque_lifting) add.assoc add_diff_eq diff_add_cancel mod_add_right_eq)

lemma wrap_above:
  assumes "2 ^ 63 \<le> x" "x < 2 ^ 64" shows "wrap_i64 x = x - 2 ^ 64"
proof -
  have "(x + 2 ^ 63) mod 2 ^ 64 = (x + 2 ^ 63 - 2 ^ 64) mod 2 ^ 64" by (rule minus_mod_self2[symmetric])
  also have "\<dots> = x + 2 ^ 63 - 2 ^ 64" using assms by (intro mod_pos_pos_trivial) simp_all
  finally show ?thesis by (simp add: wrap_i64_def)
qed

lemma spec_lookup_put [simp]:
  "spec_lookup (m(k \<mapsto> (x, e))) k t = (if t < e then Some x else None)"
  by (simp add: spec_lookup_def)

text \<open>
  A response put in the cache for \<open>ttl\<close> seconds is found at time \<open>t\<close> exactly while
  \<open>t < now + 1000 * ttl\<close>, when that instant fits an \<open>i64\<close>; when it does not, the stored
  instant has wrapped below zero and the response is never found.
\<close>

theorem cache_lifetime:
  assumes ok: "db_ok d" and pos: "ttl > 0" and route: "r \<in> route_ids d"
    and range: "- (2 ^ 63) \<le> now + ttl * 1000" "now + ttl * 1000 < 2 ^ 64" and t: "0 \<le> t"
  shows "fst (cache_get r h t (snd (cache_put r h b p c now ttl d))) =
    Inr (if now + ttl * 1000 < 2 ^ 63 \<and> t < now + ttl * 1000 then Some (b, p, c) else None)"
proof -
  let ?d = "snd (cache_put r h b p c now ttl d)"
  have "fst (cache_get r h t ?d) = Inr (spec_lookup (cache_abs ?d) (r, h) t)"
    by (rule cache_ops_abs(1)) (rule cache_put_ok[OF ok])
  also have "\<dots> = Inr (if t < cache_expiry now ttl then Some (b, p, c) else None)"
    by (simp add: cache_ops_abs(3)[OF ok pos route])
  also have "cache_expiry now ttl = (if now + ttl * 1000 < 2 ^ 63 then now + ttl * 1000 else now + ttl * 1000 - 2 ^ 64)"
    using range by (simp add: cache_expiry_wrap wrap_i64_id in_i64_def wrap_above)
  finally show ?thesis using range t by auto
qed

theorem cache_lifetime_witness:
  "fst (cache_get 1 ''h'' 9 (snd (cache_put 1 ''h'' ''b'' None None 0 60 routed_store))) = Inr (Some (''b'', None, None))
   \<and> fst (cache_get 1 ''h'' 9 (snd (cache_put 1 ''h'' ''b'' None None 0 9223372036854776 routed_store))) = Inr None"
  using cache_lifetime[OF routed_store_facts(1) _ routed_store_facts(2), of 60 0 9 "''h''" "''b''" None None]
    cache_lifetime[OF routed_store_facts(1) _ routed_store_facts(2), of 9223372036854776 0 9 "''h''" "''b''" None None]
  by simp

section \<open>Smaller contracts\<close>

text \<open>
  An entry that points at another route cannot be given a provider: the update that
  tries is refused by the CHECK constraint and nothing changes, so an entry never changes
  its kind of target.
\<close>

theorem nested_entry_keeps_target:
  assumes "e \<in> set (entries d)" "en_id e = i" "en_target_route_id e \<noteq> None" "weight \<noteq> FNaN"
  shows "update_route_entry i model pid weight caps d = fail Check_Violation d"
  using assms by (auto simp: update_route_entry_def Let_def one_target_def)

theorem nested_entry_keeps_target_witness:
  "update_route_entry 1 ''m'' 1 (FFin 1) default_caps routed_store = fail Check_Violation routed_store"
proof -
  have "list_ex (\<lambda>e. en_id e = 1 \<and> en_target_route_id e \<noteq> None) (entries routed_store)" by code_simp
  then obtain e where "e \<in> set (entries routed_store)" "en_id e = 1" "en_target_route_id e \<noteq> None"
    by (auto simp: list_ex_iff)
  then show ?thesis by (rule nested_entry_keeps_target) simp
qed

lemma map_res_map:
  "map_res f xs = Inr ys \<Longrightarrow> (\<And>x y. f x = Inr y \<Longrightarrow> h y = k x) \<Longrightarrow> map h ys = map k xs"
  by (induction xs arbitrary: ys) (auto split: sum.splits)

lemma build_joined_id: "build_joined c d p = Inr x \<Longrightarrow> (pv_id x, pv_profile_id x, pv_name x, pv_shared x) =
    (pr_id p, pr_profile_id p, pr_name p, pr_shared p)"
  by (auto simp: build_joined_def build_provider_def res_bind_def split: sum.splits)

text \<open>
  The providers a profile may use are its own and the shared ones, each exactly once,
  its own first and each group by name; no unshared provider of another profile is listed.
\<close>

theorem usable_providers:
  assumes "list_providers_for c pid d = Inr ps"
  shows "mset (map pv_id ps) = mset (map pr_id (filter (\<lambda>p. pr_profile_id p = pid \<or> pr_shared p) (providers d)))
    \<and> (\<forall>p\<in>set ps. pv_profile_id p = pid \<or> pv_shared p)
    \<and> sorted (map (\<lambda>p. (pv_profile_id p \<noteq> pid, pv_name p)) ps)"
proof -
  define rows where "rows = sort_key (\<lambda>p. (pr_profile_id p \<noteq> pid, pr_name p))
         (filter (\<lambda>p. pr_profile_id p = pid \<or> pr_shared p) (providers d))"
  have r: "map_res (build_joined c d) rows = Inr ps"
    using assms by (simp add: list_providers_for_def rows_def)
  have ids: "map pv_id ps = map pr_id rows"
    and keys: "map (\<lambda>p. (pv_profile_id p \<noteq> pid, pv_name p)) ps = map (\<lambda>p. (pr_profile_id p \<noteq> pid, pr_name p)) rows"
    by (rule map_res_map[OF r]; drule build_joined_id; simp)+
  have "\<forall>p\<in>set ps. pv_profile_id p = pid \<or> pv_shared p"
    using map_res_Inr_mem[OF r] by (fastforce dest: build_joined_id simp: rows_def)
  moreover have "mset (map pv_id ps) = mset (map pr_id (filter (\<lambda>p. pr_profile_id p = pid \<or> pr_shared p) (providers d)))"
    unfolding ids by (simp add: rows_def)
  moreover have "sorted (map (\<lambda>p. (pv_profile_id p \<noteq> pid, pv_name p)) ps)"
    unfolding keys rows_def by (rule sorted_sort_key)
  ultimately show ?thesis by blast
qed

theorem usable_providers_witness:
  "\<exists>ps. list_providers_for tagging_cipher ''u'' routed_store = Inr ps \<and> ps = []"
proof -
  have "sealed tagging_cipher routed_store"
    unfolding routed_store_def
    by (rule sealed_reached) (use spec_x_secret in \<open>simp_all add: tagging_cipher_ok op_sealed_def\<close>)
  then obtain ps where ps: "list_providers_for tagging_cipher ''u'' routed_store = Inr ps"
    using list_providers_total[OF routed_store_facts(1), of tagging_cipher "''u''"] by auto
  have "filter (\<lambda>p. pr_profile_id p = ''u'' \<or> pr_shared p) (providers routed_store) = []" by code_simp
  then have "mset (map pv_id ps) = {#}" using usable_providers[OF ps] by simp
  with ps show ?thesis by simp
qed

text \<open>
  Fresh tokens are two hexadecimal numbers written one after the other without padding,
  so different random pairs can give the same token: the pairs below do.
\<close>

theorem fresh_tokens_collide: "fresh_token 1 35 = fresh_token 18 3"
  by code_simp

end
