(* ===== verification/Json_Value.thy ===== *)
theory Json_Value
  imports Rust_Text
begin

text \<open>
  \<open>serde_json::Value\<close> as the program uses it. An object is an association list kept
  sorted by key with one entry per key, as the \<open>BTreeMap\<close> behind \<open>serde_json::Map\<close>
  is; a number is an integer (the \<open>i64\<close>/\<open>u64\<close> forms) or a finite float. Parsing and
  printing text is the library's and stays a parameter of the definitions that use it.
\<close>

section \<open>Values and accessors\<close>

datatype json =
    JNull
  | JBool bool
  | JInt int
  | JFloat rat
  | JStr string
  | JArr "json list"
  | JObj "(string \<times> json) list"

fun obj_insert :: "string \<Rightarrow> json \<Rightarrow> (string \<times> json) list \<Rightarrow> (string \<times> json) list" where
  "obj_insert k v [] = [(k, v)]"
| "obj_insert k v ((k', v') # m) =
     (if k = k' then (k, v) # m
      else if k < k' then (k, v) # (k', v') # m
      else (k', v') # obj_insert k v m)"

definition obj_remove :: "string \<Rightarrow> (string \<times> json) list \<Rightarrow> (string \<times> json) list" where
  "obj_remove k m = filter (\<lambda>(k', v). k' \<noteq> k) m"

definition has_key :: "string \<Rightarrow> (string \<times> json) list \<Rightarrow> bool" where
  "has_key k m \<longleftrightarrow> map_of m k \<noteq> None"

fun get :: "string \<Rightarrow> json \<Rightarrow> json option" where
  "get k (JObj m) = map_of m k"
| "get k _ = None"

fun as_str :: "json \<Rightarrow> string option" where
  "as_str (JStr s) = Some s"
| "as_str _ = None"

fun as_bool :: "json \<Rightarrow> bool option" where
  "as_bool (JBool b) = Some b"
| "as_bool _ = None"

fun as_array :: "json \<Rightarrow> json list option" where
  "as_array (JArr xs) = Some xs"
| "as_array _ = None"

fun as_i64 :: "json \<Rightarrow> int option" where
  "as_i64 (JInt n) = (if in_i64 n then Some n else None)"
| "as_i64 _ = None"

fun as_u64 :: "json \<Rightarrow> nat option" where
  "as_u64 (JInt n) = (if 0 \<le> n then Some (nat n) else None)"
| "as_u64 _ = None"

fun is_array :: "json \<Rightarrow> bool" where
  "is_array (JArr _) = True"
| "is_array _ = False"

text \<open>
  \<open>Value::pointer\<close> for a path of object keys and array indices. An index is the decimal
  text of its path segment: it selects an element of an array and a member of an object.
\<close>

datatype seg = Key string | Idx nat

fun pointer :: "seg list \<Rightarrow> json \<Rightarrow> json option" where
  "pointer [] v = Some v"
| "pointer (Key k # ps) v = (case get k v of None \<Rightarrow> None | Some w \<Rightarrow> pointer ps w)"
| "pointer (Idx i # ps) (JArr xs) = (if i < length xs then pointer ps (xs ! i) else None)"
| "pointer (Idx i # ps) v = (case get (decimal i) v of None \<Rightarrow> None | Some w \<Rightarrow> pointer ps w)"

lemma pointer_append:
  "pointer (ps @ qs) v = (case pointer ps v of None \<Rightarrow> None | Some w \<Rightarrow> pointer qs w)"
  by (induction ps v rule: pointer.induct) (auto split: option.splits)

section \<open>Objects as maps\<close>

definition obj_ok :: "(string \<times> json) list \<Rightarrow> bool" where
  "obj_ok m \<longleftrightarrow> sorted (map fst m) \<and> distinct (map fst m)"

lemma map_of_obj_insert [simp]: "map_of (obj_insert k v m) = (map_of m)(k \<mapsto> v)"
  by (induction m) auto

lemma keys_obj_insert: "fst ` set (obj_insert k v m) = insert k (fst ` set m)"
  using map_of_obj_insert[of k v m] by (simp flip: dom_map_of_conv_image_fst)

lemma obj_ok_insert: "obj_ok m \<Longrightarrow> obj_ok (obj_insert k v m)"
  unfolding obj_ok_def
proof (induction m)
  case Nil
  then show ?case by simp
next
  case (Cons p m)
  obtain k' v' where p: "p = (k', v')" by fastforce
  have set_keys: "set (map fst (obj_insert k v m)) = insert k (set (map fst m))"
    using keys_obj_insert[of k v m] by simp
  show ?case
    using Cons by (auto simp: p set_keys[simplified] intro: order.trans)
qed

lemma map_of_obj_remove [simp]: "map_of (obj_remove k m) = (map_of m)(k := None)"
  by (induction m) (auto simp: obj_remove_def)

lemma obj_ok_remove: "obj_ok m \<Longrightarrow> obj_ok (obj_remove k m)"
  unfolding obj_ok_def obj_remove_def
  by (auto simp: distinct_map_filter sorted_filter)

lemma has_key_insert [simp]: "has_key k' (obj_insert k v m) \<longleftrightarrow> k' = k \<or> has_key k' m"
  by (auto simp: has_key_def)

lemma has_key_remove [simp]: "has_key k' (obj_remove k m) \<longleftrightarrow> k' \<noteq> k \<and> has_key k' m"
  by (auto simp: has_key_def)

lemma has_key_Nil [simp]: "\<not> has_key k []"
  by (simp add: has_key_def)

end
