(* ===== verification/Routing.thy ===== *)
theory Routing
  imports Store_Contracts Json_Value
begin

text \<open>
  Resolution of a model string to an ordered list of targets (\<open>src/router/mod.rs\<close>): the
  needs of a request, the expansion of a route and the routes it refers to, parking of
  rate-limited entries, and the four strategies with the round-robin counters. The clock,
  the random draw and the rounding of \<open>f64\<close> arithmetic are arguments; the store is read
  at one instant.
\<close>

section \<open>The needs of a request\<close>

record request_needs =
  need_tools :: bool
  need_vision :: bool
  need_json_mode :: bool

definition no_needs :: request_needs where
  "no_needs = \<lparr>need_tools = False, need_vision = False, need_json_mode = False\<rparr>"

definition is_some_and :: "'a option \<Rightarrow> ('a \<Rightarrow> bool) \<Rightarrow> bool" where
  "is_some_and x P = (case x of None \<Rightarrow> False | Some y \<Rightarrow> P y)"

definition and_then :: "'a option \<Rightarrow> ('a \<Rightarrow> 'b option) \<Rightarrow> 'b option" where
  "and_then x f = (case x of None \<Rightarrow> None | Some y \<Rightarrow> f y)"

definition needs_from_body :: "json \<Rightarrow> request_needs" where
  "needs_from_body body =
     \<lparr>need_tools = is_some_and (and_then (get ''tools'' body) as_array) (\<lambda>a. a \<noteq> []),
      need_vision =
        (case and_then (get ''messages'' body) as_array of
           None \<Rightarrow> False
         | Some messages \<Rightarrow> list_ex (\<lambda>msg. is_some_and (get ''content'' msg) is_array) messages),
      need_json_mode =
        is_some_and (and_then (pointer [Key ''response_format'', Key ''type''] body) as_str)
          (\<lambda>t. t = ''json_object'')\<rparr>"

definition satisfies :: "request_needs \<Rightarrow> route_capabilities \<Rightarrow> bool" where
  "satisfies n caps \<longleftrightarrow>
     (\<not> need_tools n \<or> cap_tools caps) \<and> (\<not> need_vision n \<or> cap_vision caps)
     \<and> (\<not> need_json_mode n \<or> cap_json_mode caps)"

definition needs_is_empty :: "request_needs \<Rightarrow> bool" where
  "needs_is_empty n \<longleftrightarrow> \<not> need_tools n \<and> \<not> need_vision n \<and> \<not> need_json_mode n"

definition as_labels :: "request_needs \<Rightarrow> string list" where
  "as_labels n =
     (if need_tools n then [''tools''] else []) @ (if need_vision n then [''vision''] else [])
     @ (if need_json_mode n then [''json_mode''] else [])"

definition missing_list :: "request_needs \<Rightarrow> string" where
  "missing_list n = (if as_labels n = [] then ''none'' else join '', '' (as_labels n))"

section \<open>Targets\<close>

record target =
  tg_provider :: provider
  tg_entry :: route_entry
  tg_identity :: "string option"
  tg_prompt_cache :: prompt_cache_policy

datatype route_error =
    Bad_Model
  | No_Proxy
  | No_Route
  | Too_Deep
  | Circular int
  | Provider_Missing int
  | Provider_Foreign int
  | Route_Missing int
  | Route_Foreign int
  | Store_Failed store_error

definition from_store :: "store_error + 'a \<Rightarrow> route_error + 'a" where
  "from_store r = (case r of Inl e \<Rightarrow> Inl (Store_Failed e) | Inr x \<Rightarrow> Inr x)"

definition resolve_route :: "db \<Rightarrow> string \<Rightarrow> string \<Rightarrow> route_error + route" where
  "resolve_route d profile_id model =
     (case split_once CHR ''/'' model of
        None \<Rightarrow> Inl Bad_Model
      | Some (proxy_name, route_name) \<Rightarrow>
          (case get_proxy_named profile_id proxy_name d of
             None \<Rightarrow> Inl No_Proxy
           | Some proxy \<Rightarrow>
               res_bind (from_store (get_route_named (px_id proxy) route_name d)) (ok_or No_Route)))"

definition MAX_ROUTE_DEPTH :: nat where
  "MAX_ROUTE_DEPTH = 8"

text \<open>Whether an entry takes part at all.\<close>

definition entry_usable :: "request_needs \<Rightarrow> route_entry \<Rightarrow> bool" where
  "entry_usable needs e \<longleftrightarrow> re_status e \<in> {Healthy, Degraded} \<and> satisfies needs (re_capabilities e)"

definition direct_target :: "cipher \<Rightarrow> db \<Rightarrow> string \<Rightarrow> route_entry \<Rightarrow> int \<Rightarrow> route_error + target" where
  "direct_target c d caller e provider_id =
     res_bind (from_store (get_provider c provider_id d)) (\<lambda>found.
     res_bind (ok_or (Provider_Missing provider_id) found) (\<lambda>provider.
       if pv_profile_id provider = caller \<or> pv_shared provider
       then Inr \<lparr>tg_provider = provider, tg_entry = e, tg_identity = None, tg_prompt_cache = default_policy\<rparr>
       else Inl (Provider_Foreign provider_id)))"

text \<open>The sharing check before a nested route is entered.\<close>

definition may_enter :: "db \<Rightarrow> string \<Rightarrow> int \<Rightarrow> route_error + unit" where
  "may_enter d caller target_route_id =
     res_bind (ok_or (Route_Missing target_route_id) (route_owner_profile target_route_id d)) (\<lambda>owner.
     res_bind (from_store (get_route_by_id target_route_id d)) (\<lambda>found.
       if (case found of None \<Rightarrow> False | Some r \<Rightarrow> rt_shared r) \<or> owner = caller
       then Inr () else Inl (Route_Foreign target_route_id)))"

function expand_inner ::
  "cipher \<Rightarrow> db \<Rightarrow> string \<Rightarrow> request_needs \<Rightarrow> nat \<Rightarrow> int list \<Rightarrow> int \<Rightarrow> route_error + target list" where
  "expand_inner c d caller needs depth visited route_id =
     (if \<not> depth < MAX_ROUTE_DEPTH then Inl Too_Deep
      else if route_id \<in> set visited then Inl (Circular route_id)
      else res_bind (from_store (route_entries route_id d)) (\<lambda>es.
        collect_res (\<lambda>e.
            if \<not> entry_usable needs e then Inr []
            else (case re_provider_id e of
                Some p \<Rightarrow> res_bind (direct_target c d caller e p) (\<lambda>t. Inr [t])
              | None \<Rightarrow> (case re_target_route_id e of
                    Some r \<Rightarrow> res_bind (may_enter d caller r) (\<lambda>_.
                      expand_inner c d caller needs (depth + 1) (visited @ [route_id]) r)
                  | None \<Rightarrow> Inr [])))
          es))"
  by pat_completeness auto
termination
  by (relation "measure (\<lambda>(c, d, caller, needs, depth, visited, r). MAX_ROUTE_DEPTH - depth)") auto

declare expand_inner.simps [simp del]

text \<open>What one entry contributes to an expansion.\<close>

definition expand_entry ::
  "cipher \<Rightarrow> db \<Rightarrow> string \<Rightarrow> request_needs \<Rightarrow> nat \<Rightarrow> int list \<Rightarrow> int \<Rightarrow> route_entry \<Rightarrow> route_error + target list" where
  "expand_entry c d caller needs depth visited route_id e =
     (if \<not> entry_usable needs e then Inr []
      else (case re_provider_id e of
          Some p \<Rightarrow> res_bind (direct_target c d caller e p) (\<lambda>t. Inr [t])
        | None \<Rightarrow> (case re_target_route_id e of
              Some r \<Rightarrow> res_bind (may_enter d caller r) (\<lambda>_.
                expand_inner c d caller needs (depth + 1) (visited @ [route_id]) r)
            | None \<Rightarrow> Inr [])))"

lemma expand_inner_eq [code]:
  "expand_inner c d caller needs depth visited r =
     (if \<not> depth < MAX_ROUTE_DEPTH then Inl Too_Deep
      else if r \<in> set visited then Inl (Circular r)
      else res_bind (from_store (route_entries r d)) (\<lambda>es.
        collect_res (expand_entry c d caller needs depth visited r) es))"
  unfolding expand_entry_def by (subst expand_inner.simps) rule

definition expand_route_targets ::
  "cipher \<Rightarrow> db \<Rightarrow> string \<Rightarrow> int \<Rightarrow> request_needs \<Rightarrow> nat \<Rightarrow> route_error + target list" where
  "expand_route_targets c d caller route_id needs depth = expand_inner c d caller needs depth [] route_id"

section \<open>Parking and strategies\<close>

text \<open>\<open>warm_first\<close>: warm items if there is one, else all by the end of their cooldown.\<close>

definition warm_first :: "('a \<Rightarrow> int) \<Rightarrow> int \<Rightarrow> 'a list \<Rightarrow> 'a list" where
  "warm_first cooldown_until now items =
     (let warm = filter (\<lambda>x. cooldown_until x \<le> now) items;
          cooling = filter (\<lambda>x. \<not> cooldown_until x \<le> now) items
      in if warm = [] then sort_key cooldown_until cooling else warm)"

type_synonym rr_state = "int \<Rightarrow> nat option"

definition rotate_round_robin :: "int \<Rightarrow> 'a list \<Rightarrow> rr_state \<Rightarrow> 'a list \<times> rr_state" where
  "rotate_round_robin route_id targets rr =
     (if length targets \<le> 1 then (targets, rr)
      else (let idx = (case rr route_id of None \<Rightarrow> 0 | Some i \<Rightarrow> i); len = length targets; split = idx mod len
            in (rotate_left split targets, rr(route_id \<mapsto> (idx + 1) mod len))))"

text \<open>Rounded \<open>f64\<close> arithmetic belongs to the machine.\<close>

record float_ops =
  fl_add :: "f64 \<Rightarrow> f64 \<Rightarrow> f64"
  fl_sub :: "f64 \<Rightarrow> f64 \<Rightarrow> f64"
  fl_mul :: "f64 \<Rightarrow> f64 \<Rightarrow> f64"

text \<open>The index at which the draw runs out, or 0 if it never does.\<close>

fun weighted_pick :: "float_ops \<Rightarrow> f64 \<Rightarrow> nat \<Rightarrow> f64 list \<Rightarrow> nat" where
  "weighted_pick fl pick i [] = 0"
| "weighted_pick fl pick i (w # ws) =
     (let pick' = fl_sub fl pick w in if f64_le pick' (FFin 0) then i else weighted_pick fl pick' (i + 1) ws)"

definition shuffle_weighted :: "float_ops \<Rightarrow> f64 \<Rightarrow> target list \<Rightarrow> target list" where
  "shuffle_weighted fl draw targets =
     (if length targets \<le> 1 then targets
      else (let weights = map (\<lambda>t. re_weight (tg_entry t)) targets; total = foldl (fl_add fl) (FFin 0) weights
            in if f64_le total (FFin 0) then targets
               else rotate_left (weighted_pick fl (fl_mul fl draw total) 0 weights) targets))"

definition price_key :: "target \<Rightarrow> f64" where
  "price_key t =
     (if f64_le (re_price_per_1m (tg_entry t)) (FFin 0) then FPosInf else re_price_per_1m (tg_entry t))"

definition apply_strategy ::
  "float_ops \<Rightarrow> f64 \<Rightarrow> route \<Rightarrow> target list \<Rightarrow> rr_state \<Rightarrow> target list \<times> rr_state" where
  "apply_strategy fl draw route targets rr =
     (case rt_strategy route of
        Priority \<Rightarrow> (targets, rr)
      | RoundRobin \<Rightarrow> rotate_round_robin (rt_id route) targets rr
      | Weighted \<Rightarrow> (shuffle_weighted fl draw targets, rr)
      | Economy \<Rightarrow> (sort_key price_key targets, rr))"

abbreviation cooldown_of :: "target \<Rightarrow> int" where
  "cooldown_of t \<equiv> re_cooldown_until (tg_entry t)"

definition resolve_targets :: "cipher \<Rightarrow> db \<Rightarrow> string \<Rightarrow> string \<Rightarrow> int \<Rightarrow> route_error + target list" where
  "resolve_targets c d profile_id model now =
     res_bind (resolve_route d profile_id model) (\<lambda>route.
     res_bind (expand_route_targets c d profile_id (rt_id route) no_needs 0) (\<lambda>targets.
       Inr (warm_first cooldown_of now
         (map (\<lambda>t. t\<lparr>tg_identity := rt_identity route, tg_prompt_cache := rt_prompt_cache route\<rparr>) targets))))"

definition resolve_targets_with_strategy ::
  "cipher \<Rightarrow> float_ops \<Rightarrow> f64 \<Rightarrow> db \<Rightarrow> string \<Rightarrow> string \<Rightarrow> request_needs \<Rightarrow> int \<Rightarrow> rr_state
     \<Rightarrow> (route_error + target list) \<times> rr_state" where
  "resolve_targets_with_strategy c fl draw d profile_id model needs now rr =
     (case resolve_route d profile_id model of
        Inl e \<Rightarrow> (Inl e, rr)
      | Inr route \<Rightarrow>
          (case expand_route_targets c d profile_id (rt_id route) needs 0 of
             Inl e \<Rightarrow> (Inl e, rr)
           | Inr targets \<Rightarrow>
               (let (ts, rr') = apply_strategy fl draw route
                      (warm_first cooldown_of now (map (\<lambda>t. t\<lparr>tg_identity := rt_identity route\<rparr>) targets)) rr
                in (Inr ts, rr'))))"

section \<open>Escalation\<close>

definition wants_escalation :: "json \<Rightarrow> bool" where
  "wants_escalation body \<longleftrightarrow>
     (case and_then (get ''economy_escalate'' body) as_bool of Some b \<Rightarrow> b | None \<Rightarrow> False)
     \<or> (case and_then (and_then (get ''extra'' body) (get ''economy_escalate'')) as_bool of
          Some b \<Rightarrow> b | None \<Rightarrow> False)"

definition wants_escalation_header :: "string option \<Rightarrow> bool" where
  "wants_escalation_header value =
     (case value of None \<Rightarrow> False
      | Some v \<Rightarrow> ascii_lower (trim v) \<in> {''true'', ''1'', ''yes''})"

end
