(* ===== verification/Translator.thy ===== *)
theory Translator
  imports Routing
begin

text \<open>
  The canonical request and response model (\<open>src/translator/mod.rs\<close>): how serde reads and
  writes a chat request, the content parts of a message, data URLs and image types, token
  accounting, and the provider-independent response, tool call and stream event. A field a
  struct flattens into \<open>extra\<close> collects the members no named field takes.
\<close>

section \<open>Objects written member by member\<close>

text \<open>Objects all the way down are what the \<open>BTreeMap\<close> of serde can hold.\<close>

fun json_ok :: "json \<Rightarrow> bool" where
  "json_ok (JArr xs) \<longleftrightarrow> list_all json_ok xs"
| "json_ok (JObj m) \<longleftrightarrow> obj_ok m \<and> list_all (\<lambda>(k, v). json_ok v) m"
| "json_ok _ \<longleftrightarrow> True"

lemma map_of_graph: "distinct (map fst m) \<Longrightarrow> map (\<lambda>k. (k, the (map_of m k))) (map fst m) = m"
proof -
  assume d: "distinct (map fst m)"
  then have "map (\<lambda>k. (k, the (map_of m k))) (map fst m) = map (\<lambda>p. p) m"
    unfolding map_map by (intro map_cong) (auto dest: map_of_is_SomeI[OF d])
  then show ?thesis by simp
qed

lemma obj_ok_unique:
  assumes "obj_ok m" "obj_ok m'" "map_of m = map_of m'"
  shows "m = m'"
proof -
  have "set (map fst m) = set (map fst m')"
    using assms(3) by (metis dom_map_of_conv_image_fst list.set_map)
  then have "map fst m = map fst m'"
    using assms(1,2) by (intro sorted_distinct_set_unique) (simp_all add: obj_ok_def)
  then show ?thesis
    using assms map_of_graph[of m] map_of_graph[of m'] by (metis obj_ok_def)
qed

text \<open>Members written one after the other into a map: the last one of a key stays.\<close>

definition insert_all :: "(string \<times> json) list \<Rightarrow> (string \<times> json) list \<Rightarrow> (string \<times> json) list" where
  "insert_all es m = fold (\<lambda>(k, v). obj_insert k v) es m"

definition object :: "(string \<times> json) list \<Rightarrow> json" where
  "object es = JObj (insert_all es [])"

lemma insert_all_simps [simp, code]:
  "insert_all [] m = m"
  "insert_all ((k, v) # es) m = insert_all es (obj_insert k v m)"
  by (simp_all add: insert_all_def)

lemma obj_ok_Nil [simp]: "obj_ok []"
  by (simp add: obj_ok_def)

lemma obj_ok_insert_all: "obj_ok m \<Longrightarrow> obj_ok (insert_all es m)"
  by (induction es arbitrary: m) (auto simp: obj_ok_insert)

lemma map_of_insert_all:
  "distinct (map fst es) \<Longrightarrow>
     map_of (insert_all es m) k = (case map_of es k of None \<Rightarrow> map_of m k | Some v \<Rightarrow> Some v)"
proof (induction es arbitrary: m)
  case (Cons e es)
  obtain k' v where e: "e = (k', v)" by fastforce
  with Cons.prems have "map_of es k' = None" by (simp add: map_of_eq_None_iff)
  with Cons e show ?case by (auto split: option.split)
qed simp

lemma map_of_insert_all_other: "k \<notin> fst ` set es \<Longrightarrow> map_of (insert_all es m) k = map_of m k"
  by (induction es arbitrary: m) auto

text \<open>Writing only adds or replaces members, and objects stay well formed.\<close>

definition without :: "string list \<Rightarrow> (string \<times> json) list \<Rightarrow> (string \<times> json) list" where
  "without ks m = filter (\<lambda>(k, v). k \<notin> set ks) m"

lemma map_of_without: "map_of (without ks m) k = (if k \<in> set ks then None else map_of m k)"
  by (induction m) (auto simp: without_def)

lemma obj_ok_without: "obj_ok m \<Longrightarrow> obj_ok (without ks m)"
  by (auto simp: obj_ok_def without_def distinct_map_filter sorted_filter)

section \<open>Chat requests\<close>

record message =
  ms_role :: string
  ms_content :: json
  ms_extra :: json

record chat_request =
  cq_model :: string
  cq_messages :: "message list"
  cq_stream :: bool
  cq_extra :: json

text \<open>\<open>serde_json::from_value\<close>; the error text is not modelled.\<close>

definition message_of_json :: "json \<Rightarrow> message option" where
  "message_of_json v =
     (case v of
        JObj m \<Rightarrow>
          (case (map_of m ''role'', map_of m ''content'') of
             (Some (JStr r), Some c) \<Rightarrow>
               Some \<lparr>ms_role = r, ms_content = c, ms_extra = JObj (without [''role'', ''content''] m)\<rparr>
           | _ \<Rightarrow> None)
      | _ \<Rightarrow> None)"

fun all_some :: "'a option list \<Rightarrow> 'a list option" where
  "all_some [] = Some []"
| "all_some (x # xs) =
     (case x of None \<Rightarrow> None | Some y \<Rightarrow> map_option ((#) y) (all_some xs))"

definition chat_of_json :: "json \<Rightarrow> chat_request option" where
  "chat_of_json v =
     (case v of
        JObj m \<Rightarrow>
          (case (map_of m ''model'', and_then (map_of m ''messages'') as_array,
                 case map_of m ''stream'' of None \<Rightarrow> Some False | Some s \<Rightarrow> as_bool s) of
             (Some (JStr model), Some ms, Some stream) \<Rightarrow>
               map_option (\<lambda>msgs. \<lparr>cq_model = model, cq_messages = msgs, cq_stream = stream,
                   cq_extra = JObj (without [''model'', ''messages'', ''stream''] m)\<rparr>)
                 (all_some (map message_of_json ms))
           | _ \<Rightarrow> None)
      | _ \<Rightarrow> None)"

text \<open>\<open>serde_json::to_value\<close>; only an object or null can be flattened.\<close>

fun flat_members :: "json \<Rightarrow> (string \<times> json) list option" where
  "flat_members JNull = Some []"
| "flat_members (JObj m) = Some m"
| "flat_members _ = None"

definition message_to_json :: "message \<Rightarrow> json option" where
  "message_to_json msg =
     map_option (\<lambda>es. object ([(''role'', JStr (ms_role msg)), (''content'', ms_content msg)] @ es))
       (flat_members (ms_extra msg))"

definition chat_to_json :: "chat_request \<Rightarrow> json option" where
  "chat_to_json req =
     (case (all_some (map message_to_json (cq_messages req)), flat_members (cq_extra req)) of
        (Some ms, Some es) \<Rightarrow>
          Some (object ([(''model'', JStr (cq_model req)), (''messages'', JArr ms),
                         (''stream'', JBool (cq_stream req))] @ es))
      | _ \<Rightarrow> None)"

text \<open>\<open>Message::new\<close> and \<open>Message::text\<close>\<close>

definition new_message :: "string \<Rightarrow> json \<Rightarrow> message" where
  "new_message role content = \<lparr>ms_role = role, ms_content = content, ms_extra = JNull\<rparr>"

definition text_message :: "string \<Rightarrow> string \<Rightarrow> message" where
  "text_message role t = new_message role (JStr t)"

section \<open>Content parts\<close>

datatype content_part = Text string | Image string

record data_url =
  du_mime :: string
  du_data :: string

definition parse_data_url :: "string \<Rightarrow> data_url option" where
  "parse_data_url url =
     and_then (strip_prefix url ''data:'') (\<lambda>rest.
     and_then (split_once CHR '','' rest) (\<lambda>(header0, payload).
       let header = (case strip_suffix header0 '';base64'' of Some h \<Rightarrow> h | None \<Rightarrow> header0)
       in Some \<lparr>du_mime = (if header = [] then ''application/octet-stream'' else header),
                du_data = payload\<rparr>))"

definition infer_image_mime :: "string \<Rightarrow> string" where
  "infer_image_mime url =
     (let path = takeWhile (\<lambda>c. c \<noteq> CHR ''?'' \<and> c \<noteq> CHR ''#'') url; lower = ascii_lower path
      in if ends_with lower ''.png'' then ''image/png''
         else if ends_with lower ''.jpg'' \<or> ends_with lower ''.jpeg'' then ''image/jpeg''
         else if ends_with lower ''.gif'' then ''image/gif''
         else if ends_with lower ''.webp'' then ''image/webp''
         else ''image/jpeg'')"

definition image_part_url :: "json \<Rightarrow> string" where
  "image_part_url part =
     (case get ''image_url'' part of
        Some (JStr s) \<Rightarrow> s
      | Some v \<Rightarrow> (case and_then (get ''url'' v) as_str of Some u \<Rightarrow> u | None \<Rightarrow> [])
      | None \<Rightarrow> [])"

definition part_of_json :: "json \<Rightarrow> content_part option" where
  "part_of_json p =
     (let kind = and_then (get ''type'' p) as_str
      in if kind = Some ''text'' then map_option Text (and_then (get ''text'' p) as_str)
         else if kind = Some ''image_url'' then Some (Image (image_part_url p))
         else None)"

definition content_parts :: "json \<Rightarrow> content_part list" where
  "content_parts content =
     (case content of
        JStr s \<Rightarrow> [Text s]
      | JArr parts \<Rightarrow> map the (filter (\<lambda>x. x \<noteq> None) (map part_of_json parts))
      | _ \<Rightarrow> [])"

fun is_image :: "content_part \<Rightarrow> bool" where
  "is_image (Image u) = True"
| "is_image (Text t) = False"

definition content_has_image :: "json \<Rightarrow> bool" where
  "content_has_image content = list_ex is_image (content_parts content)"

definition content_text :: "json \<Rightarrow> string" where
  "content_text content =
     join [CHR 0x0A] (concat (map (\<lambda>p. case p of Text t \<Rightarrow> [t] | Image u \<Rightarrow> []) (content_parts content)))"

section \<open>Token accounting\<close>

record usage_tokens =
  ut_prompt :: "int option"
  ut_completion :: "int option"
  ut_cached :: "int option"

definition no_usage :: usage_tokens where
  "no_usage = \<lparr>ut_prompt = None, ut_completion = None, ut_cached = None\<rparr>"

fun first_i64 :: "json \<Rightarrow> string list \<Rightarrow> int option" where
  "first_i64 u [] = None"
| "first_i64 u (k # ks) =
     (case and_then (get k u) as_i64 of Some n \<Rightarrow> Some n | None \<Rightarrow> first_i64 u ks)"

definition parse_usage_tokens :: "(bytes \<Rightarrow> json option) \<Rightarrow> bytes \<Rightarrow> usage_tokens" where
  "parse_usage_tokens from_slice body =
     (case from_slice body of
        None \<Rightarrow> no_usage
      | Some v \<Rightarrow>
          (case (case get ''usage'' v of Some u \<Rightarrow> Some u | None \<Rightarrow> get ''usageMetadata'' v) of
             None \<Rightarrow> no_usage
           | Some u \<Rightarrow>
               \<lparr>ut_prompt = first_i64 u [''prompt_tokens'', ''input_tokens'', ''promptTokenCount''],
                ut_completion = first_i64 u [''completion_tokens'', ''output_tokens'', ''candidatesTokenCount''],
                ut_cached =
                  (case first_i64 u [''cache_read_input_tokens'', ''cachedContentTokenCount''] of
                     Some n \<Rightarrow> Some n
                   | None \<Rightarrow> and_then (and_then (get ''prompt_tokens_details'' u) (get ''cached_tokens'')) as_i64)\<rparr>))"

section \<open>Responses and stream events\<close>

record tool_call =
  tc_id :: string
  tc_call_id :: string
  tc_name :: string
  tc_arguments :: string

definition wire_id :: "tool_call \<Rightarrow> string" where
  "wire_id t = (if tc_call_id t = [] then tc_id t else tc_call_id t)"

record canonical_response =
  cr_id :: string
  cr_model :: string
  cr_text :: string
  cr_finish_reason :: string
  cr_prompt_tokens :: nat
  cr_completion_tokens :: nat
  cr_tool_calls :: "tool_call list"

text \<open>Sums of \<open>u64\<close> counts wrap around.\<close>

definition add_u64 :: "nat \<Rightarrow> nat \<Rightarrow> nat" where
  "add_u64 a b = nat ((int a + int b) mod 2 ^ 64)"

definition total_tokens :: "canonical_response \<Rightarrow> nat" where
  "total_tokens r = add_u64 (cr_prompt_tokens r) (cr_completion_tokens r)"

record tool_call_delta =
  td_index :: nat
  td_id :: "string option"
  td_call_id :: "string option"
  td_name :: "string option"
  td_arguments :: "string option"

record stream_event =
  se_delta :: string
  se_finish_reason :: "string option"
  se_prompt_tokens :: "nat option"
  se_completion_tokens :: "nat option"
  se_done :: bool
  se_tool_call_deltas :: "tool_call_delta list"

definition empty_event :: stream_event where
  "empty_event = \<lparr>se_delta = [], se_finish_reason = None, se_prompt_tokens = None,
     se_completion_tokens = None, se_done = False, se_tool_call_deltas = []\<rparr>"

section \<open>Reading and writing requests\<close>

lemma all_some_eq: "all_some xs = Some ys \<longleftrightarrow> xs = map Some ys"
  by (induction xs arbitrary: ys) (auto split: option.splits)

lemma map_of_object:
  "distinct (map fst es) \<Longrightarrow> map_of (insert_all es []) k = map_of es k"
  by (simp add: map_of_insert_all split: option.split)

lemma obj_okD: "obj_ok m \<Longrightarrow> distinct (map fst m)"
  by (simp add: obj_ok_def)

lemma without_keys: "fst ` set (without ks m) = fst ` set m - set ks"
  by (force simp: without_def)

text \<open>The members a struct names, followed by the others, are the members there were.\<close>

lemma flatten_back:
  assumes "obj_ok m" "distinct (map fst es)"
  shows "map_of (insert_all (es @ without (map fst es) m) []) k =
    (case map_of es k of Some v \<Rightarrow> Some v | None \<Rightarrow> map_of m k)"
proof -
  have "distinct (map fst (es @ without (map fst es) m))"
    using assms obj_okD[OF obj_ok_without[OF assms(1)]] without_keys[of "map fst es" m] by auto
  note written = map_of_object[OF this, of k]
  show ?thesis
  proof (cases "map_of es k")
    case None
    then have "k \<notin> set (map fst es)" by (simp add: map_of_eq_None_iff)
    with None written show ?thesis by (simp add: map_of_without map_add_def)
  next
    case (Some v)
    then have "k \<in> set (map fst es)" by (force dest: map_of_SomeD)
    with Some written show ?thesis by (simp add: map_of_without map_add_def)
  qed
qed

lemma message_back:
  assumes "json_ok v" "message_of_json v = Some msg"
  shows "message_to_json msg = Some v"
proof -
  obtain m r c where v: "v = JObj m" "map_of m ''role'' = Some (JStr r)" "map_of m ''content'' = Some c"
    and msg: "msg = \<lparr>ms_role = r, ms_content = c, ms_extra = JObj (without [''role'', ''content''] m)\<rparr>"
    using assms(2) by (auto simp: message_of_json_def split: json.splits option.splits)
  let ?es = "[(''role'', JStr r), (''content'', c)]"
  have m: "obj_ok m" using assms(1) v(1) by simp
  have "map_of (insert_all (?es @ without (map fst ?es) m) []) = map_of m"
    using flatten_back[OF m, of ?es] v(2,3) by (auto simp: fun_eq_iff split: option.split)
  then have "insert_all (?es @ without (map fst ?es) m) [] = m"
    using obj_ok_unique[OF obj_ok_insert_all[OF obj_ok_Nil] m] by blast
  then show ?thesis by (simp add: msg message_to_json_def object_def v(1))
qed

lemma messages_back:
  assumes "list_all json_ok vs" "all_some (map message_of_json vs) = Some msgs"
  shows "all_some (map message_to_json msgs) = Some vs"
  using assms
proof (induction vs arbitrary: msgs)
  case (Cons v vs)
  then show ?case by (auto split: option.splits simp: message_back)
qed simp

lemma chat_of_jsonE:
  assumes "chat_of_json v = Some req"
  obtains m vs where "v = JObj m" "map_of m ''model'' = Some (JStr (cq_model req))"
    "map_of m ''messages'' = Some (JArr vs)" "all_some (map message_of_json vs) = Some (cq_messages req)"
    "(case map_of m ''stream'' of None \<Rightarrow> Some False | Some s \<Rightarrow> as_bool s) = Some (cq_stream req)"
    "cq_extra req = JObj (without [''model'', ''messages'', ''stream''] m)"
proof -
  obtain m model vs st msgs where m: "v = JObj m" "map_of m ''model'' = Some (JStr model)"
      "and_then (map_of m ''messages'') as_array = Some vs"
      "(case map_of m ''stream'' of None \<Rightarrow> Some False | Some s \<Rightarrow> as_bool s) = Some st"
      "all_some (map message_of_json vs) = Some msgs"
    and req: "req = \<lparr>cq_model = model, cq_messages = msgs, cq_stream = st,
      cq_extra = JObj (without [''model'', ''messages'', ''stream''] m)\<rparr>"
    using assms by (auto simp: chat_of_json_def split: json.splits option.splits)
  moreover have "map_of m ''messages'' = Some (JArr vs)"
  proof -
    obtain w where w: "map_of m ''messages'' = Some w" "as_array w = Some vs"
      using m(3) by (auto simp: and_then_def split: option.splits)
    then show ?thesis by (cases w) auto
  qed
  ultimately show thesis using that by auto
qed

lemma chat_back:
  assumes "json_ok v" "chat_of_json v = Some req"
  shows "\<exists>m'. chat_to_json req = Some (JObj m') \<and> obj_ok m'
    \<and> (\<forall>k. map_of m' k = (if k = ''stream'' then Some (JBool (cq_stream req)) else get k v))"
proof -
  from assms(2) obtain m vs where v: "v = JObj m" "map_of m ''model'' = Some (JStr (cq_model req))"
    "map_of m ''messages'' = Some (JArr vs)" "all_some (map message_of_json vs) = Some (cq_messages req)"
    "(case map_of m ''stream'' of None \<Rightarrow> Some False | Some s \<Rightarrow> as_bool s) = Some (cq_stream req)"
    "cq_extra req = JObj (without [''model'', ''messages'', ''stream''] m)"
    by (rule chat_of_jsonE)
  let ?es = "[(''model'', JStr (cq_model req)), (''messages'', JArr vs), (''stream'', JBool (cq_stream req))]"
  let ?m = "insert_all (?es @ without (map fst ?es) m) []"
  have m: "obj_ok m" "\<forall>(k, v)\<in>set m. json_ok v" using assms(1) v(1) by (simp_all add: list_all_iff)
  then have "list_all json_ok vs" using map_of_SomeD[OF v(3)] by auto
  then have "chat_to_json req = Some (JObj ?m)"
    using messages_back v(4,6) by (simp add: chat_to_json_def object_def)
  moreover have "map_of ?m k = (if k = ''stream'' then Some (JBool (cq_stream req)) else get k v)" for k
    using flatten_back[OF m(1), of ?es] v(1-3) by (auto split: option.split)
  ultimately show ?thesis using obj_ok_insert_all[OF obj_ok_Nil] by blast
qed

text \<open>
  A chat request survives being read and written: the object written has the caller's
  value under every key but \<open>stream\<close>, which is the flag that was read (false when absent) -
  the messages with their tool calls and other extra fields included - and reading it again
  gives the same request.
\<close>

theorem chat_roundtrip:
  assumes "json_ok v" "chat_of_json v = Some req"
  shows "\<exists>w. chat_to_json req = Some w \<and> chat_of_json w = Some req
    \<and> get ''stream'' w = Some (JBool (cq_stream req)) \<and> (\<forall>k. k \<noteq> ''stream'' \<longrightarrow> get k w = get k v)"
proof -
  from chat_back[OF assms] obtain m' where m': "chat_to_json req = Some (JObj m')" "obj_ok m'"
    "\<forall>k. map_of m' k = (if k = ''stream'' then Some (JBool (cq_stream req)) else get k v)" by blast
  from assms(2) obtain m vs where v: "v = JObj m" "map_of m ''model'' = Some (JStr (cq_model req))"
    "map_of m ''messages'' = Some (JArr vs)" "all_some (map message_of_json vs) = Some (cq_messages req)"
    "(case map_of m ''stream'' of None \<Rightarrow> Some False | Some s \<Rightarrow> as_bool s) = Some (cq_stream req)"
    "cq_extra req = JObj (without [''model'', ''messages'', ''stream''] m)"
    by (rule chat_of_jsonE)
  let ?ks = "[''model'', ''messages'', ''stream'']"
  have "obj_ok m" using assms(1) v(1) by simp
  moreover have "map_of (without ?ks m') = map_of (without ?ks m)"
    using m'(3) v(1) by (auto simp: fun_eq_iff map_of_without)
  ultimately have "without ?ks m' = without ?ks m"
    using obj_ok_unique[OF obj_ok_without[OF m'(2)] obj_ok_without] by blast
  then have "chat_of_json (JObj m') = Some req"
    using v m'(3) by (simp add: chat_of_json_def and_then_def)
  then show ?thesis using m' by auto
qed

definition demo_chat_json :: json where
  "demo_chat_json = JObj [(''messages'', JArr [JObj [(''content'', JStr ''hi''), (''name'', JStr ''x''), (''role'', JStr ''user'')]]),
     (''model'', JStr ''p/r''), (''temperature'', JInt 0)]"

theorem chat_roundtrip_witness:
  "\<exists>req w. chat_of_json demo_chat_json = Some req \<and> chat_to_json req = Some w
     \<and> get ''messages'' w = get ''messages'' demo_chat_json"
proof -
  have "chat_of_json demo_chat_json \<noteq> None" by code_simp
  then obtain req where req: "chat_of_json demo_chat_json = Some req" by blast
  have "json_ok demo_chat_json" by code_simp
  from chat_roundtrip[OF this req] show ?thesis using req by auto
qed

end
