(* ===== verification/Routing_Props.thy ===== *)
theory Routing_Props
  imports Routing
begin

text \<open>
  Correctness of resolution. The declarative side is two inductive relations: which route
  may be entered from which, and which entry with which provider is a leaf of a route. The
  expansion computes exactly the leaves, within the caller's own and shared resources, and
  succeeds only on chains that end. Parking and strategies choose and order among them.
\<close>

section \<open>The declarative expansion\<close>

definition entries_of :: "db \<Rightarrow> int \<Rightarrow> route_entry list" where
  "entries_of d r = (case route_entries r d of Inl e \<Rightarrow> [] | Inr es \<Rightarrow> es)"

text \<open>\<open>r\<close> has a usable entry that refers to \<open>r'\<close>, and the caller may enter \<open>r'\<close>.\<close>

inductive enters :: "db \<Rightarrow> string \<Rightarrow> request_needs \<Rightarrow> int \<Rightarrow> int \<Rightarrow> bool"
  for d :: db and caller :: string and needs :: request_needs where
  enter: "e \<in> set (entries_of d r) \<Longrightarrow> entry_usable needs e \<Longrightarrow> re_provider_id e = None \<Longrightarrow>
    re_target_route_id e = Some r' \<Longrightarrow> may_enter d caller r' = Inr () \<Longrightarrow> enters d caller needs r r'"

text \<open>The leaves of a route: its usable direct entries and the leaves of what it enters.\<close>

inductive leaf :: "cipher \<Rightarrow> db \<Rightarrow> string \<Rightarrow> request_needs \<Rightarrow> int \<Rightarrow> target \<Rightarrow> bool"
  for c :: cipher and d :: db and caller :: string and needs :: request_needs where
  direct: "e \<in> set (entries_of d r) \<Longrightarrow> entry_usable needs e \<Longrightarrow> re_provider_id e = Some p \<Longrightarrow>
    direct_target c d caller e p = Inr t \<Longrightarrow> leaf c d caller needs r t"
| nested: "enters d caller needs r r' \<Longrightarrow> leaf c d caller needs r' t \<Longrightarrow> leaf c d caller needs r t"

inductive_cases leafE: "leaf c d caller needs r t"
inductive_cases entersE: "enters d caller needs r r'"

lemma expand_InrD:
  assumes "expand_inner c d caller needs depth visited r = Inr ts"
  shows "depth < MAX_ROUTE_DEPTH" "r \<notin> set visited"
    "collect_res (expand_entry c d caller needs depth visited r) (entries_of d r) = Inr ts"
  using assms
  by (auto simp: expand_inner_eq entries_of_def from_store_def res_bind_def split: if_splits sum.splits)

lemma expand_entry_nested:
  assumes "expand_entry c d caller needs depth visited r e = Inr xs" "entry_usable needs e"
    "re_provider_id e = None" "re_target_route_id e = Some r'"
  shows "may_enter d caller r' = Inr () \<and> expand_inner c d caller needs (depth + 1) (visited @ [r]) r' = Inr xs"
  using assms by (auto simp: expand_entry_def res_bind_def split: sum.splits)

lemma expand_sound:
  "expand_inner c d caller needs depth visited r = Inr ts \<Longrightarrow> t \<in> set ts \<Longrightarrow> leaf c d caller needs r t"
proof (induction "MAX_ROUTE_DEPTH - depth" arbitrary: depth visited r ts rule: less_induct)
  case less
  note ex = expand_InrD[OF less.prems(1)]
  obtain e xs where e: "e \<in> set (entries_of d r)" and xs: "expand_entry c d caller needs depth visited r e = Inr xs" "t \<in> set xs"
    using collect_res_mem[OF ex(3) less.prems(2)] by blast
  have use: "entry_usable needs e" using xs by (auto simp: expand_entry_def split: if_splits)
  show ?case
  proof (cases "re_provider_id e")
    case (Some p)
    then have "direct_target c d caller e p = Inr t"
      using xs use by (auto simp: expand_entry_def res_bind_def split: sum.splits)
    then show ?thesis using direct[OF e use Some] by blast
  next
    case None
    then obtain r' where r': "re_target_route_id e = Some r'"
      using xs use by (auto simp: expand_entry_def split: option.splits)
    from expand_entry_nested[OF xs(1) use None r']
    have m: "may_enter d caller r' = Inr ()" and sub: "expand_inner c d caller needs (depth + 1) (visited @ [r]) r' = Inr xs"
      by blast+
    have "leaf c d caller needs r' t"
      by (rule less.hyps[OF _ sub xs(2)]) (use ex(1) in simp)
    then show ?thesis using nested enter[OF e use None r' m] by blast
  qed
qed

lemma expand_enters:
  assumes "expand_inner c d caller needs depth visited r = Inr ts" "enters d caller needs r r'"
  shows "\<exists>xs. expand_inner c d caller needs (depth + 1) (visited @ [r]) r' = Inr xs \<and> set xs \<subseteq> set ts"
  using assms(2)
proof (cases rule: enters.cases)
  case (enter e)
  from collect_res_part[OF expand_InrD(3)[OF assms(1)] enter(1)]
  obtain xs where "expand_entry c d caller needs depth visited r e = Inr xs" "set xs \<subseteq> set ts" by blast
  with expand_entry_nested[OF _ enter(2,3,4)] show ?thesis by blast
qed

lemma expand_complete:
  assumes "leaf c d caller needs r t" "expand_inner c d caller needs depth visited r = Inr ts"
  shows "t \<in> set ts"
  using assms
proof (induction arbitrary: depth visited ts rule: leaf.induct)
  case (direct e r p t)
  from collect_res_part[OF expand_InrD(3)[OF direct.prems] direct.hyps(1)]
  obtain xs where "expand_entry c d caller needs depth visited r e = Inr xs" "set xs \<subseteq> set ts" by blast
  with direct.hyps show ?case by (auto simp: expand_entry_def res_bind_def)
next
  case (nested r r' t)
  from expand_enters[OF nested.prems nested.hyps(1)] nested.IH show ?case by blast
qed

lemma expand_leaves:
  "expand_inner c d caller needs depth visited r = Inr ts \<Longrightarrow> set ts = {t. leaf c d caller needs r t}"
  using expand_sound expand_complete by blast

section \<open>What leaves are\<close>

definition visible :: "string \<Rightarrow> provider \<Rightarrow> bool" where
  "visible caller p \<longleftrightarrow> pv_profile_id p = caller \<or> pv_shared p"

lemma direct_targetD:
  "direct_target c d caller e p = Inr t \<Longrightarrow>
     get_provider c p d = Inr (Some (tg_provider t)) \<and> visible caller (tg_provider t) \<and> tg_entry t = e
     \<and> tg_prompt_cache t = default_policy"
  by (auto simp: direct_target_def visible_def from_store_def res_bind_def ok_or_def
      split: sum.splits option.splits if_splits)

lemma leaf_facts:
  "leaf c d caller needs r t \<Longrightarrow>
     visible caller (tg_provider t) \<and> entry_usable needs (tg_entry t) \<and> tg_prompt_cache t = default_policy
     \<and> (\<exists>p. re_provider_id (tg_entry t) = Some p \<and> get_provider c p d = Inr (Some (tg_provider t)))"
  by (induction rule: leaf.induct) (auto dest: direct_targetD)

lemma may_enterD:
  assumes "may_enter d caller r = Inr ()"
  shows "route_owner_profile r d = Some caller \<or> (\<exists>rt. get_route_by_id r d = Inr (Some rt) \<and> rt_shared rt)"
  using assms by (auto simp: may_enter_def from_store_def res_bind_def ok_or_def
      split: sum.splits option.splits if_splits)

lemma entersD: "enters d caller needs r r' \<Longrightarrow> may_enter d caller r' = Inr ()"
  by (erule entersE) simp

section \<open>Expansion succeeds only on chains that end\<close>

lemma expand_path:
  assumes "(enters d caller needs ^^ n) r r'" "expand_inner c d caller needs depth visited r = Inr ts"
  shows "\<exists>v xs. expand_inner c d caller needs (depth + n) v r' = Inr xs"
  using assms(1)
proof (induction n arbitrary: r')
  case 0
  then show ?case using assms(2) by auto
next
  case (Suc n)
  then obtain m where "(enters d caller needs ^^ n) r m" "enters d caller needs m r'" by (auto elim: relpowp_Suc_E)
  with Suc.IH expand_enters show ?case by (metis add_Suc_right Suc_eq_plus1)
qed

lemma expand_depth:
  "(enters d caller needs ^^ n) r r' \<Longrightarrow> expand_inner c d caller needs depth visited r = Inr ts \<Longrightarrow>
     depth + n < MAX_ROUTE_DEPTH"
  using expand_path expand_InrD(1) by metis

lemma relpowp_cycle: "(R ^^ n) x x \<Longrightarrow> (R ^^ (n * k)) x x"
  by (induction k) (auto simp: relpowp_add)

lemma expand_acyclic:
  assumes "expand_inner c d caller needs depth visited r = Inr ts" "(enters d caller needs)\<^sup>*\<^sup>* r m"
  shows "\<not> (enters d caller needs)\<^sup>+\<^sup>+ m m"
proof
  assume "(enters d caller needs)\<^sup>+\<^sup>+ m m"
  then obtain n where n: "n > 0" "(enters d caller needs ^^ n) m m" using tranclp_power by metis
  obtain k where "(enters d caller needs ^^ k) r m" using assms(2) rtranclp_power by metis
  then obtain v xs where "expand_inner c d caller needs (depth + k) v m = Inr xs"
    using expand_path[OF _ assms(1)] by blast
  moreover have "(enters d caller needs ^^ (n * MAX_ROUTE_DEPTH)) m m" by (rule relpowp_cycle[OF n(2)])
  ultimately have "depth + k + n * MAX_ROUTE_DEPTH < MAX_ROUTE_DEPTH" using expand_depth by blast
  then show False using n(1) by (cases n) simp_all
qed

text \<open>Everything an expansion of \<open>r\<close> asks of the route \<open>m\<close> itself.\<close>

definition expandable :: "cipher \<Rightarrow> db \<Rightarrow> string \<Rightarrow> request_needs \<Rightarrow> int \<Rightarrow> bool" where
  "expandable c d caller needs m \<longleftrightarrow> (\<exists>es. route_entries m d = Inr es \<and>
     (\<forall>e\<in>set es. entry_usable needs e \<longrightarrow>
        (case re_provider_id e of
           Some p \<Rightarrow> (\<exists>t. direct_target c d caller e p = Inr t)
         | None \<Rightarrow> (case re_target_route_id e of Some r \<Rightarrow> may_enter d caller r = Inr () | None \<Rightarrow> True))))"

lemma expand_expandable:
  assumes "expand_inner c d caller needs depth visited r = Inr ts"
  shows "expandable c d caller needs r"
proof -
  obtain es where es: "route_entries r d = Inr es"
    using assms by (auto simp: expand_inner_eq from_store_def res_bind_def split: if_splits sum.splits)
  have eo: "entries_of d r = es" by (simp add: entries_of_def es)
  have "(case re_provider_id e of
           Some p \<Rightarrow> (\<exists>t. direct_target c d caller e p = Inr t)
         | None \<Rightarrow> (case re_target_route_id e of Some r \<Rightarrow> may_enter d caller r = Inr () | None \<Rightarrow> True))"
    if e: "e \<in> set es" "entry_usable needs e" for e
  proof -
    obtain xs where "expand_entry c d caller needs depth visited r e = Inr xs"
      using collect_res_part[OF expand_InrD(3)[OF assms]] e(1) eo by blast
    then show ?thesis using e(2) by (auto simp: expand_entry_def res_bind_def split: option.splits sum.splits)
  qed
  then show ?thesis unfolding expandable_def using es by blast
qed

lemma expand_total:
  assumes "\<And>m. (enters d caller needs)\<^sup>*\<^sup>* r m \<Longrightarrow> expandable c d caller needs m"
    and "\<And>n m. (enters d caller needs ^^ n) r m \<Longrightarrow> depth + n < MAX_ROUTE_DEPTH"
    and "\<And>v. v \<in> set visited \<Longrightarrow> (enters d caller needs)\<^sup>+\<^sup>+ v r"
  shows "\<exists>ts. expand_inner c d caller needs depth visited r = Inr ts"
  using assms
proof (induction "MAX_ROUTE_DEPTH - depth" arbitrary: depth visited r rule: less_induct)
  case less
  let ?R = "enters d caller needs"
  have depth: "depth < MAX_ROUTE_DEPTH" using less.prems(2)[of 0 r] by simp
  have nocyc: "\<not> ?R\<^sup>+\<^sup>+ r r"
  proof
    assume "?R\<^sup>+\<^sup>+ r r"
    then obtain n where n: "n > 0" "(?R ^^ n) r r" using tranclp_power by metis
    then have "(?R ^^ (n * MAX_ROUTE_DEPTH)) r r" by (intro relpowp_cycle)
    from less.prems(2)[OF this] n(1) show False by (cases n) simp_all
  qed
  then have fresh: "r \<notin> set visited" using less.prems(3) by blast
  obtain es where es: "route_entries r d = Inr es" and
    each: "\<And>e. e \<in> set es \<Longrightarrow> entry_usable needs e \<Longrightarrow>
        (case re_provider_id e of
           Some p \<Rightarrow> (\<exists>t. direct_target c d caller e p = Inr t)
         | None \<Rightarrow> (case re_target_route_id e of Some r \<Rightarrow> may_enter d caller r = Inr () | None \<Rightarrow> True))"
    using less.prems(1)[of r] by (auto simp: expandable_def)
  have "\<exists>xs. expand_entry c d caller needs depth visited r e = Inr xs" if e: "e \<in> set es" for e
  proof (cases "entry_usable needs e \<and> re_provider_id e = None \<and> re_target_route_id e \<noteq> None")
    case True
    then obtain r' where r': "re_target_route_id e = Some r'" by auto
    have m: "may_enter d caller r' = Inr ()" using each[OF e] True r' by simp
    have step: "?R r r'" using e True r' m by (intro enter) (auto simp: entries_of_def es)
    have "\<exists>ts. expand_inner c d caller needs (depth + 1) (visited @ [r]) r' = Inr ts"
    proof (rule less.hyps)
      show "MAX_ROUTE_DEPTH - (depth + 1) < MAX_ROUTE_DEPTH - depth" using depth by simp
      show "expandable c d caller needs m" if "?R\<^sup>*\<^sup>* r' m" for m
        using less.prems(1) step that by (meson converse_rtranclp_into_rtranclp)
      show "depth + 1 + n < MAX_ROUTE_DEPTH" if "(?R ^^ n) r' m" for n m
        using less.prems(2)[of "Suc n" m] relpowp_Suc_I2[OF step that] by simp
      show "?R\<^sup>+\<^sup>+ v r'" if "v \<in> set (visited @ [r])" for v
        using that less.prems(3) step by (auto intro: tranclp.trancl_into_trancl)
    qed
    then show ?thesis using True r' m by (auto simp: expand_entry_def res_bind_def)
  next
    case False
    then show ?thesis using each[OF e]
      by (auto simp: expand_entry_def res_bind_def split: option.splits)
  qed
  then obtain zs where "collect_res (expand_entry c d caller needs depth visited r) es = Inr zs"
    using collect_res_all_Inr[of es] by blast
  then show ?case using depth fresh es by (simp add: expand_inner_eq from_store_def res_bind_def)
qed

section \<open>Parking and strategies\<close>

lemma warm_first_set:
  "set (warm_first f now xs) = (if \<exists>x\<in>set xs. f x \<le> now then {x \<in> set xs. f x \<le> now} else set xs)"
  by (auto simp: warm_first_def Let_def filter_empty_conv)

lemma warm_first_subset: "set (warm_first f now xs) \<subseteq> set xs"
  by (auto simp: warm_first_set)

lemma rotate_round_robin_mset [simp]: "mset (fst (rotate_round_robin r ts rr)) = mset ts"
  by (simp add: rotate_round_robin_def Let_def)

lemma shuffle_weighted_mset [simp]: "mset (shuffle_weighted fl draw ts) = mset ts"
  by (simp add: shuffle_weighted_def Let_def)

lemma apply_strategy_mset: "mset (fst (apply_strategy fl draw route ts rr)) = mset ts"
  by (simp add: apply_strategy_def split: routing_strategy.split)

lemma resolve_strategyD:
  assumes "resolve_targets_with_strategy c fl draw d caller model needs now rr = (Inr ts, rr')"
  shows "\<exists>route leaves. resolve_route d caller model = Inr route
    \<and> expand_inner c d caller needs 0 [] (rt_id route) = Inr leaves
    \<and> apply_strategy fl draw route
        (warm_first cooldown_of now (map (\<lambda>t. t\<lparr>tg_identity := rt_identity route\<rparr>) leaves)) rr = (ts, rr')"
  using assms by (auto simp: resolve_targets_with_strategy_def expand_route_targets_def
      split: sum.splits prod.splits)

definition available :: "int \<Rightarrow> target set \<Rightarrow> target set" where
  "available now L = (if \<exists>t\<in>L. cooldown_of t \<le> now then {t \<in> L. cooldown_of t \<le> now} else L)"

lemma available_subset: "available now L \<subseteq> L"
  by (auto simp: available_def)

lemma resolve_strategy_set:
  assumes "resolve_targets_with_strategy c fl draw d caller model needs now rr = (Inr ts, rr')"
    "resolve_route d caller model = Inr route"
  shows "set ts = (\<lambda>t. t\<lparr>tg_identity := rt_identity route\<rparr>) `
      available now {t. leaf c d caller needs (rt_id route) t}"
proof -
  obtain leaves where l: "expand_inner c d caller needs 0 [] (rt_id route) = Inr leaves"
    and a: "apply_strategy fl draw route
        (warm_first cooldown_of now (map (\<lambda>t. t\<lparr>tg_identity := rt_identity route\<rparr>) leaves)) rr = (ts, rr')"
    using resolve_strategyD[OF assms(1)] assms(2) by auto
  have "set ts = set (warm_first cooldown_of now (map (\<lambda>t. t\<lparr>tg_identity := rt_identity route\<rparr>) leaves))"
    using apply_strategy_mset[of fl draw route _ rr] a by (metis fst_conv mset_eq_setD)
  then show ?thesis
    unfolding expand_leaves[OF l, symmetric] by (auto simp: warm_first_set available_def)
qed

text \<open>
  C6. Resolution computes exactly the declarative leaves of the named route: the targets of
  a successful resolution are, with the route's identity, the usable direct entries of the
  route and of every route entered from it, restricted to the warm ones if there is a warm
  one, whatever the strategy.
\<close>

theorem resolution_exact:
  assumes "resolve_targets_with_strategy c fl draw d caller model needs now rr = (Inr ts, rr')"
  shows "\<exists>route. resolve_route d caller model = Inr route \<and>
    set ts = (\<lambda>t. t\<lparr>tg_identity := rt_identity route\<rparr>) `
      available now {t. leaf c d caller needs (rt_id route) t}"
  using resolve_strategyD[OF assms] resolve_strategy_set[OF assms] by blast




text \<open>
  Parking never fails a request: if some candidate is warm the result is the warm ones
  in their order, otherwise it is all candidates, soonest to warm first; so it is empty only
  if there was no candidate.
\<close>

theorem warm_first_spec:
  "warm_first f now xs =
     (if \<exists>x\<in>set xs. f x \<le> now then filter (\<lambda>x. f x \<le> now) xs else sort_key f xs)
   \<and> (warm_first f now xs = [] \<longleftrightarrow> xs = [])
   \<and> ((\<forall>x\<in>set xs. now < f x) \<longrightarrow> sorted (map f (warm_first f now xs)) \<and> mset (warm_first f now xs) = mset xs)"
proof -
  have eq: "warm_first f now xs =
     (if \<exists>x\<in>set xs. f x \<le> now then filter (\<lambda>x. f x \<le> now) xs else sort_key f xs)"
    by (auto simp: warm_first_def Let_def filter_empty_conv intro!: arg_cong[of _ _ "sort_key f"])
  have "sort_key f xs = [] \<longleftrightarrow> xs = []" by (metis length_0_conv length_sort)
  then show ?thesis unfolding eq by (auto simp: filter_empty_conv)
qed

lemma weighted_pick_bound: "weighted_pick fl x i ws \<le> i + length ws"
proof (induction ws arbitrary: x i)
  case (Cons w ws)
  show ?case using Cons[of "fl_sub fl x w" "i + 1"] by (simp add: Let_def)
qed simp

text \<open>
  The strategies choose an order and nothing else: each returns a permutation of the
  candidates. Priority leaves them alone, round robin and weighted rotate them, and economy
  sorts them stably by price with unpriced entries last.
\<close>

theorem strategies_permute:
  "mset (fst (apply_strategy fl draw route ts rr)) = mset ts
   \<and> (case rt_strategy route of
        Priority \<Rightarrow> fst (apply_strategy fl draw route ts rr) = ts
      | Economy \<Rightarrow> sorted (map price_key (fst (apply_strategy fl draw route ts rr)))
      | _ \<Rightarrow> (\<exists>k. fst (apply_strategy fl draw route ts rr) = rotate k ts))"
proof -
  have pick: "weighted_pick fl x 0 (map (\<lambda>t. re_weight (tg_entry t)) ts) \<le> length ts" for x
    using weighted_pick_bound[of fl x 0 "map (\<lambda>t. re_weight (tg_entry t)) ts"] by simp
  have "\<exists>k. shuffle_weighted fl draw ts = rotate k ts"
    by (simp add: shuffle_weighted_def Let_def rotate_left_rotate[OF pick])
       (metis id_apply rotate0)
  moreover have "\<exists>k. fst (rotate_round_robin r ts rr) = rotate k ts" for r
  proof (cases "length ts \<le> 1")
    case True
    then show ?thesis by (auto simp: rotate_round_robin_def intro: exI[of _ 0])
  next
    case False
    then have "ts \<noteq> []" by auto
    then have "i mod length ts \<le> length ts" for i by (simp add: less_imp_le_nat)
    then show ?thesis using False by (auto simp: rotate_round_robin_def Let_def rotate_left_rotate)
  qed
  ultimately show ?thesis
    using apply_strategy_mset[of fl draw route ts rr]
    by (cases "rt_strategy route") (simp_all add: apply_strategy_def)
qed

section \<open>Round robin\<close>

text \<open>The targets that lead in \<open>n\<close> consecutive requests of one route.\<close>

primrec rr_heads :: "int \<Rightarrow> 'a list \<Rightarrow> nat \<Rightarrow> rr_state \<Rightarrow> 'a list" where
  "rr_heads r ts 0 rr = []"
| "rr_heads r ts (Suc n) rr =
     (let (order, rr') = rotate_round_robin r ts rr in hd order # rr_heads r ts n rr')"

definition rr_index :: "int \<Rightarrow> rr_state \<Rightarrow> nat" where
  "rr_index r rr = (case rr r of None \<Rightarrow> 0 | Some i \<Rightarrow> i)"

lemma hd_rotate_left: "i < length xs \<Longrightarrow> hd (rotate_left i xs) = xs ! i"
  by (simp add: rotate_left_def hd_append hd_drop_conv_nth)

lemma rotate_round_robin_head:
  "ts \<noteq> [] \<Longrightarrow> hd (fst (rotate_round_robin r ts rr)) = ts ! (rr_index r rr mod length ts)"
proof (cases "length ts \<le> 1")
  case True
  assume "ts \<noteq> []"
  with True obtain x where "ts = [x]" by (cases ts) auto
  then show ?thesis by (simp add: rotate_round_robin_def)
qed (simp add: rotate_round_robin_def Let_def rr_index_def hd_rotate_left)

lemma rotate_round_robin_index:
  "ts \<noteq> [] \<Longrightarrow> rr_index r (snd (rotate_round_robin r ts rr)) mod length ts = (rr_index r rr + 1) mod length ts"
proof (cases "length ts \<le> 1")
  case True
  assume "ts \<noteq> []"
  with True have "length ts = 1" by (cases ts) auto
  then show ?thesis by simp
qed (simp add: rotate_round_robin_def Let_def rr_index_def)

lemma rr_heads_eq:
  "ts \<noteq> [] \<Longrightarrow> rr_heads r ts n rr = map (\<lambda>k. ts ! ((rr_index r rr + k) mod length ts)) [0..<n]"
proof (induction n arbitrary: rr)
  case (Suc n)
  have "rr_heads r ts (Suc n) rr =
      ts ! (rr_index r rr mod length ts) # rr_heads r ts n (snd (rotate_round_robin r ts rr))"
    using Suc.prems by (simp add: split_def Let_def rotate_round_robin_head)
  also have "rr_heads r ts n (snd (rotate_round_robin r ts rr)) =
      map (\<lambda>k. ts ! ((rr_index r rr + Suc k) mod length ts)) [0..<n]"
  proof -
    have "(rr_index r (snd (rotate_round_robin r ts rr)) + k) mod length ts = (rr_index r rr + Suc k) mod length ts" for k
      using rotate_round_robin_index[OF Suc.prems, of r rr] by (metis add.assoc mod_add_left_eq plus_1_eq_Suc)
    then show ?thesis by (simp add: Suc.IH[OF Suc.prems])
  qed
  finally show ?case by (simp add: upt_conv_Cons map_Suc_upt[symmetric] del: upt_Suc)
qed simp

text \<open>
  C39. Round robin is fair: while the candidates of a route stay the same, any run of as many
  consecutive requests as there are candidates lets each of them lead exactly once, in
  cyclic order from where the counter stands.
\<close>

theorem round_robin_fair:
  assumes "ts \<noteq> []"
  shows "rr_heads r ts (length ts) rr = rotate (rr_index r rr) ts
    \<and> mset (rr_heads r ts (length ts) rr) = mset ts"
proof -
  have eq: "rr_heads r ts (length ts) rr = rotate (rr_index r rr) ts"
    unfolding rr_heads_eq[OF assms]
    by (rule nth_equalityI) (simp_all add: nth_rotate add.commute)
  have "mset (rotate k ts) = mset ts" for k
    by (metis mset_rotate_left rotate_conv_mod rotate_left_rotate mod_le_divisor length_greater_0_conv assms)
  with eq show ?thesis by simp
qed

theorem round_robin_fair_witness:
  "mset (rr_heads 7 ''abc'' (length ''abc'') (\<lambda>_. Some 1)) = mset ''abc''"
  using round_robin_fair[of "''abc''" 7 "\<lambda>_. Some 1"] by blast

section \<open>The prompt-cache policy\<close>

text \<open>
  Resolution with a strategy, the one every request goes through, gives its targets the
  default policy whatever the route's policy is: a route set to \<open>Off\<close> still resolves to
  targets marked \<open>Auto\<close>. (\<open>resolve_targets\<close> does copy the route's policy.)
\<close>

theorem strategy_drops_cache_policy:
  assumes "resolve_targets_with_strategy c fl draw d caller model needs now rr = (Inr ts, rr')" "t \<in> set ts"
    and "resolve_targets c d caller model now = Inr us" "u \<in> set us"
  shows "tg_prompt_cache t = default_policy
    \<and> (\<exists>route. resolve_route d caller model = Inr route \<and> tg_prompt_cache u = rt_prompt_cache route)"
proof
  show "\<exists>route. resolve_route d caller model = Inr route \<and> tg_prompt_cache u = rt_prompt_cache route"
    using assms(3,4) warm_first_subset by (fastforce simp: resolve_targets_def res_bind_def split: sum.splits)
next
  show "tg_prompt_cache t = default_policy"
  proof -
  obtain route where r: "resolve_route d caller model = Inr route" using resolve_strategyD[OF assms(1)] by blast
  obtain l where "leaf c d caller needs (rt_id route) l" "t = l\<lparr>tg_identity := rt_identity route\<rparr>"
    using assms(2) available_subset unfolding resolve_strategy_set[OF assms(1) r] by blast
    then show ?thesis by (auto dest!: leaf_facts)
  qed
qed

text \<open>Exact arithmetic in place of rounded, for witnesses.\<close>

fun fin2 :: "(rat \<Rightarrow> rat \<Rightarrow> rat) \<Rightarrow> f64 \<Rightarrow> f64 \<Rightarrow> f64" where
  "fin2 f (FFin a) (FFin b) = FFin (f a b)"
| "fin2 f _ _ = FNaN"

definition exact_fl :: float_ops where
  "exact_fl = \<lparr>fl_add = fin2 (+), fl_sub = fin2 (-), fl_mul = fin2 (*)\<rparr>"

text \<open>
  A store with a weighted route whose policy is \<open>Off\<close>: two models of one provider and a
  nested route with a third.
\<close>

definition demo_store :: db where
  "demo_store = reached
     [On_Profile (Create_Profile_With_Token ''me'' None None ''t'' 0),
      On_Provider (Create_Provider tagging_cipher (replicate 12 CHR ''n'') ''t'' spec_x),
      On_Route (Create_Proxy ''t'' ''p'' None),
      On_Route (Create_Route 1 ''r'' None Weighted None), On_Route (Create_Route 1 ''s'' None Priority None),
      On_Route (Route_Cache_Policy 1 Off),
      On_Entry (Add_Entry 1 1 ''a'' 0 (FFin 1) default_caps),
      On_Entry (Add_Nested_Entry 1 2 ''s'' 1 (FFin 1)),
      On_Entry (Add_Entry 2 1 ''b'' 0 (FFin 3) default_caps)]"

definition entry_of :: "int \<Rightarrow> int \<Rightarrow> string \<Rightarrow> int \<Rightarrow> rat \<Rightarrow> route_entry" where
  "entry_of i r m priority w =
     \<lparr>re_id = i, re_route_id = r, re_provider_id = Some 1, re_target_route_id = None, re_model_id = m,
      re_priority = priority, re_weight = FFin w, re_status = Healthy, re_capabilities = default_caps,
      re_price_per_1m = FFin 2, re_cooldown_until = 0\<rparr>"

definition nested_of :: "int \<Rightarrow> int \<Rightarrow> int \<Rightarrow> string \<Rightarrow> int \<Rightarrow> rat \<Rightarrow> route_entry" where
  "nested_of i r t m priority w =
     \<lparr>re_id = i, re_route_id = r, re_provider_id = None, re_target_route_id = Some t, re_model_id = m,
      re_priority = priority, re_weight = FFin w, re_status = Healthy, re_capabilities = default_caps,
      re_price_per_1m = FFin 0, re_cooldown_until = 0\<rparr>"

lemma demo_facts:
  "route_entries 1 demo_store = Inr [entry_of 1 1 ''a'' 0 1, nested_of 2 1 2 ''s'' 1 1]"
  "route_entries 2 demo_store = Inr [entry_of 3 2 ''b'' 0 3]"
  "may_enter demo_store ''t'' 2 = Inr ()"
  by code_simp+

lemma demo_provider: "get_provider tagging_cipher 1 demo_store = Inr (Some (provider_of 1 ''t'' spec_x None))"
proof -
  have "(case get_provider tagging_cipher 1 demo_store of
      Inr (Some p) \<Rightarrow> pv_id p = 1 \<and> pv_profile_id p = ''t'' \<and> pv_name p = ''x'' \<and> pv_description p = None
        \<and> pv_base_url p = ''https://h'' \<and> pv_auth_token p = ''sk'' \<and> pv_kind p = Anthropic
        \<and> pv_extra_headers p = [] \<and> pv_mask_id p = None \<and> Option.is_none (pv_mask p) \<and> \<not> pv_shared p
    | _ \<Rightarrow> False)"
    by code_simp
  then show ?thesis
    by (auto simp: provider_of_def spec_x_def Option.is_none_def split: sum.splits option.splits
        intro!: provider.equality)
qed

definition demo_target :: "route_entry \<Rightarrow> target" where
  "demo_target e = \<lparr>tg_provider = provider_of 1 ''t'' spec_x None, tg_entry = e, tg_identity = None,
     tg_prompt_cache = default_policy\<rparr>"

lemma demo_expand:
  "expand_inner tagging_cipher demo_store ''t'' no_needs 0 [] 1 =
     Inr [demo_target (entry_of 1 1 ''a'' 0 1), demo_target (entry_of 3 2 ''b'' 0 3)]"
proof -
  have direct: "expand_entry tagging_cipher demo_store ''t'' no_needs n v r (entry_of i r m k w) =
      Inr [demo_target (entry_of i r m k w)]" for n v r i m k w
    by (simp add: expand_entry_def entry_usable_def direct_target_def demo_provider from_store_def ok_or_def
        res_bind_def entry_of_def satisfies_def no_needs_def demo_target_def provider_of_def)
  have two: "expand_inner tagging_cipher demo_store ''t'' no_needs 1 [1] 2 = Inr [demo_target (entry_of 3 2 ''b'' 0 3)]"
    by (subst expand_inner_eq) (simp add: demo_facts direct from_store_def res_bind_def MAX_ROUTE_DEPTH_def)
  have nested: "expand_entry tagging_cipher demo_store ''t'' no_needs 0 [] 1 (nested_of 2 1 2 ''s'' 1 1) =
      Inr [demo_target (entry_of 3 2 ''b'' 0 3)]"
    using two by (simp add: expand_entry_def entry_usable_def nested_of_def satisfies_def no_needs_def
        demo_facts res_bind_def)
  show ?thesis
    by (subst expand_inner_eq) (simp add: demo_facts direct nested from_store_def res_bind_def MAX_ROUTE_DEPTH_def)
qed

lemma demo_route: "resolve_route demo_store ''t'' ''p/r'' =
    Inr \<lparr>rt_id = 1, rt_proxy_id = 1, rt_name = ''r'', rt_description = None, rt_strategy = Weighted,
      rt_identity = None, rt_max_tokens = 0, rt_cache_ttl_secs = 0, rt_shared = False, rt_prompt_cache = Off\<rparr>"
  by code_simp

lemma demo_resolves:
  "resolve_targets_with_strategy tagging_cipher exact_fl (FFin (1/2)) demo_store ''t'' ''p/r'' no_needs 0 rr =
     (Inr [demo_target (entry_of 3 2 ''b'' 0 3), demo_target (entry_of 1 1 ''a'' 0 1)], rr)"
  by (simp add: resolve_targets_with_strategy_def demo_route expand_route_targets_def demo_expand
      apply_strategy_def warm_first_def shuffle_weighted_def rotate_left_def exact_fl_def demo_target_def
      entry_of_def Let_def)

definition demo_targets :: "target list" where
  "demo_targets = [demo_target (entry_of 3 2 ''b'' 0 3), demo_target (entry_of 1 1 ''a'' 0 1)]"

lemmas demo_resolution = demo_resolves[of "\<lambda>_. None", folded demo_targets_def]

theorem resolution_exact_witness:
  "set demo_targets = (\<lambda>t. t\<lparr>tg_identity := None\<rparr>) `
     available 0 {t. leaf tagging_cipher demo_store ''t'' no_needs 1 t}"
  using resolution_exact[OF demo_resolution] by (simp add: demo_route)




theorem warm_first_spec_witness: "warm_first id 5 [7, 3, 9, 4 :: int] = [3, 4]"
  using warm_first_spec[of id 5 "[7, 3, 9, 4 :: int]"] by simp

lemma demo_resolve_plain:
  "resolve_targets tagging_cipher demo_store ''t'' ''p/r'' 0 =
     Inr (map (\<lambda>t. t\<lparr>tg_prompt_cache := Off\<rparr>) (rev demo_targets))"
  by (simp add: resolve_targets_def demo_route expand_route_targets_def demo_expand res_bind_def
      warm_first_def demo_target_def entry_of_def demo_targets_def)

theorem strategy_drops_cache_policy_witness:
  "tg_prompt_cache (hd demo_targets) = Auto
   \<and> (\<exists>route. resolve_route demo_store ''t'' ''p/r'' = Inr route \<and> Off = rt_prompt_cache route)"
proof -
  have m: "hd demo_targets \<in> set demo_targets"
    "(hd demo_targets)\<lparr>tg_prompt_cache := Off\<rparr> \<in> set (map (\<lambda>t. t\<lparr>tg_prompt_cache := Off\<rparr>) (rev demo_targets))"
    by (simp_all add: demo_targets_def)
  from strategy_drops_cache_policy[OF demo_resolution m(1) demo_resolve_plain m(2)]
  show ?thesis by (simp add: default_policy_def)
qed

section \<open>Needs and nested entries\<close>

text \<open>
  The entry that refers to another route, as it is created, is usable only for requests
  that need nothing: its stored capabilities are all false, and resolution does look at them.
\<close>

theorem nested_entries_serve_plain_requests:
  assumes "add_route_entry_ref r t label priority w d = ok e d'"
  shows "entry_usable needs e \<longleftrightarrow> as_labels needs = []"
  using assms
  by (auto simp: add_route_entry_ref_def Let_def entry_usable_def satisfies_def as_labels_def default_caps_def
      split: if_splits)

theorem nested_entries_serve_plain_requests_witness:
  "\<exists>e d'. add_route_entry_ref 1 2 ''s'' 0 (FFin 1) demo_store = ok e d' \<and>
     \<not> entry_usable \<lparr>need_tools = True, need_vision = False, need_json_mode = False\<rparr> e"
proof -
  have "1 \<in> route_ids demo_store" "2 \<in> route_ids demo_store" by code_simp+
  then obtain e d' where "add_route_entry_ref 1 2 ''s'' 0 (FFin 1) demo_store = ok e d'"
    by (auto simp: add_route_entry_ref_def Let_def)
  from nested_entries_serve_plain_requests[OF this] this show ?thesis
    by (fastforce simp: as_labels_def)
qed

text \<open>
  A message whose content is an array makes a request need vision, even an array of
  text parts only; a content string does not.
\<close>

theorem text_parts_need_vision:
  "need_vision (needs_from_body (JObj [(''messages'', JArr [JObj [(''content'',
      JArr [JObj [(''text'', JStr t), (''type'', JStr ''text'')]]), (''role'', JStr ''user'')]])]))
   \<and> \<not> need_vision (needs_from_body (JObj [(''messages'', JArr [JObj [(''content'', JStr t), (''role'', JStr ''user'')]])]))"
  by (simp add: needs_from_body_def is_some_and_def and_then_def)

end
