(* ===== verification/Mask.thy ===== *)
theory Mask
  imports Domain Json_Value
begin

text \<open>
  Egress masks (\<open>src/mask/mod.rs\<close>): rewriting a request so that it goes to the hop of its
  provider instead of the upstream, and recognising the hop's own refusals. Headers are the
  sorted association lists of a \<open>BTreeMap\<close>. The text of an HTTP status and the size of a
  serialised body are arguments.
\<close>

section \<open>Headers and formatted text\<close>

type_synonym headers = "(string \<times> string) list"

fun hdr_insert :: "string \<Rightarrow> string \<Rightarrow> headers \<Rightarrow> headers" where
  "hdr_insert k v [] = [(k, v)]"
| "hdr_insert k v ((k', v') # hs) =
     (if k = k' then (k, v) # hs else if k < k' then (k, v) # (k', v') # hs
      else (k', v') # hdr_insert k v hs)"

lemma map_of_hdr_insert [simp]: "map_of (hdr_insert k v hs) = (map_of hs)(k \<mapsto> v)"
  by (induction hs) auto

text \<open>\<open>{:?}\<close> of a text of printable ASCII characters\<close>

definition debug_text :: "string \<Rightarrow> string" where
  "debug_text s =
     CHR 0x22 # concat (map (\<lambda>c. if c = CHR 0x22 \<or> c = CHR 0x5C then [CHR 0x5C, c] else [c]) s) @ [CHR 0x22]"

section \<open>Applying a mask\<close>

definition MASK_HEADER :: string where
  "MASK_HEADER = ''X-forward-mask''"

definition MASK_TARGET_HEADER :: string where
  "MASK_TARGET_HEADER = ''X-forward-target''"

definition MASK_ERR :: string where
  "MASK_ERR = ''err''"

definition MASK_SKIP :: string where
  "MASK_SKIP = ''AGOS_MASK_SKIP''"

definition MASK_FAILED :: string where
  "MASK_FAILED = ''AGOS_MASK_FAILED''"

text \<open>The error text, or the rewritten URL and headers.\<close>

definition apply_request ::
  "masking_server option \<Rightarrow> string \<Rightarrow> headers \<Rightarrow> nat \<Rightarrow> string + string \<times> headers" where
  "apply_request hop url headers body_len =
     (case hop of
        None \<Rightarrow> Inr (url, headers)
      | Some m \<Rightarrow>
          (if mk_max_body_bytes m > 0 \<and> int body_len > mk_max_body_bytes m
           then Inl (MASK_SKIP @ '' request body of '' @ decimal body_len @ '' bytes exceeds the ''
                     @ debug_text (mk_name m) @ '' mask limit of '' @ decimal (nat (mk_max_body_bytes m)) @ '' bytes'')
           else Inr (mk_endpoint_url m,
                     hdr_insert MASK_TARGET_HEADER url (hdr_insert MASK_HEADER (mk_secret m) headers))))"

definition apply_json ::
  "(json \<Rightarrow> nat) \<Rightarrow> masking_server option \<Rightarrow> string \<Rightarrow> headers \<Rightarrow> json \<Rightarrow> string + string \<times> headers" where
  "apply_json json_len hop url headers body =
     apply_request hop url headers
       (case hop of Some m \<Rightarrow> (if mk_max_body_bytes m > 0 then json_len body else 0) | None \<Rightarrow> 0)"

text \<open>
  The response headers of an upstream reply, names in lower case as the HTTP library looks
  them up; \<open>None\<close> for a value that is not text.
\<close>

type_synonym response_headers = "string \<Rightarrow> string option"

definition is_mask_rejection :: "response_headers \<Rightarrow> bool" where
  "is_mask_rejection hs =
     (case hs (ascii_lower MASK_HEADER) of None \<Rightarrow> False | Some v \<Rightarrow> ascii_lower v = ascii_lower MASK_ERR)"

definition rejection_error :: "(int \<Rightarrow> string) \<Rightarrow> string \<Rightarrow> int \<Rightarrow> string \<Rightarrow> string" where
  "rejection_error status_text mask_name status body =
     MASK_FAILED @ '' egress mask '' @ debug_text mask_name @ '' returned '' @ status_text status @ '': '' @ trim body"

section \<open>What a mask does to a request\<close>

lemma apply_request_none [simp]: "apply_request None url hs n = Inr (url, hs)"
  by (simp add: apply_request_def)

definition demo_hop :: masking_server where
  "demo_hop = \<lparr>mk_id = 1, mk_profile_id = ''p'', mk_name = ''m'', mk_kind = ''http'',
     mk_endpoint_url = ''https://hop'', mk_secret = ''s'', mk_max_body_bytes = 0,
     mk_expected_egress_ip = None, mk_verified_ip = None, mk_verified_asn = None,
     mk_verified_country = None, mk_verified_at = None, mk_shared = False\<rparr>"

text \<open>
  A masked request goes to the hop or nowhere: with a mask, either the body is over the
  mask's positive ceiling and the error carries the skip marker, or the URL becomes the
  hop's, the two mask headers carry the secret and the original URL, and every other header
  stays; without a mask nothing changes.
\<close>

theorem masked_request_goes_to_hop:
  "(case apply_request hop url hs n of
      Inl msg \<Rightarrow> \<exists>m rest. hop = Some m \<and> msg = MASK_SKIP @ rest \<and> 0 < mk_max_body_bytes m \<and> mk_max_body_bytes m < int n
    | Inr (url', hs') \<Rightarrow>
        (case hop of
           None \<Rightarrow> url' = url \<and> hs' = hs
         | Some m \<Rightarrow> url' = mk_endpoint_url m \<and> map_of hs' MASK_HEADER = Some (mk_secret m)
             \<and> map_of hs' MASK_TARGET_HEADER = Some url
             \<and> (\<forall>k. k \<noteq> MASK_HEADER \<and> k \<noteq> MASK_TARGET_HEADER \<longrightarrow> map_of hs' k = map_of hs k)))"
proof (cases hop)
  case (Some m)
  have "MASK_HEADER \<noteq> MASK_TARGET_HEADER" by (simp add: MASK_HEADER_def MASK_TARGET_HEADER_def)
  then show ?thesis by (simp add: Some apply_request_def)
qed simp

theorem masked_request_goes_to_hop_witness:
  "\<exists>url' hs'. apply_request (Some demo_hop) ''https://api'' [(''Accept'', ''x'')] 3 = Inr (url', hs')
     \<and> url' = ''https://hop'' \<and> map_of hs' MASK_TARGET_HEADER = Some ''https://api''"
proof (cases "apply_request (Some demo_hop) ''https://api'' [(''Accept'', ''x'')] 3")
  case (Inl msg)
  with masked_request_goes_to_hop[where hop = "Some demo_hop" and url = "''https://api''" and hs = "[(''Accept'', ''x'')]" and n = 3] show ?thesis
    by (simp add: demo_hop_def)
next
  case (Inr r)
  with masked_request_goes_to_hop[where hop = "Some demo_hop" and url = "''https://api''" and hs = "[(''Accept'', ''x'')]" and n = 3] show ?thesis
    by (cases r) (simp add: demo_hop_def)
qed

text \<open>
  A body as large as the ceiling still passes, one byte more is refused, and a ceiling
  of zero refuses nothing: the ceiling is inclusive.
\<close>

theorem mask_ceiling_inclusive:
  "(\<exists>out. apply_json len (Some m) url hs body = Inr out) \<longleftrightarrow>
     mk_max_body_bytes m \<le> 0 \<or> int (len body) \<le> mk_max_body_bytes m"
  by (auto simp: apply_json_def apply_request_def)

end
