(* ===== verification/Failover.thy ===== *)
theory Failover
  imports Routing_Props Mask
begin

text \<open>
  Priority failover (\<open>src/router/mod.rs\<close>, from \<open>execute_with_failover\<close> on): targets are
  tried in order until one answers; when all fail, each failure is classified and acts on
  the entry it came from. What an attempt answers, the clock and the JSON parser are
  arguments. Attempts write nothing here; what their caller logs is in the usage table.
\<close>

section \<open>Reading an upstream error\<close>

fun value_text_ref :: "json \<Rightarrow> string option" where
  "value_text_ref (JStr s) = Some s"
| "value_text_ref v = and_then (get ''text'' v) as_str"

fun filter_map :: "('a \<Rightarrow> 'b option) \<Rightarrow> 'a list \<Rightarrow> 'b list" where
  "filter_map f [] = []"
| "filter_map f (x # xs) = (case f x of None \<Rightarrow> filter_map f xs | Some y \<Rightarrow> y # filter_map f xs)"

fun find_map :: "('a \<Rightarrow> 'b option) \<Rightarrow> 'a list \<Rightarrow> 'b option" where
  "find_map f [] = None"
| "find_map f (x # xs) = (case f x of None \<Rightarrow> find_map f xs | Some y \<Rightarrow> Some y)"

fun value_text :: "json \<Rightarrow> string option" where
  "value_text (JStr s) = Some s"
| "value_text (JObj m) = and_then (map_of m ''text'') as_str"
| "value_text (JArr items) =
     (let parts = filter_map value_text_ref items in if parts = [] then None else Some (join '' '' parts))"
| "value_text _ = None"

definition error_text :: "(string \<Rightarrow> json option) \<Rightarrow> string \<Rightarrow> string option" where
  "error_text parse body =
     (let trimmed = trim body
      in if trimmed = [] then None
         else (case parse trimmed of
                 None \<Rightarrow> Some body
               | Some (JStr s) \<Rightarrow> Some s
               | Some v \<Rightarrow>
                   find_map (\<lambda>path. and_then (pointer path v) value_text)
                     [[Key ''error'', Key ''message''], [Key ''error''], [Key ''message''], [Key ''detail'']]))"

definition is_word :: "char \<Rightarrow> bool" where
  "is_word c \<longleftrightarrow> is_alnum c \<or> c = CHR ''_'' \<or> c = CHR ''-''"

definition contains_phrase :: "string \<Rightarrow> string \<Rightarrow> bool" where
  "contains_phrase message phrase =
     match_bounded (\<lambda>c. case c of None \<Rightarrow> True | Some x \<Rightarrow> \<not> is_word x) phrase None message"

definition PAYLOAD_SPECIFIC :: "string list" where
  "PAYLOAD_SPECIFIC =
     [''media type'', ''mime'', ''file format'', ''image format'', ''vision format'', ''too large'',
      ''corrupt'', ''decode'', ''download'', ''dimensions'', ''resolution'', ''aspect ratio'']"

definition INPUT_TOKENS :: "string list" where
  "INPUT_TOKENS = [''image input'', ''image inputs'', ''vision input'', ''multimodal input'']"

definition REFUSALS_ANYWHERE :: "string list" where
  "REFUSALS_ANYWHERE =
     [''not supported'', ''unsupported'', ''not able to'', ''unable to'', ''cannot'', ''can't'',
      ''does not support'', ''do not support'', ''doesn't support'', ''does not accept'', ''doesn't accept'']"

definition REFUSALS :: "string list" where
  "REFUSALS =
     [''does not support'', ''do not support'', ''doesn't support'', ''does not accept'', ''doesn't accept'']"

definition MODALITIES :: "string list" where
  "MODALITIES = [''image'', ''images'', ''vision'', ''vision inputs'', ''multimodal'']"

definition UNSUPPORTED :: "string list" where
  "UNSUPPORTED =
     [''not supported'', ''is not supported'', ''are not supported'', ''is unsupported'', ''are unsupported'']"

definition normalize_text :: "string \<Rightarrow> string" where
  "normalize_text text = join '' '' (split_whitespace (ascii_lower text))"

text \<open>The wording tests of \<open>image_rejection\<close> on the normalised error text.\<close>

definition refuses_images :: "string \<Rightarrow> bool" where
  "refuses_images normalized \<longleftrightarrow>
     \<not> list_ex (contains normalized) PAYLOAD_SPECIFIC \<and>
     ((list_ex (contains_phrase normalized) INPUT_TOKENS \<and> list_ex (contains normalized) REFUSALS_ANYWHERE)
      \<or> list_ex (\<lambda>modality.
           list_ex (\<lambda>refusal. contains_phrase normalized (refusal @ '' '' @ modality)) REFUSALS
           \<or> list_ex (\<lambda>suffix. contains_phrase normalized (modality @ '' '' @ suffix)) UNSUPPORTED)
         MODALITIES)"

definition image_rejection :: "(string \<Rightarrow> json option) \<Rightarrow> string \<Rightarrow> bool" where
  "image_rejection parse message =
     (case error_text parse message of None \<Rightarrow> False | Some text \<Rightarrow> refuses_images (normalize_text text))"

section \<open>Classifying a failure\<close>

definition ADAPTER_CAPABILITY_SKIP :: string where
  "ADAPTER_CAPABILITY_SKIP = ''adapter capability skip''"

datatype failure_action = ClearVision | Demote model_status | Ignore

definition classify_failure :: "(string \<Rightarrow> json option) \<Rightarrow> int option \<Rightarrow> string \<Rightarrow> failure_action" where
  "classify_failure parse status_code message =
     (if contains message MASK_SKIP \<or> contains message MASK_FAILED then Ignore
      else if contains message ADAPTER_CAPABILITY_SKIP then Ignore
      else (case status_code of
              None \<Rightarrow> Demote Unhealthy
            | Some s \<Rightarrow>
                (if s = 429 then Demote Degraded
                 else if 400 \<le> s \<and> s < 500 then (if image_rejection parse message then ClearVision else Ignore)
                 else Demote Unhealthy)))"

definition apply_failure_action ::
  "(string \<Rightarrow> json option) \<Rightarrow> target \<Rightarrow> int option \<Rightarrow> string \<Rightarrow> db \<Rightarrow> failure_action \<times> db" where
  "apply_failure_action parse target status_code message d =
     (let action = classify_failure parse status_code message
      in (action,
          case action of
            ClearVision \<Rightarrow>
              (if cap_vision (re_capabilities (tg_entry target))
               then snd (set_route_entry_vision (re_id (tg_entry target)) False d) else d)
          | Demote status \<Rightarrow> snd (set_route_entry_status (re_id (tg_entry target)) status d)
          | Ignore \<Rightarrow> d))"

section \<open>The failover loop\<close>

record provider_error =
  pe_status :: int
  pe_body :: string
  pe_retry_after :: "int option"

text \<open>
  An attempt answers with bytes, an upstream error, another error (its text), or not in
  time.
\<close>

datatype attempt = Answered bytes | Refused provider_error | Broken string | Timed_Out

record failure =
  fl_target :: target
  fl_status :: "int option"
  fl_message :: string
  fl_retry :: "int option"

fun failure_of :: "target \<Rightarrow> attempt \<Rightarrow> failure" where
  "failure_of t (Refused pe) =
     \<lparr>fl_target = t, fl_status = Some (pe_status pe), fl_message = pe_body pe, fl_retry = pe_retry_after pe\<rparr>"
| "failure_of t (Broken msg) = \<lparr>fl_target = t, fl_status = None, fl_message = msg, fl_retry = None\<rparr>"
| "failure_of t _ = \<lparr>fl_target = t, fl_status = None, fl_message = ''upstream timeout'', fl_retry = None\<rparr>"

datatype failover_error = No_Targets | Last_Failed attempt

text \<open>The loop over the targets: the first answer, or the failures of all of them.\<close>

fun try_targets :: "(nat \<Rightarrow> target \<Rightarrow> attempt) \<Rightarrow> nat \<Rightarrow> target list \<Rightarrow> failure list + bytes" where
  "try_targets att n [] = Inl []"
| "try_targets att n (t # ts) =
     (case att n t of
        Answered b \<Rightarrow> Inr b
      | a \<Rightarrow> (case try_targets att (n + 1) ts of
                Inl fs \<Rightarrow> Inl (failure_of t a # fs)
              | Inr b \<Rightarrow> Inr b))"

definition cooldown_end :: "int \<Rightarrow> int \<Rightarrow> int" where
  "cooldown_end now secs = add_i64 now (mul_i64 (max 0 secs) 1000)"

definition settle_failure ::
  "(string \<Rightarrow> json option) \<Rightarrow> int \<Rightarrow> int \<Rightarrow> failure \<Rightarrow> db \<Rightarrow> db" where
  "settle_failure parse default_secs now f d =
     (let d' = snd (apply_failure_action parse (fl_target f) (fl_status f) (fl_message f) d)
      in if fl_status f = Some 429
         then snd (set_route_entry_cooldown (re_id (tg_entry (fl_target f)))
                (cooldown_end now (case fl_retry f of None \<Rightarrow> default_secs | Some s \<Rightarrow> s)) d')
         else d')"

fun settle_all ::
  "(string \<Rightarrow> json option) \<Rightarrow> int \<Rightarrow> (nat \<Rightarrow> int) \<Rightarrow> nat \<Rightarrow> failure list \<Rightarrow> db \<Rightarrow> db" where
  "settle_all parse default_secs clock n [] d = d"
| "settle_all parse default_secs clock n (f # fs) d =
     settle_all parse default_secs clock (n + 1) fs (settle_failure parse default_secs (clock n) f d)"

definition execute_with_failover ::
  "(string \<Rightarrow> json option) \<Rightarrow> int \<Rightarrow> (nat \<Rightarrow> int) \<Rightarrow> (nat \<Rightarrow> target \<Rightarrow> attempt) \<Rightarrow> target list \<Rightarrow> db
     \<Rightarrow> (failover_error + bytes) \<times> db" where
  "execute_with_failover parse default_secs clock att targets d =
     (if targets = [] then (Inl No_Targets, d)
      else (case try_targets att 0 targets of
              Inr b \<Rightarrow> (Inr b, d)
            | Inl fs \<Rightarrow> (Inl (Last_Failed (att (length targets - 1) (last targets))),
                         settle_all parse default_secs clock 0 fs d)))"

end
