(* ===== verification/Failover_Props.thy ===== *)
theory Failover_Props
  imports Failover
begin

text \<open>
  What failover guarantees: the first answer wins and costs nothing; when all targets fail
  only their entries change, each by the action its failure calls for; a rate-limited entry
  is parked; and wording alone decides whether an entry loses its vision flag.
\<close>

section \<open>The first answer wins\<close>

lemma try_targets_Inr:
  "try_targets att n ts = Inr b \<longleftrightarrow>
     (\<exists>k < length ts. att (n + k) (ts ! k) = Answered b \<and> (\<forall>j < k. \<forall>x. att (n + j) (ts ! j) \<noteq> Answered x))"
proof (induction ts arbitrary: n)
  case (Cons t ts)
  have rest: "try_targets att (n + 1) ts = Inr b \<longleftrightarrow>
     (\<exists>k < length ts. att (n + Suc k) (ts ! k) = Answered b \<and> (\<forall>j < k. \<forall>x. att (n + Suc j) (ts ! j) \<noteq> Answered x))"
    using Cons.IH[of "n + 1"] by simp
  show ?case
    by (cases "att n t"; cases "try_targets att (n + 1) ts")
       (use rest in \<open>simp_all add: Ex_less_Suc2 All_less_Suc2\<close>)
qed simp

lemma try_targets_Inl:
  "try_targets att n ts = Inl fs \<Longrightarrow>
     length fs = length ts \<and> (\<forall>k < length ts. fs ! k = failure_of (ts ! k) (att (n + k) (ts ! k))
       \<and> (\<forall>x. att (n + k) (ts ! k) \<noteq> Answered x))"
proof (induction ts arbitrary: n fs)
  case (Cons t ts)
  then obtain gs where gs: "try_targets att (n + 1) ts = Inl gs" "fs = failure_of t (att n t) # gs"
    and a: "\<forall>x. att n t \<noteq> Answered x"
    by (auto split: attempt.splits sum.splits)
  show ?case using Cons.IH[OF gs(1)] gs(2) a by (auto simp: less_Suc_eq_0_disj)
qed simp

text \<open>
  Failover returns the answer of the first target that gives one, after trying every
  target before it in order and none after it, and then leaves the store as it was.
\<close>

theorem first_answer_wins:
  "execute_with_failover parse secs clock att targets d = (Inr b, d') \<longleftrightarrow>
     d' = d \<and> (\<exists>k < length targets. att k (targets ! k) = Answered b
       \<and> (\<forall>j < k. \<forall>x. att j (targets ! j) \<noteq> Answered x))"
  using try_targets_Inr[of att 0 targets b]
  by (auto simp: execute_with_failover_def split: sum.splits)

theorem first_answer_wins_witness:
  "execute_with_failover (\<lambda>_. None) 60 (\<lambda>_. 0) (\<lambda>k _. if k = 1 then Answered ''ok'' else Timed_Out)
     demo_targets demo_store = (Inr ''ok'', demo_store)"
proof -
  have "1 < length demo_targets" by (simp add: demo_targets_def)
  then show ?thesis unfolding first_answer_wins by auto
qed

section \<open>Classification\<close>

definition is_skip :: "string \<Rightarrow> bool" where
  "is_skip message \<longleftrightarrow> contains message MASK_SKIP \<or> contains message MASK_FAILED
     \<or> contains message ADAPTER_CAPABILITY_SKIP"

text \<open>
  The classification of a failure as a whole: a skip marker is ignored; otherwise no
  status and every status outside 400 to 499 makes the entry unhealthy, 429 degrades it,
  and any other client error is ignored unless it refuses images, which clears the vision
  flag. So a client error other than 429 never changes an entry's health.
\<close>

theorem classification_table:
  "(classify_failure parse status message = Ignore \<longleftrightarrow>
     is_skip message \<or> (\<exists>s. status = Some s \<and> 400 \<le> s \<and> s < 500 \<and> s \<noteq> 429 \<and> \<not> image_rejection parse message))
   \<and> (classify_failure parse status message = ClearVision \<longleftrightarrow>
     \<not> is_skip message \<and> (\<exists>s. status = Some s \<and> 400 \<le> s \<and> s < 500 \<and> s \<noteq> 429 \<and> image_rejection parse message))
   \<and> (classify_failure parse status message = Demote m \<longleftrightarrow>
     \<not> is_skip message \<and> ((m = Degraded \<and> status = Some 429)
       \<or> (m = Unhealthy \<and> (case status of None \<Rightarrow> True | Some s \<Rightarrow> s < 400 \<or> 500 \<le> s))))"
  by (intro conjI) (auto simp: classify_failure_def is_skip_def split: option.split if_splits)

lemma contains_mono: "contains n m \<Longrightarrow> contains m r \<Longrightarrow> contains n r"
  by (auto simp: contains_iff) (metis append.assoc)

lemma contains_phraseD: "contains_phrase n p \<Longrightarrow> contains n p"
  unfolding contains_phrase_def by (rule match_bounded_contains)

text \<open>
  An entry loses its vision flag only on an explicit refusal: the error text, lower-cased
  and with white space normalised, names an image modality and contains refusal wording, and
  contains none of the qualifiers of a single bad file.
\<close>

theorem image_rejection_explicit:
  assumes "image_rejection parse message"
  shows "\<exists>msg. error_text parse message = Some msg \<and>
    (\<exists>m \<in> {''image'', ''vision'', ''multimodal''}. contains (normalize_text msg) m) \<and>
    (\<exists>r \<in> set REFUSALS_ANYWHERE. contains (normalize_text msg) r) \<and>
    (\<forall>q \<in> set PAYLOAD_SPECIFIC. \<not> contains (normalize_text msg) q)"
proof -
  obtain msg where msg: "error_text parse message = Some msg" and r: "refuses_images (normalize_text msg)"
    using assms by (auto simp: image_rejection_def split: option.splits)
  let ?n = "normalize_text msg"
  have tok: "\<exists>m \<in> {''image'', ''vision'', ''multimodal''}. contains t m" if "t \<in> set INPUT_TOKENS \<union> set MODALITIES" for t
    using that by (auto simp: INPUT_TOKENS_def MODALITIES_def)
  have ref: "\<exists>r \<in> set REFUSALS_ANYWHERE. contains s r" if "s \<in> set REFUSALS \<union> set UNSUPPORTED" for s
    using that by (auto simp: REFUSALS_def UNSUPPORTED_def REFUSALS_ANYWHERE_def)
  have parts: "contains (a @ b) a" "contains (a @ b @ c) c" for a b c
    by (auto simp: contains_iff) (metis append.left_neutral append.right_neutral append.assoc)+
  from r consider
      (token) t s where "t \<in> set INPUT_TOKENS" "contains ?n t" "s \<in> set REFUSALS_ANYWHERE" "contains ?n s"
    | (pre) m s where "m \<in> set MODALITIES" "s \<in> set REFUSALS" "contains ?n (s @ '' '' @ m)"
    | (post) m s where "m \<in> set MODALITIES" "s \<in> set UNSUPPORTED" "contains ?n (m @ '' '' @ s)"
    unfolding refuses_images_def list_ex_iff by (blast dest: contains_phraseD)
  then have "(\<exists>m \<in> {''image'', ''vision'', ''multimodal''}. contains ?n m) \<and> (\<exists>r \<in> set REFUSALS_ANYWHERE. contains ?n r)"
  proof cases
    case token
    then show ?thesis using tok[of t] contains_mono by blast
  next
    case pre
    then have "contains ?n s" "contains ?n m" using parts contains_mono by blast+
    then show ?thesis using pre tok[of m] ref[of s] contains_mono by blast
  next
    case post
    then have "contains ?n s" "contains ?n m" using parts contains_mono by blast+
    then show ?thesis using post tok[of m] ref[of s] contains_mono by blast
  qed
  moreover have "\<forall>q \<in> set PAYLOAD_SPECIFIC. \<not> contains ?n q"
    using r by (auto simp: refuses_images_def list_ex_iff)
  ultimately show ?thesis using msg by blast
qed

lemma demo_refusal: "image_rejection (\<lambda>_. None) ''This model does  not support IMAGE input''"
  by code_simp

theorem image_rejection_explicit_witness:
  "\<not> contains (normalize_text ''This model does  not support IMAGE input'') (hd PAYLOAD_SPECIFIC)"
proof -
  have "error_text (\<lambda>_. None) ''This model does  not support IMAGE input'' = Some ''This model does  not support IMAGE input''"
    by code_simp
  moreover have "hd PAYLOAD_SPECIFIC \<in> set PAYLOAD_SPECIFIC" by (simp add: PAYLOAD_SPECIFIC_def)
  ultimately show ?thesis using image_rejection_explicit[OF demo_refusal] by auto
qed

section \<open>What failures change\<close>

text \<open>One step of settling: the rows of one entry, in the three columns it may write.\<close>

definition entry_frame :: "int set \<Rightarrow> entry_row \<Rightarrow> entry_row \<Rightarrow> bool" where
  "entry_frame I e e' \<longleftrightarrow> (en_id e \<notin> I \<longrightarrow> e' = e) \<and>
     e' = e\<lparr>en_status := en_status e', en_capabilities := en_capabilities e', en_cooldown_until := en_cooldown_until e'\<rparr>"

definition db_frame :: "int set \<Rightarrow> db \<Rightarrow> db \<Rightarrow> bool" where
  "db_frame I d d' \<longleftrightarrow> d' = d\<lparr>entries := entries d'\<rparr> \<and> list_all2 (entry_frame I) (entries d) (entries d')"

lemma entry_frame_trans: "entry_frame I e e' \<Longrightarrow> entry_frame J e' e'' \<Longrightarrow> entry_frame (I \<union> J) e e''"
  by (cases e; cases e'; cases e'') (auto simp: entry_frame_def)

lemma db_frame_refl [simp]: "db_frame I d d"
  by (auto simp: db_frame_def entry_frame_def intro!: list.rel_refl)

lemma db_frame_trans: "db_frame I d d' \<Longrightarrow> db_frame J d' d'' \<Longrightarrow> db_frame (I \<union> J) d d''"
proof -
  assume a: "db_frame I d d'" and b: "db_frame J d' d''"
  have "list_all2 (entry_frame (I \<union> J)) (entries d) (entries d'')"
    using a b unfolding db_frame_def
    by (blast intro: list_all2_trans[where ?P1.0 = "entry_frame I" and ?P2.0 = "entry_frame J"] entry_frame_trans)
  moreover have "d'' = d\<lparr>entries := entries d''\<rparr>"
    using a b by (cases d; cases d'; cases d'') (simp add: db_frame_def)
  ultimately show ?thesis by (simp add: db_frame_def)
qed

lemma upd_entry_frame:
  assumes "\<And>e. g e = e\<lparr>en_status := en_status (g e), en_capabilities := en_capabilities (g e),
      en_cooldown_until := en_cooldown_until (g e)\<rparr>"
  shows "db_frame {i} d (upd_entry i g d)"
proof -
  have "list_all2 (entry_frame {i}) es (upd_where (\<lambda>e. en_id e = i) g es)" for es
    by (induction es) (use assms in \<open>auto simp: entry_frame_def\<close>)
  then show ?thesis by (simp add: db_frame_def upd_entry_def)
qed

lemma entry_ops_frame:
  "db_frame {i} d (snd (set_route_entry_status i st d))"
  "db_frame {i} d (snd (set_route_entry_cooldown i u d))"
  "db_frame {i} d (snd (set_route_entry_vision i v d))"
  by (auto simp: set_route_entry_status_def set_route_entry_cooldown_def set_route_entry_vision_def Let_def
      split: option.split intro!: upd_entry_frame)

definition failed_ids :: "failure list \<Rightarrow> int set" where
  "failed_ids fs = (\<lambda>f. re_id (tg_entry (fl_target f))) ` set fs"

lemma apply_failure_frame:
  "db_frame {re_id (tg_entry t)} d (snd (apply_failure_action parse t s m d))"
  by (simp add: apply_failure_action_def Let_def entry_ops_frame split: failure_action.split)

lemma settle_failure_frame:
  "db_frame {re_id (tg_entry (fl_target f))} d (settle_failure parse secs now f d)"
proof -
  have "db_frame ({i} \<union> {i}) d (snd (set_route_entry_cooldown i u d'))" if "db_frame {i} d d'" for i u d'
    by (rule db_frame_trans[OF that entry_ops_frame(2)])
  then show ?thesis by (simp add: settle_failure_def Let_def apply_failure_frame)
qed

lemma settle_all_frame: "db_frame (failed_ids fs) d (settle_all parse secs clock n fs d)"
proof (induction fs arbitrary: n d)
  case (Cons f fs)
  have "failed_ids (f # fs) = {re_id (tg_entry (fl_target f))} \<union> failed_ids fs" by (simp add: failed_ids_def)
  moreover have "db_frame ({re_id (tg_entry (fl_target f))} \<union> failed_ids fs) d
      (settle_all parse secs clock (n + 1) fs (settle_failure parse secs (clock n) f d))"
    by (rule db_frame_trans[OF settle_failure_frame Cons.IH])
  ultimately show ?case by simp
qed simp

lemma failover_failed:
  assumes "execute_with_failover parse secs clock att targets d = (Inl e, d')"
  shows "targets = [] \<and> d' = d \<or> (\<exists>fs. try_targets att 0 targets = Inl fs \<and> d' = settle_all parse secs clock 0 fs d)"
  using assms by (auto simp: execute_with_failover_def split: if_splits sum.splits)

lemma failure_target [simp]: "fl_target (failure_of t a) = t"
  by (cases a) simp_all

lemma failed_ids_targets:
  assumes "try_targets att 0 targets = Inl fs"
  shows "failed_ids fs = (\<lambda>t. re_id (tg_entry t)) ` set targets"
proof -
  note try_targets_Inl[OF assms]
  then have "map fl_target fs = targets" by (intro nth_equalityI) simp_all
  then have "fl_target ` set fs = set targets" by (metis set_map)
  then show ?thesis unfolding failed_ids_def by (metis image_image)
qed

text \<open>
  C17. A failed failover touches only what it tried: every table but the entries is as
  before, entries that were not tried are as before, and of those that were only the
  status, the capabilities and the cooldown may differ.
\<close>

theorem failover_frame:
  assumes "execute_with_failover parse secs clock att targets d = (Inl e, d')"
  shows "d' = d\<lparr>entries := entries d'\<rparr> \<and>
    list_all2 (entry_frame ((\<lambda>t. re_id (tg_entry t)) ` set targets)) (entries d) (entries d')"
  using failover_failed[OF assms] settle_all_frame[of _ d parse secs clock 0] failed_ids_targets[of att targets]
    db_frame_refl[of "(\<lambda>t. re_id (tg_entry t)) ` set targets" d]
  unfolding db_frame_def by metis

section \<open>Which entry ends up how\<close>

lemma settle_other:
  "i \<noteq> re_id (tg_entry (fl_target f)) \<Longrightarrow> filter (\<lambda>e. en_id e = i) (entries (settle_failure parse secs now f d)) =
     filter (\<lambda>e. en_id e = i) (entries d)"
proof -
  assume i: "i \<noteq> re_id (tg_entry (fl_target f))"
  have "list_all2 (entry_frame {j}) es es' \<Longrightarrow> i \<noteq> j \<Longrightarrow> filter (\<lambda>e. en_id e = i) es' = filter (\<lambda>e. en_id e = i) es" for j es es'
  proof (induction rule: list_all2_induct)
    case (Cons e es e' es')
    then have "en_id e' = en_id e" "en_id e \<noteq> j \<longrightarrow> e' = e"
      by (cases e; cases e'; auto simp: entry_frame_def)+
    with Cons show ?case by auto
  qed simp
  from this[of "re_id (tg_entry (fl_target f))"] i settle_failure_frame[of f d parse secs now]
  show ?thesis by (simp add: db_frame_def)
qed

lemma upd_entry_filter:
  assumes "\<And>e. en_id (g e) = en_id e"
  shows "filter (\<lambda>e. en_id e = i) (entries (upd_entry i g d)) = map g (filter (\<lambda>e. en_id e = i) (entries d))"
proof -
  have "filter (\<lambda>e. en_id e = i) (upd_where (\<lambda>e. en_id e = i) g es) = map g (filter (\<lambda>e. en_id e = i) es)" for es
    by (induction es) (simp_all add: assms)
  then show ?thesis by (simp add: upd_entry_def)
qed

abbreviation rows_of :: "int \<Rightarrow> db \<Rightarrow> entry_row list" where
  "rows_of i d \<equiv> filter (\<lambda>e. en_id e = i) (entries d)"

abbreviation fail_id :: "failure \<Rightarrow> int" where
  "fail_id f \<equiv> re_id (tg_entry (fl_target f))"

lemma settle_all_others: "(\<forall>f\<in>set fs. fail_id f \<noteq> i) \<Longrightarrow> rows_of i (settle_all parse secs clock n fs d) = rows_of i d"
  by (induction fs arbitrary: n d) (simp_all add: settle_other)

lemma settle_all_at:
  assumes "k < length fs" "fail_id (fs ! k) = i" "\<And>j. j < length fs \<Longrightarrow> j \<noteq> k \<Longrightarrow> fail_id (fs ! j) \<noteq> i"
  shows "\<exists>d1. rows_of i d1 = rows_of i d \<and>
    rows_of i (settle_all parse secs clock n fs d) = rows_of i (settle_failure parse secs (clock (n + k)) (fs ! k) d1)"
  using assms
proof (induction fs arbitrary: k n d)
  case (Cons f fs)
  show ?case
  proof (cases k)
    case 0
    have "\<forall>g\<in>set fs. fail_id g \<noteq> i"
      using Cons.prems(3)[of "Suc j" for j] 0 by (force simp: in_set_conv_nth)
    then show ?thesis using 0 by (auto simp: settle_all_others)
  next
    case (Suc k')
    have "fail_id f \<noteq> i" using Cons.prems(3)[of 0] Suc by simp
    then have same: "rows_of i (settle_failure parse secs (clock n) f d) = rows_of i d" by (simp add: settle_other)
    have "\<exists>d1. rows_of i d1 = rows_of i (settle_failure parse secs (clock n) f d) \<and>
        rows_of i (settle_all parse secs clock (n + 1) fs (settle_failure parse secs (clock n) f d)) =
        rows_of i (settle_failure parse secs (clock (n + 1 + k')) (fs ! k') d1)"
      using Cons.prems Cons.prems(3)[of "Suc j" for j] Suc by (intro Cons.IH) force+
    then show ?thesis using Suc same by simp
  qed
qed simp

lemma failover_rows:
  assumes "execute_with_failover parse secs clock att targets d = (Inl e, d')" "k < length targets"
    and "\<And>j. j < length targets \<Longrightarrow> j \<noteq> k \<Longrightarrow>
      re_id (tg_entry (targets ! j)) \<noteq> re_id (tg_entry (targets ! k))"
  shows "\<exists>d1. rows_of (re_id (tg_entry (targets ! k))) d1 = rows_of (re_id (tg_entry (targets ! k))) d \<and>
    rows_of (re_id (tg_entry (targets ! k))) d' = rows_of (re_id (tg_entry (targets ! k)))
      (settle_failure parse secs (clock k) (failure_of (targets ! k) (att k (targets ! k))) d1)"
proof -
  obtain fs where fs: "try_targets att 0 targets = Inl fs" "d' = settle_all parse secs clock 0 fs d"
    using failover_failed[OF assms(1)] assms(2) by auto
  note f = try_targets_Inl[OF fs(1)]
  have "\<exists>d1. rows_of (re_id (tg_entry (targets ! k))) d1 = rows_of (re_id (tg_entry (targets ! k))) d \<and>
    rows_of (re_id (tg_entry (targets ! k))) (settle_all parse secs clock 0 fs d) = rows_of (re_id (tg_entry (targets ! k)))
      (settle_failure parse secs (clock (0 + k)) (fs ! k) d1)"
    by (rule settle_all_at) (use f assms(2,3) in simp_all)
  then show ?thesis using f assms(2) fs(2) by simp
qed


text \<open>
  A request the upstream blames on the client costs the entry nothing but, at most, its
  vision flag: after a failed failover, the rows of a target refused with a client error
  other than 429 (or skipped by a mask or an adapter with such a status) have the health and
  the cooldown they had.
\<close>

theorem client_error_keeps_health:
  assumes ex: "execute_with_failover parse secs clock att targets d = (Inl e, d')" and k: "k < length targets"
    and only: "\<And>j. j < length targets \<Longrightarrow> j \<noteq> k \<Longrightarrow>
      re_id (tg_entry (targets ! j)) \<noteq> re_id (tg_entry (targets ! k))"
    and refused: "att k (targets ! k) = Refused pe" "400 \<le> pe_status pe" "pe_status pe < 500" "pe_status pe \<noteq> 429"
  shows "map (\<lambda>r. (en_status r, en_cooldown_until r)) (filter (\<lambda>r. en_id r = re_id (tg_entry (targets ! k))) (entries d')) =
    map (\<lambda>r. (en_status r, en_cooldown_until r)) (filter (\<lambda>r. en_id r = re_id (tg_entry (targets ! k))) (entries d))"
proof -
  let ?i = "re_id (tg_entry (targets ! k))"
  obtain d1 where d1: "rows_of ?i d1 = rows_of ?i d" "rows_of ?i d' = rows_of ?i
      (settle_failure parse secs (clock k) (failure_of (targets ! k) (att k (targets ! k))) d1)"
    using failover_rows[OF ex k only] by blast
  have act: "classify_failure parse (Some (pe_status pe)) (pe_body pe) \<in> {Ignore, ClearVision}"
    using refused by (simp add: classify_failure_def)
  have vision: "map (\<lambda>r. (en_status r, en_cooldown_until r)) (rows_of ?i (snd (set_route_entry_vision j b x))) =
      map (\<lambda>r. (en_status r, en_cooldown_until r)) (rows_of ?i x)" if "j = ?i" for j b x
    using that by (simp add: set_route_entry_vision_def Let_def upd_entry_filter o_def split: option.split)
  have "settle_failure parse secs (clock k) (failure_of (targets ! k) (att k (targets ! k))) d1 =
      snd (apply_failure_action parse (targets ! k) (Some (pe_status pe)) (pe_body pe) d1)"
    using refused by (simp add: settle_failure_def Let_def)
  then show ?thesis using act d1 vision by (auto simp: apply_failure_action_def Let_def)
qed

text \<open>Attempts in which the first target is rate limited and the second refuses the request.\<close>

definition demo_attempt :: "nat \<Rightarrow> target \<Rightarrow> attempt" where
  "demo_attempt k t = Refused \<lparr>pe_status = (if k = 0 then 429 else 400), pe_body = ''no'', pe_retry_after = None\<rparr>"

definition demo_failed :: db where
  "demo_failed = snd (execute_with_failover (\<lambda>_. None) 60 (\<lambda>_. 1000) demo_attempt demo_targets demo_store)"

lemma demo_failover:
  "execute_with_failover (\<lambda>_. None) 60 (\<lambda>_. 1000) demo_attempt demo_targets demo_store =
     (Inl (Last_Failed (demo_attempt 1 (demo_targets ! 1))), demo_failed)"
  by (simp add: demo_failed_def execute_with_failover_def demo_targets_def demo_attempt_def)

lemma demo_ids: "length demo_targets = 2" "re_id (tg_entry (demo_targets ! 0)) = 3" "re_id (tg_entry (demo_targets ! Suc 0)) = 1"
  by (simp_all add: demo_targets_def demo_target_def entry_of_def)

theorem failover_frame_witness: "demo_failed = demo_store\<lparr>entries := entries demo_failed\<rparr>"
  using failover_frame[OF demo_failover] by blast


theorem client_error_keeps_health_witness:
  "map (\<lambda>r. (en_status r, en_cooldown_until r)) (filter (\<lambda>r. en_id r = 1) (entries demo_failed)) =
   map (\<lambda>r. (en_status r, en_cooldown_until r)) (filter (\<lambda>r. en_id r = 1) (entries demo_store))"
  using client_error_keeps_health[OF demo_failover, of 1 "\<lparr>pe_status = 400, pe_body = ''no'', pe_retry_after = None\<rparr>"]
  by (simp add: demo_ids demo_attempt_def less_2_cases_iff)

end
