(* ===== verification/Outbound.thy ===== *)
theory Outbound
  imports Failover_Props
begin

text \<open>
  Talking to an upstream (\<open>src/adapter/outbound/mod.rs\<close>): base URLs, retry hints, and the
  one path a buffered request takes through its mask to the provider and back. Building the
  provider's request and reading its answer (the translators), the HTTP client, and decimal
  parsing of \<open>f64\<close> are arguments.
\<close>

section \<open>Base URLs\<close>

definition normalize_base :: "string \<Rightarrow> string" where
  "normalize_base base_url =
     (let base = trim_end_matches CHR ''/'' base_url
      in case strip_suffix base ''/v1'' of Some b \<Rightarrow> b | None \<Rightarrow> base)"

lemma trim_slash_append: "trim_end_matches CHR ''/'' (b @ replicate n CHR ''/'') = trim_end_matches CHR ''/'' b"
  by (simp add: trim_end_matches_def trim_end_by_def dropWhile_append)

text \<open>
  A base URL copied with its version segment, with or without trailing slashes, is the
  same base as without it: for a base that does not itself end in a slash or in
  \<open>/v1\<close>, all these spellings normalise to it, so no request URL doubles the segment.
\<close>

theorem base_spellings_agree:
  assumes "b \<noteq> []" "last b \<noteq> CHR ''/''" "\<not> suffix ''/v1'' b"
  shows "normalize_base (b @ replicate n CHR ''/'') = b"
    "normalize_base (b @ ''/v1'' @ replicate n CHR ''/'') = b"
proof -
  have id: "trim_end_matches CHR ''/'' s = s" if "s \<noteq> []" "last s \<noteq> CHR ''/''" for s
    using that by (simp add: trim_end_matches_def trim_end_by_id)
  have "strip_suffix b ''/v1'' = None"
    using assms(3) strip_suffix_Some[of b "''/v1''"] by (cases "strip_suffix b ''/v1''") (auto simp: suffix_def)
  then show "normalize_base (b @ replicate n CHR ''/'') = b"
    using id[OF assms(1,2)] by (simp add: normalize_base_def Let_def trim_slash_append)
  have "trim_end_matches CHR ''/'' ((b @ ''/v1'') @ replicate n CHR ''/'') = b @ ''/v1''"
    using id[of "b @ ''/v1''"] unfolding trim_slash_append by simp
  moreover have "strip_suffix (b @ ''/v1'') ''/v1'' = Some b" by (simp only: strip_suffix_Some)
  ultimately show "normalize_base (b @ ''/v1'' @ replicate n CHR ''/'') = b"
    by (simp add: normalize_base_def Let_def)
qed

theorem base_spellings_agree_witness:
  "normalize_base (''https://h'' @ ''/v1'' @ replicate 2 CHR ''/'') = ''https://h''"
  by (rule base_spellings_agree(2)) (simp_all add: suffix_def)

section \<open>Retry hints\<close>

definition digit_value :: "char \<Rightarrow> int" where
  "digit_value c = int (code c) - 48"

definition digits_value :: "string \<Rightarrow> int" where
  "digits_value s = foldl (\<lambda>n c. 10 * n + digit_value c) 0 s"

text \<open>\<open>str::parse::<i64>\<close>: an optional sign, digits, and a value in range.\<close>

definition parse_digits :: "string \<Rightarrow> int option" where
  "parse_digits s = (if s \<noteq> [] \<and> list_all is_digit s then Some (digits_value s) else None)"

definition parse_i64 :: "string \<Rightarrow> int option" where
  "parse_i64 s =
     (case (case s of
              [] \<Rightarrow> None
            | c # r \<Rightarrow> (if c = CHR ''-'' then map_option uminus (parse_digits r)
                       else if c = CHR ''+'' then parse_digits r
                       else parse_digits s)) of
        None \<Rightarrow> None
      | Some n \<Rightarrow> if in_i64 n then Some n else None)"

text \<open>Parsing and rounding of \<open>f64\<close>, as the standard library does it.\<close>

record float_text =
  ft_parse :: "string \<Rightarrow> f64 option"
  ft_round :: "f64 \<Rightarrow> int"

definition unit_seconds :: "char \<Rightarrow> f64 option" where
  "unit_seconds c =
     (let l = lower_char c
      in if l = CHR ''s'' then Some (FFin 1) else if l = CHR ''m'' then Some (FFin 60)
         else if l = CHR ''h'' then Some (FFin 3600) else None)"

fun delay_segments ::
  "float_ops \<Rightarrow> float_text \<Rightarrow> f64 \<Rightarrow> string \<Rightarrow> bool \<Rightarrow> string \<Rightarrow> (f64 \<times> string \<times> bool) option" where
  "delay_segments fl ft acc number saw_unit [] = Some (acc, number, saw_unit)"
| "delay_segments fl ft acc number saw_unit (c # cs) =
     (if is_digit c \<or> c = CHR ''.'' then delay_segments fl ft acc (number @ [c]) saw_unit cs
      else (case unit_seconds c of
              None \<Rightarrow> None
            | Some multiplier \<Rightarrow>
                (case ft_parse ft number of
                   None \<Rightarrow> None
                 | Some x \<Rightarrow> delay_segments fl ft (fl_add fl acc (fl_mul fl x multiplier)) [] True cs)))"

definition parse_delay_secs :: "float_ops \<Rightarrow> float_text \<Rightarrow> string \<Rightarrow> int option" where
  "parse_delay_secs fl ft value =
     (let v = trim value
      in if v = [] then None
         else (case parse_i64 v of
                 Some secs \<Rightarrow> Some (max secs 0)
               | None \<Rightarrow>
                   (case delay_segments fl ft (FFin 0) [] False v of
                      Some (acc, number, saw_unit) \<Rightarrow>
                        if saw_unit \<and> number = [] then Some (ft_round ft acc) else None
                    | None \<Rightarrow> None)))"

definition retry_after_secs :: "float_ops \<Rightarrow> float_text \<Rightarrow> response_headers \<Rightarrow> int option" where
  "retry_after_secs fl ft hs =
     find_map (\<lambda>name. and_then (hs name) (parse_delay_secs fl ft))
       [''retry-after'', ''x-ratelimit-reset-requests'', ''x-ratelimit-reset-tokens'']"

lemma delay_segments_chars:
  "delay_segments fl ft acc number saw s \<noteq> None \<Longrightarrow> c \<in> set s \<Longrightarrow>
     is_digit c \<or> c = CHR ''.'' \<or> unit_seconds c \<noteq> None"
  by (induction fl ft acc number saw s rule: delay_segments.induct)
     (auto split: if_splits option.splits)

text \<open>
  A hint is understood only if it is built from seconds: \<open>parse_delay_secs\<close> fails on
  every text that, white space trimmed, is no integer and has a character that is neither a
  digit nor a dot nor a unit letter, in particular on an HTTP date; and the number it reads
  from an integer is never negative.
\<close>

theorem retry_hint_forms:
  "(parse_i64 (trim v) = None \<and> c \<in> set (trim v)
     \<and> \<not> is_digit c \<and> c \<noteq> CHR ''.'' \<and> unit_seconds c = None \<longrightarrow> parse_delay_secs fl ft v = None)
   \<and> (parse_i64 (trim v) = Some n \<longrightarrow> parse_delay_secs fl ft v = Some (max n 0))"
proof (intro conjI impI)
  assume "parse_i64 (trim v) = None \<and> c \<in> set (trim v)
    \<and> \<not> is_digit c \<and> c \<noteq> CHR ''.'' \<and> unit_seconds c = None"
  then have a: "parse_i64 (trim v) = None" and c: "c \<in> set (trim v)"
    "\<not> is_digit c \<and> c \<noteq> CHR ''.'' \<and> unit_seconds c = None" by simp_all
  have "delay_segments fl ft (FFin 0) [] False (trim v) = None"
    using delay_segments_chars[of fl ft "FFin 0" "[]" False "trim v" c] c by fastforce
  then show "parse_delay_secs fl ft v = None" using a by (simp add: parse_delay_secs_def Let_def)
next
  assume a: "parse_i64 (trim v) = Some n"
  then have "trim v \<noteq> []" by (auto simp: parse_i64_def)
  then show "parse_delay_secs fl ft v = Some (max n 0)" using a by (simp add: parse_delay_secs_def Let_def)
qed

theorem retry_hint_forms_witness:
  "parse_delay_secs exact_fl \<lparr>ft_parse = (\<lambda>_. None), ft_round = (\<lambda>_. 0)\<rparr> ''Wed, 21 Oct 2015 07:28:00 GMT'' = None
   \<and> parse_delay_secs exact_fl \<lparr>ft_parse = (\<lambda>_. None), ft_round = (\<lambda>_. 0)\<rparr> '' 120 '' = Some 120"
proof
  have "parse_i64 (trim ''Wed, 21 Oct 2015 07:28:00 GMT'') = None" "CHR ''W'' \<in> set (trim ''Wed, 21 Oct 2015 07:28:00 GMT'')"
    "\<not> is_digit CHR ''W'' \<and> CHR ''W'' \<noteq> CHR ''.'' \<and> unit_seconds CHR ''W'' = None"
    by code_simp+
  then show "parse_delay_secs exact_fl \<lparr>ft_parse = (\<lambda>_. None), ft_round = (\<lambda>_. 0)\<rparr> ''Wed, 21 Oct 2015 07:28:00 GMT'' = None"
    using retry_hint_forms[where v = "''Wed, 21 Oct 2015 07:28:00 GMT''" and c = "CHR ''W''"] by blast
  have "parse_i64 (trim '' 120 '') = Some 120" by code_simp
  with retry_hint_forms[where v = "'' 120 ''" and n = 120]
  show "parse_delay_secs exact_fl \<lparr>ft_parse = (\<lambda>_. None), ft_round = (\<lambda>_. 0)\<rparr> '' 120 '' = Some 120" by simp
qed

section \<open>Forwarding a buffered request\<close>

text \<open>
  What the HTTP client is asked to do, and what it answers: a status, headers and a body
  (as text), or a failure before the status or while reading the body.
\<close>

record http_reply =
  hr_status :: int
  hr_headers :: response_headers
  hr_body :: "bytes option"

record upstream =
  up_build :: "target \<Rightarrow> string + string \<times> headers \<times> json"
  up_json_len :: "json \<Rightarrow> nat"
  up_send :: "string \<Rightarrow> headers \<Rightarrow> json \<Rightarrow> http_reply option"
  up_translate :: "target \<Rightarrow> bytes \<Rightarrow> string + bytes"
  up_status_text :: "int \<Rightarrow> string"
  up_lossy :: "bytes \<Rightarrow> string"

definition is_success :: "int \<Rightarrow> bool" where
  "is_success s \<longleftrightarrow> 200 \<le> s \<and> s < 300"

definition lift_text :: "string + bytes \<Rightarrow> attempt" where
  "lift_text r = (case r of Inl msg \<Rightarrow> Broken msg | Inr b \<Rightarrow> Answered b)"

text \<open>What becomes of the reply: translated, the hop's error, or the upstream's.\<close>

definition read_reply :: "upstream \<Rightarrow> float_ops \<Rightarrow> float_text \<Rightarrow> target \<Rightarrow> http_reply option \<Rightarrow> attempt" where
  "read_reply up fl ft t reply =
     (case reply of
        None \<Rightarrow> Broken ''sending request to provider''
      | Some resp \<Rightarrow>
          (case hr_body resp of
             None \<Rightarrow> Broken ''reading provider response''
           | Some b \<Rightarrow>
               (if is_success (hr_status resp) then lift_text (up_translate up t b)
                else (case (if is_mask_rejection (hr_headers resp) then pv_mask (tg_provider t) else None) of
                        Some m \<Rightarrow> Broken (rejection_error (up_status_text up) (mk_name m) (hr_status resp) (up_lossy up b))
                      | None \<Rightarrow> Refused \<lparr>pe_status = hr_status resp, pe_body = up_lossy up b,
                                   pe_retry_after = retry_after_secs fl ft (hr_headers resp)\<rparr>))))"

definition forward_non_streaming :: "upstream \<Rightarrow> float_ops \<Rightarrow> float_text \<Rightarrow> target \<Rightarrow> attempt" where
  "forward_non_streaming up fl ft t =
     (case up_build up t of
        Inl msg \<Rightarrow> Broken msg
      | Inr (url, headers, body) \<Rightarrow>
          (case apply_json (up_json_len up) (pv_mask (tg_provider t)) url headers body of
             Inl msg \<Rightarrow> Broken msg
           | Inr (url', headers') \<Rightarrow> read_reply up fl ft t (up_send up url' headers' body)))"

lemma read_reply_send [simp]: "read_reply (up\<lparr>up_send := send\<rparr>) fl ft t reply = read_reply up fl ft t reply"
proof (cases up)
  case (fields b l s tr st lo)
  show ?thesis unfolding fields
    by (cases reply; cases "hr_body (the reply)") (simp_all add: read_reply_def split: option.split)
qed


text \<open>The body was too large for the mask, or the mask refused the request.\<close>

definition hop_failed :: "upstream \<Rightarrow> target \<Rightarrow> bool" where
  "hop_failed up t \<longleftrightarrow>
     (\<exists>m url hs body. pv_mask (tg_provider t) = Some m \<and> up_build up t = Inr (url, hs, body) \<and>
        (case apply_json (up_json_len up) (Some m) url hs body of
           Inl msg \<Rightarrow> True
         | Inr (url', hs') \<Rightarrow>
             (case up_send up url' hs' body of
                None \<Rightarrow> False
              | Some resp \<Rightarrow> hr_body resp \<noteq> None \<and> \<not> is_success (hr_status resp) \<and> is_mask_rejection (hr_headers resp))))"

lemma contains_prefix: "contains (p @ s) p"
  by (auto simp: contains_iff intro: exI[of _ "[]"])

text \<open>
  A hop is never blamed on the provider: a request too large for the hop, or one the
  hop itself refused, is classified as ignorable, and settling it leaves the store as it
  was.
\<close>

theorem hop_failures_ignored:
  assumes "hop_failed up t"
  shows "settle_failure parse secs now (failure_of t (forward_non_streaming up fl ft t)) d = d"
proof -
  obtain m url hs body where up: "pv_mask (tg_provider t) = Some m" "up_build up t = Inr (url, hs, body)"
    and c: "case apply_json (up_json_len up) (Some m) url hs body of
           Inl msg \<Rightarrow> True
         | Inr (url', hs') \<Rightarrow>
             (case up_send up url' hs' body of
                None \<Rightarrow> False
              | Some resp \<Rightarrow> hr_body resp \<noteq> None \<and> \<not> is_success (hr_status resp) \<and> is_mask_rejection (hr_headers resp))"
    using assms by (auto simp: hop_failed_def)
  have skip: "contains msg MASK_SKIP" if "apply_json len hop u h b = Inl msg" for len hop u h b msg
    using that by (auto simp: apply_json_def apply_request_def contains_prefix split: option.splits if_splits)
  have "\<exists>msg. forward_non_streaming up fl ft t = Broken msg \<and> (contains msg MASK_SKIP \<or> contains msg MASK_FAILED)"
  proof (cases "apply_json (up_json_len up) (Some m) url hs body")
    case (Inl msg)
    then show ?thesis using up skip[OF Inl] by (simp add: forward_non_streaming_def)
  next
    case (Inr uh)
    then obtain url' hs' resp b where "uh = (url', hs')" "up_send up url' hs' body = Some resp" "hr_body resp = Some b"
      "\<not> is_success (hr_status resp)" "is_mask_rejection (hr_headers resp)"
      using c by (auto split: option.splits)
    then show ?thesis using up Inr by (simp add: forward_non_streaming_def read_reply_def rejection_error_def contains_prefix)
  qed
  then obtain msg where msg: "forward_non_streaming up fl ft t = Broken msg" "contains msg MASK_SKIP \<or> contains msg MASK_FAILED"
    by blast
  then have "classify_failure parse None msg = Ignore" by (auto simp: classify_failure_def)
  then show ?thesis using msg by (simp add: settle_failure_def apply_failure_action_def Let_def)
qed

text \<open>A target behind a mask that takes ten bytes, and a network that echoes the headers.\<close>

definition demo_mask :: masking_server where
  "demo_mask = \<lparr>mk_id = 1, mk_profile_id = ''t'', mk_name = ''edge'', mk_kind = ''vps'',
     mk_endpoint_url = ''https://edge'', mk_secret = ''s'', mk_max_body_bytes = 10,
     mk_expected_egress_ip = None, mk_verified_ip = None, mk_verified_asn = None, mk_verified_country = None,
     mk_verified_at = None, mk_shared = False\<rparr>"

definition masked_target :: target where
  "masked_target = (demo_target (entry_of 1 1 ''a'' 0 1))\<lparr>tg_provider := (provider_of 1 ''t'' spec_x (Some demo_mask))\<rparr>"

definition demo_upstream :: upstream where
  "demo_upstream = \<lparr>up_build = (\<lambda>t. Inr (''https://h/v1/chat/completions'', [], JNull)), up_json_len = (\<lambda>_. 11),
     up_send = (\<lambda>_ _ _. None), up_translate = (\<lambda>_. Inr), up_status_text = decimal \<circ> nat, up_lossy = id\<rparr>"

definition demo_ft :: float_text where
  "demo_ft = \<lparr>ft_parse = (\<lambda>_. None), ft_round = (\<lambda>_. 0)\<rparr>"


theorem hop_failures_ignored_witness:
  "settle_failure (\<lambda>_. None) 60 0 (failure_of masked_target (forward_non_streaming demo_upstream exact_fl
     \<lparr>ft_parse = (\<lambda>_. None), ft_round = (\<lambda>_. 0)\<rparr> masked_target)) demo_store = demo_store"
proof (rule hop_failures_ignored)
  show "hop_failed demo_upstream masked_target"
    by (simp add: hop_failed_def demo_upstream_def masked_target_def provider_of_def demo_mask_def
        apply_json_def apply_request_def)
qed

end
