(* ===== verification/Openai_Upstream.thy ===== *)
theory Openai_Upstream
  imports Translator Outbound
begin

text \<open>
  The OpenAI dialect of the upstream side (\<open>src/adapter/outbound/openai.rs\<close>): the request of a
  chat target, completion and embedding targets, and the decoders that reduce an OpenAI
  answer or stream payload to canonical form. JSON parsing and printing are arguments.
\<close>

section \<open>Chat requests\<close>

definition INTERNAL_BODY_KEYS :: "string list" where
  "INTERNAL_BODY_KEYS = [''agos_responses'', ''economy_escalate'']"

fun strip_internal_keys :: "json \<Rightarrow> json" where
  "strip_internal_keys (JObj m) = JObj (fold obj_remove INTERNAL_BODY_KEYS m)"
| "strip_internal_keys v = v"

definition bearer_headers :: "target \<Rightarrow> headers" where
  "bearer_headers t =
     hdr_insert ''Content-Type'' ''application/json''
       (hdr_insert ''Authorization'' (''Bearer '' @ pv_auth_token (tg_provider t))
         (pv_extra_headers (tg_provider t)))"

text \<open>An object with members inserted; any other value is left alone, as \<open>as_object_mut\<close> does.\<close>

definition with_members :: "(string \<times> json) list \<Rightarrow> json \<Rightarrow> json" where
  "with_members es v = (case v of JObj m \<Rightarrow> JObj (insert_all es m) | _ \<Rightarrow> v)"

definition openai_request :: "target \<Rightarrow> chat_request \<Rightarrow> bool \<Rightarrow> string + string \<times> headers \<times> json" where
  "openai_request t req stream =
     (case chat_to_json req of
        None \<Rightarrow> Inl ''can only flatten structs and maps''
      | Some v \<Rightarrow>
          (let body = strip_internal_keys v in
           Inr (normalize_base (pv_base_url (tg_provider t)) @ ''/v1/chat/completions'',
                bearer_headers t,
                with_members
                  ([(''model'', JStr (re_model_id (tg_entry t)))] @
                   (if stream \<and> get ''stream_options'' body = None
                    then [(''stream_options'', object [(''include_usage'', JBool True)])] else []))
                  body)))"

section \<open>Completions and embeddings\<close>

text \<open>
  \<open>build_completion_upstream_request\<close> and \<open>build_embedding_upstream_request\<close>; the argument is
  the request as serde writes it, the path is \<open>completions\<close> or \<open>embeddings\<close>.
\<close>

definition passthrough_request :: "string \<Rightarrow> target \<Rightarrow> json \<Rightarrow> (string + string \<times> headers \<times> json)" where
  "passthrough_request path t req =
     (if pv_kind (tg_provider t) \<in> {OpenAI, Custom} then
        Inr (trim_end_matches CHR ''/'' (pv_base_url (tg_provider t)) @ ''/v1/'' @ path,
             bearer_headers t,
             with_members [(''model'', JStr (re_model_id (tg_entry t)))] req)
      else Inl (path @ '' not supported for provider kind''))"

section \<open>Decoding answers\<close>

definition arguments_to_string :: "(json \<Rightarrow> string) \<Rightarrow> json option \<Rightarrow> string" where
  "arguments_to_string print v =
     (case v of
        Some (JStr s) \<Rightarrow> s
      | Some JNull \<Rightarrow> ''{}''
      | None \<Rightarrow> ''{}''
      | Some other \<Rightarrow> print other)"

definition nonempty :: "string option \<Rightarrow> string option" where
  "nonempty x = (if x = Some [] then None else x)"

definition or_default :: "'a \<Rightarrow> 'a option \<Rightarrow> 'a" where
  "or_default d x = (case x of Some v \<Rightarrow> v | None \<Rightarrow> d)"

definition str_at :: "seg list \<Rightarrow> json \<Rightarrow> string option" where
  "str_at ps v = and_then (pointer ps v) as_str"

definition u64_at :: "seg list \<Rightarrow> json \<Rightarrow> nat option" where
  "u64_at ps v = and_then (pointer ps v) as_u64"

definition tool_call_of :: "(json \<Rightarrow> string) \<Rightarrow> json \<Rightarrow> tool_call option" where
  "tool_call_of print call =
     map_option (\<lambda>name. let i = or_default [] (str_at [Key ''id''] call)
        in \<lparr>tc_id = i, tc_call_id = i, tc_name = name,
            tc_arguments = arguments_to_string print (pointer [Key ''function'', Key ''arguments''] call)\<rparr>)
       (nonempty (str_at [Key ''function'', Key ''name''] call))"

definition parse_tool_calls :: "(json \<Rightarrow> string) \<Rightarrow> json \<Rightarrow> tool_call list" where
  "parse_tool_calls print v =
     (case and_then (pointer [Key ''choices'', Idx 0, Key ''message'', Key ''tool_calls''] v) as_array of
        None \<Rightarrow> []
      | Some calls \<Rightarrow> filter_map (tool_call_of print) calls)"

text \<open>\<open>i as u32\<close> keeps the low 32 bits.\<close>

definition tool_delta_of :: "nat \<Rightarrow> json \<Rightarrow> tool_call_delta" where
  "tool_delta_of position call =
     (let i = nonempty (str_at [Key ''id''] call) in
      \<lparr>td_index = nat (int (or_default position (u64_at [Key ''index''] call)) mod 2 ^ 32),
       td_id = i, td_call_id = i,
       td_name = nonempty (str_at [Key ''function'', Key ''name''] call),
       td_arguments = str_at [Key ''function'', Key ''arguments''] call\<rparr>)"

definition parse_stream_tool_calls :: "json \<Rightarrow> tool_call_delta list" where
  "parse_stream_tool_calls v =
     (case and_then (pointer [Key ''choices'', Idx 0, Key ''delta'', Key ''tool_calls''] v) as_array of
        None \<Rightarrow> []
      | Some calls \<Rightarrow> map (\<lambda>(i, call). tool_delta_of i call) (zip [0..<length calls] calls))"

definition canonical_of_json :: "(json \<Rightarrow> string) \<Rightarrow> json \<Rightarrow> canonical_response" where
  "canonical_of_json print v =
     \<lparr>cr_id = or_default ''chatcmpl-agos'' (str_at [Key ''id''] v),
      cr_model = or_default [] (str_at [Key ''model''] v),
      cr_text = or_default [] (str_at [Key ''choices'', Idx 0, Key ''message'', Key ''content''] v),
      cr_finish_reason = or_default ''stop'' (str_at [Key ''choices'', Idx 0, Key ''finish_reason''] v),
      cr_prompt_tokens = or_default 0 (u64_at [Key ''usage'', Key ''prompt_tokens''] v),
      cr_completion_tokens = or_default 0 (u64_at [Key ''usage'', Key ''completion_tokens''] v),
      cr_tool_calls = parse_tool_calls print v\<rparr>"

definition parse_canonical ::
  "(bytes \<Rightarrow> json option) \<Rightarrow> (json \<Rightarrow> string) \<Rightarrow> bytes \<Rightarrow> canonical_response option" where
  "parse_canonical from_slice print b = map_option (canonical_of_json print) (from_slice b)"

definition openai_stream_event :: "json \<Rightarrow> stream_event" where
  "openai_stream_event v =
     (let finish = str_at [Key ''choices'', Idx 0, Key ''finish_reason''] v in
      \<lparr>se_delta = or_default [] (str_at [Key ''choices'', Idx 0, Key ''delta'', Key ''content''] v),
       se_finish_reason = finish,
       se_prompt_tokens = u64_at [Key ''usage'', Key ''prompt_tokens''] v,
       se_completion_tokens = u64_at [Key ''usage'', Key ''completion_tokens''] v,
       se_done = (finish \<noteq> None),
       se_tool_call_deltas = parse_stream_tool_calls v\<rparr>)"

definition openai_stream_chunk :: "(string \<Rightarrow> json option) \<Rightarrow> string \<Rightarrow> stream_event option" where
  "openai_stream_chunk from_str data =
     (let trimmed = trim data in
      if trimmed = [] \<or> trimmed = '': keep-alive'' then None
      else if trimmed = ''[DONE]'' then
        Some (empty_event\<lparr>se_finish_reason := Some ''stop'', se_done := True\<rparr>)
      else map_option openai_stream_event (from_str trimmed))"

end
