(* ===== verification/Anthropic_Upstream.thy ===== *)
theory Anthropic_Upstream
  imports Openai_Upstream
begin

text \<open>
  The Anthropic dialect of the upstream side (\<open>src/adapter/outbound/anthropic.rs\<close>).
\<close>

section \<open>Requests\<close>

definition anthropic_url :: "target \<Rightarrow> string" where
  "anthropic_url t = normalize_base (pv_base_url (tg_provider t)) @ ''/v1/messages''"

definition anthropic_headers :: "target \<Rightarrow> headers" where
  "anthropic_headers t =
     (let hs = hdr_insert ''Content-Type'' ''application/json''
                 (hdr_insert ''x-api-key'' (pv_auth_token (tg_provider t)) (pv_extra_headers (tg_provider t)))
      in if map_of hs ''anthropic-version'' \<noteq> None then hs
         else hdr_insert ''anthropic-version'' ''2023-06-01'' hs)"

definition anthropic_image_block :: "string \<Rightarrow> json" where
  "anthropic_image_block url =
     (case parse_data_url url of
        Some d \<Rightarrow> object [(''type'', JStr ''image''),
          (''source'', object [(''type'', JStr ''base64''), (''media_type'', JStr (du_mime d)),
                               (''data'', JStr (du_data d))])]
      | None \<Rightarrow> object [(''type'', JStr ''image''),
          (''source'', object [(''type'', JStr ''url''), (''url'', JStr url)])])"

definition anthropic_content :: "json \<Rightarrow> json" where
  "anthropic_content content =
     (if \<not> list_ex is_image (content_parts content) then JStr (content_text content)
      else JArr (map (\<lambda>p. case p of
          Text t \<Rightarrow> object [(''type'', JStr ''text''), (''text'', JStr t)]
        | Image url \<Rightarrow> anthropic_image_block url) (content_parts content)))"

text \<open>One turn of the loop over the messages: the system text, or a message more.\<close>

definition anthropic_turn :: "string \<times> json list \<Rightarrow> message \<Rightarrow> string \<times> json list" where
  "anthropic_turn st msg =
     (let (system_text, messages) = st in
      if ms_role msg = ''system'' then
        ((if system_text = [] then [] else system_text @ [CHR 0x0A]) @ content_text (ms_content msg), messages)
      else (system_text,
            messages @ [object [(''role'', JStr (ms_role msg)), (''content'', anthropic_content (ms_content msg))]]))"

text \<open>The members of \<open>extra\<close> that are taken over, under the name they are sent with.\<close>

definition carried :: "(string \<times> string) list \<Rightarrow> json \<Rightarrow> (string \<times> json) list" where
  "carried names extra =
     filter_map (\<lambda>(src, to). map_option (Pair to) (get src extra)) names"

definition anthropic_request :: "chat_request \<Rightarrow> string \<Rightarrow> json" where
  "anthropic_request req model_id =
     (let (system_text, messages) = foldl anthropic_turn ([], []) (cq_messages req)
      in object ([(''model'', JStr model_id), (''max_tokens'', JInt 4096), (''messages'', JArr messages)]
           @ (if system_text = [] then [] else [(''system'', JStr system_text)])
           @ carried [(''max_tokens'', ''max_tokens''), (''temperature'', ''temperature''),
                      (''top_p'', ''top_p''), (''stop'', ''stop_sequences'')] (cq_extra req)
           @ (if cq_stream req then [(''stream'', JBool True)] else [])))"

section \<open>Replies\<close>

definition anthropic_finish :: "string \<Rightarrow> string" where
  "anthropic_finish stop_reason =
     (if stop_reason = ''max_tokens'' then ''length''
      else if stop_reason = ''tool_use'' then ''tool_calls''
      else ''stop'')"

definition block_text_of :: "json \<Rightarrow> string" where
  "block_text_of block =
     (if and_then (get ''type'' block) as_str = Some ''text''
      then or_default [] (and_then (get ''text'' block) as_str) else [])"

text \<open>The chat completion every translated reply is rendered as.\<close>

definition completion_json :: "(string \<times> json) list \<Rightarrow> string \<Rightarrow> string \<Rightarrow> json \<Rightarrow> json" where
  "completion_json head t finish counts =
     object (head @
       [(''object'', JStr ''chat.completion''),
        (''choices'', JArr [object [(''index'', JInt 0),
           (''message'', object [(''role'', JStr ''assistant''), (''content'', JStr t)]),
           (''finish_reason'', JStr finish)]]),
        (''usage'', counts)])"

definition usage_json :: "nat \<Rightarrow> nat \<Rightarrow> json" where
  "usage_json p c =
     object [(''prompt_tokens'', JInt (int p)), (''completion_tokens'', JInt (int c)),
             (''total_tokens'', JInt (int (add_u64 p c)))]"

definition anthropic_reply :: "json \<Rightarrow> string + json" where
  "anthropic_reply resp =
     (case and_then (get ''content'' resp) as_array of
        None \<Rightarrow> Inl ''anthropic response missing content array''
      | Some content \<Rightarrow>
          Inr (completion_json
             [(''id'', or_default (JStr ''msg_agos'') (get ''id'' resp)),
              (''model'', or_default JNull (get ''model'' resp))]
             (concat (map block_text_of content))
             (anthropic_finish (or_default ''stop'' (and_then (get ''stop_reason'' resp) as_str)))
             (usage_json (or_default 0 (u64_at [Key ''usage'', Key ''input_tokens''] resp))
                         (or_default 0 (u64_at [Key ''usage'', Key ''output_tokens''] resp)))))"

section \<open>Stream payloads\<close>

definition anthropic_stream_event :: "json \<Rightarrow> stream_event option" where
  "anthropic_stream_event v =
     (let kind = or_default [] (and_then (get ''type'' v) as_str) in
      if kind = ''content_block_delta'' then
        Some (empty_event\<lparr>se_delta := or_default [] (str_at [Key ''delta'', Key ''text''] v)\<rparr>)
      else if kind = ''message_start'' then
        Some (empty_event\<lparr>se_prompt_tokens := u64_at [Key ''message'', Key ''usage'', Key ''input_tokens''] v\<rparr>)
      else if kind = ''message_delta'' then
        Some (empty_event\<lparr>
          se_finish_reason := map_option anthropic_finish (str_at [Key ''delta'', Key ''stop_reason''] v),
          se_completion_tokens := u64_at [Key ''usage'', Key ''output_tokens''] v\<rparr>)
      else if kind = ''message_stop'' then
        Some (empty_event\<lparr>se_finish_reason := Some ''stop'', se_done := True\<rparr>)
      else None)"

definition anthropic_stream_chunk :: "(string \<Rightarrow> json option) \<Rightarrow> string \<Rightarrow> stream_event option" where
  "anthropic_stream_chunk from_str data =
     (let trimmed = trim data in
      if trimmed = [] then None else and_then (from_str trimmed) anthropic_stream_event)"

end
