(* ===== verification/Google_Upstream.thy ===== *)
theory Google_Upstream
  imports Anthropic_Upstream
begin

text \<open>
  The Google dialect of the upstream side (\<open>src/adapter/outbound/google.rs\<close>). The API key
  is part of the URL.
\<close>

section \<open>Requests\<close>

definition google_url :: "target \<Rightarrow> bool \<Rightarrow> string" where
  "google_url t stream =
     (let base = normalize_base (pv_base_url (tg_provider t));
          model = map (\<lambda>c. if c = CHR ''/'' then CHR ''-'' else c) (re_model_id (tg_entry t));
          key = pv_auth_token (tg_provider t)
      in if stream then base @ ''/v1beta/models/'' @ model @ '':streamGenerateContent?alt=sse&key='' @ key
         else base @ ''/v1beta/models/'' @ model @ '':generateContent?key='' @ key)"

definition google_headers :: "target \<Rightarrow> headers" where
  "google_headers t = hdr_insert ''Content-Type'' ''application/json'' (pv_extra_headers (tg_provider t))"

definition google_role :: "string \<Rightarrow> string" where
  "google_role role = (if role = ''assistant'' then ''model'' else ''user'')"

definition google_image_part :: "string \<Rightarrow> json" where
  "google_image_part url =
     (case parse_data_url url of
        Some d \<Rightarrow> object [(''inlineData'', object [(''mimeType'', JStr (du_mime d)), (''data'', JStr (du_data d))])]
      | None \<Rightarrow> object [(''fileData'', object [(''mimeType'', JStr (infer_image_mime url)), (''fileUri'', JStr url)])])"

definition text_part :: "string \<Rightarrow> json" where
  "text_part t = object [(''text'', JStr t)]"

definition google_parts :: "json \<Rightarrow> json list" where
  "google_parts content =
     (if \<not> list_ex is_image (content_parts content) then [text_part (content_text content)]
      else map (\<lambda>p. case p of Text t \<Rightarrow> text_part t | Image url \<Rightarrow> google_image_part url) (content_parts content))"

definition google_content :: "message \<Rightarrow> json" where
  "google_content msg =
     object [(''role'', JStr (google_role (ms_role msg))), (''parts'', JArr (google_parts (ms_content msg)))]"

definition google_config :: "json \<Rightarrow> (string \<times> json) list" where
  "google_config extra =
     (case extra of
        JObj _ \<Rightarrow>
          carried [(''temperature'', ''temperature''), (''top_p'', ''topP''), (''top_k'', ''topK''),
                   (''stop'', ''stopSequences'')] extra
          @ (case and_then (get ''max_tokens'' extra) as_u64 of
               Some n \<Rightarrow> [(''maxOutputTokens'', JInt (int n))] | None \<Rightarrow> [])
      | _ \<Rightarrow> [])"

definition google_request :: "chat_request \<Rightarrow> json" where
  "google_request req =
     (let is_system = (\<lambda>m. ms_role m = ''system'');
          system_parts = map (\<lambda>m. text_part (content_text (ms_content m))) (filter is_system (cq_messages req));
          contents = map google_content (filter (\<lambda>m. \<not> is_system m) (cq_messages req));
          config = google_config (cq_extra req)
      in object ([(''contents'', JArr contents)]
           @ (if system_parts = [] then [] else [(''systemInstruction'', object [(''parts'', JArr system_parts)])])
           @ (if config = [] then [] else [(''generationConfig'', object config)])))"

section \<open>Replies\<close>

definition google_finish :: "string option \<Rightarrow> string" where
  "google_finish r =
     (if r = Some ''MAX_TOKENS'' then ''length''
      else if r = Some ''SAFETY'' \<or> r = Some ''RECITATION'' then ''content_filter''
      else ''stop'')"

definition parts_text :: "json list \<Rightarrow> string" where
  "parts_text parts = concat (map (\<lambda>p. or_default [] (and_then (get ''text'' p) as_str)) parts)"

definition google_reply :: "json \<Rightarrow> string \<Rightarrow> string + json" where
  "google_reply resp model_id =
     (case and_then (get ''candidates'' resp) as_array of
        Some (cand # _) \<Rightarrow>
          Inr (completion_json
             [(''id'', or_default (JStr ''google_agos'') (get ''responseId'' resp)), (''model'', JStr model_id)]
             (case and_then (pointer [Key ''content'', Key ''parts''] cand) as_array of
                Some parts \<Rightarrow> parts_text parts | None \<Rightarrow> [])
             (google_finish (and_then (get ''finishReason'' cand) as_str))
             (usage_json (or_default 0 (u64_at [Key ''usageMetadata'', Key ''promptTokenCount''] resp))
                         (or_default 0 (u64_at [Key ''usageMetadata'', Key ''candidatesTokenCount''] resp))))
      | _ \<Rightarrow> Inl ''google response missing candidates'')"

section \<open>Stream payloads\<close>

definition google_stream_finish :: "string \<Rightarrow> string" where
  "google_stream_finish r =
     (if r = ''MAX_TOKENS'' then ''length''
      else if r = ''STOP'' \<or> r = ''STOP_SEQUENCE'' then ''stop''
      else ascii_lower r)"

definition google_stream_event :: "json \<Rightarrow> stream_event option" where
  "google_stream_event v =
     (let delta = (case and_then (pointer [Key ''candidates'', Idx 0, Key ''content'', Key ''parts''] v) as_array of
                     Some parts \<Rightarrow> parts_text parts | None \<Rightarrow> []);
          finish = map_option google_stream_finish (str_at [Key ''candidates'', Idx 0, Key ''finishReason''] v);
          prompt = u64_at [Key ''usageMetadata'', Key ''promptTokenCount''] v;
          completion = u64_at [Key ''usageMetadata'', Key ''candidatesTokenCount''] v
      in if delta = [] \<and> finish = None \<and> prompt = None \<and> completion = None then None
         else Some \<lparr>se_delta = delta, se_finish_reason = finish, se_prompt_tokens = prompt,
                se_completion_tokens = completion, se_done = (finish \<noteq> None), se_tool_call_deltas = []\<rparr>)"

definition google_stream_chunk :: "(string \<Rightarrow> json option) \<Rightarrow> string \<Rightarrow> stream_event option" where
  "google_stream_chunk from_str data =
     (let trimmed = trim data in
      if trimmed = [] then None else and_then (from_str trimmed) google_stream_event)"

end
