(* ===== verification/Responses_Upstream.thy ===== *)
theory Responses_Upstream
  imports Google_Upstream
begin

text \<open>
  The OpenAI Responses dialect of the upstream side (\<open>src/adapter/outbound/responses.rs\<close>):
  requests it cannot carry are refused with the capability marker. The clock is an argument.
\<close>

section \<open>Requests\<close>

definition responses_url :: "target \<Rightarrow> string" where
  "responses_url t = normalize_base (pv_base_url (tg_provider t)) @ ''/v1/responses''"

definition responses_headers :: "target \<Rightarrow> headers" where
  "responses_headers t =
     fold (\<lambda>(k, v). hdr_insert k v) (pv_extra_headers (tg_provider t))
       [(''Authorization'', ''Bearer '' @ pv_auth_token (tg_provider t))]"

text \<open>One turn of the loop: the instructions and the input so far.\<close>

definition responses_turn :: "string \<times> string \<Rightarrow> message \<Rightarrow> string \<times> string" where
  "responses_turn st msg =
     (let (instructions, input) = st; t = content_text (ms_content msg); line = (\<lambda>s. if s = [] then [] else s @ [CHR 0x0A])
      in if ms_role msg = ''system'' then (line instructions @ t, input)
         else (instructions, line input @ ms_role msg @ '': '' @ t))"

definition present :: "string \<Rightarrow> json \<Rightarrow> bool" where
  "present k v \<longleftrightarrow> is_some_and (get k v) (\<lambda>x. x \<noteq> JNull)"

text \<open>The first capability the request needs and this dialect lacks.\<close>

definition unsupported :: "chat_request \<Rightarrow> string option" where
  "unsupported req =
     (if present ''tools'' (cq_extra req) then
        Some '': tools/function calling not supported by openai_responses adapter; use a tools-capable upstream''
      else if present ''tool_choice'' (cq_extra req) then
        Some '': tool_choice not supported by openai_responses adapter; use a tools-capable upstream''
      else if present ''response_format'' (cq_extra req) then
        Some '': response_format (JSON mode) not supported by openai_responses adapter; use a json-mode-capable upstream''
      else if list_ex (\<lambda>m. content_has_image (ms_content m)) (cq_messages req) then
        Some '': image (vision) input not supported by openai_responses adapter; use a vision-capable upstream''
      else None)"

definition responses_request :: "chat_request \<Rightarrow> string \<Rightarrow> string + json" where
  "responses_request req model_id =
     (let (instructions, input) = foldl responses_turn ([], []) (cq_messages req); extra = cq_extra req in
      case unsupported req of
        Some msg \<Rightarrow> Inl (ADAPTER_CAPABILITY_SKIP @ msg)
      | None \<Rightarrow>
          Inr (object ([(''model'', JStr model_id), (''input'', JStr input)]
            @ (if instructions = [] then [] else [(''instructions'', JStr instructions)])
            @ carried [(''temperature'', ''temperature''), (''top_p'', ''top_p'')] extra
            @ (if present ''max_completion_tokens'' extra
               then carried [(''max_completion_tokens'', ''max_output_tokens'')] extra
               else if present ''max_tokens'' extra
               then carried [(''max_tokens'', ''max_output_tokens'')] extra
               else []))))"

section \<open>Replies\<close>

definition output_part_text :: "json \<Rightarrow> string" where
  "output_part_text part =
     (if or_default [] (and_then (get ''type'' part) as_str) \<in> {''output_text'', ''text''}
      then or_default [] (and_then (get ''text'' part) as_str) else [])"

definition output_item_text :: "json \<Rightarrow> string" where
  "output_item_text item =
     (if and_then (get ''type'' item) as_str \<noteq> Some ''message'' then []
      else (case and_then (get ''content'' item) as_array of
              None \<Rightarrow> [] | Some parts \<Rightarrow> concat (map output_part_text parts)))"

definition responses_reply :: "int \<Rightarrow> json \<Rightarrow> string \<Rightarrow> string + json" where
  "responses_reply now_secs resp model_id =
     (case and_then (get ''output'' resp) as_array of
        None \<Rightarrow> Inl (''responses body missing '' @ [CHR 0x60] @ ''output'' @ [CHR 0x60] @ '' array'')
      | Some output \<Rightarrow>
          (let t = concat (map output_item_text output) in
           if trim t = [] then Inl ''responses output carried no assistant text''
           else Inr (completion_json
             [(''id'', JStr (or_default ''responses'' (and_then (get ''id'' resp) as_str))),
              (''created'', JInt (or_default now_secs (and_then (get ''created_at'' resp) as_i64))),
              (''model'', JStr (or_default model_id (and_then (get ''model'' resp) as_str)))]
             t ''stop'' (or_default JNull (get ''usage'' resp)))))"

end
