(* ===== verification/Prompt_Cache.thy ===== *)
theory Prompt_Cache
  imports Routing "HOL-Library.Word"
begin

text \<open>
  Provider-native prompt caching (\<open>src/adapter/outbound/prompt_cache.rs\<close>): the markers a
  route's policy adds to an already translated upstream body. A function that changes the
  body through \<open>&mut Value\<close> and returns the number of markers it added returns the pair of
  the new body and the count.
\<close>

unbundle bit_operations_syntax

section \<open>The text of a body's prefix\<close>

lemma map_of_size: "map_of m k = Some (v :: json) \<Longrightarrow> size v \<le> size_list (size_prod (\<lambda>_. 0) size) m"
  by (induction m) (auto split: if_splits)

function block_text :: "json \<Rightarrow> string" where
  "block_text (JStr s) = s"
| "block_text (JArr items) = concat (map block_text items)"
| "block_text (JObj m) =
     (case map_of m ''text'' of None \<Rightarrow> [] | Some v \<Rightarrow> block_text v) @
     (case map_of m ''content'' of None \<Rightarrow> [] | Some v \<Rightarrow> block_text v) @
     (case map_of m ''instructions'' of None \<Rightarrow> [] | Some v \<Rightarrow> block_text v)"
| "block_text JNull = []"
| "block_text (JBool b) = []"
| "block_text (JInt n) = []"
| "block_text (JFloat f) = []"
  by pat_completeness auto
termination
  by (relation "measure size") (auto simp: less_Suc_eq_le intro: map_of_size size_list_estimation')

definition text_at :: "string \<Rightarrow> json \<Rightarrow> string" where
  "text_at k body = (case get k body of None \<Rightarrow> [] | Some v \<Rightarrow> block_text v)"

text \<open>The prefix: \<open>system\<close>, \<open>instructions\<close>, the first message, the first input item.\<close>

definition cacheable_prefix :: "json \<Rightarrow> string" where
  "cacheable_prefix body =
     text_at ''system'' body @ text_at ''instructions'' body @
     (case and_then (get ''messages'' body) as_array of
        Some (first # _) \<Rightarrow> text_at ''content'' first
      | _ \<Rightarrow> []) @
     (case and_then (get ''input'' body) as_array of
        Some (first # _) \<Rightarrow> block_text first
      | _ \<Rightarrow> [])"

definition fnv1a :: "string \<Rightarrow> 64 word" where
  "fnv1a bytes =
     foldl (\<lambda>h c. (h XOR word_of_nat (code c)) * 0x00000100000001b3) 0xcbf29ce484222325 bytes"

text \<open>\<open>{hash:016x}\<close>: sixteen digits, most significant first.\<close>

definition hex16 :: "64 word \<Rightarrow> string" where
  "hex16 w = map (\<lambda>i. hex_digit (unat (drop_bit (4 * i) w AND 15))) (rev [0..<16])"

definition prefix_key :: "json \<Rightarrow> string option" where
  "prefix_key body =
     (let p = cacheable_prefix body
      in if trim p = [] then None else Some (''agos-'' @ hex16 (fnv1a p)))"

section \<open>Marking\<close>

definition mark_openai :: "json \<Rightarrow> json \<times> nat" where
  "mark_openai body =
     (if get ''prompt_cache_key'' body \<noteq> None then (body, 0)
      else case prefix_key body of
        None \<Rightarrow> (body, 0)
      | Some key \<Rightarrow>
          (case body of
             JObj m \<Rightarrow> (JObj (obj_insert ''prompt_cache_key'' (JStr key) m), 1)
           | _ \<Rightarrow> (body, 0)))"

text \<open>The nested function \<open>scan\<close> is all of \<open>has_cache_control\<close>.\<close>

fun has_cache_control :: "json \<Rightarrow> bool" where
  "has_cache_control (JObj m) \<longleftrightarrow>
     list_ex (\<lambda>(k, v). k = ''cache_control'') m \<or> list_ex (\<lambda>(k, v). has_cache_control v) m"
| "has_cache_control (JArr items) \<longleftrightarrow> list_ex has_cache_control items"
| "has_cache_control _ \<longleftrightarrow> False"

definition ephemeral :: json where
  "ephemeral = JObj [(''type'', JStr ''ephemeral'')]"

text \<open>A change made through \<open>get_mut(k)\<close> or through an element of \<open>as_array_mut()\<close>.\<close>

fun set_key :: "string \<Rightarrow> json \<Rightarrow> (string \<times> json) list \<Rightarrow> (string \<times> json) list" where
  "set_key k v [] = []"
| "set_key k v ((k', w) # m) = (if k' = k then (k', v) # m else (k', w) # set_key k v m)"

definition at_key :: "string \<Rightarrow> (json \<Rightarrow> json \<times> nat) \<Rightarrow> json \<Rightarrow> json \<times> nat" where
  "at_key k f v =
     (case v of
        JObj m \<Rightarrow> (case map_of m k of
            None \<Rightarrow> (v, 0)
          | Some w \<Rightarrow> (let (w', n) = f w in (JObj (set_key k w' m), n)))
      | _ \<Rightarrow> (v, 0))"

definition at_index :: "nat option \<Rightarrow> (json \<Rightarrow> json \<times> nat) \<Rightarrow> json list \<Rightarrow> json \<times> nat" where
  "at_index i f xs =
     (case i of
        None \<Rightarrow> (JArr xs, 0)
      | Some i \<Rightarrow> (let (x, n) = f (xs ! i) in (JArr (xs[i := x]), n)))"

text \<open>\<open>rposition\<close>, and \<open>iter_mut().rev().find\<close>: the last element that satisfies the test.\<close>

fun rposition :: "('a \<Rightarrow> bool) \<Rightarrow> 'a list \<Rightarrow> nat option" where
  "rposition P [] = None"
| "rposition P (x # xs) =
     (case rposition P xs of Some i \<Rightarrow> Some (Suc i) | None \<Rightarrow> if P x then Some 0 else None)"

definition mark_block :: "json \<Rightarrow> json \<times> nat" where
  "mark_block b =
     (case b of
        JObj m \<Rightarrow> (if has_key ''cache_control'' m then (b, 0)
                   else (JObj (obj_insert ''cache_control'' ephemeral m), 1))
      | _ \<Rightarrow> (b, 0))"

text \<open>A string becomes an array of one text block.\<close>

definition as_blocks :: "json \<Rightarrow> json" where
  "as_blocks v =
     (case v of
        JStr t \<Rightarrow> JArr [JObj [(''text'', JStr t), (''type'', JStr ''text'')]]
      | _ \<Rightarrow> v)"

definition mark_system :: "json \<Rightarrow> json \<times> nat" where
  "mark_system v =
     (case as_blocks v of
        JArr bs \<Rightarrow> at_index (if bs = [] then None else Some (length bs - 1)) mark_block bs
      | v' \<Rightarrow> (v', 0))"

definition has_str :: "string \<Rightarrow> string \<Rightarrow> json \<Rightarrow> bool" where
  "has_str k s v \<longleftrightarrow> and_then (get k v) as_str = Some s"

definition mark_content :: "json \<Rightarrow> json \<times> nat" where
  "mark_content v =
     (case as_blocks v of
        JArr bs \<Rightarrow> at_index (rposition (has_str ''type'' ''text'') bs) mark_block bs
      | v' \<Rightarrow> (v', 0))"

definition mark_messages :: "json \<Rightarrow> json \<times> nat" where
  "mark_messages v =
     (case v of
        JArr ms \<Rightarrow>
          at_index (rposition (has_str ''role'' ''user'') ms) (at_key ''content'' mark_content) ms
      | _ \<Rightarrow> (v, 0))"

definition mark_anthropic :: "json \<Rightarrow> json \<times> nat" where
  "mark_anthropic body =
     (if has_cache_control body then (body, 0)
      else (let (b1, n1) = at_key ''system'' mark_system body;
                (b2, n2) = at_key ''messages'' mark_messages b1
            in (b2, n1 + n2)))"

definition apply_cache :: "provider_kind \<Rightarrow> prompt_cache_policy \<Rightarrow> json \<Rightarrow> json \<times> nat" where
  "apply_cache kind policy body =
     (if policy \<noteq> Auto then (body, 0)
      else case kind of
        Anthropic \<Rightarrow> mark_anthropic body
      | OpenAI \<Rightarrow> mark_openai body
      | Custom \<Rightarrow> mark_openai body
      | OpenAIResponses \<Rightarrow> mark_openai body
      | Google \<Rightarrow> (body, 0))"

section \<open>What a marking step does to a value\<close>

text \<open>
  Every step of the Anthropic dialect keeps the text of the value, adds at most the
  number of markers it reports, leaves the value alone when it reports none, and leaves
  a marker behind when it reports one.
\<close>

definition marks :: "nat \<Rightarrow> (json \<Rightarrow> json \<times> nat) \<Rightarrow> bool" where
  "marks N f \<longleftrightarrow> (\<forall>v. snd (f v) \<le> N \<and> (snd (f v) = 0 \<longrightarrow> fst (f v) = v)
     \<and> (0 < snd (f v) \<longrightarrow> has_cache_control (fst (f v)))
     \<and> block_text (fst (f v)) = block_text v)"

lemma marksI:
  "(\<And>v. snd (f v) \<le> N) \<Longrightarrow> (\<And>v. snd (f v) = 0 \<Longrightarrow> fst (f v) = v)
   \<Longrightarrow> (\<And>v. 0 < snd (f v) \<Longrightarrow> has_cache_control (fst (f v)))
   \<Longrightarrow> (\<And>v. block_text (fst (f v)) = block_text v) \<Longrightarrow> marks N f"
  by (auto simp: marks_def)

lemma marksD:
  assumes "marks N f"
  shows "snd (f v) \<le> N" "snd (f v) = 0 \<Longrightarrow> fst (f v) = v"
    "0 < snd (f v) \<Longrightarrow> has_cache_control (fst (f v))" "block_text (fst (f v)) = block_text v"
  using assms by (auto simp: marks_def)

lemma map_of_set_key [simp]:
  "map_of (set_key k w m) = (if map_of m k = None then map_of m else (map_of m)(k \<mapsto> w))"
  by (rule ext, induction m) auto

lemma set_key_same: "map_of m k = Some w \<Longrightarrow> set_key k w m = m"
  by (induction m) (auto split: if_splits)

lemma set_key_mem: "map_of m k = Some w' \<Longrightarrow> (k, w) \<in> set (set_key k w m)"
  by (rule map_of_SomeD) simp

lemma has_cache_control_memI: "(k, v) \<in> set m \<Longrightarrow> has_cache_control v \<Longrightarrow> has_cache_control (JObj m)"
  by (auto simp: list_ex_iff)

lemma at_key_None: "get k v = None \<Longrightarrow> at_key k f v = (v, 0)"
  by (cases v) (auto simp: at_key_def)

lemma at_key_Some:
  "map_of m k = Some w \<Longrightarrow> at_key k f (JObj m) = (JObj (set_key k (fst (f w)) m), snd (f w))"
  by (simp add: at_key_def split: prod.splits)

lemma at_key_cases:
  obtains (absent) "get k v = None" "at_key k f v = (v, 0)"
  | (present) m w where "v = JObj m" "map_of m k = Some w"
      "at_key k f v = (JObj (set_key k (fst (f w)) m), snd (f w))"
proof (cases "get k v")
  case None
  then show ?thesis using absent at_key_None by blast
next
  case (Some w)
  then obtain m where "v = JObj m" "map_of m k = Some w" by (cases v) auto
  then show ?thesis using present at_key_Some by blast
qed

lemma get_at_key:
  "get k' (fst (at_key k f v)) = (if k' = k then map_option (\<lambda>w. fst (f w)) (get k v) else get k' v)"
  by (cases rule: at_key_cases[of k v f]) auto

lemma text_at_at_key:
  assumes "\<And>w. block_text (fst (f w)) = block_text w"
  shows "text_at k' (fst (at_key k f v)) = text_at k' v"
  using assms by (cases "get k v") (auto simp: text_at_def get_at_key)

lemma block_text_obj:
  "block_text (JObj m) = text_at ''text'' (JObj m) @ text_at ''content'' (JObj m) @ text_at ''instructions'' (JObj m)"
  by (simp add: text_at_def)

lemma marks_at_key:
  assumes "marks N f"
  shows "marks N (at_key k f)"
proof (rule marksI)
  fix v
  note f = marksD[OF assms]
  show "snd (at_key k f v) \<le> N"
    by (cases rule: at_key_cases[of k v f]) (auto simp: f)
  show "fst (at_key k f v) = v" if "snd (at_key k f v) = 0"
    using that by (cases rule: at_key_cases[of k v f]) (auto simp: f set_key_same)
  show "has_cache_control (fst (at_key k f v))" if "0 < snd (at_key k f v)"
    using that
    by (cases rule: at_key_cases[of k v f])
       (auto intro: has_cache_control_memI[OF set_key_mem] f simp del: has_cache_control.simps)
  show "block_text (fst (at_key k f v)) = block_text v"
  proof (cases rule: at_key_cases[of k v f])
    case (present m w)
    then show ?thesis
      using text_at_at_key[OF f(4), of _ k "JObj m"] by (simp only: block_text_obj fst_conv)
  qed simp
qed

lemma at_index_Some: "at_index (Some i) f xs = (JArr (xs[i := fst (f (xs ! i))]), snd (f (xs ! i)))"
  by (simp add: at_index_def split: prod.splits)

lemma at_index_None: "at_index None f xs = (JArr xs, 0)"
  by (simp add: at_index_def)

lemma rposition_Some: "rposition P xs = Some i \<Longrightarrow> i < length xs \<and> P (xs ! i)"
  by (induction xs arbitrary: i) (auto split: option.splits if_splits)

lemma rposition_last: "rposition P xs = Some i \<Longrightarrow> i < j \<Longrightarrow> j < length xs \<Longrightarrow> \<not> P (xs ! j)"
proof (induction xs arbitrary: i j)
  case (Cons x xs)
  have none: "\<forall>x\<in>set xs. \<not> P x" if "rposition P xs = None" for xs
    using that by (induction xs) (auto split: option.splits if_splits)
  show ?case
    using Cons none[of xs] by (cases j) (auto split: option.splits if_splits)
qed simp

text \<open>An indexed step inherits the contract of the step on the element.\<close>

lemma at_index_marks:
  assumes "marks N f" and i: "case i of None \<Rightarrow> True | Some n \<Rightarrow> n < length xs"
  shows "snd (at_index i f xs) \<le> N"
    "snd (at_index i f xs) = 0 \<Longrightarrow> fst (at_index i f xs) = JArr xs"
    "0 < snd (at_index i f xs) \<Longrightarrow> has_cache_control (fst (at_index i f xs))"
    "block_text (fst (at_index i f xs)) = block_text (JArr xs)"
proof -
  note f = marksD[OF assms(1)]
  show "snd (at_index i f xs) \<le> N"
    by (cases i) (auto simp: at_index_None at_index_Some f)
  show "fst (at_index i f xs) = JArr xs" if "snd (at_index i f xs) = 0"
    using that by (cases i) (auto simp: at_index_None at_index_Some f)
  show "has_cache_control (fst (at_index i f xs))" if "0 < snd (at_index i f xs)"
    using that i
    by (cases i) (auto simp: at_index_None at_index_Some list_ex_iff intro!: bexI[OF _ set_update_memI] f)
  have "map block_text (xs[n := fst (f (xs ! n))]) = map block_text xs" for n
    by (simp add: map_update f) (metis list_update_id map_update)
  then show "block_text (fst (at_index i f xs)) = block_text (JArr xs)"
    by (cases i) (auto simp: at_index_None at_index_Some)
qed

lemma marks_mark_block: "marks 1 mark_block"
proof (rule marksI)
  fix v
  show "block_text (fst (mark_block v)) = block_text v"
    by (simp add: mark_block_def split: json.splits)
  show "has_cache_control (fst (mark_block v))" if "0 < snd (mark_block v)"
  proof -
    from that obtain m where v: "v = JObj m" "\<not> has_key ''cache_control'' m"
      by (auto simp: mark_block_def split: json.splits if_splits)
    have "(''cache_control'', ephemeral) \<in> set (obj_insert ''cache_control'' ephemeral m)"
      by (rule map_of_SomeD) simp
    with v show ?thesis by (auto simp: mark_block_def list_ex_iff intro!: bexI)
  qed
qed (auto simp: mark_block_def split: json.splits if_splits)

lemma as_blocks_other: "\<nexists>t. v = JStr t \<Longrightarrow> as_blocks v = v"
  by (cases v) (auto simp: as_blocks_def)

text \<open>A step that first turns a string into blocks marks the one block it made.\<close>

lemma marks_blocks:
  assumes f: "f = (\<lambda>v. case as_blocks v of JArr bs \<Rightarrow> at_index (pos bs) mark_block bs | v' \<Rightarrow> (v', 0))"
    and pos: "\<And>bs. case pos bs of None \<Rightarrow> True | Some n \<Rightarrow> n < length bs"
    and one: "\<And>t. pos [JObj [(''text'', JStr t), (''type'', JStr ''text'')]] = Some 0"
  shows "marks 1 f"
proof -
  have str: "f (JStr t) = (JArr [JObj (obj_insert ''cache_control'' ephemeral
       [(''text'', JStr t), (''type'', JStr ''text'')])], 1)" for t
    by (simp add: f as_blocks_def one at_index_Some mark_block_def has_key_def)
  have arr: "f (JArr bs) = at_index (pos bs) mark_block bs" for bs
    by (simp add: f as_blocks_def)
  have other: "f v = (v, 0)" if "\<nexists>t. v = JStr t" "\<nexists>bs. v = JArr bs" for v
    using that by (cases v) (auto simp: f as_blocks_def)
  note at = at_index_marks[OF marks_mark_block pos]
  have "snd (f v) \<le> 1 \<and> (snd (f v) = 0 \<longrightarrow> fst (f v) = v)
     \<and> (0 < snd (f v) \<longrightarrow> has_cache_control (fst (f v))) \<and> block_text (fst (f v)) = block_text v" for v
  proof (cases "(\<exists>t. v = JStr t) \<or> (\<exists>bs. v = JArr bs)")
    case True
    then show ?thesis
      using at by (auto simp: str arr)
  qed (auto simp: other)
  then show ?thesis by (simp add: marks_def)
qed

lemma marks_mark_system: "marks 1 mark_system"
  by (rule marks_blocks[OF ext[OF mark_system_def]]) simp_all

lemma marks_mark_content: "marks 1 mark_content"
  by (rule marks_blocks[OF ext[OF mark_content_def]])
     (auto simp: has_str_def and_then_def split: option.splits dest: rposition_Some)

lemma marks_mark_messages: "marks 1 mark_messages"
proof -
  have pos: "case rposition P ms of None \<Rightarrow> True | Some n \<Rightarrow> n < length ms" for P and ms :: "json list"
    by (auto split: option.splits dest: rposition_Some)
  show ?thesis
    using at_index_marks[OF marks_at_key[OF marks_mark_content] pos]
    by (intro marksI) (auto simp: mark_messages_def split: json.splits)
qed

section \<open>Markers are add-ons\<close>

lemma mark_anthropic_parts:
  assumes "\<not> has_cache_control body"
  shows "fst (mark_anthropic body) =
      fst (at_key ''messages'' mark_messages (fst (at_key ''system'' mark_system body)))"
    and "snd (mark_anthropic body) = snd (at_key ''system'' mark_system body)
      + snd (at_key ''messages'' mark_messages (fst (at_key ''system'' mark_system body)))"
  using assms by (simp_all add: mark_anthropic_def split: prod.splits)

lemma mark_openai_cases:
  obtains (same) "mark_openai body = (body, 0)"
  | (marked) m key where "body = JObj m" "map_of m ''prompt_cache_key'' = None" "prefix_key body = Some key"
      "mark_openai body = (JObj (obj_insert ''prompt_cache_key'' (JStr key) m), 1)"
  by (cases body; cases "prefix_key body"; cases "get ''prompt_cache_key'' body")
     (auto simp: mark_openai_def)

definition first_text :: "json \<Rightarrow> string" where
  "first_text body =
     (case and_then (get ''messages'' body) as_array of
        Some (first # _) \<Rightarrow> text_at ''content'' first
      | _ \<Rightarrow> [])"

lemma cacheable_prefix_first:
  "cacheable_prefix body =
     text_at ''system'' body @ text_at ''instructions'' body @ first_text body @
     (case and_then (get ''input'' body) as_array of Some (first # _) \<Rightarrow> block_text first | _ \<Rightarrow> [])"
  by (simp add: cacheable_prefix_def first_text_def)

lemma content_text_kept:
  "text_at ''content'' (fst (at_key ''content'' mark_content m)) = text_at ''content'' m"
  by (rule text_at_at_key) (rule marksD(4)[OF marks_mark_content])

lemma mark_messages_JArr:
  "\<exists>ms'. fst (mark_messages (JArr ms)) = JArr ms' \<and> map (text_at ''content'') ms' = map (text_at ''content'') ms"
proof (cases "rposition (has_str ''role'' ''user'') ms")
  case None
  then show ?thesis by (simp add: mark_messages_def at_index_None)
next
  case (Some i)
  have "(map (text_at ''content'') ms)[i := text_at ''content'' (ms ! i)] = map (text_at ''content'') ms"
    by (metis list_update_id map_update)
  with Some show ?thesis
    by (simp add: mark_messages_def at_index_Some map_update content_text_kept)
qed

lemma first_text_kept: "first_text (fst (at_key ''messages'' mark_messages body)) = first_text body"
proof (cases "get ''messages'' body")
  case (Some v)
  show ?thesis
  proof (cases v)
    case (JArr ms)
    obtain ms' where "fst (mark_messages (JArr ms)) = JArr ms'"
      "map (text_at ''content'') ms' = map (text_at ''content'') ms"
      using mark_messages_JArr by blast
    with Some JArr show ?thesis
      by (cases ms; cases ms') (auto simp: first_text_def get_at_key and_then_def)
  qed (use Some in \<open>simp_all add: first_text_def get_at_key and_then_def mark_messages_def\<close>)
qed (simp add: first_text_def get_at_key)

lemma prefix_kept_anthropic: "cacheable_prefix (fst (mark_anthropic body)) = cacheable_prefix body"
proof (cases "has_cache_control body")
  case True
  then show ?thesis by (simp add: mark_anthropic_def)
next
  case False
  have kept: "cacheable_prefix (fst (at_key k f b)) = cacheable_prefix b"
    if "marks N f" "k \<in> {''system'', ''messages''}" "first_text (fst (at_key k f b)) = first_text b" for N k f b
    using that text_at_at_key[OF marksD(4)[OF that(1)]]
    by (auto simp: cacheable_prefix_first get_at_key)
  have "first_text (fst (at_key ''system'' f b)) = first_text b" for f b
    by (simp add: first_text_def get_at_key)
  then show ?thesis
    using False kept[OF marks_mark_messages] kept[OF marks_mark_system] first_text_kept
    by (simp add: mark_anthropic_parts)
qed

lemma prefix_kept_openai: "cacheable_prefix (fst (mark_openai body)) = cacheable_prefix body"
  by (cases body rule: mark_openai_cases) (simp_all add: cacheable_prefix_def text_at_def)

lemma mark_anthropic_marks: "marks 2 mark_anthropic"
proof (rule marksI)
  fix v
  note sys = marksD[OF marks_at_key[OF marks_mark_system, of "''system''"]]
  note msg = marksD[OF marks_at_key[OF marks_mark_messages, of "''messages''"]]
  let ?b = "fst (at_key ''system'' mark_system v)"
  have keep: "has_cache_control (fst (at_key ''messages'' mark_messages ?b))"
    if "\<not> has_cache_control v" "0 < snd (at_key ''system'' mark_system v)"
      "snd (at_key ''messages'' mark_messages ?b) = 0"
    using that sys(3) msg(2) by simp
  show "snd (mark_anthropic v) \<le> 2"
    using sys(1)[of v] msg(1)[of ?b]
    by (cases "has_cache_control v") (simp_all add: mark_anthropic_parts, simp add: mark_anthropic_def)
  show "fst (mark_anthropic v) = v" if "snd (mark_anthropic v) = 0"
    using that sys(2)[of v] msg(2)[of ?b]
    by (cases "has_cache_control v") (simp_all add: mark_anthropic_parts, simp add: mark_anthropic_def)
  show "has_cache_control (fst (mark_anthropic v))" if "0 < snd (mark_anthropic v)"
    using that keep msg(3)[of ?b]
    by (cases "has_cache_control v") (simp add: mark_anthropic_def, fastforce simp: mark_anthropic_parts)
  show "block_text (fst (mark_anthropic v)) = block_text v"
    using sys(4)[of v] msg(4)[of ?b]
    by (cases "has_cache_control v") (simp_all add: mark_anthropic_parts, simp add: mark_anthropic_def)
qed

lemma openai_idem: "mark_openai (fst (mark_openai body)) = (fst (mark_openai body), 0)"
  by (cases body rule: mark_openai_cases) (simp_all add: mark_openai_def)

lemma openai_zero: "snd (mark_openai body) = 0 \<Longrightarrow> fst (mark_openai body) = body"
  by (cases body rule: mark_openai_cases) simp_all

lemma anthropic_idem: "mark_anthropic (fst (mark_anthropic body)) = (fst (mark_anthropic body), 0)"
proof (cases "snd (mark_anthropic body) = 0")
  case True
  then have "fst (mark_anthropic body) = body" using marksD(2)[OF mark_anthropic_marks] by simp
  with True show ?thesis by (metis prod.collapse)
next
  case False
  then have "has_cache_control (fst (mark_anthropic body))"
    using marksD(3)[OF mark_anthropic_marks] by simp
  then show ?thesis by (simp add: mark_anthropic_def)
qed

lemma anthropic_other_keys:
  "k \<noteq> ''system'' \<Longrightarrow> k \<noteq> ''messages'' \<Longrightarrow> get k (fst (mark_anthropic body)) = get k body"
  by (cases "has_cache_control body")
     (simp add: mark_anthropic_def, simp add: mark_anthropic_parts get_at_key)

lemma openai_other_keys: "k \<noteq> ''prompt_cache_key'' \<Longrightarrow> get k (fst (mark_openai body)) = get k body"
  by (cases body rule: mark_openai_cases) simp_all

lemma apply_cache_cases:
  obtains (none) "apply_cache kind policy body = (body, 0)" "\<forall>b. apply_cache kind policy b = (b, 0)"
  | (anthropic) "kind = Anthropic" "\<forall>b. apply_cache kind policy b = mark_anthropic b"
  | (openai) "kind \<noteq> Anthropic" "\<forall>b. apply_cache kind policy b = mark_openai b"
  by (cases policy; cases kind) (auto simp: apply_cache_def)

definition demo_turn :: "string \<Rightarrow> json" where
  "demo_turn t = JObj [(''content'', JStr t), (''role'', JStr ''user'')]"

definition demo_body :: "json list \<Rightarrow> json" where
  "demo_body ms = JObj [(''messages'', JArr ms), (''system'', JStr ''be brief'')]"

text \<open>
  Cache markers are pure add-ons, whatever the body. At most two are added, and only under
  the policy \<open>Auto\<close>; a count of zero means the body is untouched; marking a second time
  changes nothing and counts nothing, since the first marking is then respected like a
  client's own; every key but the three that carry markers keeps its value; and the text of
  the cacheable prefix, hence the routing key, is that of the unmarked body.
\<close>

theorem markers_are_add_ons:
  assumes "apply_cache kind policy body = (body', n)"
  shows "n \<le> 2 \<and> (policy = Off \<or> kind = Google \<longrightarrow> n = 0) \<and> (n = 0 \<longrightarrow> body' = body)
    \<and> apply_cache kind policy body' = (body', 0)
    \<and> (k \<notin> {''system'', ''messages'', ''prompt_cache_key''} \<longrightarrow> get k body' = get k body)
    \<and> prefix_key body' = prefix_key body"
proof (intro conjI impI)
  have b': "body' = fst (apply_cache kind policy body)" and n: "n = snd (apply_cache kind policy body)"
    using assms by simp_all
  have le: "snd (mark_openai body) \<le> 2"
    by (cases body rule: mark_openai_cases) simp_all
  show "policy = Off \<or> kind = Google \<Longrightarrow> n = 0"
    by (auto simp: n apply_cache_def)
  show "n \<le> 2" "n = 0 \<Longrightarrow> body' = body" "apply_cache kind policy body' = (body', 0)"
    "k \<notin> {''system'', ''messages'', ''prompt_cache_key''} \<Longrightarrow> get k body' = get k body"
    "prefix_key body' = prefix_key body"
    by (cases rule: apply_cache_cases[of kind policy body];
        simp add: b' n le openai_idem openai_zero anthropic_idem anthropic_other_keys openai_other_keys
          marksD(1,2)[OF mark_anthropic_marks] prefix_key_def prefix_kept_anthropic prefix_kept_openai)+
qed

theorem markers_are_add_ons_witness:
  "snd (apply_cache Anthropic Auto (demo_body [demo_turn ''hi''])) = 2
   \<and> apply_cache Anthropic Auto (fst (apply_cache Anthropic Auto (demo_body [demo_turn ''hi''])))
     = (fst (apply_cache Anthropic Auto (demo_body [demo_turn ''hi''])), 0)"
proof
  show "snd (apply_cache Anthropic Auto (demo_body [demo_turn ''hi''])) = 2" by code_simp
  show "apply_cache Anthropic Auto (fst (apply_cache Anthropic Auto (demo_body [demo_turn ''hi''])))
     = (fst (apply_cache Anthropic Auto (demo_body [demo_turn ''hi''])), 0)"
    using markers_are_add_ons[OF prod.collapse[symmetric]] by blast
qed

text \<open>
  Every turn of a conversation lands on the same cache shard: the routing key depends on
  the system prompt, the instructions, the input and the first message only, so a longer
  conversation with the same start has the same key; a key is \<open>agos-\<close> and sixteen
  hexadecimal digits.
\<close>

theorem conversation_keeps_key:
  assumes "get ''messages'' body = Some (JArr (m # ms))" "get ''messages'' body' = Some (JArr (m # ms'))"
    and "\<forall>k\<in>{''system'', ''instructions'', ''input''}. get k body' = get k body"
    and "prefix_key body = Some key"
  shows "prefix_key body' = Some key" and "length key = 21" and "prefix ''agos-'' key"
    and "set (drop 5 key) \<subseteq> set ''0123456789abcdef''"
proof -
  have "cacheable_prefix body' = cacheable_prefix body"
    using assms(1-3) by (simp add: cacheable_prefix_def text_at_def and_then_def)
  then show "prefix_key body' = Some key"
    using assms(4) by (simp add: prefix_key_def)
  obtain w where key: "key = ''agos-'' @ hex16 w"
    using assms(4) by (auto simp: prefix_key_def Let_def split: if_splits)
  then show "length key = 21" "prefix ''agos-'' key" by (simp_all add: hex16_def)
  have digit: "hex_digit n \<in> set ''0123456789abcdef''" if "n < 16" for n
  proof -
    have "list_all (\<lambda>n. hex_digit n \<in> set ''0123456789abcdef'') [0..<16]" by code_simp
    with that show ?thesis by (simp only: list_all_iff set_upt) simp
  qed
  have "unat (v AND 15) < 16" for v :: "64 word"
    using word_and_le2[of 15 v] by (simp add: word_le_nat_alt and.commute)
  then show "set (drop 5 key) \<subseteq> set ''0123456789abcdef''"
    using digit by (auto simp: key hex16_def)
qed

theorem conversation_keeps_key_witness:
  "prefix_key (demo_body [demo_turn ''hi'', demo_turn ''more'']) = prefix_key (demo_body [demo_turn ''hi''])"
proof -
  have "prefix_key (demo_body [demo_turn ''hi'']) \<noteq> None"
    by (simp add: prefix_key_def cacheable_prefix_def text_at_def demo_body_def demo_turn_def and_then_def
        trim_def trim_end_by_def is_ws_def code_def)
  then obtain key where "prefix_key (demo_body [demo_turn ''hi'']) = Some key" by blast
  with conversation_keeps_key(1)[of "demo_body [demo_turn ''hi'']" "demo_turn ''hi''" "[]"
      "demo_body [demo_turn ''hi'', demo_turn ''more'']" "[demo_turn ''more'']" key]
  show ?thesis by (simp add: demo_body_def)
qed

end
