(* ===== verification/Sse.thy ===== *)
theory Sse
  imports Routing
begin

text \<open>
  Server-sent events (\<open>src/server/sse.rs\<close>): the incremental frame parser, the frames it
  decodes, their classification and the usage figures they carry. A buffer is the list of
  its bytes; \<open>String::from_utf8_lossy\<close> is written out; JSON parsing is an argument.
\<close>

section \<open>Lossy UTF-8\<close>

text \<open>
  The decoding steps of the standard library: how many bytes the next character, or the
  next malformed chunk, takes. Reading past the end reads 0, which continues nothing.
\<close>

definition byte_at :: "string \<Rightarrow> nat \<Rightarrow> nat" where
  "byte_at s i = (if i < length s then code (s ! i) else 0)"

definition is_cont :: "nat \<Rightarrow> bool" where
  "is_cont b \<longleftrightarrow> 128 \<le> b \<and> b \<le> 191"

definition second_of_3 :: "nat \<Rightarrow> nat \<Rightarrow> bool" where
  "second_of_3 a b \<longleftrightarrow> (if a = 224 then 160 \<le> b \<and> b \<le> 191
     else if a = 237 then 128 \<le> b \<and> b \<le> 159 else is_cont b)"

definition second_of_4 :: "nat \<Rightarrow> nat \<Rightarrow> bool" where
  "second_of_4 a b \<longleftrightarrow> (if a = 240 then 144 \<le> b \<and> b \<le> 191
     else if a = 244 then 128 \<le> b \<and> b \<le> 143 else is_cont b)"

definition utf8_len :: "nat \<Rightarrow> nat \<Rightarrow> nat \<Rightarrow> nat \<Rightarrow> bool \<times> nat" where
  "utf8_len a b c d =
     (if a < 128 then (True, 1)
      else if 194 \<le> a \<and> a \<le> 223 then (if is_cont b then (True, 2) else (False, 1))
      else if 224 \<le> a \<and> a \<le> 239 then
        (if \<not> second_of_3 a b then (False, 1) else if is_cont c then (True, 3) else (False, 2))
      else if 240 \<le> a \<and> a \<le> 244 then
        (if \<not> second_of_4 a b then (False, 1) else if \<not> is_cont c then (False, 2)
         else if is_cont d then (True, 4) else (False, 3))
      else (False, 1))"

definition char_len :: "string \<Rightarrow> bool \<times> nat" where
  "char_len s = utf8_len (byte_at s 0) (byte_at s 1) (byte_at s 2) (byte_at s 3)"

definition replacement :: string where
  "replacement = [char_of (239::nat), char_of (191::nat), char_of (189::nat)]"

lemma char_len_pos [simp]: "0 < snd (char_len s)"
  by (simp add: char_len_def utf8_len_def)

function from_utf8_lossy :: "string \<Rightarrow> string" where
  "from_utf8_lossy s =
     (if s = [] then []
      else (let (good, n) = char_len s
            in (if good then take n s else replacement) @ from_utf8_lossy (drop n s)))"
  by pat_completeness auto
termination
proof (relation "measure length")
  fix s :: string and x good n
  assume "s \<noteq> []" "x = char_len s" "(good, n) = x"
  then show "(drop n s, s) \<in> measure length"
    using char_len_pos[of s] by (cases "char_len s") auto
qed simp

declare from_utf8_lossy.simps [simp del]

lemma lossy_Nil [simp]: "from_utf8_lossy [] = []"
  by (simp add: from_utf8_lossy.simps)

lemma lossy_ascii: "code c < 128 \<Longrightarrow> from_utf8_lossy (c # s) = c # from_utf8_lossy s"
  by (subst from_utf8_lossy.simps) (simp add: char_len_def utf8_len_def byte_at_def)

lemma char_len_bound: "s \<noteq> [] \<Longrightarrow> snd (char_len s) \<le> length s"
  by (cases s rule: list.exhaust; cases "tl s"; cases "tl (tl s)"; cases "tl (tl (tl s))")
     (auto simp: char_len_def utf8_len_def byte_at_def is_cont_def second_of_3_def second_of_4_def)

lemma byte_at_append:
  "byte_at (s @ c # r) i = (if i < length s then byte_at s i else if i = length s then code c
     else byte_at r (i - Suc (length s)))"
  by (auto simp: byte_at_def nth_append nth_Cons')

text \<open>A byte below 128 never completes or prolongs a character that precedes it.\<close>

lemma ascii_not_cont:
  assumes "x < 128"
  shows "\<not> is_cont x" "\<not> second_of_3 a x" "\<not> second_of_4 a x"
  using assms by (auto simp: is_cont_def second_of_3_def second_of_4_def)

lemma utf8_len_stops:
  "b < 128 \<Longrightarrow> b' < 128 \<Longrightarrow> utf8_len a b c d = utf8_len a b' c' d'"
  "c < 128 \<Longrightarrow> c' < 128 \<Longrightarrow> utf8_len a b c d = utf8_len a b c' d'"
  "d < 128 \<Longrightarrow> d' < 128 \<Longrightarrow> utf8_len a b c d = utf8_len a b c d'"
  by (simp_all add: utf8_len_def ascii_not_cont)

lemma char_len_append:
  assumes "s \<noteq> []" "code c < 128"
  shows "char_len (s @ c # r) = char_len s"
proof -
  have past: "byte_at s i = 0" if "length s \<le> i" for i
    using that by (simp add: byte_at_def)
  have "length s \<noteq> 0" using assms(1) by simp
  then consider "length s = 1" | "length s = 2" | "length s = 3" | "4 \<le> length s"
    by linarith
  then show ?thesis
    unfolding char_len_def byte_at_append
    by cases (use assms in \<open>simp_all add: past\<close>, (rule utf8_len_stops; simp)+)
qed

lemma lossy_append:
  "code c < 128 \<Longrightarrow> from_utf8_lossy (s @ c # r) = from_utf8_lossy s @ c # from_utf8_lossy r"
proof (induction s rule: from_utf8_lossy.induct)
  case (1 s)
  show ?case
  proof (cases "s = []")
    case False
    obtain good n where cl: "char_len s = (good, n)" by fastforce
    have n: "n \<le> length s" using char_len_bound[OF False] cl by simp
    then show ?thesis
      using 1 False cl char_len_append[OF False 1(2)]
      by (subst (1 2) from_utf8_lossy.simps) (simp add: Let_def)
  qed (use 1 in \<open>simp add: lossy_ascii\<close>)
qed

section \<open>Frames\<close>

abbreviation nl :: char where "nl \<equiv> CHR 0x0A"
abbreviation cr :: char where "cr \<equiv> CHR 0x0D"

record sse_frame =
  sf_event :: string
  sf_data :: string

definition to_wire :: "sse_frame \<Rightarrow> string" where
  "to_wire f = ''data: '' @ sf_data f @ [nl, nl]"

text \<open>\<open>find_frame_end\<close>: the index of the scan is the number of bytes already passed.\<close>

fun find_frame_end :: "string \<Rightarrow> (nat \<times> nat) option" where
  "find_frame_end [] = None"
| "find_frame_end (c # s) =
     (if c = nl \<and> prefix [nl] s then Some (1, 1)
      else if c = nl \<and> prefix [cr, nl] s then Some (2, 1)
      else map_option (\<lambda>(n, t). (Suc n, t)) (find_frame_end s))"

text \<open>\<open>str::lines\<close>\<close>

definition strip_cr :: "string \<Rightarrow> string" where
  "strip_cr s = (case strip_suffix s [cr] of Some t \<Rightarrow> t | None \<Rightarrow> s)"

definition text_lines :: "string \<Rightarrow> string list" where
  "text_lines s =
     (let ps = split_on nl s
      in map strip_cr (butlast ps) @ (if last ps = [] then [] else [last ps]))"

definition strip_space :: "string \<Rightarrow> string" where
  "strip_space s = (case strip_prefix s '' '' of Some t \<Rightarrow> t | None \<Rightarrow> s)"

definition frame_line :: "string \<times> string list \<Rightarrow> string \<Rightarrow> string \<times> string list" where
  "frame_line st raw =
     (let (event, data) = st; line = trim_end_matches cr raw
      in case strip_prefix line ''data:'' of
           Some r \<Rightarrow> (event, data @ [strip_space r])
         | None \<Rightarrow> (case strip_prefix line ''event:'' of
             Some r \<Rightarrow> (strip_space r, data)
           | None \<Rightarrow> (event, data)))"

definition parse_frame :: "string \<Rightarrow> sse_frame option" where
  "parse_frame raw =
     (let (event, data) = foldl frame_line ([], []) (text_lines (from_utf8_lossy raw))
      in if data = [] then None else Some \<lparr>sf_event = event, sf_data = join [nl] data\<rparr>)"

lemma find_frame_end_bounds:
  "find_frame_end s = Some (n, t) \<Longrightarrow> t = 1 \<and> 0 < n \<and> n + t \<le> length s"
  proof (induction s arbitrary: n)
  case (Cons c s)
  then show ?case
    by (auto split: if_splits dest!: prefix_length_le)
qed simp

text \<open>
  \<open>feed\<close> appends to the buffer and takes complete frames off its front; a parser is its
  buffer, \<open>new\<close> is the empty one.
\<close>

function take_frames :: "string \<Rightarrow> sse_frame list \<times> string" where
  "take_frames buf =
     (case find_frame_end buf of
        None \<Rightarrow> ([], buf)
      | Some (n, t) \<Rightarrow>
          (let (fs, rest) = take_frames (drop t (drop n buf))
           in ((case parse_frame (take n buf) of None \<Rightarrow> fs | Some f \<Rightarrow> f # fs), rest)))"
  by pat_completeness auto
termination
  by (relation "measure length") (auto dest: find_frame_end_bounds)

declare take_frames.simps [simp del]

definition feed :: "string \<Rightarrow> string \<Rightarrow> sse_frame list \<times> string" where
  "feed buf bytes = take_frames (buf @ bytes)"

definition finish :: "string \<Rightarrow> sse_frame list" where
  "finish buf =
     (if buf = [] then [] else case parse_frame buf of None \<Rightarrow> [] | Some f \<Rightarrow> [f])"

section \<open>Chunking\<close>

lemma prefix_append_long: "length p \<le> length s \<Longrightarrow> prefix p (s @ z) \<longleftrightarrow> prefix p s"
  by (metis append_prefixD prefix_length_prefix prefix_append prefixI)

lemma find_frame_end_append: "find_frame_end s = Some e \<Longrightarrow> find_frame_end (s @ z) = Some e"
proof (induction s arbitrary: e)
  case (Cons c s)
  consider (now) "c = nl" "prefix [nl] s \<or> prefix [cr, nl] s"
    | (later) "\<not> (c = nl \<and> prefix [nl] s)" "\<not> (c = nl \<and> prefix [cr, nl] s)" by blast
  then show ?case
  proof cases
    case now
    then show ?thesis using Cons.prems by (auto simp: prefix_def)
  next
    case later
    then obtain n t where n: "find_frame_end s = Some (n, t)"
      using Cons.prems by (auto split: if_splits)
    then have "2 \<le> length s" using find_frame_end_bounds by fastforce
    then have "prefix [nl] (s @ z) = prefix [nl] s" "prefix [cr, nl] (s @ z) = prefix [cr, nl] s"
      by (simp_all add: prefix_append_long)
    with later n Cons show ?thesis by (auto split: if_splits)
  qed
qed simp

lemma take_frames_append:
  "take_frames (s @ z) =
     (let (f1, r1) = take_frames s; (f2, r2) = take_frames (r1 @ z) in (f1 @ f2, r2))"
proof (induction s rule: take_frames.induct)
  case (1 s)
  show ?case
  proof (cases "find_frame_end s")
    case None
    then show ?thesis by (simp add: take_frames.simps[of s])
  next
    case (Some e)
    obtain n t where e: "e = (n, t)" by fastforce
    have b: "n + t \<le> length s" using find_frame_end_bounds Some e by blast
    show ?thesis
      using 1[OF Some e[symmetric]] b Some e find_frame_end_append[OF Some, of z]
      by (subst (1 2) take_frames.simps) (auto simp: Let_def split_beta split: option.splits)
  qed
qed

lemma take_frames_idle: "take_frames (snd (take_frames s)) = ([], snd (take_frames s))"
proof (induction s rule: take_frames.induct)
  case (1 s)
  then show ?case
    by (cases "find_frame_end s") (auto simp: take_frames.simps[of s] Let_def split_beta)
qed

interpretation sse: chunked_decoder feed
proof
  show "feed s (a @ b) = (let (f1, s1) = feed s a; (f2, s2) = feed s1 b in (f1 @ f2, s2))" for s a b
    using take_frames_append[of "s @ a" b] by (simp add: feed_def)
  show "feed (snd (feed s a)) [] = ([], snd (feed s a))" for s a
    by (simp add: feed_def take_frames_idle)
qed

section \<open>Valid text\<close>

text \<open>A Rust \<open>String\<close> holds well-formed characters only; lossy decoding yields such texts.\<close>

inductive well_formed :: "string \<Rightarrow> bool" where
  valid_Nil: "well_formed []"
| valid_char: "s \<noteq> [] \<Longrightarrow> char_len s = (True, n) \<Longrightarrow> well_formed (drop n s) \<Longrightarrow> well_formed s"

lemma valid_step: "s \<noteq> [] \<Longrightarrow> char_len s = (good, n) \<Longrightarrow> well_formed s \<longleftrightarrow> good \<and> well_formed (drop n s)"
  by (subst well_formed.simps) simp

lemma valid_lossy_id: "well_formed s \<Longrightarrow> from_utf8_lossy s = s"
  by (induction rule: well_formed.induct) (simp_all add: from_utf8_lossy.simps)

lemma char_len_ascii: "code c < 128 \<Longrightarrow> char_len (c # s) = (True, 1)"
  by (simp add: char_len_def utf8_len_def byte_at_def)

lemma valid_ascii: "code c < 128 \<Longrightarrow> well_formed (c # s) \<longleftrightarrow> well_formed s"
  by (simp add: valid_step[OF _ char_len_ascii])

lemma valid_append: "code c < 128 \<Longrightarrow> well_formed (s @ c # r) \<longleftrightarrow> well_formed s \<and> well_formed r"
proof (induction s rule: from_utf8_lossy.induct)
  case (1 s)
  show ?case
  proof (cases "s = []")
    case False
    obtain good n where cl: "char_len s = (good, n)" by fastforce
    have n: "n \<le> length s" using char_len_bound[OF False] cl by simp
    have cl': "char_len (s @ c # r) = (good, n)" using char_len_append[OF False 1(2)] cl by simp
    show ?thesis
      using 1(1)[OF False cl[symmetric] refl 1(2)] n valid_step[OF False cl] valid_step[OF _ cl'] by auto
  qed (use 1 in \<open>simp add: valid_ascii valid_Nil\<close>)
qed

lemma utf8_len_4: "snd (utf8_len a b c d) \<le> 4"
  by (simp add: utf8_len_def)

lemma utf8_len_local:
  "utf8_len a b c d = (True, Suc 0) \<Longrightarrow> utf8_len a b' c' d' = (True, Suc 0)"
  "utf8_len a b c d = (True, 2) \<Longrightarrow> utf8_len a b c' d' = (True, 2)"
  "utf8_len a b c d = (True, 3) \<Longrightarrow> utf8_len a b c d' = (True, 3)"
  by (simp_all add: utf8_len_def split: if_split_asm)

lemma char_len_take:
  assumes "char_len s = (True, n)" "s \<noteq> []"
  shows "char_len (take n s @ r) = (True, n)"
proof -
  have n: "n \<le> length s" "0 < n" "n \<le> 4"
    using char_len_bound[OF assms(2)] char_len_pos[of s] assms(1) utf8_len_4
    by (simp_all, metis char_len_def snd_conv)
  have same: "byte_at (take n s @ r) i = byte_at s i" if "i < n" for i
    using that n by (auto simp: byte_at_def nth_append)
  note len = assms(1)[unfolded char_len_def]
  consider "n = Suc 0" | "n = 2" | "n = 3" | "n = 4" using n by linarith
  then show ?thesis
  proof cases
    case 1
    with same[of 0] utf8_len_local(1)[OF len[unfolded 1]] show ?thesis by (simp add: char_len_def)
  next
    case 2
    with same[of 0] same[of 1] utf8_len_local(2)[OF len[unfolded 2]] show ?thesis
      by (simp add: char_len_def)
  next
    case 3
    with same[of 0] same[of 1] same[of 2] utf8_len_local(3)[OF len[unfolded 3]] show ?thesis
      by (simp add: char_len_def)
  next
    case 4
    with same[of 0] same[of 1] same[of 2] same[of 3] len show ?thesis by (simp add: char_len_def)
  qed
qed

lemma char_len_replacement: "char_len (replacement @ t) = (True, 3)"
proof -
  have "byte_at (replacement @ t) 0 = 239" "byte_at (replacement @ t) 1 = 191"
    "byte_at (replacement @ t) 2 = 189"
    by (simp_all add: byte_at_def replacement_def code_def)
  moreover have "utf8_len 239 191 189 d = (True, 3)" for d
    by (simp add: utf8_len_def second_of_3_def is_cont_def)
  ultimately show ?thesis by (simp only: char_len_def)
qed

lemma valid_lossy: "well_formed (from_utf8_lossy s)"
proof (induction s rule: from_utf8_lossy.induct)
  case (1 s)
  show ?case
  proof (cases "s = []")
    case False
    obtain good n where cl: "char_len s = (good, n)" by fastforce
    have n: "n \<le> length s" "0 < n"
      using char_len_bound[OF False] char_len_pos[of s] cl by simp_all
    let ?p = "if good then take n s else replacement"
    have p: "char_len (?p @ t) = (True, length ?p)" "?p \<noteq> []" for t
      using char_len_take[of s n] n cl False char_len_replacement
      by (auto simp: replacement_def)
    have "from_utf8_lossy s = ?p @ from_utf8_lossy (drop n s)"
      using False cl by (subst from_utf8_lossy.simps) simp
    then show ?thesis
      using 1[OF False cl[symmetric] refl] p valid_step[OF _ p(1)] by simp
  qed (simp add: valid_Nil)
qed

section \<open>Payloads on one line\<close>

lemma code_nl_cr: "code nl < 128" "code cr < 128"
  by (simp_all add: code_def)

lemma split_on_none: "c \<notin> set s \<Longrightarrow> split_on c s = [s]"
  by (induction s) auto

lemma split_on_cons: "c \<notin> set x \<Longrightarrow> split_on c (x @ c # r) = x # split_on c r"
  by (induction x) (auto split: list.splits)

lemma valid_split_on: "well_formed s \<Longrightarrow> p \<in> set (split_on nl s) \<Longrightarrow> well_formed p"
proof (induction s rule: length_induct)
  case (1 s)
  show ?case
  proof (cases "nl \<in> set s")
    case True
    then obtain a b where s: "s = a @ nl # b" "nl \<notin> set a" using split_list_first by fast
    with 1(1)[rule_format, of b] 1(2,3) show ?thesis
      by (auto simp: split_on_cons valid_append[OF code_nl_cr(1)])
  qed (use 1 in \<open>simp add: split_on_none\<close>)
qed

definition one_line :: "string \<Rightarrow> bool" where
  "one_line d \<longleftrightarrow> nl \<notin> set d \<and> (d = [] \<or> last d \<noteq> cr) \<and> well_formed d"

lemma valid_suffix_cr: "well_formed s \<Longrightarrow> well_formed (trim_end_matches cr s)"
proof (induction s rule: rev_induct)
  case (snoc c s)
  then show ?case
    using valid_append[OF code_nl_cr(2), of s "[]"]
    by (cases "c = cr") (auto simp: trim_end_matches_def trim_end_by_snoc)
qed (simp add: trim_end_matches_def trim_end_by_def)

lemma trim_cr_line:
  assumes "well_formed p" "nl \<notin> set p"
  shows "one_line (trim_end_matches cr p)"
proof -
  have "set (trim_end_matches cr p) \<subseteq> set p"
    by (auto simp: trim_end_matches_def trim_end_by_def dest: set_dropWhileD)
  with assms valid_suffix_cr[OF assms(1)] trim_end_by_last[of "\<lambda>x. x = cr" p] show ?thesis
    by (auto simp: one_line_def trim_end_matches_def)
qed

lemma one_line_drop: "code c < 128 \<Longrightarrow> one_line (c # s) \<Longrightarrow> one_line s"
  by (auto simp: one_line_def valid_ascii split: if_splits)

lemma one_line_space: "one_line s \<Longrightarrow> one_line (strip_space s)"
proof (cases "strip_prefix s '' ''")
  case (Some t)
  assume "one_line s"
  moreover from Some have "s = CHR '' '' # t" by (simp add: strip_prefix_Some)
  ultimately have "one_line t" using one_line_drop[of "CHR '' ''" t] by (simp add: code_def)
  with Some show ?thesis by (simp add: strip_space_def)
qed (simp add: strip_space_def)

lemma one_line_data: "one_line (''data:'' @ r) \<Longrightarrow> one_line r"
proof -
  have "\<forall>c\<in>set p. code c < 128 \<Longrightarrow> one_line (p @ r) \<Longrightarrow> one_line r" for p
    by (induction p) (auto dest: one_line_drop)
  from this[of "''data:''"] show "one_line (''data:'' @ r) \<Longrightarrow> one_line r"
    by (simp add: code_def)
qed

lemma text_lines_one_line:
  assumes "well_formed s" "l \<in> set (text_lines s)"
  shows "one_line (trim_end_matches cr l)"
proof -
  have tr: "trim_end_matches cr (strip_cr p) = trim_end_matches cr p" for p
    using strip_suffix_Some[of p "[cr]"]
    by (auto simp: strip_cr_def trim_end_matches_def trim_end_by_snoc split: option.splits)
  have "last (split_on nl s) \<in> set (split_on nl s)" by simp
  with assms(2) have "l \<in> set (split_on nl s) \<union> strip_cr ` set (split_on nl s)"
    by (auto simp: text_lines_def Let_def dest: in_set_butlastD split: if_splits)
  then obtain p where "p \<in> set (split_on nl s)" "l = p \<or> l = strip_cr p" by blast
  with assms(1) show ?thesis
    using trim_cr_line[OF valid_split_on] split_on_no_sep tr by metis
qed

lemma frame_lines_payload:
  assumes "\<forall>l\<in>set ls. one_line (trim_end_matches cr l)" "\<forall>d\<in>set (snd st). one_line d"
  shows "\<forall>d\<in>set (snd (foldl frame_line st ls)). one_line d"
  using assms
proof (induction ls arbitrary: st)
  case (Cons l ls)
  have "\<forall>d\<in>set (snd (frame_line st l)). one_line d"
  proof (cases "strip_prefix (trim_end_matches cr l) ''data:''")
    case (Some r)
    then have "one_line r"
      using Cons.prems(1) one_line_data by (simp add: strip_prefix_Some)
    with Some Cons.prems(2) show ?thesis
      by (simp add: frame_line_def split_beta one_line_space)
  qed (use Cons.prems(2) in \<open>simp add: frame_line_def split_beta split: option.splits\<close>)
  with Cons show ?case by simp
qed simp

lemma join_nl_one: "nl \<notin> set (join [nl] ds) \<Longrightarrow> ds \<noteq> [] \<Longrightarrow> \<exists>d. ds = [d]"
  by (cases ds rule: list.exhaust; cases "tl ds") auto

lemma parsed_one_line:
  assumes "parse_frame raw = Some f" "nl \<notin> set (sf_data f)"
  shows "one_line (sf_data f)"
proof -
  obtain ev ds where f: "foldl frame_line ([], []) (text_lines (from_utf8_lossy raw)) = (ev, ds)" by fastforce
  have "ds \<noteq> []" "sf_data f = join [nl] ds"
    using assms(1) f by (auto simp: parse_frame_def split: if_splits)
  moreover from this assms(2) join_nl_one obtain d where "ds = [d]" by metis
  moreover have "\<forall>d\<in>set ds. one_line d"
    using frame_lines_payload[of "text_lines (from_utf8_lossy raw)" "([], [])"]
      text_lines_one_line[OF valid_lossy] f by simp
  ultimately show ?thesis by simp
qed

section \<open>Relaying\<close>

lemma find_frame_end_line: "nl \<notin> set x \<Longrightarrow> find_frame_end (x @ nl # nl # z) = Some (Suc (length x), 1)"
  by (induction x) auto

lemma text_lines_line: "nl \<notin> set x \<Longrightarrow> text_lines (x @ [nl]) = [strip_cr x]"
  using split_on_cons[of nl x "[]"] by (simp add: text_lines_def)

lemma parse_payload_line:
  assumes "one_line d"
  shows "parse_frame (''data: '' @ d @ [nl]) = Some \<lparr>sf_event = [], sf_data = d\<rparr>"
proof -
  let ?x = "''data: '' @ d"
  have x: "nl \<notin> set ?x" "?x \<noteq> []" "last ?x \<noteq> cr" using assms by (auto simp: one_line_def)
  have "well_formed ?x"
    using assms by (simp add: one_line_def valid_ascii code_def)
  then have "well_formed (?x @ nl # [])"
    by (simp only: valid_append[OF code_nl_cr(1)] valid_Nil)
  then have lossy: "from_utf8_lossy (?x @ [nl]) = ?x @ [nl]" by (rule valid_lossy_id)
  have "strip_cr ?x = ?x"
    using x strip_suffix_Some[of ?x "[cr]"]
    by (cases "strip_suffix ?x [cr]") (simp add: strip_cr_def, metis last_snoc)
  moreover have "trim_end_matches cr ?x = ?x"
    using x by (simp add: trim_end_matches_def trim_end_by_id)
  moreover have "strip_prefix ?x ''data:'' = Some ('' '' @ d)" "strip_prefix ('' '' @ d) '' '' = Some d"
    by (simp_all add: strip_prefix_Some)
  ultimately have "foldl frame_line ([], []) (text_lines (?x @ [nl])) = ([], [d])"
    using text_lines_line[OF x(1)] by (simp add: frame_line_def strip_space_def)
  with lossy show ?thesis by (simp add: parse_frame_def)
qed

definition plain :: "sse_frame \<Rightarrow> sse_frame" where
  "plain f = f\<lparr>sf_event := []\<rparr>"

lemma take_frames_wire:
  assumes "one_line (sf_data f)"
  shows "take_frames (to_wire f @ z) = (plain f # fst (take_frames z), snd (take_frames z))"
proof -
  let ?x = "''data: '' @ sf_data f"
  have w: "to_wire f @ z = ?x @ nl # nl # z" by (simp add: to_wire_def)
  have e: "find_frame_end (to_wire f @ z) = Some (Suc (length ?x), 1)"
    unfolding w using assms by (intro find_frame_end_line) (auto simp: one_line_def)
  have "take (Suc (length ?x)) (to_wire f @ z) = ''data: '' @ sf_data f @ [nl]"
    "drop 1 (drop (Suc (length ?x)) (to_wire f @ z)) = z"
    unfolding w by simp_all
  then show ?thesis
    using e parse_payload_line[OF assms]
    by (subst take_frames.simps) (simp add: split_beta Let_def plain_def)
qed

lemma take_frames_wires:
  "\<forall>f\<in>set fs. one_line (sf_data f) \<Longrightarrow> take_frames (concat (map to_wire fs)) = (map plain fs, [])"
proof (induction fs)
  case Nil
  then show ?case by (subst take_frames.simps) simp
qed (simp add: take_frames_wire)

lemma taken_parsed: "f \<in> set (fst (take_frames s)) \<Longrightarrow> \<exists>raw. parse_frame raw = Some f"
proof (induction s rule: take_frames.induct)
  case (1 s)
  show ?case
  proof (cases "find_frame_end s")
    case None
    with 1(2) show ?thesis by (simp add: take_frames.simps[of s])
  next
    case (Some e)
    obtain n t where e: "e = (n, t)" by fastforce
    have "fst (take_frames s) =
        (case parse_frame (take n s) of None \<Rightarrow> [] | Some f \<Rightarrow> [f]) @ fst (take_frames (drop t (drop n s)))"
      using Some e by (subst take_frames.simps) (simp add: split_beta Let_def split: option.split)
    with 1(1)[OF Some e[symmetric]] 1(2) show ?thesis
      by (cases "parse_frame (take n s)") auto
  qed
qed

text \<open>
  Where the network cuts the stream does not matter: two ways of cutting the same bytes
  into chunks give the same frames, in the same order, and leave the same bytes buffered.
\<close>

theorem chunking_invariant:
  assumes "cs \<noteq> []" "ds \<noteq> []" "concat cs = concat ds"
  shows "feed_all feed buf cs = feed_all feed buf ds"
  using assms by (rule sse.feed_all_chunking)

theorem chunking_invariant_witness:
  "feed_all feed [] [''data: a'', [nl], [nl] @ ''data:''] = feed_all feed [] [''data: a'' @ [nl, nl] @ ''data:'']"
  by (rule chunking_invariant) simp_all

text \<open>
  C27. Relaying is faithful for payloads that fit on one line: the frames decoded from any
  upstream bytes, written out again and cut up in any way, are decoded by the client as
  the same payloads in the same order, with nothing left over.
\<close>

theorem relay_roundtrip:
  assumes "us \<noteq> []" "feed_all feed [] us = (fs, rest)"
    and "\<forall>f\<in>set fs. nl \<notin> set (sf_data f)"
    and "ds \<noteq> []" "concat ds = concat (map to_wire fs)"
  shows "feed_all feed [] ds = (map plain fs, [])"
proof -
  have "fs = fst (take_frames (concat us))"
    using sse.feed_all_concat[OF assms(1)] assms(2) by (simp add: feed_def)
  then have "\<forall>f\<in>set fs. one_line (sf_data f)"
    using taken_parsed parsed_one_line assms(3) by blast
  then show ?thesis
    using sse.feed_all_concat[OF assms(4)] take_frames_wires by (simp add: feed_def assms(5))
qed

theorem relay_roundtrip_witness:
  "feed_all feed [] [to_wire \<lparr>sf_event = ''x'', sf_data = ''hi''\<rparr>] = ([\<lparr>sf_event = [], sf_data = ''hi''\<rparr>], [])"
proof -
  have "feed_all feed [] [''event: x'' @ [nl] @ ''data: hi'' @ [nl, nl]] = ([\<lparr>sf_event = ''x'', sf_data = ''hi''\<rparr>], [])"
    by code_simp
  from relay_roundtrip[OF _ this, of "[to_wire \<lparr>sf_event = ''x'', sf_data = ''hi''\<rparr>]"]
  show ?thesis by (simp add: plain_def)
qed

lemma strip_cr_id: "last s \<noteq> cr \<Longrightarrow> strip_cr s = s"
  using strip_suffix_Some[of s "[cr]"]
  by (cases "strip_suffix s [cr]") (simp add: strip_cr_def, metis last_snoc)

lemma find_frame_end_two_lines:
  assumes "nl \<notin> set x" "nl \<notin> set y" "y \<noteq> []" "last y \<noteq> cr"
  shows "find_frame_end (x @ nl # y @ nl # nl # z) = Some (Suc (length x + Suc (length y)), 1)"
proof -
  have "\<not> prefix [nl] (y @ nl # nl # z)" using assms(2,3) by (cases y) auto
  moreover have "\<not> prefix [cr, nl] (y @ nl # nl # z)"
    using assms(2-4) by (cases y; cases "tl y") auto
  ultimately have now: "find_frame_end (nl # y @ nl # nl # z) = Some (Suc (Suc (length y)), 1)"
    using find_frame_end_line[OF assms(2)] by simp
  have shift: "find_frame_end (x @ r) = map_option (\<lambda>(n, t). (n + length x, t)) (find_frame_end r)"
    if "nl \<notin> set x" for x r
    using that by (induction x) (cases "find_frame_end r"; auto)+
  show ?thesis using now shift[OF assms(1)] by simp
qed

text \<open>
  A payload of two lines does not survive the relay: \<open>to_wire\<close> writes the first line
  behind \<open>data:\<close> and the second as a bare line, which a client ignores.
\<close>

theorem multiline_payload_lost:
  assumes "one_line x" "one_line y" "y \<noteq> []" "\<not> prefix ''data:'' y" "\<not> prefix ''event:'' y"
  shows "feed [] (to_wire \<lparr>sf_event = [], sf_data = x @ [nl] @ y\<rparr>) = ([\<lparr>sf_event = [], sf_data = x\<rparr>], [])"
proof -
  let ?x = "''data: '' @ x"
  let ?w = "?x @ nl # y @ [nl]"
  have x: "nl \<notin> set ?x" "last ?x \<noteq> cr" and y: "nl \<notin> set y" "last y \<noteq> cr"
    using assms by (auto simp: one_line_def)
  have wire: "[] @ to_wire \<lparr>sf_event = [], sf_data = x @ [nl] @ y\<rparr> = ?x @ nl # y @ nl # nl # []"
    by (simp add: to_wire_def)
  have e: "find_frame_end (?x @ nl # y @ nl # nl # []) = Some (Suc (length ?x + Suc (length y)), 1)"
    using find_frame_end_two_lines[OF x(1) y(1) assms(3) y(2)] by simp
  have "well_formed ?w"
    using assms(1,2) valid_append[OF code_nl_cr(1), of y "[]"]
    by (simp add: one_line_def valid_append code_nl_cr valid_ascii code_def valid_Nil)
  then have "from_utf8_lossy ?w = ?w" by (rule valid_lossy_id)
  moreover have "text_lines ?w = [?x, y]"
    using split_on_cons[OF x(1), of "y @ [nl]"] split_on_cons[OF y(1), of "[]"]
      strip_cr_id[OF x(2)] strip_cr_id[OF y(2)] by (simp add: text_lines_def)
  moreover have "trim_end_matches cr ?x = ?x" "trim_end_matches cr y = y"
    using x(2) y(2) by (auto simp: trim_end_matches_def intro!: trim_end_by_id)
  moreover have "strip_prefix ?x ''data:'' = Some ('' '' @ x)" "strip_prefix ('' '' @ x) '' '' = Some x"
    by (simp_all add: strip_prefix_Some)
  moreover have "strip_prefix y ''data:'' = None" "strip_prefix y ''event:'' = None"
    using assms(4,5) by (simp_all add: strip_prefix_def)
  ultimately have p: "parse_frame ?w = Some \<lparr>sf_event = [], sf_data = x\<rparr>"
    by (simp add: parse_frame_def frame_line_def strip_space_def)
  have "take (Suc (length ?x + Suc (length y))) (?x @ nl # y @ nl # nl # []) = ?w"
    "drop 1 (drop (Suc (length ?x + Suc (length y))) (?x @ nl # y @ nl # nl # [])) = []"
    by simp_all
  moreover have "take_frames [] = ([], [])" by (subst take_frames.simps) simp
  ultimately show ?thesis
    unfolding feed_def wire using e p by (subst take_frames.simps) (simp only: option.case prod.case Let_def)
qed

theorem multiline_payload_lost_witness:
  "feed [] (to_wire \<lparr>sf_event = [], sf_data = ''a'' @ [nl] @ ''b''\<rparr>) = ([\<lparr>sf_event = [], sf_data = ''a''\<rparr>], [])"
  by (rule multiline_payload_lost) (simp_all add: one_line_def valid_ascii valid_Nil code_def)

section \<open>Classification\<close>

datatype frame =
    Error_Frame "int option" string string
  | Done
  | Other string "json option"

definition classify :: "(string \<Rightarrow> json option) \<Rightarrow> string \<Rightarrow> frame" where
  "classify from_str data =
     (let trimmed = trim data in
      if trimmed = ''[DONE]'' then Done
      else (let j = from_str trimmed in
        case and_then j (get ''error'') of
          Some err \<Rightarrow>
            Error_Frame (and_then (get ''code'' err) as_i64)
              (case and_then (get ''message'' err) as_str of
                 Some m \<Rightarrow> m | None \<Rightarrow> ''upstream reported an in-band error'')
              trimmed
        | None \<Rightarrow> Other trimmed j))"

text \<open>The local closure \<open>num\<close>: a negative count reads as 0.\<close>

definition count_of :: "json \<Rightarrow> nat option" where
  "count_of v =
     (case as_u64 v of Some n \<Rightarrow> Some n | None \<Rightarrow> map_option (\<lambda>n. nat (max n 0)) (as_i64 v))"

type_synonym usage3 = "nat option \<times> nat option \<times> nat option"

definition frame_usage :: "provider_kind \<Rightarrow> json \<Rightarrow> usage3" where
  "frame_usage kind j =
     (let num_at = (\<lambda>ps. and_then (pointer (map Key ps) j) count_of);
          openai = (let usage = get ''usage'' j in
            (and_then (and_then usage (get ''prompt_tokens'')) count_of,
             and_then (and_then usage (get ''completion_tokens'')) count_of,
             and_then (and_then (and_then usage (get ''prompt_tokens_details'')) (get ''cached_tokens'')) count_of))
      in case kind of
        OpenAI \<Rightarrow> openai
      | Custom \<Rightarrow> openai
      | OpenAIResponses \<Rightarrow> (None, None, None)
      | Anthropic \<Rightarrow>
          (if and_then (get ''type'' j) as_str = Some ''message_start'' then
             (num_at [''message'', ''usage'', ''input_tokens''], None,
              num_at [''message'', ''usage'', ''cache_read_input_tokens''])
           else if and_then (get ''type'' j) as_str = Some ''message_delta'' then
             (None, num_at [''usage'', ''output_tokens''], None)
           else (None, None, None))
      | Google \<Rightarrow>
          (num_at [''usageMetadata'', ''promptTokenCount''],
           num_at [''usageMetadata'', ''candidatesTokenCount''],
           num_at [''usageMetadata'', ''cachedContentTokenCount'']))"

end
