(* ===== verification/Upstream.thy ===== *)
theory Upstream
  imports Responses_Upstream Prompt_Cache Sse
begin

text \<open>
  The dispatcher of the outbound adapters (\<open>src/adapter/outbound/mod.rs\<close>): a request is built
  in the provider's dialect and marked up by the route's cache policy, a reply is reshaped
  into an OpenAI completion, a stream payload is decoded into a canonical event. Parsing
  and printing JSON is the library \<open>serde_json\<close>: a record of functions with its round trip
  as the one law that is ever assumed.
\<close>

record codec =
  js_parse :: "bytes \<Rightarrow> json option"
  js_print :: "json \<Rightarrow> bytes"

definition codec_ok :: "codec \<Rightarrow> bool" where
  "codec_ok js \<longleftrightarrow> (\<forall>v. json_ok v \<longrightarrow> js_parse js (js_print js v) = Some v)"

section \<open>Building requests\<close>

definition build_native_request :: "target \<Rightarrow> chat_request \<Rightarrow> bool \<Rightarrow> string + string \<times> headers \<times> json" where
  "build_native_request t req stream =
     (case pv_kind (tg_provider t) of
        Anthropic \<Rightarrow> Inr (anthropic_url t, anthropic_headers t, anthropic_request req (re_model_id (tg_entry t)))
      | Google \<Rightarrow> Inr (google_url t stream, google_headers t, google_request req)
      | OpenAIResponses \<Rightarrow>
          (case responses_request req (re_model_id (tg_entry t)) of
             Inl msg \<Rightarrow> Inl msg
           | Inr body \<Rightarrow> Inr (responses_url t, responses_headers t, body))
      | OpenAI \<Rightarrow> openai_request t req stream
      | Custom \<Rightarrow> openai_request t req stream)"

definition build_upstream_request :: "target \<Rightarrow> chat_request \<Rightarrow> bool \<Rightarrow> string + string \<times> headers \<times> json" where
  "build_upstream_request t req stream =
     (case build_native_request t req stream of
        Inl msg \<Rightarrow> Inl msg
      | Inr (url, headers, body) \<Rightarrow>
          Inr (url, headers, fst (apply_cache (pv_kind (tg_provider t)) (tg_prompt_cache t) body)))"

section \<open>Reading replies\<close>

definition translate_response :: "codec \<Rightarrow> int \<Rightarrow> target \<Rightarrow> bytes \<Rightarrow> string + bytes" where
  "translate_response js now_secs t b =
     (let reshape = (\<lambda>context reply.
            (case js_parse js b of
               None \<Rightarrow> Inl context
             | Some resp \<Rightarrow> (case reply resp of Inl msg \<Rightarrow> Inl msg | Inr out \<Rightarrow> Inr (js_print js out))))
      in case pv_kind (tg_provider t) of
           OpenAI \<Rightarrow> Inr b
         | Custom \<Rightarrow> Inr b
         | Anthropic \<Rightarrow> reshape ''parsing anthropic response'' anthropic_reply
         | Google \<Rightarrow> reshape ''parsing google response'' (\<lambda>r. google_reply r (re_model_id (tg_entry t)))
         | OpenAIResponses \<Rightarrow>
             reshape ''parsing responses body'' (\<lambda>r. responses_reply now_secs r (re_model_id (tg_entry t))))"

definition parse_stream_chunk :: "(string \<Rightarrow> json option) \<Rightarrow> provider_kind \<Rightarrow> string \<Rightarrow> stream_event option" where
  "parse_stream_chunk from_str kind payload =
     (case kind of
        Anthropic \<Rightarrow> anthropic_stream_chunk from_str payload
      | Google \<Rightarrow> google_stream_chunk from_str payload
      | OpenAI \<Rightarrow> openai_stream_chunk from_str payload
      | OpenAIResponses \<Rightarrow> openai_stream_chunk from_str payload
      | Custom \<Rightarrow> openai_stream_chunk from_str payload)"

text \<open>
  The upstream of a buffered chat request: what \<open>forward_non_streaming\<close> builds, sends and
  reads, over the network \<open>send\<close>.
\<close>

definition chat_upstream ::
  "codec \<Rightarrow> int \<Rightarrow> (string \<Rightarrow> headers \<Rightarrow> json \<Rightarrow> http_reply option) \<Rightarrow> (int \<Rightarrow> string) \<Rightarrow> chat_request \<Rightarrow> upstream" where
  "chat_upstream js now_secs send status_text req =
     \<lparr>up_build = (\<lambda>t. build_upstream_request t req False),
      up_json_len = (\<lambda>body. length (js_print js body)), up_send = send,
      up_translate = translate_response js now_secs, up_status_text = status_text,
      up_lossy = from_utf8_lossy\<rparr>"

end
