(* ===== verification/Upstream_Props.thy ===== *)
theory Upstream_Props
  imports Upstream "HOL-Library.Countable"
begin

text \<open>
  What crosses the outbound adapters: the caller's request on the OpenAI dialect, the text of
  the messages on every dialect, and the text, the counts and the finish reason of a reply
  on the way back; and what does not: tool calls outside the OpenAI dialect.
\<close>

section \<open>The OpenAI dialect passes requests through\<close>

lemma map_of_fold_remove: "map_of (fold obj_remove ks m) k = (if k \<in> set ks then None else map_of m k)"
  by (induction ks arbitrary: m) auto

lemma get_strip: "get k (strip_internal_keys (JObj m)) = (if k \<in> set INTERNAL_BODY_KEYS then None else map_of m k)"
  by (simp add: map_of_fold_remove)

lemma openai_native:
  assumes "json_ok v" "chat_of_json v = Some req" "openai_request t req stream = Inr (url, hs, body)"
  shows "get ''model'' body = Some (JStr (re_model_id (tg_entry t)))"
    and "k \<notin> {''model'', ''stream'', ''stream_options'', ''agos_responses'', ''economy_escalate''} \<Longrightarrow>
      get k body = get k v"
    and "k \<in> {''agos_responses'', ''economy_escalate''} \<Longrightarrow> get k body = None"
proof -
  obtain m' where m': "chat_to_json req = Some (JObj m')"
    "\<forall>k. map_of m' k = (if k = ''stream'' then Some (JBool (cq_stream req)) else get k v)"
    using chat_back[OF assms(1,2)] by blast
  let ?s = "fold obj_remove INTERNAL_BODY_KEYS m'"
  define es where "es = (if stream \<and> get ''stream_options'' (JObj ?s) = None
      then [(''stream_options'', object [(''include_usage'', JBool True)])] else [])"
  have es: "body = JObj (insert_all ((''model'', JStr (re_model_id (tg_entry t))) # es) ?s)"
    "es = [] \<or> es = [(''stream_options'', object [(''include_usage'', JBool True)])]"
    using assms(3) m'(1) by (simp_all add: openai_request_def with_members_def Let_def es_def)
  show "get ''model'' body = Some (JStr (re_model_id (tg_entry t)))"
    using es(2) by (auto simp: es(1))
  show "get k body = get k v"
    if "k \<notin> {''model'', ''stream'', ''stream_options'', ''agos_responses'', ''economy_escalate''}"
    using that es(2) m'(2) by (auto simp: es(1) map_of_fold_remove INTERNAL_BODY_KEYS_def)
  show "get k body = None" if "k \<in> {''agos_responses'', ''economy_escalate''}"
    using that es(2) by (auto simp: es(1) map_of_fold_remove INTERNAL_BODY_KEYS_def)
qed

lemma apply_cache_openai:
  assumes "kind \<in> {OpenAI, Custom, OpenAIResponses}" "k \<noteq> ''prompt_cache_key''"
  shows "get k (fst (apply_cache kind policy body)) = get k body"
  using assms openai_other_keys by (cases policy) (auto simp: apply_cache_def)


section \<open>Refusals of the Responses dialect\<close>

lemma responses_request_Inl:
  "responses_request req mid = Inl msg \<longleftrightarrow> (\<exists>why. unsupported req = Some why \<and> msg = ADAPTER_CAPABILITY_SKIP @ why)"
  by (cases "unsupported req"; cases "foldl responses_turn ([], []) (cq_messages req)")
     (auto simp: responses_request_def Let_def)

lemma build_responses:
  assumes "pv_kind (tg_provider t) = OpenAIResponses"
  shows "build_upstream_request t req stream = Inl msg \<longleftrightarrow>
     (\<exists>why. unsupported req = Some why \<and> msg = ADAPTER_CAPABILITY_SKIP @ why)"
  unfolding responses_request_Inl[of req "re_model_id (tg_entry t)", symmetric]
  by (cases "responses_request req (re_model_id (tg_entry t))")
     (simp_all add: build_upstream_request_def build_native_request_def assms)

lemma unsupported_iff:
  "unsupported req \<noteq> None \<longleftrightarrow>
     present ''tools'' (cq_extra req) \<or> present ''tool_choice'' (cq_extra req)
     \<or> present ''response_format'' (cq_extra req) \<or> (\<exists>m\<in>set (cq_messages req). content_has_image (ms_content m))"
  by (simp add: unsupported_def list_ex_iff)

lemma skip_ignored: "classify_failure parse status (ADAPTER_CAPABILITY_SKIP @ why) = Ignore"
proof -
  have "contains (ADAPTER_CAPABILITY_SKIP @ why) ADAPTER_CAPABILITY_SKIP"
    by (rule contains_append(1)) simp
  then show ?thesis by (simp add: classify_failure_def)
qed

text \<open>
  The Responses dialect refuses exactly the requests it would have to cut: those with
  tools, a tool choice, a response format or an image. The refusal costs the entry nothing:
  it is classified as ignorable, and settling it leaves the store as it was.
\<close>

theorem capability_refusals_harmless:
  assumes "pv_kind (tg_provider t) = OpenAIResponses"
  shows "((\<exists>msg. build_upstream_request t req stream = Inl msg) \<longleftrightarrow>
      present ''tools'' (cq_extra req) \<or> present ''tool_choice'' (cq_extra req)
      \<or> present ''response_format'' (cq_extra req) \<or> (\<exists>m\<in>set (cq_messages req). content_has_image (ms_content m)))
    \<and> (build_upstream_request t req stream = Inl msg \<longrightarrow>
      classify_failure parse status msg = Ignore
      \<and> settle_failure parse secs now (failure_of t (Broken msg)) d = d)"
proof -
  have "(\<exists>msg. build_upstream_request t req stream = Inl msg) \<longleftrightarrow> unsupported req \<noteq> None"
    unfolding build_responses[OF assms] by auto
  moreover have "settle_failure parse secs now (failure_of t (Broken (ADAPTER_CAPABILITY_SKIP @ why))) d = d" for why
    by (simp add: settle_failure_def apply_failure_action_def skip_ignored)
  ultimately show ?thesis
    unfolding unsupported_iff build_responses[OF assms] using skip_ignored by metis
qed

section \<open>What the other dialects keep\<close>

lemma anthropic_turn_simps:
  "ms_role m = ''system'' \<Longrightarrow> anthropic_turn (s, ms) m =
     ((if s = [] then [] else s @ [CHR 0x0A]) @ content_text (ms_content m), ms)"
  "ms_role m \<noteq> ''system'' \<Longrightarrow> anthropic_turn (s, ms) m =
     (s, ms @ [object [(''role'', JStr (ms_role m)), (''content'', anthropic_content (ms_content m))]])"
  by (simp_all add: anthropic_turn_def)

lemma anthropic_turns:
  "snd (foldl anthropic_turn (s, ms) msgs) = ms @ map (\<lambda>m. object [(''role'', JStr (ms_role m)),
      (''content'', anthropic_content (ms_content m))]) (filter (\<lambda>m. ms_role m \<noteq> ''system'') msgs)"
  by (induction msgs arbitrary: s ms) (auto simp: anthropic_turn_simps)

text \<open>
  The system prompt the loop builds: the texts of the system messages from the first
  nonempty one on, one per line.
\<close>

lemma join_lines: "join [c] (s # ts) = s @ concat (map (\<lambda>t. c # t) ts)"
proof (induction ts arbitrary: s)
  case (Cons t ts)
  then show ?case by simp
qed simp

lemma anthropic_system:
  "fst (foldl anthropic_turn (s, ms) msgs) =
    (let ts = map (\<lambda>m. content_text (ms_content m)) (filter (\<lambda>m. ms_role m = ''system'') msgs)
     in if s = [] then join [CHR 0x0A] (dropWhile (\<lambda>t. t = []) ts) else join [CHR 0x0A] (s # ts))"
proof (induction msgs arbitrary: s ms)
  case (Cons m msgs)
  show ?case
    by (cases "ms_role m = ''system''"; cases "s = []"; cases "content_text (ms_content m) = []")
       (simp_all add: anthropic_turn_simps Cons.IH Let_def join_lines)
qed simp

lemma get_object:
  "get k (object es) = map_of (insert_all es []) k"
  by (simp add: object_def)

lemma carried_keys: "fst ` set (carried names extra) \<subseteq> snd ` set names"
proof (induction names)
  case (Cons n names)
  then show ?case by (cases n) (auto simp: carried_def split: option.splits)
qed (simp add: carried_def)

text \<open>The members a later member does not overwrite.\<close>

lemma get_object_append:
  "k \<notin> fst ` set es' \<Longrightarrow> get k (object (es @ es')) = get k (object es)"
proof -
  have "insert_all (es @ es') m = insert_all es' (insert_all es m)" for m
    by (induction es arbitrary: m) auto
  then show "k \<notin> fst ` set es' \<Longrightarrow> get k (object (es @ es')) = get k (object es)"
    by (simp add: object_def map_of_insert_all_other)
qed

text \<open>
  The Anthropic request carries the conversation: every message that is not a system
  message, in order, with its role and its content - as plain text when it has no image -
  and as system prompt the texts of the system messages, one per line, from the first
  nonempty one on.
\<close>

theorem anthropic_keeps_conversation:
  "get ''messages'' (anthropic_request req model_id) =
     Some (JArr (map (\<lambda>m. object [(''role'', JStr (ms_role m)), (''content'', anthropic_content (ms_content m))])
       (filter (\<lambda>m. ms_role m \<noteq> ''system'') (cq_messages req))))
   \<and> or_default (JStr []) (get ''system'' (anthropic_request req model_id)) =
     JStr (join [CHR 0x0A] (dropWhile (\<lambda>t. t = [])
       (map (\<lambda>m. content_text (ms_content m)) (filter (\<lambda>m. ms_role m = ''system'') (cq_messages req)))))"
proof -
  obtain s ms where st: "foldl anthropic_turn ([], []) (cq_messages req) = (s, ms)" by fastforce
  let ?names = "[(''max_tokens'', ''max_tokens''), (''temperature'', ''temperature''),
                      (''top_p'', ''top_p''), (''stop'', ''stop_sequences'')]"
  let ?head = "[(''model'', JStr model_id), (''max_tokens'', JInt 4096), (''messages'', JArr ms)]
    @ (if s = [] then [] else [(''system'', JStr s)])"
  let ?tail = "carried ?names (cq_extra req) @ (if cq_stream req then [(''stream'', JBool True)] else [])"
  have req: "anthropic_request req model_id = object (?head @ ?tail)"
    by (simp add: anthropic_request_def st)
  have "fst ` set ?tail \<subseteq> {''max_tokens'', ''temperature'', ''top_p'', ''stop_sequences'', ''stream''}"
    using carried_keys[of ?names "cq_extra req"] by auto
  then have "''messages'' \<notin> fst ` set ?tail" "''system'' \<notin> fst ` set ?tail" by auto
  note head = this[THEN get_object_append, of ?head, folded req]
  have "get ''messages'' (object ?head) = Some (JArr ms)" "or_default (JStr []) (get ''system'' (object ?head)) = JStr s"
    by (simp_all add: get_object or_default_def)
  then have "get ''messages'' (anthropic_request req model_id) = Some (JArr ms)"
    "or_default (JStr []) (get ''system'' (anthropic_request req model_id)) = JStr s"
    unfolding head .
  moreover have "ms = map (\<lambda>m. object [(''role'', JStr (ms_role m)), (''content'', anthropic_content (ms_content m))])
       (filter (\<lambda>m. ms_role m \<noteq> ''system'') (cq_messages req))"
    using anthropic_turns[of "[]" "[]" "cq_messages req"] st by simp
  moreover have "s = join [CHR 0x0A] (dropWhile (\<lambda>t. t = [])
       (map (\<lambda>m. content_text (ms_content m)) (filter (\<lambda>m. ms_role m = ''system'') (cq_messages req))))"
    using anthropic_system[of "[]" "[]" "cq_messages req"] st by simp
  ultimately show ?thesis by simp
qed

section \<open>What a translated reply says\<close>

lemma get_object_distinct: "distinct (map fst es) \<Longrightarrow> get k (object es) = map_of es k"
  by (simp add: get_object map_of_object)

lemma set_obj_insert: "set (obj_insert k v m) \<subseteq> insert (k, v) (set m)"
  by (induction m) (auto split: if_splits)

lemma set_insert_all: "set (insert_all es m) \<subseteq> set es \<union> set m"
proof (induction es arbitrary: m)
  case (Cons e es)
  obtain k v where e: "e = (k, v)" by fastforce
  show ?case using Cons.IH[of "obj_insert k v m"] set_obj_insert[of k v m] by (auto simp: e)
qed simp

lemma json_ok_object:
  assumes "\<And>k v. (k, v) \<in> set es \<Longrightarrow> json_ok v"
  shows "json_ok (object es)"
  using assms set_insert_all[of es "[]"] obj_ok_insert_all[OF obj_ok_Nil]
  by (auto simp: object_def list_all_iff)

lemma json_ok_get: "json_ok v \<Longrightarrow> get k v = Some w \<Longrightarrow> json_ok w"
  by (cases v) (auto simp: list_all_iff dest!: map_of_SomeD)

lemma completion_json_ok:
  assumes "\<forall>(k, v)\<in>set head. json_ok v" "json_ok counts"
  shows "json_ok (completion_json head t fin counts)"
  unfolding completion_json_def
  by (rule json_ok_object) (use assms in \<open>auto intro!: json_ok_object\<close>)

lemma usage_json_ok: "json_ok (usage_json p c)"
  unfolding usage_json_def by (rule json_ok_object) auto

text \<open>Read as canonical, a rendered completion has what it was rendered from, and no calls.\<close>

lemma canonical_completion:
  "canonical_of_json print (completion_json [(''id'', i), (''model'', m)] t f (usage_json p c)) =
     \<lparr>cr_id = or_default ''chatcmpl-agos'' (as_str i), cr_model = or_default [] (as_str m),
      cr_text = t, cr_finish_reason = f, cr_prompt_tokens = p, cr_completion_tokens = c,
      cr_tool_calls = []\<rparr>"
  by (simp add: canonical_of_json_def completion_json_def usage_json_def get_object_distinct
      str_at_def u64_at_def parse_tool_calls_def and_then_def or_default_def)

lemma translated_canonical:
  assumes "codec_ok js" "json_ok i" "json_ok m"
  shows "parse_canonical (js_parse js) pr (js_print js (completion_json [(''id'', i), (''model'', m)] t f (usage_json p c)))
     = Some \<lparr>cr_id = or_default ''chatcmpl-agos'' (as_str i), cr_model = or_default [] (as_str m),
      cr_text = t, cr_finish_reason = f, cr_prompt_tokens = p, cr_completion_tokens = c,
      cr_tool_calls = []\<rparr>"
proof -
  have "json_ok (completion_json [(''id'', i), (''model'', m)] t f (usage_json p c))"
    using assms(2,3) by (intro completion_json_ok) (auto simp: usage_json_ok)
  then show ?thesis
    using assms(1) by (simp add: parse_canonical_def codec_ok_def canonical_completion)
qed

text \<open>
  A reply in the Anthropic or the Google dialect reaches the caller as an OpenAI
  completion that reads back to what the provider said: the texts of the blocks (of the first
  candidate's parts) in a row, the mapped finish reason, and the two token counts. It never
  has a tool call, even when the provider's reply asks for one.
\<close>

theorem native_replies_canonical:
  assumes "codec_ok js" "js_parse js b = Some resp" "json_ok resp"
  shows "(pv_kind (tg_provider t) = Anthropic \<and> get ''content'' resp = Some (JArr blocks) \<longrightarrow>
      (\<exists>out c. translate_response js now t b = Inr out \<and> parse_canonical (js_parse js) pr out = Some c
        \<and> cr_text c = concat (map block_text_of blocks) \<and> cr_tool_calls c = []
        \<and> cr_finish_reason c = anthropic_finish (or_default ''stop'' (and_then (get ''stop_reason'' resp) as_str))
        \<and> cr_prompt_tokens c = or_default 0 (u64_at [Key ''usage'', Key ''input_tokens''] resp)
        \<and> cr_completion_tokens c = or_default 0 (u64_at [Key ''usage'', Key ''output_tokens''] resp)))
    \<and> (pv_kind (tg_provider t) = Google \<and> get ''candidates'' resp = Some (JArr (cand # cands))
        \<and> pointer [Key ''content'', Key ''parts''] cand = Some (JArr parts) \<longrightarrow>
      (\<exists>out c. translate_response js now t b = Inr out \<and> parse_canonical (js_parse js) pr out = Some c
        \<and> cr_text c = parts_text parts \<and> cr_tool_calls c = []
        \<and> cr_finish_reason c = google_finish (and_then (get ''finishReason'' cand) as_str)
        \<and> cr_prompt_tokens c = or_default 0 (u64_at [Key ''usageMetadata'', Key ''promptTokenCount''] resp)
        \<and> cr_completion_tokens c = or_default 0 (u64_at [Key ''usageMetadata'', Key ''candidatesTokenCount''] resp)))"
proof -
  have member: "json_ok (or_default d (get k resp))" if "json_ok d" for d k
    using that json_ok_get[OF assms(3)] by (auto simp: or_default_def split: option.split)
  note canonical = translated_canonical[OF assms(1) member member]
    translated_canonical[OF assms(1) member, of "JStr x" "JStr y" for x y]
  show ?thesis
    by (simp add: translate_response_def assms(2) anthropic_reply_def google_reply_def and_then_def canonical)
qed

section \<open>What the other dialects drop\<close>

text \<open>A request without its tools, and without the fields of messages beyond role and content.\<close>

definition toolless :: "chat_request \<Rightarrow> chat_request" where
  "toolless req = req\<lparr>cq_messages := map (\<lambda>m. m\<lparr>ms_extra := JNull\<rparr>) (cq_messages req),
     cq_extra := (case cq_extra req of
        JObj m \<Rightarrow> JObj (without [''tools'', ''tool_choice'', ''response_format''] m) | v \<Rightarrow> v)\<rparr>"

lemma get_toolless:
  "k \<notin> {''tools'', ''tool_choice'', ''response_format''} \<Longrightarrow> get k (cq_extra (toolless req)) = get k (cq_extra req)"
  by (cases "cq_extra req") (auto simp: toolless_def map_of_without)

lemma toolless_fields:
  "cq_stream (toolless req) = cq_stream req"
  "cq_messages (toolless req) = map (\<lambda>m. m\<lparr>ms_extra := JNull\<rparr>) (cq_messages req)"
  by (simp_all add: toolless_def)

lemma carried_cong: "\<forall>n\<in>set names. get (fst n) e = get (fst n) e' \<Longrightarrow> carried names e = carried names e'"
proof (induction names)
  case (Cons n names)
  then show ?case by (cases n; cases "get (fst n) e'") (simp_all add: carried_def)
qed (simp add: carried_def)

lemma carried_toolless:
  "\<forall>n\<in>set names. fst n \<notin> {''tools'', ''tool_choice'', ''response_format''} \<Longrightarrow>
     carried names (cq_extra (toolless req)) = carried names (cq_extra req)"
  by (rule carried_cong) (auto simp: get_toolless)

lemma anthropic_turn_extra: "anthropic_turn st (m\<lparr>ms_extra := x\<rparr>) = anthropic_turn st m"
  by (simp add: anthropic_turn_def split: prod.split)

lemma google_config_toolless: "google_config (cq_extra (toolless req)) = google_config (cq_extra req)"
proof -
  have "carried names (cq_extra (toolless req)) = carried names (cq_extra req)"
    if "names = [(''temperature'', ''temperature''), (''top_p'', ''topP''), (''top_k'', ''topK''), (''stop'', ''stopSequences'')]" for names
    unfolding that by (rule carried_toolless) simp
  moreover have "get ''max_tokens'' (cq_extra (toolless req)) = get ''max_tokens'' (cq_extra req)"
    by (simp add: get_toolless)
  moreover have "(\<exists>m. cq_extra (toolless req) = JObj m) \<longleftrightarrow> (\<exists>m. cq_extra req = JObj m)"
    by (cases "cq_extra req") (simp_all add: toolless_def)
  ultimately show ?thesis
    unfolding google_config_def by (cases "cq_extra req"; cases "cq_extra (toolless req)") simp_all
qed

text \<open>
  On the Anthropic and the Google dialects a request is built without its tools: the
  tool definitions, the tool choice, the response format, and the tool calls and tool
  results' ids of the messages change nothing in what is sent.
\<close>

theorem tools_dropped:
  assumes "pv_kind (tg_provider t) \<in> {Anthropic, Google}"
  shows "build_native_request t (toolless req) stream = build_native_request t req stream"
proof -
  have "foldl anthropic_turn st (map (\<lambda>m. m\<lparr>ms_extra := JNull\<rparr>) msgs) = foldl anthropic_turn st msgs" for st msgs
    by (induction msgs arbitrary: st) (simp_all add: anthropic_turn_extra)
  then have "anthropic_request (toolless req) = anthropic_request req"
    by (simp add: fun_eq_iff anthropic_request_def toolless_fields carried_toolless)
  moreover have "google_content (m\<lparr>ms_extra := x\<rparr>) = google_content m" for m x
    by (simp add: google_content_def)
  then have "google_request (toolless req) = google_request req"
    by (simp add: google_request_def toolless_fields google_config_toolless filter_map comp_def)
  ultimately show ?thesis using assms by (auto simp: build_native_request_def)
qed

section \<open>Concrete requests and replies\<close>

instance json :: countable by countable_datatype

text \<open>A codec: each value has its number, written as that many letters.\<close>

definition demo_codec :: codec where
  "demo_codec = \<lparr>js_parse = (\<lambda>b. Some (from_nat (length b))), js_print = (\<lambda>v. replicate (to_nat v) CHR ''x'')\<rparr>"

lemma demo_codec_ok: "codec_ok demo_codec"
  by (simp add: codec_ok_def demo_codec_def)

lemma demo_codec_reads: "js_parse demo_codec (js_print demo_codec v) = Some v"
  by (simp add: demo_codec_def)

definition demo_provider_target :: "provider_kind \<Rightarrow> target" where
  "demo_provider_target kind =
     (let t = demo_target (entry_of 1 1 ''m'' 0 1) in t\<lparr>tg_provider := (tg_provider t)\<lparr>pv_kind := kind\<rparr>\<rparr>)"

lemma demo_provider_kind [simp]: "pv_kind (tg_provider (demo_provider_target kind)) = kind"
  by (simp add: demo_provider_target_def Let_def)

definition tool_chat :: chat_request where
  "tool_chat = \<lparr>cq_model = ''p/r'', cq_messages = [text_message ''user'' ''hi''], cq_stream = False,
     cq_extra = JObj [(''tools'', JArr [JObj [(''type'', JStr ''function'')]])]\<rparr>"


theorem capability_refusals_harmless_witness:
  "\<exists>msg. build_upstream_request (demo_provider_target OpenAIResponses) tool_chat False = Inl msg
     \<and> settle_failure (\<lambda>_. None) 60 0 (failure_of (demo_provider_target OpenAIResponses) (Broken msg)) demo_store = demo_store"
proof -
  have "present ''tools'' (cq_extra tool_chat)" by (simp add: tool_chat_def present_def is_some_and_def)
  then show ?thesis
    using capability_refusals_harmless[OF demo_provider_kind] by (metis (no_types, lifting))
qed

theorem native_replies_canonical_witness:
  "\<exists>out c. translate_response demo_codec 0 (demo_provider_target Anthropic)
       (js_print demo_codec (JObj [(''content'', JArr [JObj [(''text'', JStr ''yes''), (''type'', JStr ''text'')]]),
          (''stop_reason'', JStr ''max_tokens'')])) = Inr out
     \<and> parse_canonical (js_parse demo_codec) (\<lambda>_. []) out = Some c
     \<and> cr_text c = ''yes'' \<and> cr_finish_reason c = ''length''"
proof -
  let ?b = "JObj [(''text'', JStr ''yes''), (''type'', JStr ''text'')]"
  let ?r = "JObj [(''content'', JArr [?b]), (''stop_reason'', JStr ''max_tokens'')]"
  have "json_ok ?r" "concat (map block_text_of [?b]) = ''yes''"
    "anthropic_finish (or_default ''stop'' (and_then (get ''stop_reason'' ?r) as_str)) = ''length''"
    by code_simp+
  then show ?thesis
    using native_replies_canonical[OF demo_codec_ok demo_codec_reads, of ?r "demo_provider_target Anthropic" "[?b]" 0 "\<lambda>_. []"]
    by (simp only: demo_provider_kind get.simps map_of.simps) auto
qed

theorem tools_dropped_witness:
  "build_native_request (demo_provider_target Google) (toolless tool_chat) True
   = build_native_request (demo_provider_target Google) tool_chat True"
  by (rule tools_dropped) simp

end
