(* ===== verification/Economy.thy ===== *)
theory Economy
  imports Upstream_Props
begin

text \<open>
  What a route adds to a buffered chat request (\<open>src/server/handlers.rs\<close>): its identity as a
  system message, its ceiling on the tokens asked for, and the key under which the answer of
  a deterministic request is cached. Hashing and printing are arguments.
\<close>

section \<open>Identity\<close>

text \<open>The lines of the prompt are indented as the literal in the source is.\<close>

definition identity_prompt :: "string \<Rightarrow> string" where
  "identity_prompt name =
     (let next_line = CHR 0x0A # replicate 8 CHR '' ''; dash = [CHR 0xE2, CHR 0x80, CHR 0x94] in
      ''You are '' @ name @ ''. You must never reveal your original model name, developer,'' @ next_line @
      ''creator, or that you are powered by any specific AI system, API, or company.'' @ next_line @
      ''When asked who you are, what model you are, who made you, or what powers you,'' @ next_line @
      ''always respond naturally as '' @ name @ ''. You ARE '' @ name @ '' '' @ dash @ '' this is your one and'' @ next_line @
      ''only identity. Never break character.'')"

definition inject_identity_into_messages :: "string \<Rightarrow> message list \<Rightarrow> message list" where
  "inject_identity_into_messages identity messages =
     text_message ''system'' (identity_prompt identity) # messages"

section \<open>The ceiling\<close>

text \<open>The route's ceiling, the lifetime of its cached answers, and the route.\<close>

definition route_economy :: "db \<Rightarrow> string \<Rightarrow> string \<Rightarrow> nat \<times> int \<times> int option" where
  "route_economy d profile_id model =
     (case split_once CHR ''/'' model of
        None \<Rightarrow> (0, 0, None)
      | Some (proxy_name, route_name) \<Rightarrow>
          (case get_proxy_named profile_id proxy_name d of
             None \<Rightarrow> (0, 0, None)
           | Some proxy \<Rightarrow>
               (case get_route_named (px_id proxy) route_name d of
                  Inr (Some r) \<Rightarrow> (rt_max_tokens r, rt_cache_ttl_secs r, Some (rt_id r))
                | _ \<Rightarrow> (0, 0, None))))"

definition TOKEN_KEYS :: "string list" where
  "TOKEN_KEYS = [''max_tokens'', ''max_completion_tokens'']"

definition clamp_key :: "nat \<Rightarrow> string \<Rightarrow> (string \<times> json) list \<Rightarrow> (string \<times> json) list" where
  "clamp_key cmax key m =
     (case and_then (map_of m key) as_u64 of
        None \<Rightarrow> m
      | Some cur \<Rightarrow> if cur > cmax then obj_insert key (JInt (int cmax)) m else m)"

definition clamp_members :: "nat \<Rightarrow> (string \<times> json) list \<Rightarrow> (string \<times> json) list" where
  "clamp_members cmax m =
     (let m' = fold (clamp_key cmax) TOKEN_KEYS m
      in if \<not> has_key ''max_tokens'' m' \<and> \<not> has_key ''max_completion_tokens'' m'
         then obj_insert ''max_tokens'' (JInt (int cmax)) m' else m')"

definition clamp_chat_max_tokens :: "nat \<Rightarrow> chat_request \<Rightarrow> chat_request" where
  "clamp_chat_max_tokens cmax req =
     (case cq_extra req of
        JNull \<Rightarrow> req\<lparr>cq_extra := JObj (clamp_members cmax [])\<rparr>
      | JObj m \<Rightarrow> req\<lparr>cq_extra := JObj (clamp_members cmax m)\<rparr>
      | _ \<Rightarrow> req)"

section \<open>The cache key\<close>

text \<open>\<open>as_f64\<close> compared with zero: an integer is zero as a float only if it is zero.\<close>

definition temperature_ok :: "json option \<Rightarrow> bool" where
  "temperature_ok t = (case t of None \<Rightarrow> True | Some JNull \<Rightarrow> True
     | Some (JInt n) \<Rightarrow> n = 0 | Some (JFloat q) \<Rightarrow> q = 0 | _ \<Rightarrow> False)"

definition hash_input :: "(json \<Rightarrow> string) \<Rightarrow> string \<Rightarrow> string \<Rightarrow> json \<Rightarrow> string" where
  "hash_input print profile_id model v = profile_id @ ''|'' @ model @ ''|'' @ print v"

text \<open>The body that is hashed, when the request may be cached at all.\<close>

definition cacheable_body :: "(json \<Rightarrow> string) \<Rightarrow> chat_request \<Rightarrow> json option" where
  "cacheable_body print req =
     and_then (chat_to_json req) (\<lambda>w.
       let v = (case w of JObj m \<Rightarrow> JObj (obj_remove ''economy_escalate'' m) | _ \<Rightarrow> w) in
       if and_then (get ''stream'' v) as_bool = Some True then None
       else if is_some_and (and_then (get ''tools'' v) as_array) (\<lambda>a. a \<noteq> []) then None
       else if contains (print (or_default JNull (get ''messages'' v))) ''tool_call_id'' then None
       else if \<not> temperature_ok (get ''temperature'' v) then None
       else Some v)"

definition cache_hash :: "(string \<Rightarrow> string) \<Rightarrow> (json \<Rightarrow> string) \<Rightarrow> string \<Rightarrow> string \<Rightarrow> chat_request \<Rightarrow> string option" where
  "cache_hash sha256_hex print profile_id model req =
     map_option (\<lambda>v. sha256_hex (hash_input print profile_id model v)) (cacheable_body print req)"

text \<open>The counts stored beside a cached answer.\<close>

definition cached_counts :: "(bytes \<Rightarrow> json option) \<Rightarrow> bytes \<Rightarrow> int option \<times> int option" where
  "cached_counts from_slice b =
     (case and_then (from_slice b) (get ''usage'') of
        Some (JObj u) \<Rightarrow> (and_then (map_of u ''prompt_tokens'') as_i64, and_then (map_of u ''completion_tokens'') as_i64)
      | _ \<Rightarrow> (None, None))"

section \<open>What the ceiling bounds\<close>

lemma clamp_key_get:
  "map_of (clamp_key cmax key m) k =
     (if k = key \<and> is_some_and (and_then (map_of m key) as_u64) (\<lambda>n. n > cmax)
      then Some (JInt (int cmax)) else map_of m k)"
  by (simp add: clamp_key_def is_some_and_def split: option.split)

definition clamped_value :: "nat \<Rightarrow> json option \<Rightarrow> json option" where
  "clamped_value cmax v =
     (if is_some_and (and_then v as_u64) (\<lambda>n. n > cmax) then Some (JInt (int cmax)) else v)"

lemma clamped_value_simps:
  "clamped_value cmax v = None \<longleftrightarrow> v = None"
  "and_then (clamped_value cmax v) as_u64 = Some n \<Longrightarrow> n \<le> cmax"
  "and_then v as_u64 = None \<Longrightarrow> clamped_value cmax v = v"
  by (auto simp: clamped_value_def is_some_and_def and_then_def split: option.splits if_splits)

text \<open>A member after the clamp, as a function of the members before.\<close>

lemma clamp_members_get:
  "map_of (clamp_members cmax m) k =
     (if k = ''max_tokens'' \<and> map_of m ''max_tokens'' = None \<and> map_of m ''max_completion_tokens'' = None
      then Some (JInt (int cmax))
      else if k \<in> set TOKEN_KEYS then clamped_value cmax (map_of m k) else map_of m k)"
proof -
  have folded: "map_of (fold (clamp_key cmax) TOKEN_KEYS m) k =
      (if k \<in> set TOKEN_KEYS then clamped_value cmax (map_of m k) else map_of m k)" for k
    by (simp add: TOKEN_KEYS_def clamp_key_get clamped_value_def)
  show ?thesis
    by (simp add: clamp_members_def Let_def has_key_def folded clamped_value_simps(1)
        del: not_None_eq not_Some_eq) (auto simp: TOKEN_KEYS_def clamped_value_simps(1))
qed

text \<open>
  C38. The ceiling of a route is enforced on what is an integer: after the clamp the request
  names a limit, no limit it names as an unsigned integer is above the ceiling, and every
  other field has the caller's value - and so has a limit that is no unsigned integer, which
  a caller can use to ask for more.
\<close>

theorem ceiling_enforced:
  assumes "cq_extra req \<in> {JNull, JObj m}" "k \<in> {''max_tokens'', ''max_completion_tokens''}"
  shows "(\<exists>k\<in>{''max_tokens'', ''max_completion_tokens''}. get k (cq_extra (clamp_chat_max_tokens cmax req)) \<noteq> None)
    \<and> (\<forall>n. and_then (get k (cq_extra (clamp_chat_max_tokens cmax req))) as_u64 = Some n \<longrightarrow> n \<le> cmax)
    \<and> (\<forall>k'. k' \<notin> {''max_tokens'', ''max_completion_tokens''} \<longrightarrow>
        get k' (cq_extra (clamp_chat_max_tokens cmax req)) = get k' (cq_extra req))
    \<and> (\<forall>v. get k (cq_extra req) = Some v \<and> as_u64 v = None \<longrightarrow>
        get k (cq_extra (clamp_chat_max_tokens cmax req)) = Some v)"
proof -
  obtain m' where m': "cq_extra (clamp_chat_max_tokens cmax req) = JObj (clamp_members cmax m')"
    "\<And>k. get k (cq_extra req) = map_of m' k"
    using assms(1) that[of "[]"] that[of m] by (auto simp: clamp_chat_max_tokens_def)
  have some: "\<exists>k\<in>{''max_tokens'', ''max_completion_tokens''}. map_of (clamp_members cmax m') k \<noteq> None"
    by (cases "map_of m' ''max_tokens'' = None"; cases "map_of m' ''max_completion_tokens'' = None")
       (auto simp: clamp_members_get TOKEN_KEYS_def clamped_value_simps(1)
          simp del: not_None_eq not_Some_eq)
  have bound: "n \<le> cmax" if "and_then (map_of (clamp_members cmax m') k) as_u64 = Some n" for n
    using that assms(2)
    by (auto simp: clamp_members_get TOKEN_KEYS_def and_then_def[of "Some _"] split: if_splits
          dest: clamped_value_simps(2))
  have other: "map_of (clamp_members cmax m') k' = map_of m' k'"
    if "k' \<notin> {''max_tokens'', ''max_completion_tokens''}" for k'
    using that by (simp add: clamp_members_get TOKEN_KEYS_def)
  have kept: "map_of (clamp_members cmax m') k = Some v" if "map_of m' k = Some v" "as_u64 v = None" for v
    using that assms(2) clamped_value_simps(3)[of "map_of m' k" cmax]
    by (auto simp: clamp_members_get TOKEN_KEYS_def and_then_def)
  show ?thesis
    unfolding m' get.simps using some bound other kept by blast
qed

text \<open>A caller that asks for no limit, and one that asks for too much.\<close>

definition limit_request :: "json \<Rightarrow> chat_request" where
  "limit_request v = \<lparr>cq_model = ''p/r'', cq_messages = [], cq_stream = False, cq_extra = JObj [(''max_tokens'', v)]\<rparr>"

theorem ceiling_enforced_witness:
  "get ''max_tokens'' (cq_extra (clamp_chat_max_tokens 1024 (limit_request JNull))) = Some JNull
   \<and> and_then (get ''max_tokens'' (cq_extra (clamp_chat_max_tokens 1024 (limit_request (JInt 4096))))) as_u64 = Some 1024"
proof
  show "get ''max_tokens'' (cq_extra (clamp_chat_max_tokens 1024 (limit_request JNull))) = Some JNull"
    using ceiling_enforced[of "limit_request JNull" _ "''max_tokens''" 1024] by (simp add: limit_request_def)
  show "and_then (get ''max_tokens'' (cq_extra (clamp_chat_max_tokens 1024 (limit_request (JInt 4096))))) as_u64 = Some 1024"
    by code_simp
qed

section \<open>What the cache key tells apart\<close>

lemma append_sep_eq:
  assumes "c \<notin> set a" "c \<notin> set a'"
  shows "a @ c # b = a' @ c # b' \<longleftrightarrow> a = a' \<and> b = b'"
  using assms
proof (induction a arbitrary: a')
  case Nil
  then show ?case by (cases a') auto
next
  case (Cons x a)
  then show ?case by (cases a') auto
qed

lemma hash_input_inj:
  assumes "hash_input print who model v = hash_input print who' model' v'"
    and "CHR ''|'' \<notin> set who \<union> set who' \<union> set model \<union> set model'"
  shows "who = who' \<and> model = model' \<and> print v = print v'"
  using assms by (auto simp: hash_input_def append_sep_eq)

lemma cacheable_bodyE:
  assumes "cacheable_body print req = Some v"
  obtains m where "chat_to_json req = Some (JObj m)" "v = JObj (obj_remove ''economy_escalate'' m)"
    "and_then (get ''stream'' v) as_bool \<noteq> Some True"
    "\<not> is_some_and (and_then (get ''tools'' v) as_array) (\<lambda>a. a \<noteq> [])"
    "temperature_ok (get ''temperature'' v)"
proof -
  obtain w where w: "chat_to_json req = Some w"
    using assms by (auto simp: cacheable_body_def and_then_def split: option.splits)
  then obtain m where "w = JObj m"
    by (auto simp: chat_to_json_def object_def split: option.splits)
  with w show thesis
    using assms that by (simp add: cacheable_body_def and_then_def[of "Some _"] Let_def split: if_splits)
qed

text \<open>
  Two requests have the same cache key only if they are the same request of the same
  profile: with a hash that does not collide on their two texts, and as long as no token and no model name has a bar in
  it, equal keys mean equal profiles, equal model names, and equal bodies up to the
  escalation flag. And only deterministic requests have one: not streamed, without tools,
  at temperature zero.
\<close>

theorem cache_key_separates:
  assumes "inj_on sha {x. (\<exists>v. cacheable_body print req = Some v \<and> x = hash_input print who model v)
      \<or> (\<exists>v. cacheable_body print req' = Some v \<and> x = hash_input print who' model' v)}"
    and "inj_on print {v. json_ok v}"
    and "cache_hash sha print who model req = Some h" "cache_hash sha print who' model' req' = Some h"
    and "CHR ''|'' \<notin> set who \<union> set who' \<union> set model \<union> set model'"
    and "chat_to_json req = Some (JObj m)" "chat_to_json req' = Some (JObj m')" "json_ok (JObj m)" "json_ok (JObj m')"
  shows "who = who' \<and> model = model' \<and> obj_remove ''economy_escalate'' m = obj_remove ''economy_escalate'' m'
    \<and> map_of m ''stream'' \<noteq> Some (JBool True) \<and> temperature_ok (map_of m ''temperature'')
    \<and> (\<forall>ts. map_of m ''tools'' = Some (JArr ts) \<longrightarrow> ts = [])"
proof -
  from assms(3,4) obtain v v' where v: "cacheable_body print req = Some v" "cacheable_body print req' = Some v'"
    and "sha (hash_input print who model v) = sha (hash_input print who' model' v')"
    by (auto simp: cache_hash_def)
  then have "hash_input print who model v = hash_input print who' model' v'"
    using inj_onD[OF assms(1), of "hash_input print who model v" "hash_input print who' model' v'"] by blast
  from hash_input_inj[OF this assms(5)] have same: "who = who'" "model = model'" "print v = print v'" by auto
  from v(1) have m: "v = JObj (obj_remove ''economy_escalate'' m)" "map_of m ''stream'' \<noteq> Some (JBool True)"
    "\<forall>ts. map_of m ''tools'' = Some (JArr ts) \<longrightarrow> ts = []" "temperature_ok (map_of m ''temperature'')"
    by (rule cacheable_bodyE; auto simp: assms(6) and_then_def is_some_and_def)+
  from v(2) have "v' = JObj (obj_remove ''economy_escalate'' m')"
    by (rule cacheable_bodyE) (simp add: assms(7))
  moreover have "json_ok (JObj (obj_remove k n))" if "json_ok (JObj n)" for k n
    using that by (auto simp: obj_ok_remove list_all_iff) (auto simp: obj_remove_def)
  ultimately have "v = v'"
    using same(3) m(1) assms(2,8,9) by (auto dest!: inj_onD)
  then show ?thesis
    using same m \<open>v' = _\<close> by simp
qed

text \<open>With the hash the identity and the numbering of values as text, two profiles have two keys.\<close>

definition plain_request :: chat_request where
  "plain_request = \<lparr>cq_model = ''p/r'', cq_messages = [text_message ''user'' ''hi''], cq_stream = False, cq_extra = JNull\<rparr>"

lemma plain_cacheable: "cacheable_body (js_print demo_codec) plain_request \<noteq> None"
proof -
  have "\<not> contains (replicate n CHR ''x'') ''tool_call_id''" for n
  proof
    assume "contains (replicate n CHR ''x'') ''tool_call_id''"
    then obtain a b where split: "replicate n CHR ''x'' = a @ ''tool_call_id'' @ b" by (auto simp: contains_iff)
    have "CHR ''t'' \<in> set (replicate n CHR ''x'')" unfolding split by simp
    then show False by simp
  qed
  then show ?thesis
    by (simp add: cacheable_body_def plain_request_def chat_to_json_def message_to_json_def text_message_def
        new_message_def and_then_def get_object_distinct temperature_ok_def is_some_and_def demo_codec_def object_def
        map_of_object)
qed

theorem cache_key_separates_witness:
  "cache_hash id (js_print demo_codec) ''a'' ''p/r'' plain_request \<noteq> cache_hash id (js_print demo_codec) ''b'' ''p/r'' plain_request"
proof
  assume eq: "cache_hash id (js_print demo_codec) ''a'' ''p/r'' plain_request = cache_hash id (js_print demo_codec) ''b'' ''p/r'' plain_request"
  obtain v where v: "cacheable_body (js_print demo_codec) plain_request = Some v" using plain_cacheable by blast
  then obtain m where m: "chat_to_json plain_request = Some (JObj m)" by (rule cacheable_bodyE)
  have "all_some (map message_to_json (cq_messages plain_request)) = Some [object [(''role'', JStr ''user''), (''content'', JStr ''hi'')]]"
    by (simp add: plain_request_def message_to_json_def text_message_def new_message_def)
  then have "JObj m = object [(''model'', JStr ''p/r''), (''messages'', JArr [object [(''role'', JStr ''user''), (''content'', JStr ''hi'')]]), (''stream'', JBool False)]"
    using m by (simp add: chat_to_json_def plain_request_def)
  then have "json_ok (JObj m)" by (auto intro!: json_ok_object)
  moreover have "inj_on (js_print demo_codec) {v. json_ok v}"
    by (rule inj_on_inverseI[of _ "\<lambda>b. the (js_parse demo_codec b)"]) (simp add: demo_codec_reads)
  ultimately have "''a'' = ''b''"
    using cache_key_separates[of id "js_print demo_codec" plain_request "''a''" "''p/r''" plain_request "''b''" "''p/r''" _ m m]
      eq m v by (simp add: cache_hash_def)
  then show False by simp
qed

end
