(* ===== verification/Cache_Contract.thy ===== *)
theory Cache_Contract
  imports Store_Contracts
begin

text \<open>
  What the handlers rely on in the response cache, as an interface: a lookup that returns a
  value while it is fresh and only evicts stale ones, and a write that is seen until it
  expires. The store's \<open>cache_get\<close> and \<open>cache_put\<close> provide it.
\<close>

definition fresh_at :: "int \<Rightarrow> ('v \<times> int) option \<Rightarrow> ('v \<times> int) option" where
  "fresh_at t x = (case x of None \<Rightarrow> None | Some (v, e) \<Rightarrow> if t < e then Some (v, e) else None)"

locale answer_cache =
  fixes inv :: "'s \<Rightarrow> bool" and view :: "'s \<Rightarrow> 'k \<Rightarrow> ('v \<times> int) option"
    and look :: "'k \<Rightarrow> int \<Rightarrow> 's \<Rightarrow> 'v option \<times> 's"
    and store :: "'k \<Rightarrow> 'v \<Rightarrow> int \<Rightarrow> int \<Rightarrow> 's \<Rightarrow> 's"
    and expiry :: "int \<Rightarrow> int \<Rightarrow> int" and usable :: "'k \<Rightarrow> 's \<Rightarrow> bool"
  assumes look_value: "inv s \<Longrightarrow> fst (look k t s) = map_option fst (fresh_at t (view s k))"
    and look_view: "inv s \<Longrightarrow> view (snd (look k t s)) k' = fresh_at t (view s k')"
    and look_inv: "inv s \<Longrightarrow> inv (snd (look k t s))"
    and store_view: "inv s \<Longrightarrow> usable k s \<Longrightarrow> ttl > 0 \<Longrightarrow> view (store k v now ttl s) = (view s)(k \<mapsto> (v, expiry now ttl))"
    and store_inv: "inv s \<Longrightarrow> inv (store k v now ttl s)"
begin

lemma stored_hit:
  assumes "inv s" "usable k s" "ttl > 0" "t < expiry now ttl"
  shows "fst (look k t (store k v now ttl s)) = Some v"
  using assms by (simp add: look_value store_inv store_view fresh_at_def)

lemma hit_view: "inv s \<Longrightarrow> fst (look k t s) = Some v \<longleftrightarrow> (\<exists>e. view s k = Some (v, e) \<and> t < e)"
  by (auto simp: look_value fresh_at_def split: option.splits if_splits)

text \<open>A hit stays a hit for every earlier time, whatever was looked up in between.\<close>

lemma hit_again:
  assumes "inv s" "fst (look k t s) = Some v" "t' \<le> t"
  shows "fst (look k t' (snd (look k' t s))) = Some v"
proof -
  obtain e where e: "view s k = Some (v, e)" "t < e"
    using assms(1,2) by (auto simp: hit_view)
  then have "view (snd (look k' t s)) k = Some (v, e)"
    using assms(1) by (simp add: look_view fresh_at_def)
  then show ?thesis
    using e assms(1,3) by (auto simp: hit_view look_inv)
qed

lemma lookups_only_evict:
  "inv s \<Longrightarrow> view (snd (look k t s)) k' = Some x \<Longrightarrow> view s k' = Some x"
  by (auto simp: look_view fresh_at_def split: option.splits prod.splits if_splits)

end

definition look_answer :: "int \<times> string \<Rightarrow> int \<Rightarrow> db \<Rightarrow> cache_hit option \<times> db" where
  "look_answer k t d = (case cache_get (fst k) (snd k) t d of (Inr x, d') \<Rightarrow> (x, d') | (Inl e, d') \<Rightarrow> (None, d'))"

definition put_answer :: "int \<times> string \<Rightarrow> cache_hit \<Rightarrow> int \<Rightarrow> int \<Rightarrow> db \<Rightarrow> db" where
  "put_answer k v now ttl d = snd (cache_put (fst k) (snd k) (fst v) (fst (snd v)) (snd (snd v)) now ttl d)"

lemma look_answer_eq: "look_answer k t d =
  ((case fst (cache_get (fst k) (snd k) t d) of Inr x \<Rightarrow> x | Inl e \<Rightarrow> None), snd (cache_get (fst k) (snd k) t d))"
  by (cases "cache_get (fst k) (snd k) t d") (auto simp: look_answer_def split: sum.split)

interpretation answers: answer_cache db_ok cache_abs look_answer put_answer cache_expiry "\<lambda>k d. fst k \<in> route_ids d"
proof
  fix d :: db and k k' :: "int \<times> string" and t ttl now :: int and v :: cache_hit
  assume ok: "db_ok d"
  show "fst (look_answer k t d) = map_option fst (fresh_at t (cache_abs d k))"
    using cache_ops_abs(1)[OF ok, of "fst k" "snd k" t]
    by (auto simp: look_answer_eq spec_lookup_def fresh_at_def split: option.splits)
  show "cache_abs (snd (look_answer k t d)) k' = fresh_at t (cache_abs d k')"
    using cache_ops_abs(2)[OF ok, of "fst k" "snd k" t]
    by (simp add: look_answer_eq spec_evict_def fresh_at_def)
  show "db_ok (snd (look_answer k t d))"
    using ok by (simp add: look_answer_eq keeps)
  show "db_ok (put_answer k v now ttl d)"
    using ok by (simp add: put_answer_def keeps)
  assume "fst k \<in> route_ids d" "ttl > 0"
  then show "cache_abs (put_answer k v now ttl d) = (cache_abs d)(k \<mapsto> (v, cache_expiry now ttl))"
    using cache_ops_abs(3)[OF ok, of ttl "fst k" "snd k" "fst v" "fst (snd v)" "snd (snd v)" now]
    by (simp add: put_answer_def)
qed

end
