(* ===== verification/Handlers.thy ===== *)
theory Handlers
  imports Economy Cache_Contract
begin

text \<open>
  The buffered handlers (\<open>src/server/handlers.rs\<close>): the JSON replies for errors, the usage
  row of an attempt, the chat request that is not streamed, with its ceiling, identity,
  cache and escalation, and the list of models. What the libraries do with JSON, hashing
  and \<open>{:?}\<close> formatting is a record of functions; the clock, the draw and the durations a
  request meets are another. The upstream's answers are an argument.
\<close>

section \<open>The outside of a handler\<close>

record library =
  lb_js :: codec
  lb_sha256_hex :: "string \<Rightarrow> string"
  lb_debug :: "string \<Rightarrow> string"
  lb_store_text :: "store_error \<Rightarrow> string"
  lb_status_text :: "int \<Rightarrow> string"
  lb_timeout_text :: string

text \<open>Readings of the clock and the random draw during one request, by their place in it.\<close>

record moment =
  mo_floats :: float_ops
  mo_draw :: f64
  mo_resolved :: int
  mo_looked_up :: int
  mo_stored :: int
  mo_settled :: "nat \<Rightarrow> int"
  mo_logged :: "nat \<Rightarrow> int"
  mo_latency :: "nat \<Rightarrow> int"
  mo_cooldown_secs :: int

section \<open>Replies\<close>

record response =
  rp_status :: int
  rp_headers :: headers
  rp_body :: bytes

definition json_reply :: "library \<Rightarrow> int \<Rightarrow> json \<Rightarrow> response" where
  "json_reply L status v =
     \<lparr>rp_status = status, rp_headers = [(''Content-Type'', ''application/json'')], rp_body = js_print (lb_js L) v\<rparr>"

definition error_json :: "string \<Rightarrow> string \<Rightarrow> (string \<times> json) list \<Rightarrow> json" where
  "error_json msg label es =
     object [(''error'', object ([(''message'', JStr msg), (''type'', JStr label)] @ es))]"

definition bad_request :: "library \<Rightarrow> string \<Rightarrow> response" where
  "bad_request L msg = json_reply L 400 (error_json msg ''invalid_request_error'' [])"

definition not_found :: "library \<Rightarrow> string \<Rightarrow> response" where
  "not_found L msg = json_reply L 404 (error_json msg ''not_found_error'' [])"

definition service_unavailable :: "library \<Rightarrow> string \<Rightarrow> response" where
  "service_unavailable L msg = json_reply L 503 (error_json msg ''service_unavailable_error'' [])"

definition capability_unavailable :: "library \<Rightarrow> request_needs \<Rightarrow> response" where
  "capability_unavailable L needs =
     json_reply L 400 (error_json
       (''route has no entry with the required capability: '' @ missing_list needs @
        ''. Add or enable an entry that declares it (see '' @ [CHR 0x60] @ ''agos-proxy route model add --help'' @
        [CHR 0x60] @ ''), or send the request without it.'')
       ''capability_unavailable''
       [(''missing_capabilities'', JArr (map JStr (as_labels needs)))])"

definition no_targets :: "library \<Rightarrow> request_needs \<Rightarrow> response" where
  "no_targets L needs =
     (if needs_is_empty needs then service_unavailable L ''no healthy providers available for this route''
      else capability_unavailable L needs)"

text \<open>The text of a resolution error.\<close>

definition route_error_text :: "library \<Rightarrow> db \<Rightarrow> string \<Rightarrow> route_error \<Rightarrow> string" where
  "route_error_text L d model e =
     (let q = lb_debug L; (proxy_name, route_name) = or_default ([], []) (split_once CHR ''/'' model);
          int_text = (\<lambda>i. (if i < 0 then ''-'' else []) @ decimal (nat (abs i)))
      in case e of
           Bad_Model \<Rightarrow> ''model '' @ q model @ '' must be in '' @ [CHR 0x60] @ ''<proxy>/<route>'' @ [CHR 0x60] @ '' format''
         | No_Proxy \<Rightarrow> ''no proxy named '' @ q proxy_name
         | No_Route \<Rightarrow> ''no route named '' @ q route_name @ '' under proxy '' @ q proxy_name
         | Too_Deep \<Rightarrow> ''route chain nests deeper than '' @ decimal MAX_ROUTE_DEPTH @ '' levels; refusing to expand''
         | Circular r \<Rightarrow> ''circular route reference: route '' @ int_text r @ '' appears in its own chain''
         | Provider_Missing p \<Rightarrow> ''provider '' @ int_text p @ '' missing''
         | Provider_Foreign p \<Rightarrow> ''provider '' @ q (case find (\<lambda>r. pr_id r = p) (providers d) of Some r \<Rightarrow> pr_name r | None \<Rightarrow> [])
             @ '' belongs to another profile and is not shared''
         | Route_Missing r \<Rightarrow> ''route '' @ int_text r @ '' missing''
         | Route_Foreign r \<Rightarrow> ''route '' @ int_text r @ '' belongs to another profile and is not shared''
         | Store_Failed se \<Rightarrow> lb_store_text L se)"

text \<open>How the buffered handlers answer a resolution error, by its text.\<close>

definition resolution_reply :: "library \<Rightarrow> string \<Rightarrow> response" where
  "resolution_reply L msg =
     (if contains msg ''no proxy named'' \<or> contains msg ''no route named'' then not_found L msg
      else if contains msg ''must be in'' then bad_request L msg
      else bad_request L (''route resolution failed: '' @ msg))"

section \<open>Usage rows\<close>

text \<open>
  The row of a finished attempt. An upstream error is wrapped in a context, which is the text
  \<open>to_string\<close> gives; an attempt that ran out of time is dropped before it could write one.
\<close>

definition attempt_row ::
  "library \<Rightarrow> string \<Rightarrow> target \<Rightarrow> attempt \<Rightarrow> int \<Rightarrow> new_usage option" where
  "attempt_row L who t a latency =
     (let row = (\<lambda>success status err u. Some
            \<lparr>nu_profile_id = who, nu_entry_id = re_id (tg_entry t), nu_model_id = re_model_id (tg_entry t),
             nu_streamed = False, nu_success = success, nu_status_code = status, nu_error_message = err,
             nu_latency_ms = latency, nu_prompt_tokens = ut_prompt u, nu_completion_tokens = ut_completion u,
             nu_cached_prompt_tokens = ut_cached u\<rparr>)
      in case a of
           Answered b \<Rightarrow> row True (Some 200) None (parse_usage_tokens (js_parse (lb_js L)) b)
         | Refused pe \<Rightarrow> row False (Some (pe_status pe)) (Some ''provider returned an error response'') no_usage
         | Broken msg \<Rightarrow> row False None (Some msg) no_usage
         | Timed_Out \<Rightarrow> None)"

definition log_attempt :: "library \<Rightarrow> string \<Rightarrow> target \<Rightarrow> attempt \<Rightarrow> int \<Rightarrow> int \<Rightarrow> db \<Rightarrow> db" where
  "log_attempt L who t a latency now d =
     (case attempt_row L who t a latency of None \<Rightarrow> d | Some u \<Rightarrow> snd (record_usage u now d))"

text \<open>The targets are tried in order up to the first answer; each attempt logs itself.\<close>

fun log_attempts ::
  "library \<Rightarrow> moment \<Rightarrow> string \<Rightarrow> (nat \<Rightarrow> target \<Rightarrow> attempt) \<Rightarrow> nat \<Rightarrow> target list \<Rightarrow> db \<Rightarrow> db" where
  "log_attempts L m who att n [] d = d"
| "log_attempts L m who att n (t # ts) d =
     (let d' = log_attempt L who t (att n t) (mo_latency m n) (mo_logged m n) d
      in case att n t of Answered b \<Rightarrow> d' | _ \<Rightarrow> log_attempts L m who att (n + 1) ts d')"

text \<open>Logged attempts, and the failover over them: the entries are settled after the last row.\<close>

definition logged_failover ::
  "library \<Rightarrow> moment \<Rightarrow> string \<Rightarrow> (nat \<Rightarrow> target \<Rightarrow> attempt) \<Rightarrow> target list \<Rightarrow> db \<Rightarrow> (failover_error + bytes) \<times> db" where
  "logged_failover L m who att targets d =
     execute_with_failover (js_parse (lb_js L)) (mo_cooldown_secs m) (mo_settled m) att targets
       (log_attempts L m who att 0 targets d)"

section \<open>Buffered chat\<close>

text \<open>\<open>sort_by\<close> with the operands swapped: dearest first, equal prices in their order.\<close>

definition escalate_order :: "target list \<Rightarrow> target list" where
  "escalate_order targets = rev (sort_key (\<lambda>t. re_price_per_1m (tg_entry t)) (rev targets))"

text \<open>The request as it is forwarded: clamped, and with the identity of the route.\<close>

definition prepared_request :: "nat \<Rightarrow> target list \<Rightarrow> chat_request \<Rightarrow> chat_request" where
  "prepared_request max_tokens targets req =
     (let req' = (if max_tokens > 0 then clamp_chat_max_tokens max_tokens req else req)
      in case targets of
           t # ts \<Rightarrow> (case tg_identity t of
               Some identity \<Rightarrow> req'\<lparr>cq_messages := inject_identity_into_messages identity (cq_messages req')\<rparr>
             | None \<Rightarrow> req')
         | [] \<Rightarrow> req')"

definition ok_reply :: "string \<Rightarrow> bytes \<Rightarrow> response" where
  "ok_reply cached b =
     \<lparr>rp_status = 200, rp_headers = [(''Content-Type'', ''application/json''), (''X-Agos-Cache'', cached)], rp_body = b\<rparr>"

definition failure_text :: "library \<Rightarrow> failover_error \<Rightarrow> string" where
  "failure_text L e =
     (case e of
        No_Targets \<Rightarrow> ''no healthy targets for this route''
      | Last_Failed (Refused pe) \<Rightarrow> ''provider returned '' @ lb_status_text L (pe_status pe) @ '': '' @ pe_body pe
      | Last_Failed (Broken msg) \<Rightarrow> msg
      | Last_Failed _ \<Rightarrow> ''attempt timed out after '' @ lb_timeout_text L)"

definition failure_code :: "failover_error \<Rightarrow> int" where
  "failure_code e = (case e of Last_Failed (Refused pe) \<Rightarrow> pe_status pe | _ \<Rightarrow> 502)"

definition failure_reply :: "library \<Rightarrow> failover_error \<Rightarrow> response" where
  "failure_reply L e =
     json_reply L 502 (error_json (failure_text L e) ''provider_error'' [(''code'', JInt (failure_code e))])"

text \<open>The answer is cached, best effort, when the request has a key.\<close>

definition store_answer :: "library \<Rightarrow> moment \<Rightarrow> int \<Rightarrow> (int \<times> string) option \<Rightarrow> bytes \<Rightarrow> db \<Rightarrow> db" where
  "store_answer L m ttl key b d =
     (case key of
        None \<Rightarrow> d
      | Some k \<Rightarrow> put_answer k (b, cached_counts (js_parse (lb_js L)) b) (mo_stored m) ttl d)"

definition cache_key_of ::
  "library \<Rightarrow> string \<Rightarrow> string \<Rightarrow> nat \<times> int \<times> int option \<Rightarrow> bool \<Rightarrow> chat_request \<Rightarrow> (int \<times> string) option" where
  "cache_key_of L who model economy escalate req =
     (let (max_tokens, ttl, rid) = economy in
      if ttl > 0 \<and> \<not> escalate
      then and_then rid (\<lambda>r. map_option (Pair r) (cache_hash (lb_sha256_hex L) (js_print (lb_js L)) who model req))
      else None)"

text \<open>Everything after the targets are known: look up, or forward and store.\<close>

definition serve_chat ::
  "library \<Rightarrow> moment \<Rightarrow> (chat_request \<Rightarrow> nat \<Rightarrow> target \<Rightarrow> attempt) \<Rightarrow> string \<Rightarrow> (int \<times> string) option \<Rightarrow> int
     \<Rightarrow> target list \<Rightarrow> chat_request \<Rightarrow> db \<Rightarrow> response \<times> db" where
  "serve_chat L m att who key ttl targets req d =
     (let (hit, d1) = (case key of None \<Rightarrow> (None, d) | Some k \<Rightarrow> look_answer k (mo_looked_up m) d)
      in case hit of
           Some (b, _) \<Rightarrow> (ok_reply ''HIT'' b, d1)
         | None \<Rightarrow>
             (case logged_failover L m who (att req) targets d1 of
                (Inr b, d2) \<Rightarrow> (ok_reply ''MISS'' b, store_answer L m ttl key b d2)
              | (Inl e, d2) \<Rightarrow> (failure_reply L e, d2)))"

definition handle_non_streaming ::
  "library \<Rightarrow> moment \<Rightarrow> cipher \<Rightarrow> (chat_request \<Rightarrow> nat \<Rightarrow> target \<Rightarrow> attempt) \<Rightarrow> string \<Rightarrow> request_needs
     \<Rightarrow> chat_request \<Rightarrow> bool \<Rightarrow> db \<Rightarrow> rr_state \<Rightarrow> response \<times> db \<times> rr_state" where
  "handle_non_streaming L m c att who needs req escalate d rr =
     (case resolve_targets_with_strategy c (mo_floats m) (mo_draw m) d who (cq_model req) needs (mo_resolved m) rr of
        (Inl e, rr') \<Rightarrow> (resolution_reply L (route_error_text L d (cq_model req) e), d, rr')
      | (Inr [], rr') \<Rightarrow> (no_targets L needs, d, rr')
      | (Inr (t # ts), rr') \<Rightarrow>
          (let (max_tokens, ttl, rid) = route_economy d who (cq_model req);
               targets = (if escalate \<and> length (t # ts) > 1 then escalate_order (t # ts) else t # ts);
               req' = prepared_request max_tokens targets req;
               (resp, d') = serve_chat L m att who
                  (cache_key_of L who (cq_model req) (max_tokens, ttl, rid) escalate req') ttl targets req' d
           in (resp, d', rr')))"

text \<open>The attempt timeout: an attempt that takes too long has no outcome of its own.\<close>

definition within_timeout :: "(nat \<Rightarrow> bool) \<Rightarrow> (target \<Rightarrow> attempt) \<Rightarrow> nat \<Rightarrow> target \<Rightarrow> attempt" where
  "within_timeout late att n t = (if late n then Timed_Out else att t)"

text \<open>The attempt of a buffered chat request over a network.\<close>

definition chat_attempt ::
  "library \<Rightarrow> (nat \<Rightarrow> bool) \<Rightarrow> int \<Rightarrow> (string \<Rightarrow> headers \<Rightarrow> json \<Rightarrow> http_reply option) \<Rightarrow> float_ops \<Rightarrow> float_text \<Rightarrow> chat_request \<Rightarrow> nat \<Rightarrow> target \<Rightarrow> attempt" where
  "chat_attempt L late now_secs send fl ft req =
     within_timeout late (forward_non_streaming (chat_upstream (lb_js L) now_secs send (lb_status_text L) req) fl ft)"

section \<open>The list of models\<close>

definition model_json :: "int \<Rightarrow> proxy \<Rightarrow> route \<Rightarrow> json" where
  "model_json now p r =
     object [(''id'', JStr (px_name p @ ''/'' @ rt_name r)), (''object'', JStr ''model''),
             (''created'', JInt now), (''owned_by'', JStr ''agos'')]"

definition list_models :: "library \<Rightarrow> int \<Rightarrow> string \<Rightarrow> db \<Rightarrow> response" where
  "list_models L now who d =
     (case get_profile_by_id who d of
        None \<Rightarrow> bad_request L ''invalid profile token''
      | Some pf \<Rightarrow>
          json_reply L 200 (object [(''object'', JStr ''list''),
            (''data'', JArr (concat (map (\<lambda>p. case list_routes (px_id p) d of
               Inl e \<Rightarrow> [] | Inr rs \<Rightarrow> map (model_json now p) rs) (list_proxies (pf_id pf) d))))]))"

end
