(* ===== verification/Handlers_Props.thy ===== *)
theory Handlers_Props
  imports Handlers
begin

text \<open>
  The buffered handlers as a whole: they change the store only through its operations, every
  attempt they make is logged, a refused resolution changes nothing, and a cached answer is
  served again without an upstream.
\<close>

section \<open>Only the store's operations\<close>

text \<open>The operations a request made as \<open>who\<close> may cause: its own usage rows, the cache, and the state of entries.\<close>

fun by_request :: "string \<Rightarrow> store_op \<Rightarrow> bool" where
  "by_request who (On_Log (Record_Usage u now)) \<longleftrightarrow> nu_profile_id u = who"
| "by_request who (On_Log (Cache_Get r h now)) \<longleftrightarrow> True"
| "by_request who (On_Log (Cache_Put r h b p c now ttl)) \<longleftrightarrow> True"
| "by_request who (On_Entry (Entry_Status i st)) \<longleftrightarrow> True"
| "by_request who (On_Entry (Entry_Cooldown i until)) \<longleftrightarrow> True"
| "by_request who (On_Entry (Entry_Vision i v)) \<longleftrightarrow> True"
| "by_request who _ \<longleftrightarrow> False"

definition via_ops :: "string \<Rightarrow> db \<Rightarrow> db \<Rightarrow> bool" where
  "via_ops who d d' \<longleftrightarrow> (\<exists>ops. list_all (by_request who) ops \<and> d' = fold exec_op ops d)"

named_theorems via "steps that go through the operations of a request"

lemma via_refl [via, simp]: "via_ops who d d"
  unfolding via_ops_def by (rule exI[of _ "[]"]) simp

lemma via_trans: "via_ops who d d' \<Longrightarrow> via_ops who d' d'' \<Longrightarrow> via_ops who d d''"
  unfolding via_ops_def by (metis fold_append list_all_append o_apply)

lemma via_op: "by_request who op \<Longrightarrow> via_ops who d (exec_op op d)"
  unfolding via_ops_def by (rule exI[of _ "[op]"]) simp

lemma via_row: "nu_profile_id u = who \<Longrightarrow> via_ops who d (snd (record_usage u now d))"
  using via_op[of who "On_Log (Record_Usage u now)" d] by simp

lemma via_single [via]:
  "via_ops who d (snd (cache_get r h now d))"
  "via_ops who d (snd (cache_put r h b p c now ttl d))"
  "via_ops who d (snd (set_route_entry_status i st d))"
  "via_ops who d (snd (set_route_entry_cooldown i until d))"
  "via_ops who d (snd (set_route_entry_vision i v d))"
  using via_op[of who "On_Log (Cache_Get r h now)" d]
    via_op[of who "On_Log (Cache_Put r h b p c now ttl)" d] via_op[of who "On_Entry (Entry_Status i st)" d]
    via_op[of who "On_Entry (Entry_Cooldown i until)" d] via_op[of who "On_Entry (Entry_Vision i v)" d]
  by simp_all

lemma via_ok: "via_ops who d d' \<Longrightarrow> db_ok d \<Longrightarrow> db_ok d'"
  unfolding via_ops_def using store.run_inv by blast

lemma row_is_callers: "attempt_row L who t a latency = Some u \<Longrightarrow> nu_profile_id u = who"
  by (auto simp: attempt_row_def split: attempt.splits)

lemma via_failure [via]: "via_ops who d (snd (apply_failure_action parse t s msg d))"
  by (auto simp: apply_failure_action_def Let_def intro: via split: failure_action.split)

lemma via_settle [via]: "via_ops who d (settle_failure parse secs now f d)"
  by (auto simp: settle_failure_def Let_def intro: via via_trans[OF via_failure])

lemma via_settle_all [via]: "via_ops who d (settle_all parse secs clock n fs d)"
  by (induction fs arbitrary: n d) (auto intro: via via_trans[OF via_settle])

lemma via_failover [via]: "via_ops who d (snd (execute_with_failover parse secs clock att ts d))"
  by (auto simp: execute_with_failover_def intro: via split: sum.split)

lemma via_log_attempt [via]: "via_ops who d (log_attempt L who t a latency now d)"
  by (auto simp: log_attempt_def row_is_callers intro: via via_row split: option.split)

lemma via_log_attempts [via]: "via_ops who d (log_attempts L m who att n ts d)"
proof (induction ts arbitrary: n d)
  case (Cons t ts)
  show ?case
    by (cases "att n t") (simp_all add: Let_def via_log_attempt via_trans[OF via_log_attempt Cons.IH])
qed (simp add: via)

lemma via_logged [via]: "via_ops who d (snd (logged_failover L m who att ts d))"
  unfolding logged_failover_def by (rule via_trans[OF via_log_attempts via_failover])

lemma via_answers [via]:
  "via_ops who d (snd (look_answer k t d))" "via_ops who d (put_answer k v now ttl d)"
  by (simp_all add: look_answer_eq put_answer_def via)

lemma via_store_answer [via]: "via_ops who d (store_answer L m ttl key b d)"
  by (auto simp: store_answer_def intro: via split: option.split)

lemma via_serve [via]: "via_ops who d (snd (serve_chat L m att who key ttl ts req d))"
proof -
  obtain hit d1 where look: "(case key of None \<Rightarrow> (None, d) | Some k \<Rightarrow> look_answer k (mo_looked_up m) d) = (hit, d1)"
    by fastforce
  have d1: "via_ops who d d1"
    using look via_answers(1)[of who d _ "mo_looked_up m"] by (auto split: option.splits) (metis snd_conv)
  obtain r d2 where run: "logged_failover L m who (att req) ts d1 = (r, d2)" by fastforce
  have "via_ops who d1 d2" using via_logged[of who d1 L m "att req" ts] run by simp
  then show ?thesis
    using d1 by (auto simp: serve_chat_def look run intro: via_trans via_store_answer split: option.split sum.split)
qed

text \<open>
  A buffered chat request changes the store only through the store's own operations, so
  whatever it meets - a resolution error, failing upstreams, a cached answer - the store's
  integrity is kept.
\<close>

theorem chat_keeps_integrity:
  assumes "handle_non_streaming L m c att who needs req escalate d rr = (resp, d', rr')" "db_ok d"
  shows "(\<exists>ops. d' = fold exec_op ops d) \<and> db_ok d'"
proof -
  have "via_ops who d d'"
    using assms(1) via_serve[of who d L m att]
    by (auto simp: handle_non_streaming_def Let_def split: prod.splits sum.splits list.splits if_splits)
       (metis snd_conv)+
  then show ?thesis using via_ok[OF _ assms(2)] by (auto simp: via_ops_def)
qed

section \<open>Logs and caches do not change where requests go\<close>

definition logs_of :: "db \<Rightarrow> db \<Rightarrow> bool" where
  "logs_of d d' \<longleftrightarrow> (\<exists>U n C. d' = d\<lparr>usage := U, seq_usage := n, cache := C\<rparr>)"

lemma logs_refl [simp]: "logs_of d d"
  unfolding logs_of_def by (rule exI[of _ "usage d"], rule exI[of _ "seq_usage d"], rule exI[of _ "cache d"]) simp

lemma logs_trans: "logs_of d d' \<Longrightarrow> logs_of d' d'' \<Longrightarrow> logs_of d d''"
  unfolding logs_of_def by force

lemma logs_fields:
  assumes "logs_of d d'"
  shows "profiles d' = profiles d" "providers d' = providers d" "masks d' = masks d"
    "proxies d' = proxies d" "routes d' = routes d" "entries d' = entries d"
  using assms by (auto simp: logs_of_def)

lemma logs_steps:
  "logs_of d (snd (record_usage u now d))"
  "logs_of d (drop_expired t d)"
  "logs_of d (snd (cache_put r h b p c now ttl d))"
proof -
  have make: "d' = d\<lparr>usage := usage d', seq_usage := seq_usage d', cache := cache d'\<rparr> \<Longrightarrow> logs_of d d'" for d'
    unfolding logs_of_def by blast
  show "logs_of d (snd (record_usage u now d))"
    by (rule make) (simp add: record_usage_def Let_def)
  show "logs_of d (drop_expired t d)" by (rule make) (simp add: drop_expired_def)
  show "logs_of d (snd (cache_put r h b p c now ttl d))"
    by (rule make) (simp add: cache_put_def Let_def)
qed

lemma logs_answers:
  "logs_of d (snd (look_answer k t d))" "logs_of d (put_answer k v now ttl d)"
  "logs_of d (store_answer L m ttl key b d)"
proof -
  show put: "logs_of d (put_answer k v now ttl d)" for k v now ttl by (simp add: put_answer_def logs_steps)
  show "logs_of d (snd (look_answer k t d))"
    by (simp add: look_answer_eq cache_get_def Let_def logs_steps)
  show "logs_of d (store_answer L m ttl key b d)"
    by (simp add: store_answer_def put split: option.split)
qed

lemma logs_attempts: "logs_of d (log_attempts L m who att n ts d)"
proof (induction ts arbitrary: n d)
  case (Cons t ts)
  have "logs_of d (log_attempt L who t a l now d)" for a l now
    by (simp add: log_attempt_def logs_steps split: option.split)
  then show ?case
    by (cases "att n t") (simp_all add: Let_def logs_trans[OF _ Cons.IH])
qed simp

lemma logs_get_provider: "logs_of d d' \<Longrightarrow> get_provider c i d' = get_provider c i d"
  by (auto simp: get_provider_def build_joined_def mask_join_def effective_mask_id_def get_profile_by_id_def
      logs_fields split: option.split)

lemma logs_routes:
  assumes "logs_of d d'"
  shows "get_proxy_named who p d' = get_proxy_named who p d" "get_route_named i r d' = get_route_named i r d"
    "get_route_by_id i d' = get_route_by_id i d" "route_owner_profile i d' = route_owner_profile i d"
    "route_entries i d' = route_entries i d"
  by (simp_all add: get_proxy_named_def get_route_named_def get_route_by_id_def route_owner_profile_def
      route_entries_def logs_fields[OF assms] split: option.split)

lemma logs_expand:
  assumes "logs_of d d'"
  shows "expand_inner c d' who needs depth visited r = expand_inner c d who needs depth visited r"
proof (induction "MAX_ROUTE_DEPTH - depth" arbitrary: depth visited r rule: less_induct)
  case less
  have "expand_entry c d' who needs depth visited r = expand_entry c d who needs depth visited r"
    if "depth < MAX_ROUTE_DEPTH"
  proof (rule ext)
    fix e
    have inner: "expand_inner c d' who needs (depth + 1) vs i = expand_inner c d who needs (depth + 1) vs i" for vs i
      by (rule less) (use that in simp)
    then show "expand_entry c d' who needs depth visited r e = expand_entry c d who needs depth visited r e"
      by (simp add: expand_entry_def direct_target_def may_enter_def logs_routes[OF assms] logs_get_provider[OF assms]
          split: option.split)
  qed
  then show ?case
    by (subst (1 2) expand_inner_eq) (simp add: logs_routes[OF assms])
qed

lemma logs_resolve:
  assumes "logs_of d d'"
  shows "resolve_targets_with_strategy c fl draw d' who model needs now rr =
      resolve_targets_with_strategy c fl draw d who model needs now rr"
    and "route_economy d' who model = route_economy d who model"
  by (simp_all add: resolve_targets_with_strategy_def resolve_route_def expand_route_targets_def
      route_economy_def logs_routes[OF assms] logs_expand[OF assms] cong: option.case_cong sum.case_cong)

text \<open>What a resolution returns at another instant, with another draw.\<close>

lemma resolved_targets:
  assumes "resolve_targets_with_strategy c fl draw d who model needs now rr = (Inr ts, rr')" "ts \<noteq> []"
  shows "\<exists>route. resolve_route d who model = Inr route \<and> (\<forall>t\<in>set ts. tg_identity t = rt_identity route)
    \<and> (\<forall>fl' draw' now' rr0. \<exists>t' ts' rr1.
        resolve_targets_with_strategy c fl' draw' d who model needs now' rr0 = (Inr (t' # ts'), rr1))"
proof -
  obtain route leaves where r: "resolve_route d who model = Inr route"
    "expand_route_targets c d who (rt_id route) needs 0 = Inr leaves"
    using assms(1) by (auto simp: resolve_targets_with_strategy_def split: sum.splits)
  let ?named = "\<lambda>now. warm_first cooldown_of now (map (\<lambda>t. t\<lparr>tg_identity := rt_identity route\<rparr>) leaves)"
  have res: "resolve_targets_with_strategy c fl' draw' d who model needs now' rr0 =
      (Inr (fst (apply_strategy fl' draw' route (?named now') rr0)), snd (apply_strategy fl' draw' route (?named now') rr0))"
    for fl' draw' now' rr0
    by (simp add: resolve_targets_with_strategy_def r split: prod.split)
  have same: "mset (fst (apply_strategy fl' draw' route (?named now') rr0)) = mset (?named now')" for fl' draw' now' rr0
    using apply_strategy_mset by blast
  have "mset ts = mset (?named now)" using assms(1) same[of fl draw now rr] by (simp add: res)
  then have set: "set ts = set (?named now)" by (rule mset_eq_setD)
  then have ident: "\<forall>t\<in>set ts. tg_identity t = rt_identity route"
    using warm_first_subset[of cooldown_of now] by fastforce
  have "leaves \<noteq> []"
    using set assms(2) by (auto simp: warm_first_def)
  then have "?named now' \<noteq> []" for now'
    using warm_first_set[of cooldown_of now' "map (\<lambda>t. t\<lparr>tg_identity := rt_identity route\<rparr>) leaves"]
    by (cases leaves) (auto split: if_splits)
  then have "fst (apply_strategy fl' draw' route (?named now') rr0) \<noteq> []" for fl' draw' now' rr0
    using same[of fl' draw' now' rr0] by auto
  then show ?thesis
    using r(1) ident by (metis res list.exhaust)
qed

section \<open>A cached answer is served again\<close>

lemma failover_answer:
  assumes "logged_failover L m who att ts d = (Inr b, d')"
  shows "logs_of d d'"
  using assms logs_attempts by (auto simp: logged_failover_def first_answer_wins)

lemma serve_miss:
  assumes "db_ok d" "serve_chat L m att who (Some k) ttl ts req d = (resp, d')"
    and "rp_headers resp = rp_headers (ok_reply ''MISS'' [])" "fst k \<in> route_ids d" "ttl > 0"
  shows "logs_of d d'"
    and "\<exists>x. cache_abs d' k = Some ((rp_body resp, x), cache_expiry (mo_stored m) ttl)"
proof -
  obtain hit d1 where look: "look_answer k (mo_looked_up m) d = (hit, d1)" by fastforce
  then have d1: "d1 = snd (look_answer k (mo_looked_up m) d)" by simp
  have "hit = None"
  proof (rule ccontr)
    assume "hit \<noteq> None"
    then show False using assms(2,3) look by (auto simp: serve_chat_def ok_reply_def)
  qed
  moreover obtain r d2 where run: "logged_failover L m who (att req) ts d1 = (r, d2)" by fastforce
  moreover have "\<exists>b. r = Inr b"
    using assms(2,3) look run \<open>hit = None\<close>
    by (cases r) (auto simp: serve_chat_def ok_reply_def failure_reply_def json_reply_def)
  ultimately obtain b where b: "logged_failover L m who (att req) ts d1 = (Inr b, d2)" "hit = None" by blast
  then have res: "resp = ok_reply ''MISS'' b" "d' = put_answer k (b, cached_counts (js_parse (lb_js L)) b) (mo_stored m) ttl d2"
    using assms(2) look by (simp_all add: serve_chat_def store_answer_def)
  have logs: "logs_of d d2"
    using logs_answers(1)[of d k "mo_looked_up m"] failover_answer[OF b(1)] d1 logs_trans by metis
  then show "logs_of d d'" unfolding res by (rule logs_trans[OF _ logs_answers(2)])
  have "db_ok d2"
    using via_ok[OF via_logged[of who d1 L m "att req" ts]] b(1) answers.look_inv[OF assms(1)] d1 by simp
  moreover have "fst k \<in> route_ids d2" using assms(4) logs by (simp add: route_ids_def logs_fields)
  ultimately show "\<exists>x. cache_abs d' k = Some ((rp_body resp, x), cache_expiry (mo_stored m) ttl)"
    using answers.store_view[of d2 k ttl] assms(5) unfolding res by (simp add: ok_reply_def)
qed

lemma serve_hit:
  assumes "db_ok d" "cache_abs d k = Some ((b, x), e)" "mo_looked_up m < e"
  shows "fst (serve_chat L m att who (Some k) ttl ts req d) = ok_reply ''HIT'' b"
proof -
  have "fst (look_answer k (mo_looked_up m) d) = Some (b, x)"
    using answers.hit_view[OF assms(1)] assms(2,3) by blast
  then obtain d1 where "look_answer k (mo_looked_up m) d = (Some (b, x), d1)" by (metis prod.exhaust_sel)
  then show ?thesis by (simp add: serve_chat_def)
qed

lemma handle_resolved:
  assumes "resolve_targets_with_strategy c (mo_floats m) (mo_draw m) d who (cq_model req) needs (mo_resolved m) rr = (Inr (t # ts), rr')"
    and "route_economy d who (cq_model req) = (max_tokens, ttl, rid)"
  shows "handle_non_streaming L m c att who needs req False d rr =
    (let r = serve_chat L m att who
        (cache_key_of L who (cq_model req) (max_tokens, ttl, rid) False (prepared_request max_tokens (t # ts) req))
        ttl (t # ts) (prepared_request max_tokens (t # ts) req) d in (fst r, snd r, rr'))"
  using assms by (simp add: handle_non_streaming_def Let_def split: prod.split)

lemma prepared_same:
  "tg_identity t = tg_identity t' \<Longrightarrow> prepared_request n (t # ts) req = prepared_request n (t' # ts') req"
  by (simp add: prepared_request_def Let_def)

lemma economy_route_id: "route_economy d who model = (n, ttl, Some rid) \<Longrightarrow> rid \<in> route_ids d"
  by (auto simp: route_economy_def get_route_named_def opt_route_def map_route_row_def res_bind_def ok_or_def
      route_ids_def dest!: find_mem split: option.splits sum.splits)


section \<open>Every reply\<close>

lemma serve_status: "rp_status (fst (serve_chat L m att who key ttl ts req d)) \<in> {200, 502}"
  by (auto simp: serve_chat_def ok_reply_def failure_reply_def json_reply_def
      split: prod.split option.split sum.split)

lemma unknown_names_text:
  "contains (route_error_text L d model No_Proxy) ''no proxy named''"
  "contains (route_error_text L d model No_Route) ''no route named''"
proof -
  have "contains (''no proxy named '' @ s) ''no proxy named''" "contains (''no route named '' @ s) ''no route named''" for s
    by simp_all
  then show "contains (route_error_text L d model No_Proxy) ''no proxy named''"
    "contains (route_error_text L d model No_Route) ''no route named''"
    by (auto simp: route_error_text_def Let_def simp del: contains.simps append_Cons split: prod.split)
qed

lemma resolution_status:
  "rp_status (resolution_reply L msg) = (if contains msg ''no proxy named'' \<or> contains msg ''no route named'' then 404 else 400)"
  by (simp add: resolution_reply_def not_found_def bad_request_def json_reply_def)

text \<open>
  The reply to a buffered chat request says what happened. An unknown proxy or route is
  a 404, every other resolution error a client error; a route without a usable entry is 503
  for a plain request and 400 for one that needs a capability; none of these changes the
  store. Once there is a target the answer is 200 or 502.
\<close>

theorem reply_statuses:
  "let (resp, d', rr') = handle_non_streaming L m c att who needs req escalate d rr
   in (case fst (resolve_targets_with_strategy c (mo_floats m) (mo_draw m) d who (cq_model req) needs (mo_resolved m) rr) of
         Inl e \<Rightarrow> d' = d \<and> rp_status resp \<in> (if e \<in> {No_Proxy, No_Route} then {404} else {400, 404})
       | Inr [] \<Rightarrow> d' = d \<and> rp_status resp = (if needs_is_empty needs then 503 else 400)
       | Inr (t # ts) \<Rightarrow> rp_status resp \<in> {200, 502})"
proof -
  obtain r rr' where r: "resolve_targets_with_strategy c (mo_floats m) (mo_draw m) d who (cq_model req) needs (mo_resolved m) rr = (r, rr')"
    by fastforce
  show ?thesis
  proof (cases r)
    case (Inl e)
    then show ?thesis
      using unknown_names_text by (auto simp: handle_non_streaming_def r resolution_status)
  next
    case (Inr ts)
    show ?thesis
    proof (cases ts)
      case Nil
      then show ?thesis
        by (simp add: handle_non_streaming_def r Inr no_targets_def service_unavailable_def
            capability_unavailable_def json_reply_def)
    next
      case (Cons t us)
      have "rp_status (fst (handle_non_streaming L m c att who needs req escalate d rr)) \<in> {200, 502}"
        using serve_status[of L m att who]
        by (simp add: handle_non_streaming_def r Inr Cons Let_def split: prod.split) (metis fst_conv)
      then show ?thesis by (simp add: r Inr Cons split: prod.split) auto
    qed
  qed
qed

section \<open>Every attempt leaves a row\<close>

text \<open>The attempts up to the first answer, each with its outcome.\<close>

fun attempts_made :: "(nat \<Rightarrow> target \<Rightarrow> attempt) \<Rightarrow> nat \<Rightarrow> target list \<Rightarrow> (target \<times> attempt) list" where
  "attempts_made att n [] = []"
| "attempts_made att n (t # ts) =
     (t, att n t) # (case att n t of Answered b \<Rightarrow> [] | _ \<Rightarrow> attempts_made att (n + 1) ts)"

fun row_of_attempt :: "string \<Rightarrow> target \<times> attempt \<Rightarrow> usage_record \<Rightarrow> bool" where
  "row_of_attempt who (t, a) u \<longleftrightarrow>
     us_profile_id u = who \<and> us_entry_id u = re_id (tg_entry t) \<and> us_model_id u = re_model_id (tg_entry t)
     \<and> \<not> us_streamed u \<and> (us_success u \<longleftrightarrow> (\<exists>b. a = Answered b))
     \<and> us_status_code u = (case a of Answered b \<Rightarrow> Some 200 | Refused pe \<Rightarrow> Some (pe_status pe) | _ \<Rightarrow> None)
     \<and> us_error_message u = (case a of Answered b \<Rightarrow> None | Broken msg \<Rightarrow> Some msg
         | _ \<Rightarrow> Some ''provider returned an error response'')"

lemma record_usage_row:
  assumes "nu_entry_id u \<in> entry_ids d"
  shows "\<exists>r. usage (snd (record_usage u now d)) = usage d @ [r] \<and> us_profile_id r = nu_profile_id u
    \<and> us_entry_id r = nu_entry_id u \<and> us_model_id r = nu_model_id u \<and> us_streamed r = nu_streamed u
    \<and> us_success r = nu_success u \<and> us_status_code r = nu_status_code u
    \<and> us_error_message r = nu_error_message u \<and> us_prompt_tokens r = nu_prompt_tokens u
    \<and> us_completion_tokens r = nu_completion_tokens u \<and> us_cached_prompt_tokens r = nu_cached_prompt_tokens u"
  using assms by (simp add: record_usage_def Let_def)

lemma log_attempt_row:
  assumes "re_id (tg_entry t) \<in> entry_ids d"
  shows "\<exists>rows. usage (log_attempt L who t a latency now d) = usage d @ rows
    \<and> list_all2 (row_of_attempt who) (filter (\<lambda>(t, a). a \<noteq> Timed_Out) [(t, a)]) rows"
proof (cases "attempt_row L who t a latency")
  case None
  then show ?thesis by (cases a) (simp_all add: log_attempt_def attempt_row_def Let_def)
next
  case (Some u)
  then have "nu_entry_id u \<in> entry_ids d"
    using assms by (cases a) (auto simp: attempt_row_def Let_def)
  then obtain r where "usage (snd (record_usage u now d)) = usage d @ [r]" "us_profile_id r = nu_profile_id u"
    "us_entry_id r = nu_entry_id u" "us_model_id r = nu_model_id u" "us_streamed r = nu_streamed u"
    "us_success r = nu_success u" "us_status_code r = nu_status_code u" "us_error_message r = nu_error_message u"
    using record_usage_row by blast
  then show ?thesis using Some
    by (cases a) (auto simp: log_attempt_def attempt_row_def Let_def intro!: exI[of _ "[r]"])
qed

lemma log_attempts_rows:
  assumes "\<forall>t\<in>set ts. re_id (tg_entry t) \<in> entry_ids d"
  shows "\<exists>rows. usage (log_attempts L m who att n ts d) = usage d @ rows
    \<and> list_all2 (row_of_attempt who) (filter (\<lambda>(t, a). a \<noteq> Timed_Out) (attempts_made att n ts)) rows"
  using assms
proof (induction ts arbitrary: n d)
  case (Cons t ts)
  define d1 where "d1 = log_attempt L who t (att n t) (mo_latency m n) (mo_logged m n) d"
  obtain r1 where r1: "usage d1 = usage d @ r1"
    "list_all2 (row_of_attempt who) (filter (\<lambda>(t, a). a \<noteq> Timed_Out) [(t, att n t)]) r1"
    using log_attempt_row[of t d L who "att n t" "mo_latency m n" "mo_logged m n"] Cons.prems unfolding d1_def
    by (auto simp del: filter.simps)
  have "entry_ids d1 = entry_ids d"
    using logs_attempts[of d L m who att n "[t]"]
    by (cases "att n t") (auto simp: d1_def entry_ids_def logs_fields)
  then obtain r2 where r2: "usage (log_attempts L m who att (n + 1) ts d1) = usage d1 @ r2"
    "list_all2 (row_of_attempt who) (filter (\<lambda>(t, a). a \<noteq> Timed_Out) (attempts_made att (n + 1) ts)) r2"
    using Cons.IH[of d1 "n + 1"] Cons.prems by auto
  show ?case
  proof (cases "\<exists>b. att n t = Answered b")
    case True
    then show ?thesis using r1 by (auto simp: Let_def d1_def[symmetric] simp flip: d1_def)
  next
    case False
    then have eq: "log_attempts L m who att n (t # ts) d = log_attempts L m who att (n + 1) ts d1"
      "attempts_made att n (t # ts) = [(t, att n t)] @ attempts_made att (n + 1) ts"
      by (cases "att n t"; simp add: Let_def d1_def)+
    have "list_all2 (row_of_attempt who) (filter (\<lambda>(t, a). a \<noteq> Timed_Out) (attempts_made att n (t # ts))) (r1 @ r2)"
      unfolding eq filter_append by (rule list_all2_appendI[OF r1(2) r2(2)])
    then show ?thesis unfolding eq(1) using r1(1) r2(1) by (intro exI[of _ "r1 @ r2"]) simp
  qed
qed simp

text \<open>
  C35. Every attempt that came back leaves exactly one row in the usage log, in the order they
  were made, with its entry, its outcome and the upstream's status; one that ran out of time
  leaves none. What the log says of an upstream's refusal is always the same text.
\<close>

theorem attempts_logged:
  assumes "\<forall>t\<in>set targets. re_id (tg_entry t) \<in> entry_ids d"
  shows "\<exists>rows. usage (snd (logged_failover L m who att targets d)) = usage d @ rows
    \<and> list_all2 (row_of_attempt who) (filter (\<lambda>(t, a). a \<noteq> Timed_Out) (attempts_made att 0 targets)) rows"
proof -
  have "usage (snd (execute_with_failover parse secs clock att ts d)) = usage d" for parse secs clock ts d
  proof -
    obtain r d' where r: "execute_with_failover parse secs clock att ts d = (r, d')" by fastforce
    show ?thesis
    proof (cases r)
      case (Inl e)
      from failover_frame[OF r[unfolded this]] have "d' = d\<lparr>entries := entries d'\<rparr>" ..
      then have "usage d' = usage (d\<lparr>entries := entries d'\<rparr>)" by (rule arg_cong)
      then show ?thesis by (simp add: r)
    next
      case (Inr b)
      then show ?thesis using r first_answer_wins[of parse secs clock att ts d b d'] by simp
    qed
  qed
  then show ?thesis
    using log_attempts_rows[OF assms] by (simp add: logged_failover_def)
qed

section \<open>A route with a cache\<close>

text \<open>The store of the witnesses with a cache on its first route, and one upstream that answers.\<close>

definition cached_store :: db where
  "cached_store = exec_op (On_Route (Route_Economy 1 0 60)) demo_store"

definition demo_library :: library where
  "demo_library = \<lparr>lb_js = demo_codec, lb_sha256_hex = id, lb_debug = id, lb_store_text = (\<lambda>_. []),
     lb_status_text = decimal \<circ> nat, lb_timeout_text = ''30s''\<rparr>"

definition demo_moment :: "int \<Rightarrow> moment" where
  "demo_moment now = \<lparr>mo_floats = exact_fl, mo_draw = FFin 0, mo_resolved = now, mo_looked_up = now, mo_stored = now,
     mo_settled = (\<lambda>_. now), mo_logged = (\<lambda>_. now), mo_latency = (\<lambda>_. 5), mo_cooldown_secs = 60\<rparr>"

lemma cached_facts:
  "case fst (resolve_targets_with_strategy tagging_cipher exact_fl (FFin 0) cached_store ''t'' ''p/r'' no_needs 0 (\<lambda>_. None)) of
     Inr (t # ts) \<Rightarrow> Option.is_none (tg_identity t) \<and> list_all (\<lambda>t. re_id (tg_entry t) \<in> {1, 3}) (t # ts) | _ \<Rightarrow> False"
  "route_economy cached_store ''t'' ''p/r'' = (0, 60, Some 1)" "cache cached_store = []"
  "entry_ids cached_store = {1, 2, 3}"
  by code_simp+

lemma cached_resolves:
  obtains t ts rr where "resolve_targets_with_strategy tagging_cipher exact_fl (FFin 0) cached_store ''t'' ''p/r'' no_needs 0 (\<lambda>_. None)
     = (Inr (t # ts), rr)" "tg_identity t = None" "\<forall>t\<in>set (t # ts). re_id (tg_entry t) \<in> entry_ids cached_store"
proof -
  obtain r rr where r: "resolve_targets_with_strategy tagging_cipher exact_fl (FFin 0) cached_store ''t'' ''p/r'' no_needs 0 (\<lambda>_. None) = (r, rr)"
    by fastforce
  then obtain t ts where "r = Inr (t # ts)" "tg_identity t = None" "\<forall>t\<in>set (t # ts). re_id (tg_entry t) \<in> {1, 3}"
    using cached_facts(1) by (auto simp: Option.is_none_def list_all_iff split: sum.splits list.splits)
  then show thesis using that[OF r[unfolded \<open>r = _\<close>]] cached_facts(4) by blast
qed

lemma cached_ok: "db_ok cached_store"
  by (simp add: cached_store_def demo_store_def keeps del: exec_op.simps)

lemma cached_first:
  obtains t ts rr d' where "resolve_targets_with_strategy tagging_cipher exact_fl (FFin 0) cached_store ''t'' ''p/r'' no_needs 0 (\<lambda>_. None)
     = (Inr (t # ts), rr)" "tg_identity t = None"
    "handle_non_streaming demo_library (demo_moment 0) tagging_cipher (\<lambda>_ _ _. Answered ''yes'') ''t'' no_needs plain_request
       False cached_store (\<lambda>_. None) = (ok_reply ''MISS'' ''yes'', d', rr)"
proof (rule cached_resolves)
  fix t ts rr
  assume res: "resolve_targets_with_strategy tagging_cipher exact_fl (FFin 0) cached_store ''t'' ''p/r'' no_needs 0 (\<lambda>_. None)
     = (Inr (t # ts), rr)" "tg_identity t = None"
  have look: "fst (look_answer k now cached_store) = None" for k now
    by (simp add: look_answer_eq cache_get_def drop_expired_def cached_facts(3))
  have "fst (logged_failover L m who (\<lambda>_ _. Answered b) (t # ts) d) = Inr b" for L m who b d
    by (simp add: logged_failover_def execute_with_failover_def)
  then have run: "\<exists>d'. logged_failover L m who (\<lambda>_ _. Answered b) (t # ts) d = (Inr b, d')" for L m who b d
    by (metis prod.collapse)
  have "fst (serve_chat L (demo_moment 0) (\<lambda>_ _ _. Answered b) who key ttl (t # ts) r cached_store) = ok_reply ''MISS'' b" for L b who key ttl r
  proof -
    obtain d1 where d1: "(case key of None \<Rightarrow> (None, cached_store) | Some k \<Rightarrow> look_answer k (mo_looked_up (demo_moment 0)) cached_store) = (None, d1)"
      using look by (cases key) (auto, metis prod.collapse)
    obtain d2 where d2: "logged_failover L (demo_moment 0) who (\<lambda>_ _. Answered b) (t # ts) d1 = (Inr b, d2)"
      using run by blast
    show ?thesis by (simp add: serve_chat_def d1 d2)
  qed
  with res show thesis
    using that handle_resolved[of tagging_cipher "demo_moment 0" cached_store "''t''" plain_request no_needs "\<lambda>_. None" t ts rr 0 60 "Some 1"
        demo_library "\<lambda>_ _ _. Answered ''yes''"]
    by (simp add: demo_moment_def plain_request_def cached_facts(2) Let_def)
qed

theorem chat_keeps_integrity_witness:
  "db_ok (fst (snd (handle_non_streaming demo_library (demo_moment 0) tagging_cipher (\<lambda>_ _ _. Timed_Out) ''t'' no_needs plain_request
      False cached_store (\<lambda>_. None))))"
proof -
  obtain resp d' rr' where h: "handle_non_streaming demo_library (demo_moment 0) tagging_cipher (\<lambda>_ _ _. Timed_Out) ''t'' no_needs
      plain_request False cached_store (\<lambda>_. None) = (resp, d', rr')" by (metis prod_cases3)
  from chat_keeps_integrity[OF this cached_ok] show ?thesis by (simp add: h)
qed


theorem attempts_logged_witness:
  "\<exists>rows. usage (snd (logged_failover demo_library (demo_moment 0) ''t'' (\<lambda>n _. if n = 0 then Timed_Out else Answered ''yes'')
      demo_targets demo_store)) = rows \<and> length rows = 1"
proof -
  let ?att = "\<lambda>n (_ :: target). if n = 0 then Timed_Out else Answered ''yes''"
  have "list_all (\<lambda>t. re_id (tg_entry t) \<in> entry_ids demo_store) demo_targets" "usage demo_store = []"
    by code_simp+
  then obtain rows where rows: "usage (snd (logged_failover demo_library (demo_moment 0) ''t'' ?att demo_targets demo_store)) = rows"
    "list_all2 (row_of_attempt ''t'') (filter (\<lambda>(t, a). a \<noteq> Timed_Out) (attempts_made ?att 0 demo_targets)) rows"
    using attempts_logged[of demo_targets demo_store demo_library "demo_moment 0" "''t''" ?att] by (auto simp: list_all_iff)
  then show ?thesis by (auto simp: demo_targets_def dest: list_all2_lengthD)
qed

end
