(* ===== verification/Completions.thy ===== *)
theory Completions
  imports Handlers_Props
begin

text \<open>
  The two passthrough surfaces, \<open>/v1/completions\<close> and \<open>/v1/embeddings\<close>
  (\<open>src/server/handlers.rs\<close>): the request struct each reads and writes back, the request
  sent to a target, and the buffered handler. Rounding a number to \<open>f32\<close> is an argument.
\<close>

section \<open>The requests\<close>

record completion_request =
  cp_model :: string
  cp_prompt :: string
  cp_max_tokens :: "nat option"
  cp_temperature :: "rat option"
  cp_top_p :: "rat option"
  cp_stream :: bool
  cp_echo :: bool

text \<open>Reading an optional member: absent and null are \<open>None\<close>, another type is an error.\<close>

definition opt_member :: "(json \<Rightarrow> 'a option) \<Rightarrow> json option \<Rightarrow> 'a option option" where
  "opt_member f v = (case v of None \<Rightarrow> Some None | Some JNull \<Rightarrow> Some None | Some x \<Rightarrow> map_option Some (f x))"

definition as_u32 :: "json \<Rightarrow> nat option" where
  "as_u32 v = (case as_u64 v of Some n \<Rightarrow> if n < 2 ^ 32 then Some n else None | None \<Rightarrow> None)"

fun as_f32 :: "(rat \<Rightarrow> rat) \<Rightarrow> json \<Rightarrow> rat option" where
  "as_f32 narrow (JInt n) = Some (narrow (of_int n))"
| "as_f32 narrow (JFloat q) = Some (narrow q)"
| "as_f32 narrow _ = None"

definition bool_member :: "json option \<Rightarrow> bool option" where
  "bool_member v = (case v of None \<Rightarrow> Some False | Some x \<Rightarrow> as_bool x)"

definition completion_of_json :: "(rat \<Rightarrow> rat) \<Rightarrow> json \<Rightarrow> completion_request option" where
  "completion_of_json narrow v =
     (case (and_then (get ''model'' v) as_str, and_then (get ''prompt'' v) as_str,
            opt_member as_u32 (get ''max_tokens'' v), opt_member (as_f32 narrow) (get ''temperature'' v),
            opt_member (as_f32 narrow) (get ''top_p'' v), bool_member (get ''stream'' v), bool_member (get ''echo'' v)) of
        (Some model, Some prompt, Some n, Some te, Some tp, Some st, Some ec) \<Rightarrow>
          Some \<lparr>cp_model = model, cp_prompt = prompt, cp_max_tokens = n, cp_temperature = te, cp_top_p = tp,
                cp_stream = st, cp_echo = ec\<rparr>
      | _ \<Rightarrow> None)"

definition opt_json :: "('a \<Rightarrow> json) \<Rightarrow> 'a option \<Rightarrow> json" where
  "opt_json f x = (case x of None \<Rightarrow> JNull | Some y \<Rightarrow> f y)"

definition completion_to_json :: "completion_request \<Rightarrow> json" where
  "completion_to_json r = object
     [(''model'', JStr (cp_model r)), (''prompt'', JStr (cp_prompt r)),
      (''max_tokens'', opt_json (JInt \<circ> int) (cp_max_tokens r)),
      (''temperature'', opt_json JFloat (cp_temperature r)), (''top_p'', opt_json JFloat (cp_top_p r)),
      (''stream'', JBool (cp_stream r)), (''echo'', JBool (cp_echo r))]"

record embedding_request =
  em_model :: string
  em_input :: json

definition embedding_of_json :: "json \<Rightarrow> embedding_request option" where
  "embedding_of_json v =
     (case (and_then (get ''model'' v) as_str, get ''input'' v) of
        (Some model, Some x) \<Rightarrow> Some \<lparr>em_model = model, em_input = x\<rparr> | _ \<Rightarrow> None)"

definition embedding_to_json :: "embedding_request \<Rightarrow> json" where
  "embedding_to_json r = object [(''model'', JStr (em_model r)), (''input'', em_input r)]"

section \<open>Sending them on\<close>

text \<open>
  The attempt on one target: the body as serde writes it with the target's model, the
  credentials, and the path behind the provider's base URL.
\<close>

definition passthrough_url :: "string \<Rightarrow> target \<Rightarrow> string" where
  "passthrough_url path t = trim_end_matches CHR ''/'' (pv_base_url (tg_provider t)) @ ''/v1/'' @ path"

definition passthrough_headers :: "target \<Rightarrow> headers" where
  "passthrough_headers t =
     [(''Authorization'', ''Bearer '' @ pv_auth_token (tg_provider t)), (''Content-Type'', ''application/json'')]"

definition passthrough_body :: "target \<Rightarrow> json \<Rightarrow> json" where
  "passthrough_body t v = with_members [(''model'', JStr (re_model_id (tg_entry t)))] v"

definition passthrough_attempt ::
  "(string \<Rightarrow> headers \<Rightarrow> json \<Rightarrow> http_reply option) \<Rightarrow> float_ops \<Rightarrow> float_text \<Rightarrow> string \<Rightarrow> json \<Rightarrow> target \<Rightarrow> attempt" where
  "passthrough_attempt send fl ft path v t =
     (case send (passthrough_url path t) (passthrough_headers t) (passthrough_body t v) of
        None \<Rightarrow> Broken ''upstream failed''
      | Some resp \<Rightarrow>
          (case hr_body resp of
             None \<Rightarrow> Broken ''failed to read response''
           | Some b \<Rightarrow>
               (if is_success (hr_status resp) then Answered b
                else Refused \<lparr>pe_status = hr_status resp, pe_body = from_utf8_lossy b,
                       pe_retry_after = retry_after_secs fl ft (hr_headers resp)\<rparr>)))"

text \<open>An attempt that fails returns before it logs itself: only answers have rows.\<close>

fun log_answer ::
  "library \<Rightarrow> moment \<Rightarrow> string \<Rightarrow> (nat \<Rightarrow> target \<Rightarrow> attempt) \<Rightarrow> nat \<Rightarrow> target list \<Rightarrow> db \<Rightarrow> db" where
  "log_answer L m who att n [] d = d"
| "log_answer L m who att n (t # ts) d =
     (case att n t of
        Answered b \<Rightarrow> log_attempt L who t (Answered b) (mo_latency m n) (mo_logged m n) d
      | _ \<Rightarrow> log_answer L m who att (n + 1) ts d)"

text \<open>\<open>handle_completion\<close> and \<open>handle_embeddings\<close>: they differ in the path and the body.\<close>

definition handle_passthrough ::
  "library \<Rightarrow> moment \<Rightarrow> cipher \<Rightarrow> (nat \<Rightarrow> target \<Rightarrow> attempt) \<Rightarrow> string \<Rightarrow> string \<Rightarrow> db \<Rightarrow> rr_state \<Rightarrow> response \<times> db \<times> rr_state" where
  "handle_passthrough L m c att who model d rr =
     (case resolve_targets_with_strategy c (mo_floats m) (mo_draw m) d who model no_needs (mo_resolved m) rr of
        (Inl e, rr') \<Rightarrow> (resolution_reply L (route_error_text L d model e), d, rr')
      | (Inr [], rr') \<Rightarrow> (no_targets L no_needs, d, rr')
      | (Inr ts, rr') \<Rightarrow>
          (case execute_with_failover (js_parse (lb_js L)) (mo_cooldown_secs m) (mo_settled m) att ts
                  (log_answer L m who att 0 ts d) of
             (Inr b, d') \<Rightarrow> (\<lparr>rp_status = 200, rp_headers = [(''Content-Type'', ''application/json'')], rp_body = b\<rparr>, d', rr')
           | (Inl e, d') \<Rightarrow> (bad_request L (''all providers failed: '' @ failure_text L e), d', rr')))"

definition handle_completion ::
  "library \<Rightarrow> moment \<Rightarrow> cipher \<Rightarrow> (nat \<Rightarrow> bool) \<Rightarrow> (string \<Rightarrow> headers \<Rightarrow> json \<Rightarrow> http_reply option) \<Rightarrow> float_text \<Rightarrow> string
     \<Rightarrow> completion_request \<Rightarrow> db \<Rightarrow> rr_state \<Rightarrow> response \<times> db \<times> rr_state" where
  "handle_completion L m c late send ft who r d rr =
     handle_passthrough L m c (within_timeout late (passthrough_attempt send (mo_floats m) ft ''completions'' (completion_to_json r))) who (cp_model r) d rr"

definition handle_embeddings ::
  "library \<Rightarrow> moment \<Rightarrow> cipher \<Rightarrow> (nat \<Rightarrow> bool) \<Rightarrow> (string \<Rightarrow> headers \<Rightarrow> json \<Rightarrow> http_reply option) \<Rightarrow> float_text \<Rightarrow> string
     \<Rightarrow> embedding_request \<Rightarrow> db \<Rightarrow> rr_state \<Rightarrow> response \<times> db \<times> rr_state" where
  "handle_embeddings L m c late send ft who r d rr =
     handle_passthrough L m c (within_timeout late (passthrough_attempt send (mo_floats m) ft ''embeddings'' (embedding_to_json r))) who (em_model r) d rr"

section \<open>What the passthrough does to a request\<close>

text \<open>
  A completion request is not passed through as it came: what is sent has the seven
  members of the struct and no other - a field the struct does not name is dropped, a limit
  that was absent is sent as null, a temperature is rounded - with the model of the entry.
\<close>

theorem completion_members:
  assumes "completion_of_json narrow v = Some r"
  shows "passthrough_body t (completion_to_json r) = object
     [(''model'', JStr (re_model_id (tg_entry t))), (''prompt'', or_default JNull (get ''prompt'' v)),
      (''max_tokens'', or_default JNull (get ''max_tokens'' v)),
      (''temperature'', opt_json JFloat (cp_temperature r)), (''top_p'', opt_json JFloat (cp_top_p r)),
      (''stream'', or_default (JBool False) (get ''stream'' v)), (''echo'', or_default (JBool False) (get ''echo'' v))]
    \<and> (\<forall>q. get ''temperature'' v = Some (JFloat q) \<longrightarrow> cp_temperature r = Some (narrow q))"
proof -
  have str: "x = JStr s" if "as_str x = Some s" for x s using that by (cases x) auto
  have bool: "x = JBool b" if "as_bool x = Some b" for x b using that by (cases x) auto
  have u32: "x = JInt (int n)" if "as_u32 x = Some n" for x n
    using that by (cases x) (auto simp: as_u32_def split: if_splits)
  from assms obtain p n st ec where r: "and_then (get ''prompt'' v) as_str = Some p" "cp_prompt r = p"
    "opt_member as_u32 (get ''max_tokens'' v) = Some n" "cp_max_tokens r = n"
    "bool_member (get ''stream'' v) = Some st" "cp_stream r = st" "bool_member (get ''echo'' v) = Some ec" "cp_echo r = ec"
    "opt_member (as_f32 narrow) (get ''temperature'' v) = Some (cp_temperature r)"
    by (auto simp: completion_of_json_def split: option.splits)
  have "or_default JNull (get ''prompt'' v) = JStr p"
    using r(1) by (auto simp: and_then_def or_default_def dest: str split: option.splits)
  moreover have "or_default JNull (get ''max_tokens'' v) = opt_json (JInt \<circ> int) n"
    using r(3) by (auto simp: opt_member_def or_default_def opt_json_def dest: u32 split: option.splits json.splits)
  moreover have "or_default (JBool False) (get k v) = JBool b" if "bool_member (get k v) = Some b" for k b
    using that by (auto simp: bool_member_def or_default_def dest: bool split: option.splits)
  moreover have "cp_temperature r = Some (narrow q)" if "get ''temperature'' v = Some (JFloat q)" for q
    using r(9) that by (simp add: opt_member_def)
  moreover have "passthrough_body t (completion_to_json r) = object
     [(''model'', JStr (re_model_id (tg_entry t))), (''prompt'', JStr p), (''max_tokens'', opt_json (JInt \<circ> int) n),
      (''temperature'', opt_json JFloat (cp_temperature r)), (''top_p'', opt_json JFloat (cp_top_p r)),
      (''stream'', JBool st), (''echo'', JBool ec)]"
    using r by (simp add: passthrough_body_def with_members_def completion_to_json_def object_def)
  ultimately show ?thesis using r(5,7) by simp
qed

text \<open>
  The passthrough surfaces do not know masks: what an attempt returns for a provider that
  has one is what it returns for the same provider without, and it depends only on what the
  provider's own URL answers.
\<close>

theorem passthrough_ignores_masks:
  assumes "\<And>hs body. send (passthrough_url path t) hs body = send' (passthrough_url path t) hs body"
  shows "passthrough_attempt send fl ft path v (t\<lparr>tg_provider := (tg_provider t)\<lparr>pv_mask := hop\<rparr>\<rparr>)
    = passthrough_attempt send' fl ft path v t"
  using assms by (simp add: passthrough_attempt_def passthrough_url_def passthrough_headers_def passthrough_body_def)

definition completion_json_demo :: json where
  "completion_json_demo = JObj [(''model'', JStr ''p/r''), (''n'', JInt 3), (''prompt'', JStr ''hi''), (''stop'', JStr ''.''),
     (''temperature'', JFloat (7/10))]"

theorem completion_members_witness:
  "\<exists>r. completion_of_json (\<lambda>q. of_int (round (q * 2 ^ 24)) / 2 ^ 24) completion_json_demo = Some r
     \<and> get ''stop'' (passthrough_body (demo_provider_target OpenAI) (completion_to_json r)) = None
     \<and> get ''max_tokens'' (passthrough_body (demo_provider_target OpenAI) (completion_to_json r)) = Some JNull"
proof -
  let ?narrow = "\<lambda>q :: rat. of_int (round (q * 2 ^ 24)) / 2 ^ 24"
  have "completion_of_json ?narrow completion_json_demo \<noteq> None"
    by (simp add: completion_of_json_def completion_json_demo_def opt_member_def bool_member_def and_then_def)
  then obtain r where r: "completion_of_json ?narrow completion_json_demo = Some r" by blast
  from completion_members[OF this, of "demo_provider_target OpenAI"] show ?thesis
    using r by (simp add: get_object_distinct completion_json_demo_def or_default_def)
qed

theorem passthrough_ignores_masks_witness:
  "passthrough_attempt (\<lambda>_ _ _. None) exact_fl demo_ft ''completions'' JNull (masked_target\<lparr>tg_provider := (tg_provider masked_target)\<lparr>pv_mask := Some demo_mask\<rparr>\<rparr>)
   = passthrough_attempt (\<lambda>u _ _. if u = mk_endpoint_url demo_mask then Some undefined else None) exact_fl demo_ft ''completions'' JNull masked_target"
  by (rule passthrough_ignores_masks)
     (simp add: passthrough_url_def masked_target_def provider_of_def spec_x_def demo_mask_def trim_end_matches_def trim_end_by_def)

end
