(* ===== verification/Streaming.thy ===== *)
theory Streaming
  imports Handlers_Props
begin

text \<open>
  The streamed chat request (\<open>src/server/handlers.rs\<close> from \<open>handle_streaming\<close> on, and
  \<open>render_openai_chunk\<close> of \<open>src/server/sse.rs\<close>): each target is opened and probed, the first
  one whose body proves itself is committed to, and its stream is pumped to the client. An
  upstream's body is the list of what arrives of it; the client is how many messages it
  still takes.
\<close>

section \<open>Rendering a chunk\<close>

definition tool_delta_json :: "tool_call_delta \<Rightarrow> json" where
  "tool_delta_json t =
     (let function = (case td_name t of None \<Rightarrow> [] | Some n \<Rightarrow> [(''name'', JStr n)])
            @ (case td_arguments t of None \<Rightarrow> [] | Some a \<Rightarrow> [(''arguments'', JStr a)])
      in object ([(''index'', JInt (int (td_index t)))]
           @ (case td_id t of None \<Rightarrow> [] | Some i \<Rightarrow> [(''id'', JStr i), (''type'', JStr ''function'')])
           @ (if function = [] then [] else [(''function'', object function)])))"

definition delta_members :: "stream_event \<Rightarrow> bool \<Rightarrow> (string \<times> json) list" where
  "delta_members ev include_role =
     (if include_role then [(''role'', JStr ''assistant'')] else [])
     @ (if se_delta ev = [] then [] else [(''content'', JStr (se_delta ev))])
     @ (if se_tool_call_deltas ev = [] then []
        else [(''tool_calls'', JArr (map tool_delta_json (se_tool_call_deltas ev)))])"

definition chunk_json :: "string \<Rightarrow> string \<Rightarrow> int \<Rightarrow> json \<Rightarrow> string option \<Rightarrow> json" where
  "chunk_json model i created delta reason =
     object [(''id'', JStr i), (''object'', JStr ''chat.completion.chunk''), (''created'', JInt created),
       (''model'', JStr model),
       (''choices'', JArr [object [(''index'', JInt 0), (''delta'', delta),
          (''finish_reason'', case reason of None \<Rightarrow> JNull | Some r \<Rightarrow> JStr r)]])]"

definition render_openai_chunk :: "(json \<Rightarrow> string) \<Rightarrow> int \<Rightarrow> string \<Rightarrow> string \<Rightarrow> stream_event \<Rightarrow> bool \<Rightarrow> string option" where
  "render_openai_chunk print created model i ev include_role =
     (let delta = delta_members ev include_role in
      if delta = [] \<and> se_finish_reason ev = None then None
      else Some (print (chunk_json model i created (object delta) (se_finish_reason ev))))"

section \<open>What arrives\<close>

text \<open>A silence is one longer than the idle window; with a window of zero nothing is too long.\<close>

datatype arrival = Bytes bytes | Silence | Cut string

datatype next_item = Chunk bytes | End_Of_Body | Idle | Transport string

fun next_chunk :: "bool \<Rightarrow> arrival list \<Rightarrow> next_item \<times> arrival list" where
  "next_chunk guarded [] = (End_Of_Body, [])"
| "next_chunk guarded (Bytes b # as) = (Chunk b, as)"
| "next_chunk guarded (Cut e # as) = (Transport e, as)"
| "next_chunk guarded (Silence # as) = (if guarded then (Idle, as) else next_chunk guarded as)"

lemma next_chunk_result:
  "(case fst (next_chunk guarded as) of End_Of_Body \<Rightarrow> snd (next_chunk guarded as) = []
      | _ \<Rightarrow> length (snd (next_chunk guarded as)) < length as)"
  by (induction guarded as rule: next_chunk.induct) (auto split: next_item.splits)

lemma next_chunk_length:
  "(Chunk b, as') = next_chunk guarded as \<Longrightarrow> length as' < length as"
  "(End_Of_Body, as') = next_chunk guarded as \<Longrightarrow> as' = []"
  using next_chunk_result[of guarded as] by (cases "next_chunk guarded as"; simp)+

section \<open>Probing\<close>

record committed =
  cm_pending :: "sse_frame list"
  cm_buf :: string
  cm_arrivals :: "arrival list"

datatype probe =
    Committed committed
  | In_Band_Error "int option" string
  | Probe_Failed string
  | Probe_Timeout
  | Probe_Transport string

text \<open>The loop of \<open>probe_stream\<close>: a decoded frame decides, otherwise the next chunk is read.\<close>

function probe_loop ::
  "(string \<Rightarrow> json option) \<Rightarrow> bool \<Rightarrow> sse_frame list \<Rightarrow> string \<Rightarrow> arrival list \<Rightarrow> probe" where
  "probe_loop from_str guarded (f # pending) buf as =
     (case classify from_str (sf_data f) of
        Error_Frame c msg raw \<Rightarrow> In_Band_Error c msg
      | Done \<Rightarrow>
          (if pending = [] \<and> buf = [] then Probe_Failed ''upstream returned an empty stream (only [DONE])''
           else Committed \<lparr>cm_pending = f # pending, cm_buf = buf, cm_arrivals = as\<rparr>)
      | Other raw j \<Rightarrow> Committed \<lparr>cm_pending = f # pending, cm_buf = buf, cm_arrivals = as\<rparr>)"
| "probe_loop from_str guarded [] buf as =
     (case next_chunk guarded as of
        (Idle, _) \<Rightarrow> Probe_Timeout
      | (End_Of_Body, as') \<Rightarrow>
          (if finish buf = [] then Probe_Failed ''upstream closed the stream without sending data''
           else probe_loop from_str guarded (finish buf) [] as')
      | (Transport e, _) \<Rightarrow> Probe_Transport e
      | (Chunk b, as') \<Rightarrow>
          (let (fs, buf') = feed buf b in probe_loop from_str guarded fs buf' as'))"
  by pat_completeness auto
termination
  by (relation "measure (\<lambda>(_, _, pending, _, as). 2 * length as + (if pending = [] then 1 else 0))")
     (auto dest!: next_chunk_length)

definition probe_stream :: "(string \<Rightarrow> json option) \<Rightarrow> bool \<Rightarrow> arrival list \<Rightarrow> probe" where
  "probe_stream from_str guarded as = probe_loop from_str guarded [] [] as"

section \<open>Pumping\<close>

text \<open>
  What does not change during a pump: the provider's kind, the model the caller named, the id
  of the completion, and the clock read for each rendered chunk.
\<close>

record pump_env =
  pu_lib :: library
  pu_guarded :: bool
  pu_idle_text :: string
  pu_kind :: provider_kind
  pu_model :: string
  pu_id :: string
  pu_created :: "nat \<Rightarrow> int"

datatype sent = Sent bytes | Sent_Error string

text \<open>The client may be gone, or the stream ended, with a failure or without.\<close>

datatype pumped = Client_Gone | Pumped "(int option \<times> string) option" usage3

text \<open>Messages the client still takes; \<open>None\<close> is a client that stays.\<close>

type_synonym room = "nat option"

definition room_left :: "room \<Rightarrow> bool" where
  "room_left r \<longleftrightarrow> r \<noteq> Some 0"

definition take_room :: "room \<Rightarrow> room" where
  "take_room r = map_option (\<lambda>n. n - 1) r"

definition send_to :: "room \<Rightarrow> sent \<Rightarrow> sent list" where
  "send_to r msg = (if room_left r then [msg] else [])"

definition event_line :: "string \<Rightarrow> bytes" where
  "event_line payload = ''data: '' @ payload @ [nl, nl]"

definition or_usage :: "usage3 \<Rightarrow> usage3 \<Rightarrow> usage3" where
  "or_usage u v = (case (u, v) of ((p, c, k), (p', c', k')) \<Rightarrow>
     ((if p = None then p' else p), (if c = None then c' else c), (if k = None then k' else k)))"

definition counted :: "provider_kind \<Rightarrow> json option \<Rightarrow> usage3 \<Rightarrow> usage3" where
  "counted kind j u = (case j of None \<Rightarrow> u | Some v \<Rightarrow> or_usage u (frame_usage kind v))"

definition wrap_i32 :: "int \<Rightarrow> int" where
  "wrap_i32 n = (n + 2 ^ 31) mod 2 ^ 32 - 2 ^ 31"

definition in_band_code :: "int option \<Rightarrow> int" where
  "in_band_code c = wrap_i32 (or_default 502 c)"

text \<open>
  The state of the loop: what was counted, how many chunks were rendered, whether the next
  is the first, and the client's room. What one frame does: the messages sent, and the state
  to go on with or the end.
\<close>

record pump_state =
  ps_usage :: usage3
  ps_rendered :: nat
  ps_first :: bool
  ps_room :: room

definition pump_payload ::
  "pump_env \<Rightarrow> string \<Rightarrow> json option \<Rightarrow> pump_state \<Rightarrow> sent list \<times> (pump_state + pumped)" where
  "pump_payload E raw j s0 =
     (let s = s0\<lparr>ps_usage := counted (pu_kind E) j (ps_usage s0)\<rparr>; r = ps_room s in
      if pu_kind E \<in> {OpenAI, Custom} then
        (if room_left r then ([Sent (to_wire \<lparr>sf_event = [], sf_data = raw\<rparr>)],
                Inl (s\<lparr>ps_first := False, ps_room := take_room r\<rparr>))
         else ([], Inr Client_Gone))
      else if pu_kind E = OpenAIResponses then ([], Inl s)
      else (case parse_stream_chunk (js_parse (lb_js (pu_lib E))) (pu_kind E) raw of
          None \<Rightarrow> ([], Inl s)
        | Some ev \<Rightarrow>
            (case render_openai_chunk (js_print (lb_js (pu_lib E))) (pu_created E (ps_rendered s)) (pu_model E) (pu_id E) ev (ps_first s) of
               None \<Rightarrow>
                 (if se_done ev then (send_to r (Sent (event_line ''[DONE]'')), Inr (Pumped None (ps_usage s)))
                  else ([], Inl s))
             | Some chunk \<Rightarrow>
                 (if \<not> room_left r then ([], Inr Client_Gone)
                  else if se_done ev then
                    (Sent (event_line chunk) # send_to (take_room r) (Sent (event_line ''[DONE]'')), Inr (Pumped None (ps_usage s)))
                  else ([Sent (event_line chunk)],
                        Inl (s\<lparr>ps_first := False, ps_room := take_room r, ps_rendered := ps_rendered s + 1\<rparr>))))))"

definition pump_frame :: "pump_env \<Rightarrow> sse_frame \<Rightarrow> pump_state \<Rightarrow> sent list \<times> (pump_state + pumped)" where
  "pump_frame E f s =
     (case classify (js_parse (lb_js (pu_lib E))) (sf_data f) of
        Done \<Rightarrow> (send_to (ps_room s) (Sent (event_line ''[DONE]'')), Inr (Pumped None (ps_usage s)))
      | Error_Frame c msg raw \<Rightarrow>
          (send_to (ps_room s) (Sent (event_line raw)),
           Inr (Pumped (Some (Some (in_band_code c), ''upstream in-band error: '' @ msg)) (ps_usage s)))
      | Other raw j \<Rightarrow> pump_payload E raw j s)"

text \<open>Messages in front of what the rest of the loop sends.\<close>

definition prepend :: "'a list \<Rightarrow> 'a list \<times> 'b \<Rightarrow> 'a list \<times> 'b" where
  "prepend xs r = (xs @ fst r, snd r)"

function pump_loop ::
  "pump_env \<Rightarrow> sse_frame list \<Rightarrow> string \<Rightarrow> arrival list \<Rightarrow> pump_state \<Rightarrow> sent list \<times> pumped" where
  "pump_loop E (f # pending) buf as s =
     (case pump_frame E f s of
        (out, Inr e) \<Rightarrow> (out, e)
      | (out, Inl s') \<Rightarrow> prepend out (pump_loop E pending buf as s'))"
| "pump_loop E [] buf as s =
     (case next_chunk (pu_guarded E) as of
        (Idle, _) \<Rightarrow> ([], Pumped (Some (Some 504, ''stream idle timeout after '' @ pu_idle_text E)) (ps_usage s))
      | (End_Of_Body, as') \<Rightarrow>
          (if finish buf = [] then ([], Pumped None (ps_usage s)) else pump_loop E (finish buf) [] as' s)
      | (Transport e, _) \<Rightarrow>
          (send_to (ps_room s) (Sent_Error (''stream error: '' @ e)),
           Pumped (Some (None, ''stream error: '' @ e)) (ps_usage s))
      | (Chunk b, as') \<Rightarrow> (let (fs, buf') = feed buf b in pump_loop E fs buf' as' s))"
  by pat_completeness auto

termination
  by (relation "measures [\<lambda>(_, pending, buf, as, _). 2 * length as + (if buf = [] then 0 else 1),
        \<lambda>(_, pending, buf, as, _). length pending]")
     (auto dest!: next_chunk_length simp: finish_def)

section \<open>Rows of streamed attempts\<close>

definition stream_row ::
  "string \<Rightarrow> target \<Rightarrow> bool \<Rightarrow> int option \<Rightarrow> string option \<Rightarrow> int \<Rightarrow> int option \<times> int option \<times> int option \<Rightarrow> new_usage" where
  "stream_row who t success status err latency counts =
     \<lparr>nu_profile_id = who, nu_entry_id = re_id (tg_entry t), nu_model_id = re_model_id (tg_entry t),
      nu_streamed = True, nu_success = success, nu_status_code = status, nu_error_message = err,
      nu_latency_ms = latency, nu_prompt_tokens = fst counts, nu_completion_tokens = fst (snd counts),
      nu_cached_prompt_tokens = snd (snd counts)\<rparr>"

definition log_stream_outcome ::
  "string \<Rightarrow> target \<Rightarrow> bool \<Rightarrow> int option \<Rightarrow> string option \<Rightarrow> int \<Rightarrow> int option \<times> int option \<times> int option \<Rightarrow> int \<Rightarrow> db \<Rightarrow> db" where
  "log_stream_outcome who t success status err latency counts now d =
     snd (record_usage (stream_row who t success status err latency counts) now d)"

definition fail_stream_attempt ::
  "library \<Rightarrow> string \<Rightarrow> target \<Rightarrow> int option \<Rightarrow> string \<Rightarrow> int \<Rightarrow> int \<Rightarrow> db \<Rightarrow> db" where
  "fail_stream_attempt L who t status msg latency now d =
     snd (apply_failure_action (js_parse (lb_js L)) t status msg
       (log_stream_outcome who t False status (Some msg) latency (None, None, None) now d))"

text \<open>\<open>t as i64\<close> of the counts, and the end of a pump.\<close>

definition counts_i64 :: "usage3 \<Rightarrow> int option \<times> int option \<times> int option" where
  "counts_i64 u = (case u of (p, c, k) \<Rightarrow>
     (map_option (wrap_i64 \<circ> int) p, map_option (wrap_i64 \<circ> int) c, map_option (wrap_i64 \<circ> int) k))"

definition settle_pump :: "library \<Rightarrow> string \<Rightarrow> target \<Rightarrow> pumped \<Rightarrow> int \<Rightarrow> int \<Rightarrow> db \<Rightarrow> db" where
  "settle_pump L who t e latency now d =
     (case e of
        Client_Gone \<Rightarrow> d
      | Pumped (Some (status, msg)) u \<Rightarrow> fail_stream_attempt L who t status msg latency now d
      | Pumped None u \<Rightarrow> log_stream_outcome who t True (Some 200) None latency (counts_i64 u) now d)"

section \<open>Attempts\<close>

text \<open>What opening a stream meets: a 2xx with a body, another status, no connection, no headers.\<close>

datatype connection = Opened "arrival list" | Http_Error int bytes | Connect_Failed string | No_Headers

record stream_world =
  sw_open :: "nat \<Rightarrow> string \<Rightarrow> headers \<Rightarrow> json \<Rightarrow> connection"
  sw_send :: "nat \<Rightarrow> string \<Rightarrow> headers \<Rightarrow> json \<Rightarrow> string + http_reply"
  sw_guarded :: bool
  sw_idle_text :: string
  sw_now_secs :: int
  sw_id_millis :: int
  sw_created :: "nat \<Rightarrow> int"
  sw_room :: room
  sw_end_latency :: int
  sw_end_logged :: int

text \<open>A completed answer and its counts, a committed stream, a request not built, a failure.\<close>

datatype stream_attempt =
    Complete json "int option \<times> int option \<times> int option"
  | Commit committed
  | Not_Built string
  | Attempt_Failed "int option" string

definition responses_counts :: "json \<Rightarrow> int option \<times> int option \<times> int option" where
  "responses_counts completion =
     (let u = get ''usage'' completion in
      (and_then (and_then u (get ''input_tokens'')) as_i64, and_then (and_then u (get ''output_tokens'')) as_i64,
       and_then (and_then (and_then u (get ''input_tokens_details'')) (get ''cached_tokens'')) as_i64))"

definition provider_returned :: "library \<Rightarrow> int \<Rightarrow> string \<Rightarrow> string" where
  "provider_returned L status body = ''provider returned '' @ lb_status_text L status @ '': '' @ body"

definition forward_responses_attempt ::
  "library \<Rightarrow> stream_world \<Rightarrow> nat \<Rightarrow> target \<Rightarrow> chat_request \<Rightarrow> stream_attempt" where
  "forward_responses_attempt L w n t req =
     (let js = lb_js L; broken = Attempt_Failed None in
      case build_upstream_request t req False of
        Inl msg \<Rightarrow> broken msg
      | Inr (url, headers, body) \<Rightarrow>
          (case apply_json (\<lambda>b. length (js_print js b)) (pv_mask (tg_provider t)) url headers body of
             Inl msg \<Rightarrow> broken msg
           | Inr (url', headers') \<Rightarrow>
               (case sw_send w n url' headers' body of
                  Inl msg \<Rightarrow> broken msg
                | Inr resp \<Rightarrow>
                    (case hr_body resp of
                       None \<Rightarrow> broken ''reading provider response failed''
                     | Some b \<Rightarrow>
                         (if \<not> is_success (hr_status resp) then
                            (case (if is_mask_rejection (hr_headers resp) then pv_mask (tg_provider t) else None) of
                               Some m \<Rightarrow> broken (rejection_error (lb_status_text L) (mk_name m) (hr_status resp) (from_utf8_lossy b))
                             | None \<Rightarrow> Attempt_Failed (Some (hr_status resp)) (provider_returned L (hr_status resp) (from_utf8_lossy b)))
                          else (case translate_response js (sw_now_secs w) t b of
                             Inl msg \<Rightarrow> broken msg
                           | Inr out \<Rightarrow>
                               (case js_parse js out of
                                  None \<Rightarrow> broken ''translated response is not JSON''
                                | Some completion \<Rightarrow> Complete completion (responses_counts completion))))))))"

definition probed :: "probe \<Rightarrow> stream_attempt" where
  "probed p =
     (case p of
        Committed c \<Rightarrow> Commit c
      | In_Band_Error c msg \<Rightarrow> Attempt_Failed (Some (in_band_code c)) (''upstream in-band error: '' @ msg)
      | Probe_Failed msg \<Rightarrow> Attempt_Failed None msg
      | Probe_Timeout \<Rightarrow> Attempt_Failed (Some 504) ''upstream stalled before sending any stream data''
      | Probe_Transport e \<Rightarrow> Attempt_Failed None (''stream error: '' @ e))"

definition opened :: "library \<Rightarrow> bool \<Rightarrow> connection \<Rightarrow> stream_attempt" where
  "opened L guarded r =
     (case r of
        Opened as \<Rightarrow> probed (probe_stream (js_parse (lb_js L)) guarded as)
      | Http_Error status b \<Rightarrow> Attempt_Failed (Some status) (provider_returned L status (from_utf8_lossy b))
      | Connect_Failed e \<Rightarrow> Attempt_Failed None (''upstream failed: '' @ e)
      | No_Headers \<Rightarrow> Attempt_Failed None ''upstream timeout'')"

definition stream_attempt_on :: "library \<Rightarrow> stream_world \<Rightarrow> chat_request \<Rightarrow> nat \<Rightarrow> target \<Rightarrow> stream_attempt" where
  "stream_attempt_on L w req n t =
     (if pv_kind (tg_provider t) = OpenAIResponses then forward_responses_attempt L w n t req
      else (case build_upstream_request t req True of
          Inl msg \<Rightarrow> Not_Built msg
        | Inr (url, headers, body) \<Rightarrow> opened L (sw_guarded w) (sw_open w n url headers body)))"

section \<open>The loop over the targets\<close>

datatype stream_choice = All_Failed | Answer json | Stream target committed

fun try_streams ::
  "library \<Rightarrow> moment \<Rightarrow> string \<Rightarrow> (nat \<Rightarrow> target \<Rightarrow> stream_attempt) \<Rightarrow> nat \<Rightarrow> target list \<Rightarrow> db \<Rightarrow> stream_choice \<times> db" where
  "try_streams L m who att n [] d = (All_Failed, d)"
| "try_streams L m who att n (t # ts) d =
     (case att n t of
        Complete completion counts \<Rightarrow>
          (Answer completion, log_stream_outcome who t True (Some 200) None (mo_latency m n) counts (mo_logged m n) d)
      | Commit c \<Rightarrow> (Stream t c, d)
      | Not_Built msg \<Rightarrow> try_streams L m who att (n + 1) ts d
      | Attempt_Failed status msg \<Rightarrow>
          try_streams L m who att (n + 1) ts (fail_stream_attempt L who t status msg (mo_latency m n) (mo_logged m n) d))"

section \<open>The handler\<close>

datatype http_out = Whole response | Event_Stream "sent list"

definition completion_wire :: "(json \<Rightarrow> string) \<Rightarrow> json \<Rightarrow> bytes" where
  "completion_wire print completion =
     (let field = (\<lambda>d k. or_default d (and_then (get k completion) as_str));
          i = field ''responses'' ''id''; model = field [] ''model'';
          created = or_default (JInt 0) (get ''created'' completion);
          content = or_default [] (str_at [Key ''choices'', Idx 0, Key ''message'', Key ''content''] completion);
          chunk = (\<lambda>delta reason. print (object
            [(''id'', JStr i), (''object'', JStr ''chat.completion.chunk''), (''created'', created), (''model'', JStr model),
             (''choices'', JArr [object [(''index'', JInt 0), (''delta'', delta),
                (''finish_reason'', if reason = [] then JNull else JStr reason)]])]))
      in event_line (chunk (object [(''role'', JStr ''assistant''), (''content'', JStr content)]) [])
         @ event_line (chunk (object []) ''stop'') @ event_line ''[DONE]'')"

definition sse_headers :: headers where
  "sse_headers = [(''Content-Type'', ''text/event-stream''), (''Cache-Control'', ''no-cache'')]"

definition sse_response_from_completion :: "library \<Rightarrow> json \<Rightarrow> response" where
  "sse_response_from_completion L completion =
     \<lparr>rp_status = 200, rp_headers = sse_headers, rp_body = completion_wire (js_print (lb_js L)) completion\<rparr>"

definition completion_id :: "int \<Rightarrow> int \<Rightarrow> string" where
  "completion_id entry_id millis =
     (let n = (\<lambda>i. (if i < 0 then ''-'' else []) @ decimal (nat (abs i)))
      in ''chatcmpl-'' @ n entry_id @ ''-'' @ n millis)"

definition pump_env_of :: "library \<Rightarrow> stream_world \<Rightarrow> string \<Rightarrow> target \<Rightarrow> pump_env" where
  "pump_env_of L w model t =
     \<lparr>pu_lib = L, pu_guarded = sw_guarded w, pu_idle_text = sw_idle_text w, pu_kind = pv_kind (tg_provider t),
      pu_model = model, pu_id = completion_id (re_id (tg_entry t)) (sw_id_millis w), pu_created = sw_created w\<rparr>"

definition pump_start :: "room \<Rightarrow> pump_state" where
  "pump_start r = \<lparr>ps_usage = (None, None, None), ps_rendered = 0, ps_first = True, ps_room = r\<rparr>"

text \<open>\<open>pump_stream\<close>: what the client is sent, and the store when the stream is over.\<close>

definition pump_stream ::
  "library \<Rightarrow> stream_world \<Rightarrow> string \<Rightarrow> string \<Rightarrow> target \<Rightarrow> committed \<Rightarrow> db \<Rightarrow> sent list \<times> db" where
  "pump_stream L w who model t c d =
     (let (out, e) = pump_loop (pump_env_of L w model t) (cm_pending c) (cm_buf c) (cm_arrivals c) (pump_start (sw_room w))
      in (out, settle_pump L who t e (sw_end_latency w) (sw_end_logged w) d))"

definition all_failed_reply :: "library \<Rightarrow> response" where
  "all_failed_reply L = json_reply L 502 (error_json ''All upstream providers failed'' ''provider_error'' [(''code'', JInt 502)])"

definition stream_resolution_reply :: "library \<Rightarrow> string \<Rightarrow> response" where
  "stream_resolution_reply L msg =
     (if contains msg ''no proxy named'' \<or> contains msg ''no route named'' then not_found L (''model not found: '' @ msg)
      else if contains msg ''must be in'' then bad_request L msg
      else bad_request L (''route resolution failed: '' @ msg))"

definition handle_streaming ::
  "library \<Rightarrow> moment \<Rightarrow> stream_world \<Rightarrow> cipher \<Rightarrow> string \<Rightarrow> request_needs \<Rightarrow> chat_request \<Rightarrow> db \<Rightarrow> rr_state
     \<Rightarrow> http_out \<times> db \<times> rr_state" where
  "handle_streaming L m w c who needs req d rr =
     (case resolve_targets_with_strategy c (mo_floats m) (mo_draw m) d who (cq_model req) needs (mo_resolved m) rr of
        (Inl e, rr') \<Rightarrow> (Whole (stream_resolution_reply L (route_error_text L d (cq_model req) e)), d, rr')
      | (Inr [], rr') \<Rightarrow> (Whole (no_targets L needs), d, rr')
      | (Inr (t # ts), rr') \<Rightarrow>
          (case try_streams L m who (stream_attempt_on L w req) 0 (t # ts) d of
             (All_Failed, d') \<Rightarrow> (Whole (all_failed_reply L), d', rr')
           | (Answer completion, d') \<Rightarrow> (Whole (sse_response_from_completion L completion), d', rr')
           | (Stream s c, d') \<Rightarrow>
               (let (out, d'') = pump_stream L w who (cq_model req) s c d' in (Event_Stream out, d'', rr'))))"

section \<open>Dispatch\<close>

definition HANDLER_BODY_LIMIT :: nat where
  "HANDLER_BODY_LIMIT = 5 * 1024 * 1024"

text \<open>
  \<open>chat_completions\<close>: the identity slot, the escalation header and the body, with the texts
  of the errors of reading and parsing it.
\<close>

definition chat_completions ::
  "library \<Rightarrow> moment \<Rightarrow> stream_world \<Rightarrow> cipher \<Rightarrow> (chat_request \<Rightarrow> nat \<Rightarrow> target \<Rightarrow> attempt) \<Rightarrow> string \<Rightarrow> (bytes \<Rightarrow> string)
     \<Rightarrow> string option \<Rightarrow> string option \<Rightarrow> bytes \<Rightarrow> db \<Rightarrow> rr_state \<Rightarrow> http_out \<times> db \<times> rr_state" where
  "chat_completions L m w c att limit_text parse_text slot escalate_header body d rr =
     (case slot of
        None \<Rightarrow> (Whole (bad_request L ''unauthenticated''), d, rr)
      | Some who \<Rightarrow>
          (if length body > HANDLER_BODY_LIMIT then (Whole (bad_request L (''failed to read body: '' @ limit_text)), d, rr)
           else (case js_parse (lb_js L) body of
               None \<Rightarrow> (Whole (bad_request L (''invalid request body: '' @ parse_text body)), d, rr)
             | Some v \<Rightarrow>
                 (case chat_of_json v of
                    None \<Rightarrow> (Whole (bad_request L (''invalid request body: '' @ parse_text body)), d, rr)
                  | Some req \<Rightarrow>
                      (if cq_stream req then handle_streaming L m w c who (needs_from_body v) req d rr
                       else (let (resp, d', rr') = handle_non_streaming L m c att who (needs_from_body v) req
                                 (wants_escalation_header escalate_header \<or> wants_escalation v) d rr
                             in (Whole resp, d', rr')))))))"

end
