(* ===== verification/Streaming_Props.thy ===== *)
theory Streaming_Props
  imports Streaming
begin

text \<open>
  The streamed request as a whole: what the client is sent depends on the upstream's frames
  and not on how they were cut or on what the probe read; how failures are found, logged and
  acted on; and what the streamed path leaves out that the buffered one has.
\<close>

section \<open>The frames of a body\<close>

datatype ending = Closed | Stalled | Cut_Off string

fun arrived :: "bool \<Rightarrow> arrival list \<Rightarrow> bytes \<times> ending" where
  "arrived guarded [] = ([], Closed)"
| "arrived guarded (Bytes b # as) = (b @ fst (arrived guarded as), snd (arrived guarded as))"
| "arrived guarded (Silence # as) = (if guarded then ([], Stalled) else arrived guarded as)"
| "arrived guarded (Cut e # as) = ([], Cut_Off e)"

definition frames_from :: "string \<Rightarrow> bytes \<times> ending \<Rightarrow> sse_frame list \<times> ending" where
  "frames_from buf r =
     (let (fs, rest) = feed buf (fst r) in (fs @ (if snd r = Closed then finish rest else []), snd r))"

definition body_frames :: "bool \<Rightarrow> arrival list \<Rightarrow> sse_frame list \<times> ending" where
  "body_frames guarded as = frames_from [] (arrived guarded as)"

text \<open>A buffer between two chunks has no complete frame in it.\<close>

definition idle :: "string \<Rightarrow> bool" where
  "idle buf \<longleftrightarrow> feed buf [] = ([], buf)"

lemma idle_Nil [simp]: "idle []"
  by (simp add: idle_def feed_def take_frames.simps)

lemma idle_feed: "feed buf b = (fs, buf') \<Longrightarrow> idle buf'"
  using sse.feed_idle[of buf b] by (simp add: idle_def)

lemma finish_Nil [simp]: "finish [] = []"
  by (simp add: finish_def)

lemma arrived_next:
  "next_chunk guarded as = (Chunk b, as') \<Longrightarrow> arrived guarded as = (b @ fst (arrived guarded as'), snd (arrived guarded as'))"
  "next_chunk guarded as = (End_Of_Body, as') \<Longrightarrow> arrived guarded as = ([], Closed) \<and> as' = []"
  "next_chunk guarded as = (Idle, as') \<Longrightarrow> arrived guarded as = ([], Stalled)"
  "next_chunk guarded as = (Transport e, as') \<Longrightarrow> arrived guarded as = ([], Cut_Off e)"
  by (induction guarded as rule: next_chunk.induct) (auto split: if_splits)

lemma frames_chunk:
  "feed buf b = (fs, buf') \<Longrightarrow> frames_from buf (b @ bs, e) = (fs @ fst (frames_from buf' (bs, e)), e)"
  using sse.feed_append[of buf b bs] by (simp add: frames_from_def split: prod.splits)

lemma frames_end:
  "idle buf \<Longrightarrow> frames_from buf ([], e) = ((if e = Closed then finish buf else []), e)"
  by (simp add: frames_from_def idle_def)

lemma frames_ending [simp]: "snd (frames_from buf r) = snd r"
  by (simp add: frames_from_def split: prod.split)

section \<open>The pump as a function of the frames\<close>

fun pump_frames :: "pump_env \<Rightarrow> sse_frame list \<Rightarrow> ending \<Rightarrow> pump_state \<Rightarrow> sent list \<times> pumped" where
  "pump_frames E [] Closed s = ([], Pumped None (ps_usage s))"
| "pump_frames E [] Stalled s = ([], Pumped (Some (Some 504, ''stream idle timeout after '' @ pu_idle_text E)) (ps_usage s))"
| "pump_frames E [] (Cut_Off e) s =
     (send_to (ps_room s) (Sent_Error (''stream error: '' @ e)), Pumped (Some (None, ''stream error: '' @ e)) (ps_usage s))"
| "pump_frames E (f # fs) e s =
     (case pump_frame E f s of
        (out, Inr r) \<Rightarrow> (out, r)
      | (out, Inl s') \<Rightarrow> prepend out (pump_frames E fs e s'))"

lemma pump_by_frames:
  assumes "idle buf"
  shows "pump_loop E pending buf as s =
    pump_frames E (pending @ fst (frames_from buf (arrived (pu_guarded E) as))) (snd (arrived (pu_guarded E) as)) s"
  using assms
proof (induction E pending buf as s rule: pump_loop.induct)
  case (1 E f pending buf as s)
  then show ?case
    by (cases "pump_frame E f s"; cases "snd (pump_frame E f s)") auto
next
  case (2 E buf as s)
  let ?g = "pu_guarded E"
  obtain r as' where n: "next_chunk ?g as = (r, as')" by fastforce
  show ?case
  proof (cases r)
    case (Chunk b)
    obtain fs buf' where f: "feed buf b = (fs, buf')" by fastforce
    from 2(1)[OF n[symmetric] Chunk f[symmetric] refl idle_feed[OF f]] show ?thesis
      using n Chunk arrived_next(1)[OF n[unfolded Chunk]] frames_chunk[OF f]
      by (simp add: f)
  next
    case End_Of_Body
    note a = arrived_next(2)[OF n[unfolded this]]
    show ?thesis
    proof (cases "finish buf = []")
      case True
      then show ?thesis using n End_Of_Body a 2(3) by (simp add: frames_end)
    next
      case False
      from 2(2)[OF n[symmetric] End_Of_Body False idle_Nil] show ?thesis
        using n End_Of_Body a 2(3) False by (simp add: frames_end)
    qed
  next
    case Idle
    then show ?thesis using n arrived_next(3) 2(3) by (simp add: frames_end)
  next
    case (Transport e)
    then show ?thesis using n arrived_next(4) 2(3) by (simp add: frames_end)
  qed
qed

section \<open>What the probe decides\<close>

lemma probe_keeps_frames:
  assumes "idle buf" "probe_loop from_str guarded pending buf as = Committed c"
  shows "cm_pending c @ fst (frames_from (cm_buf c) (arrived guarded (cm_arrivals c)))
      = pending @ fst (frames_from buf (arrived guarded as))
    \<and> snd (arrived guarded (cm_arrivals c)) = snd (arrived guarded as) \<and> idle (cm_buf c)"
  using assms
proof (induction from_str guarded pending buf as rule: probe_loop.induct)
  case (1 from_str guarded f pending buf as)
  then show ?case by (auto split: frame.splits if_splits)
next
  case (2 from_str guarded buf as)
  obtain r as' where n: "next_chunk guarded as = (r, as')" by fastforce
  show ?case
  proof (cases r)
    case (Chunk b)
    obtain fs buf' where f: "feed buf b = (fs, buf')" by fastforce
    have "probe_loop from_str guarded fs buf' as' = Committed c"
      using 2(4) n Chunk f by simp
    from 2(1)[OF n[symmetric] Chunk f[symmetric] refl idle_feed[OF f] this] show ?thesis
      using arrived_next(1)[OF n[unfolded Chunk]] frames_chunk[OF f] by simp
  next
    case End_Of_Body
    note a = arrived_next(2)[OF n[unfolded this]]
    have nonempty: "finish buf \<noteq> []" and "probe_loop from_str guarded (finish buf) [] as' = Committed c"
      using 2(4) n End_Of_Body by (auto split: if_splits)
    from 2(2)[OF n[symmetric] End_Of_Body nonempty idle_Nil this(2)] show ?thesis
      using a 2(3) by (simp add: frames_end)
  qed (use 2(4) n in simp_all)
qed

text \<open>What the probe says, by the first frame of the body, or how the body ended without one.\<close>

definition verdict :: "(string \<Rightarrow> json option) \<Rightarrow> sse_frame list \<times> ending \<Rightarrow> probe \<Rightarrow> bool" where
  "verdict from_str body p \<longleftrightarrow>
     (case body of
        ([], Closed) \<Rightarrow> p = Probe_Failed ''upstream closed the stream without sending data''
      | ([], Stalled) \<Rightarrow> p = Probe_Timeout
      | ([], Cut_Off e) \<Rightarrow> p = Probe_Transport e
      | (f # fs, _) \<Rightarrow>
          (case classify from_str (sf_data f) of
             Error_Frame c msg raw \<Rightarrow> p = In_Band_Error c msg
           | Done \<Rightarrow> p = Probe_Failed ''upstream returned an empty stream (only [DONE])'' \<or> (\<exists>c. p = Committed c)
           | Other raw j \<Rightarrow> (\<exists>c. p = Committed c)))"

lemma probe_verdict_loop:
  assumes "idle buf"
  shows "verdict from_str (pending @ fst (frames_from buf (arrived guarded as)), snd (arrived guarded as))
    (probe_loop from_str guarded pending buf as)"
  using assms
proof (induction from_str guarded pending buf as rule: probe_loop.induct)
  case (1 from_str guarded f pending buf as)
  then show ?case by (auto simp: verdict_def split: frame.splits)
next
  case (2 from_str guarded buf as)
  obtain r as' where n: "next_chunk guarded as = (r, as')" by fastforce
  show ?case
  proof (cases r)
    case (Chunk b)
    obtain fs buf' where f: "feed buf b = (fs, buf')" by fastforce
    from 2(1)[OF n[symmetric] Chunk f[symmetric] refl idle_feed[OF f]] show ?thesis
      using n Chunk arrived_next(1)[OF n[unfolded Chunk]] frames_chunk[OF f] by (simp add: f)
  next
    case End_Of_Body
    note a = arrived_next(2)[OF n[unfolded this]]
    show ?thesis
    proof (cases "finish buf = []")
      case True
      then show ?thesis using n End_Of_Body a 2(3) by (simp add: frames_end verdict_def)
    next
      case False
      from 2(2)[OF n[symmetric] End_Of_Body False idle_Nil] show ?thesis
        using n End_Of_Body a 2(3) False by (simp add: frames_end)
    qed
  next
    case Idle
    then show ?thesis using n arrived_next(3) 2(3) by (simp add: frames_end verdict_def)
  next
    case (Transport e)
    then show ?thesis using n arrived_next(4) 2(3) by (simp add: frames_end verdict_def)
  qed
qed

text \<open>
  The first frame of a 2xx body decides, however the body is cut into chunks: an error
  payload fails over with its code and text, a payload of any other kind commits, and a body
  that ends, stalls or breaks before its first frame fails over for that reason.
\<close>

theorem first_frame_decides:
  "verdict from_str (body_frames guarded as) (probe_stream from_str guarded as)"
  using probe_verdict_loop[OF idle_Nil, of from_str "[]" guarded as]
  unfolding probe_stream_def body_frames_def by (metis append_Nil frames_ending prod.collapse)

text \<open>
  C20. Nothing the probe read is lost, and the cut into chunks does not matter: once the probe
  has committed, what the client is sent and how the stream ends is the pump's work on the
  frames of the whole body, from its first byte to where it ended, stalled or broke.
\<close>

theorem probe_loses_nothing:
  assumes "probe_stream from_str (pu_guarded E) as = Committed c"
  shows "pump_loop E (cm_pending c) (cm_buf c) (cm_arrivals c) s =
    pump_frames E (fst (body_frames (pu_guarded E) as)) (snd (body_frames (pu_guarded E) as)) s"
proof -
  note kept = probe_keeps_frames[OF idle_Nil assms[unfolded probe_stream_def]]
  show ?thesis
    unfolding pump_by_frames[OF conjunct2[OF conjunct2[OF kept]]] body_frames_def using kept by simp
qed

section \<open>Relaying an OpenAI stream\<close>

definition count_frames :: "provider_kind \<Rightarrow> (string \<Rightarrow> json option) \<Rightarrow> sse_frame list \<Rightarrow> usage3 \<Rightarrow> usage3" where
  "count_frames kind from_str fs u = fold (\<lambda>f. counted kind (from_str (trim (sf_data f)))) fs u"

lemma classify_Other: "classify from_str x = Other raw j \<Longrightarrow> raw = trim x \<and> j = from_str (trim x)"
  by (auto simp: classify_def Let_def split: if_splits option.splits)

abbreviation plain_payload :: "pump_env \<Rightarrow> sse_frame \<Rightarrow> bool" where
  "plain_payload E f \<equiv> (\<exists>raw j. classify (js_parse (lb_js (pu_lib E))) (sf_data f) = Other raw j)"

lemma relay_frames:
  assumes "pu_kind E \<in> {OpenAI, Custom}" "ps_room s = None" "\<forall>f\<in>set fs. plain_payload E f"
  shows "\<exists>s'. pump_frames E (fs @ gs) e s =
      prepend (map (\<lambda>f. Sent (to_wire \<lparr>sf_event = [], sf_data = trim (sf_data f)\<rparr>)) fs) (pump_frames E gs e s')
    \<and> ps_usage s' = count_frames (pu_kind E) (js_parse (lb_js (pu_lib E))) fs (ps_usage s) \<and> ps_room s' = None"
  using assms(2,3)
proof (induction fs arbitrary: s)
  case Nil
  then show ?case by (auto simp: prepend_def count_frames_def)
next
  case (Cons f fs)
  let ?parse = "js_parse (lb_js (pu_lib E))"
  obtain raw j where "classify ?parse (sf_data f) = Other raw j" using Cons.prems by auto
  then have cl: "classify ?parse (sf_data f) = Other (trim (sf_data f)) (?parse (trim (sf_data f)))"
    using classify_Other by fastforce
  let ?s = "s\<lparr>ps_usage := counted (pu_kind E) (?parse (trim (sf_data f))) (ps_usage s), ps_first := False, ps_room := None\<rparr>"
  have step: "pump_frame E f s = ([Sent (to_wire \<lparr>sf_event = [], sf_data = trim (sf_data f)\<rparr>)], Inl ?s)"
    using assms(1) Cons.prems by (auto simp: pump_frame_def cl pump_payload_def Let_def room_left_def take_room_def)
  from Cons.IH[of ?s] Cons.prems show ?case
    by (auto simp: step prepend_def count_frames_def)
qed

text \<open>A client that stays gets every payload before the sentinel, then the sentinel.\<close>

lemma relay_done:
  assumes "pu_kind E \<in> {OpenAI, Custom}" "ps_room s = None" "\<forall>f\<in>set fs. plain_payload E f"
    and "trim (sf_data g) = ''[DONE]''"
  shows "pump_frames E (fs @ g # rest) e s =
    (map (\<lambda>f. Sent (event_line (trim (sf_data f)))) (fs @ [g]),
     Pumped None (count_frames (pu_kind E) (js_parse (lb_js (pu_lib E))) fs (ps_usage s)))"
proof -
  obtain s' where s': "pump_frames E (fs @ g # rest) e s =
      prepend (map (\<lambda>f. Sent (to_wire \<lparr>sf_event = [], sf_data = trim (sf_data f)\<rparr>)) fs) (pump_frames E (g # rest) e s')"
    "ps_usage s' = count_frames (pu_kind E) (js_parse (lb_js (pu_lib E))) fs (ps_usage s)" "ps_room s' = None"
    using relay_frames[OF assms(1-3)] by blast
  have "pump_frame E g s' = ([Sent (event_line ''[DONE]'')], Inr (Pumped None (ps_usage s')))"
    using s'(3) assms(4) by (simp add: pump_frame_def classify_def send_to_def room_left_def)
  then show ?thesis by (simp add: s'(1,2) prepend_def event_line_def to_wire_def assms(4))
qed

section \<open>A rendered chunk, read again\<close>

definition delta_ok :: "tool_call_delta \<Rightarrow> bool" where
  "delta_ok t \<longleftrightarrow> td_index t < 2 ^ 32 \<and> td_call_id t = td_id t \<and> td_id t \<noteq> Some [] \<and> td_name t \<noteq> Some []"

lemma nonempty_id: "x \<noteq> Some [] \<Longrightarrow> nonempty x = x"
  by (simp add: nonempty_def)

lemma tool_delta_back:
  assumes "delta_ok t"
  shows "tool_delta_of n (tool_delta_json t) = t"
proof -
  obtain ix i ci nm a where t: "t = \<lparr>td_index = ix, td_id = i, td_call_id = ci, td_name = nm, td_arguments = a\<rparr>"
    by (cases t) auto
  have "nat (int ix mod 2 ^ 32) = ix" using assms by (simp add: t delta_ok_def nat_mod_distrib)
  then show ?thesis
    using assms
    by (cases i; cases nm; cases a)
       (simp_all add: t tool_delta_of_def tool_delta_json_def Let_def get_object_distinct str_at_def u64_at_def
          and_then_def nonempty_def or_default_def delta_ok_def)
qed

lemma deltas_back:
  "list_all delta_ok ts \<Longrightarrow>
     map (\<lambda>(i, call). tool_delta_of i call) (zip [k..<k + length ts] (map tool_delta_json ts)) = ts"
proof (induction ts arbitrary: k)
  case (Cons t ts)
  from Cons.IH[of "Suc k"] Cons.prems show ?case by (simp add: upt_conv_Cons tool_delta_back del: upt_Suc)
qed simp

text \<open>
  What a translated stream sends, an OpenAI client understands: a rendered chunk, decoded
  by the OpenAI rules, gives back the event's text, its finish reason and its tool-call
  deltas; and an event that renders to nothing has none of the three.
\<close>

theorem chunk_roundtrip:
  assumes "list_all delta_ok (se_tool_call_deltas ev)"
  shows "(case render_openai_chunk print created model i ev role of
      None \<Rightarrow> \<not> role \<and> se_delta ev = [] \<and> se_tool_call_deltas ev = [] \<and> se_finish_reason ev = None
    | Some text \<Rightarrow> \<exists>v. text = print v \<and> openai_stream_event v =
        ev\<lparr>se_prompt_tokens := None, se_completion_tokens := None, se_done := (se_finish_reason ev \<noteq> None)\<rparr>)"
proof -
  let ?ts = "se_tool_call_deltas ev"
  let ?v = "chunk_json model i created (object (delta_members ev role)) (se_finish_reason ev)"
  have delta: "pointer [Key ''choices'', Idx 0, Key ''delta'', Key k] ?v = map_of (delta_members ev role) k" for k
    by (simp add: chunk_json_def get_object_distinct delta_members_def split: option.split)
  have fin: "pointer [Key ''choices'', Idx 0, Key ''finish_reason''] ?v =
      Some (case se_finish_reason ev of None \<Rightarrow> JNull | Some r \<Rightarrow> JStr r)"
    by (simp add: chunk_json_def get_object_distinct)
  have use: "pointer [Key ''usage'', Key k] ?v = None" for k
    by (simp add: chunk_json_def get_object_distinct)
  have "str_at [Key ''choices'', Idx 0, Key ''delta'', Key ''content''] ?v = (if se_delta ev = [] then None else Some (se_delta ev))"
    unfolding str_at_def delta by (simp add: delta_members_def and_then_def)
  moreover have "str_at [Key ''choices'', Idx 0, Key ''finish_reason''] ?v = se_finish_reason ev"
    unfolding str_at_def fin by (simp add: and_then_def split: option.split)
  moreover have "parse_stream_tool_calls ?v = ?ts"
    unfolding parse_stream_tool_calls_def delta using deltas_back[OF assms, of 0]
    by (simp add: delta_members_def and_then_def)
  moreover have "u64_at [Key ''usage'', Key k] ?v = None" for k
    unfolding u64_at_def use by (simp add: and_then_def)
  ultimately have "openai_stream_event ?v =
      ev\<lparr>se_prompt_tokens := None, se_completion_tokens := None, se_done := (se_finish_reason ev \<noteq> None)\<rparr>"
    by (cases ev) (simp add: openai_stream_event_def Let_def or_default_def)
  moreover have "delta_members ev role = [] \<longleftrightarrow> \<not> role \<and> se_delta ev = [] \<and> ?ts = []"
    by (simp add: delta_members_def)
  ultimately show ?thesis
    by (auto simp: render_openai_chunk_def Let_def)
qed

section \<open>Rows and entries\<close>

lemma via_stream [via]:
  "via_ops who d (log_stream_outcome who t success status err latency counts now d)"
  "via_ops who d (fail_stream_attempt L who t status msg latency now d)"
  "via_ops who d (settle_pump L who t e latency now d)"
proof -
  show logged: "via_ops who d (log_stream_outcome who t success status err latency counts now d)"
    for success status err latency counts now by (simp add: log_stream_outcome_def stream_row_def via_row)
  show failed: "via_ops who d (fail_stream_attempt L who t status msg latency now d)" for status msg latency now
    unfolding fail_stream_attempt_def by (rule via_trans[OF logged via_failure])
  show "via_ops who d (settle_pump L who t e latency now d)"
    by (auto simp: settle_pump_def logged failed split: pumped.split option.split)
qed

lemma via_try_streams [via]: "via_ops who d (snd (try_streams L m who att n ts d))"
proof (induction ts arbitrary: n d)
  case (Cons t ts)
  show ?case
    by (cases "att n t") (simp_all add: via Cons.IH via_trans[OF via_stream(2) Cons.IH])
qed simp

lemma via_pump [via]: "via_ops who d (snd (pump_stream L w who model t cm d))"
  by (simp add: pump_stream_def via split: prod.split)

lemma via_handle_streaming [via]: "via_ops who d (fst (snd (handle_streaming L m w c who needs req d rr)))"
proof -
  obtain r rr' where r: "resolve_targets_with_strategy c (mo_floats m) (mo_draw m) d who (cq_model req) needs (mo_resolved m) rr = (r, rr')"
    by fastforce
  consider e where "r = Inl e" | "r = Inr []" | t ts where "r = Inr (t # ts)"
    by (cases r) (auto intro: list.exhaust)
  then show ?thesis
  proof cases
    case 3
    obtain ch d1 where tried: "try_streams L m who (stream_attempt_on L w req) 0 (t # ts) d = (ch, d1)" by fastforce
    have d1: "via_ops who d d1" using via_try_streams[of who d L m "stream_attempt_on L w req" 0 "t # ts"] tried by simp
    show ?thesis
      using d1 via_trans[OF d1 via_pump[of who d1 L w "cq_model req"]]
      by (cases ch) (simp_all add: handle_streaming_def r 3 tried split_beta del: try_streams.simps)
  qed (simp_all add: handle_streaming_def r)
qed

lemma via_handle_non_streaming [via]: "via_ops who d (fst (snd (handle_non_streaming L m c att who needs req escalate d rr)))"
  using via_serve[of who d L m att]
  by (auto simp: handle_non_streaming_def Let_def split: prod.splits sum.splits list.splits if_splits)
     (metis snd_conv)+

lemma via_chat_completions [via]:
  "via_ops who d (fst (snd (chat_completions L m w c att limit_text parse_text (Some who) header body d rr)))"
  using via_handle_streaming via_handle_non_streaming
  by (auto simp: chat_completions_def split: option.split prod.split) (metis fst_conv snd_conv)

text \<open>
  Whatever a chat request is - unreadable, refused, buffered, streamed, answered from the
  cache, failing on every upstream, abandoned by the client - it changes the store only
  through the store's own operations, so the integrity of the store is kept.
\<close>

theorem requests_keep_integrity:
  assumes "chat_completions L m w c att limit_text parse_text slot header body d rr = (out, d', rr')" "db_ok d"
  shows "(\<exists>ops. d' = fold exec_op ops d) \<and> db_ok d'"
proof (cases slot)
  case None
  then show ?thesis using assms by (auto simp: chat_completions_def intro: exI[of _ "[]"])
next
  case (Some who)
  then have "via_ops who d d'" using via_chat_completions[of who d L m w c att limit_text parse_text header body rr] assms(1) by simp
  then show ?thesis using via_ok[OF _ assms(2)] by (auto simp: via_ops_def)
qed

section \<open>One row per attempt\<close>

text \<open>The attempts that were made, up to the one that answered or was committed to.\<close>

fun streams_tried :: "(nat \<Rightarrow> target \<Rightarrow> stream_attempt) \<Rightarrow> nat \<Rightarrow> target list \<Rightarrow> (target \<times> stream_attempt) list" where
  "streams_tried att n [] = []"
| "streams_tried att n (t # ts) =
     (t, att n t) # (case att n t of Complete v u \<Rightarrow> [] | Commit c \<Rightarrow> [] | _ \<Rightarrow> streams_tried att (n + 1) ts)"

fun leaves_row :: "target \<times> stream_attempt \<Rightarrow> bool" where
  "leaves_row (t, Complete v u) = True"
| "leaves_row (t, Attempt_Failed status msg) = True"
| "leaves_row (t, _) = False"

fun row_of_stream :: "string \<Rightarrow> target \<times> stream_attempt \<Rightarrow> usage_record \<Rightarrow> bool" where
  "row_of_stream who (t, a) r \<longleftrightarrow>
     us_profile_id r = who \<and> us_entry_id r = re_id (tg_entry t) \<and> us_streamed r
     \<and> (case a of
          Complete v u \<Rightarrow> us_success r \<and> us_status_code r = Some 200
        | Attempt_Failed status msg \<Rightarrow> \<not> us_success r \<and> us_status_code r = status \<and> us_error_message r = Some msg
        | _ \<Rightarrow> False)"

lemma log_stream_row:
  assumes "re_id (tg_entry t) \<in> entry_ids d"
  shows "\<exists>r. usage (log_stream_outcome who t success status err latency counts now d) = usage d @ [r]
    \<and> us_profile_id r = who \<and> us_entry_id r = re_id (tg_entry t) \<and> us_streamed r \<and> us_success r = success
    \<and> us_status_code r = status \<and> us_error_message r = err \<and> us_prompt_tokens r = fst counts
    \<and> us_completion_tokens r = fst (snd counts)"
proof -
  let ?u = "stream_row who t success status err latency counts"
  have "nu_entry_id ?u \<in> entry_ids d" using assms by (simp add: stream_row_def)
  from record_usage_row[OF this, of now] show ?thesis
    by (auto simp: log_stream_outcome_def stream_row_def)
qed

lemma failure_action_usage:
  "usage (snd (apply_failure_action parse t s msg d)) = usage d"
  "entry_ids (snd (apply_failure_action parse t s msg d)) = entry_ids d"
proof -
  from apply_failure_frame[of t d parse s msg]
  have f: "snd (apply_failure_action parse t s msg d) = d\<lparr>entries := entries (snd (apply_failure_action parse t s msg d))\<rparr>"
    "list_all2 (entry_frame {re_id (tg_entry t)}) (entries d) (entries (snd (apply_failure_action parse t s msg d)))"
    by (simp_all add: db_frame_def)
  from f(1) have "usage (snd (apply_failure_action parse t s msg d)) = usage (d\<lparr>entries := entries (snd (apply_failure_action parse t s msg d))\<rparr>)"
    by (rule arg_cong)
  then show "usage (snd (apply_failure_action parse t s msg d)) = usage d" by simp
  have "en_id e' = en_id e" if "entry_frame I e e'" for I e e'
    using that unfolding entry_frame_def by (metis entry_row.select_convs(1) entry_row.surjective entry_row.update_convs(8,9,11))
  with f(2) have "list_all2 (\<lambda>e e'. en_id e' = en_id e) (entries d) (entries (snd (apply_failure_action parse t s msg d)))"
    by (auto elim: list_all2_mono)
  then have "map en_id (entries d) = map en_id (entries (snd (apply_failure_action parse t s msg d)))"
    by (induction rule: list_all2_induct) auto
  then show "entry_ids (snd (apply_failure_action parse t s msg d)) = entry_ids d"
    unfolding entry_ids_def by (metis list.set_map)
qed

lemma log_stream_ids [simp]: "entry_ids (log_stream_outcome who t success status err latency counts now d) = entry_ids d"
  by (simp add: log_stream_outcome_def record_usage_def Let_def entry_ids_def)

lemma fail_stream_row:
  assumes "re_id (tg_entry t) \<in> entry_ids d"
  shows "\<exists>r. usage (fail_stream_attempt L who t status msg latency now d) = usage d @ [r]
    \<and> us_profile_id r = who \<and> us_entry_id r = re_id (tg_entry t) \<and> us_streamed r \<and> \<not> us_success r
    \<and> us_status_code r = status \<and> us_error_message r = Some msg"
  using log_stream_row[OF assms, of who False status "Some msg" latency "(None, None, None)" now]
  by (auto simp: fail_stream_attempt_def failure_action_usage)

lemma fail_stream_ids: "entry_ids (fail_stream_attempt L who t status msg latency now d) = entry_ids d"
  by (simp add: fail_stream_attempt_def failure_action_usage)

lemma try_streams_rows:
  assumes "\<forall>t\<in>set ts. re_id (tg_entry t) \<in> entry_ids d"
  shows "\<exists>rows. usage (snd (try_streams L m who att n ts d)) = usage d @ rows
    \<and> list_all2 (row_of_stream who) (filter leaves_row (streams_tried att n ts)) rows
    \<and> entry_ids (snd (try_streams L m who att n ts d)) = entry_ids d"
  using assms
proof (induction ts arbitrary: n d)
  case (Cons t ts)
  show ?case
  proof (cases "att n t")
    case (Complete v u)
    have "re_id (tg_entry t) \<in> entry_ids d" using Cons.prems by simp
    from log_stream_row[OF this, of who True "Some 200" None "mo_latency m n" u "mo_logged m n"]
    obtain r where "usage (log_stream_outcome who t True (Some 200) None (mo_latency m n) u (mo_logged m n) d) = usage d @ [r]"
      "row_of_stream who (t, att n t) r" using Complete by auto
    then show ?thesis using Complete by (auto intro!: exI[of _ "[r]"])
  next
    case (Commit c)
    then show ?thesis by simp
  next
    case (Not_Built msg)
    then show ?thesis using Cons.IH[of d "n + 1"] Cons.prems by simp
  next
    case (Attempt_Failed status msg)
    let ?d = "fail_stream_attempt L who t status msg (mo_latency m n) (mo_logged m n) d"
    have "re_id (tg_entry t) \<in> entry_ids d" using Cons.prems by simp
    from fail_stream_row[OF this, of L who status msg "mo_latency m n" "mo_logged m n"] obtain r where
      r: "usage ?d = usage d @ [r]" "row_of_stream who (t, att n t) r" using Attempt_Failed by auto
    obtain rows where rows: "usage (snd (try_streams L m who att (n + 1) ts ?d)) = usage ?d @ rows"
      "list_all2 (row_of_stream who) (filter leaves_row (streams_tried att (n + 1) ts)) rows"
      "entry_ids (snd (try_streams L m who att (n + 1) ts ?d)) = entry_ids ?d"
      using Cons.IH[of ?d "n + 1"] Cons.prems fail_stream_ids by auto
    then show ?thesis using r Attempt_Failed
      by (intro exI[of _ "r # rows"]) (simp add: fail_stream_ids del: row_of_stream.simps)
  qed
qed simp

text \<open>
  Every streamed attempt that answered or failed before a stream was committed to leaves
  exactly one row, in the order of the attempts, with its entry, its status and its error; a
  request that could not be built leaves none. The committed stream leaves one when it is
  over - and none if the client went away first.
\<close>

theorem stream_rows:
  assumes "\<forall>t\<in>set ts. re_id (tg_entry t) \<in> entry_ids d"
  shows "(\<exists>rows. usage (snd (try_streams L m who att 0 ts d)) = usage d @ rows
      \<and> list_all2 (row_of_stream who) (filter leaves_row (streams_tried att 0 ts)) rows)
    \<and> (\<forall>t\<in>set ts. \<exists>rows. usage (settle_pump L who t e latency now d) = usage d @ rows
      \<and> length rows = (if e = Client_Gone then 0 else 1))"
proof -
  have "\<exists>rows. usage (settle_pump L who t e latency now d) = usage d @ rows \<and> length rows = (if e = Client_Gone then 0 else 1)"
    if "t \<in> set ts" for t
  proof -
    have t: "re_id (tg_entry t) \<in> entry_ids d" using that assms by blast
    show ?thesis
    proof (cases e)
      case Client_Gone
      then show ?thesis by (simp add: settle_pump_def)
    next
      case (Pumped failed u)
      show ?thesis
      proof (cases failed)
        case None
        then show ?thesis
          using log_stream_row[OF t, of who True "Some 200" None latency "counts_i64 u" now] Pumped
          by (auto simp: settle_pump_def)
      next
        case (Some sm)
        obtain st msg where "sm = (st, msg)" by fastforce
        then show ?thesis
          using fail_stream_row[OF t, of L who st msg latency now] Pumped Some by (auto simp: settle_pump_def)
      qed
    qed
  qed
  then show ?thesis using try_streams_rows[OF assms, of L m who att 0] by blast
qed

section \<open>What the streamed path leaves out\<close>

definition cooldowns :: "db \<Rightarrow> (int \<times> int) list" where
  "cooldowns d = map (\<lambda>e. (en_id e, en_cooldown_until e)) (entries d)"

lemma cooldowns_upd:
  "(\<And>e. en_id (g e) = en_id e \<and> en_cooldown_until (g e) = en_cooldown_until e) \<Longrightarrow> cooldowns (upd_entry i g d) = cooldowns d"
  by (simp add: cooldowns_def upd_entry_def map_upd_where)

lemma cooldowns_steps:
  "cooldowns (snd (apply_failure_action parse t s msg d)) = cooldowns d"
  "cooldowns (log_stream_outcome who t success status err latency counts now d) = cooldowns d"
  "cooldowns (fail_stream_attempt L who t status msg latency now d) = cooldowns d"
  "cooldowns (settle_pump L who t e latency now d) = cooldowns d"
proof -
  show act: "cooldowns (snd (apply_failure_action parse t s msg d)) = cooldowns d" for parse s msg d
    by (auto simp: apply_failure_action_def Let_def set_route_entry_vision_def set_route_entry_status_def cooldowns_upd
        split: failure_action.split option.split)
  show row: "cooldowns (log_stream_outcome who t success status err latency counts now d) = cooldowns d"
    for success status err latency counts now
    by (simp add: log_stream_outcome_def record_usage_def Let_def cooldowns_def)
  show failed: "cooldowns (fail_stream_attempt L who t status msg latency now d) = cooldowns d" for status msg latency now
    by (simp add: fail_stream_attempt_def act row)
  show "cooldowns (settle_pump L who t e latency now d) = cooldowns d"
    by (simp add: settle_pump_def row failed split: pumped.split option.split)
qed

lemma cooldowns_try: "cooldowns (snd (try_streams L m who att n ts d)) = cooldowns d"
proof (induction ts arbitrary: n d)
  case (Cons t ts)
  show ?case by (cases "att n t") (simp_all add: Cons.IH cooldowns_steps)
qed simp

text \<open>
  The streamed path never parks an entry: whatever its upstreams answer, a 429 with a
  retry hint included, no cooldown in the store changes. (The buffered path parks such an
  entry, so that the next request skips it.)
\<close>

theorem streaming_never_parks:
  "cooldowns (fst (snd (handle_streaming L m w c who needs req d rr))) = cooldowns d"
proof -
  obtain r rr' where r: "resolve_targets_with_strategy c (mo_floats m) (mo_draw m) d who (cq_model req) needs (mo_resolved m) rr = (r, rr')"
    by fastforce
  consider e where "r = Inl e" | "r = Inr []" | t ts where "r = Inr (t # ts)"
    by (cases r) (auto intro: list.exhaust)
  then show ?thesis
  proof cases
    case 3
    obtain ch d1 where tried: "try_streams L m who (stream_attempt_on L w req) 0 (t # ts) d = (ch, d1)" by fastforce
    have d1: "cooldowns d1 = cooldowns d"
      using cooldowns_try[of L m who "stream_attempt_on L w req" 0 "t # ts" d] tried by simp
    then show ?thesis
      by (cases ch) (simp_all add: handle_streaming_def r 3 tried pump_stream_def cooldowns_steps split_beta del: try_streams.simps)
  qed (simp_all add: handle_streaming_def r)
qed

lemma build_ignores_mask:
  "build_upstream_request (t\<lparr>tg_provider := (tg_provider t)\<lparr>pv_mask := hop\<rparr>\<rparr>) req stream = build_upstream_request t req stream"
proof -
  let ?t = "t\<lparr>tg_provider := (tg_provider t)\<lparr>pv_mask := hop\<rparr>\<rparr>"
  have "openai_request ?t req stream = openai_request t req stream"
    by (simp add: openai_request_def bearer_headers_def cong: option.case_cong)
  then have "build_native_request ?t req stream = build_native_request t req stream"
    by (simp add: build_native_request_def anthropic_url_def anthropic_headers_def google_url_def google_headers_def
        responses_url_def responses_headers_def cong: provider_kind.case_cong sum.case_cong)
  then show ?thesis by (simp add: build_upstream_request_def split: sum.split)
qed

text \<open>
  The streamed path does not know masks, on every dialect but Responses: the attempt for
  a provider that has a mask is the attempt for the same provider without, so the request
  goes to the provider's own URL and leaves from the proxy's own address.
\<close>

theorem streaming_ignores_masks:
  assumes "pv_kind (tg_provider t) \<noteq> OpenAIResponses"
  shows "stream_attempt_on L w req n (t\<lparr>tg_provider := (tg_provider t)\<lparr>pv_mask := hop\<rparr>\<rparr>) = stream_attempt_on L w req n t"
  using assms by (simp add: stream_attempt_on_def build_ignores_mask)

text \<open>
  A stream that begins with the sentinel is an empty answer and fails over - unless
  another byte has arrived in the same chunk: then it is committed to, and the client gets
  the sentinel alone.
\<close>

theorem sentinel_first:
  assumes "feed [] b = (f # fs, buf)" "trim (sf_data f) = ''[DONE]''"
  shows "probe_stream from_str guarded (Bytes b # as) =
    (if fs = [] \<and> buf = [] then Probe_Failed ''upstream returned an empty stream (only [DONE])''
     else Committed \<lparr>cm_pending = f # fs, cm_buf = buf, cm_arrivals = as\<rparr>)"
  using assms by (simp add: probe_stream_def classify_def)

text \<open>
  An error member fails a stream whatever its value: a first payload that is otherwise a
  normal chunk but says that its error is null is taken for an in-band error, code 502.
\<close>

theorem null_error_fails_over:
  assumes "feed [] b = (f # fs, buf)" "from_str (trim (sf_data f)) = Some v" "get ''error'' v = Some JNull"
    and "trim (sf_data f) \<noteq> ''[DONE]''"
  shows "probed (probe_stream from_str guarded (Bytes b # as)) =
    Attempt_Failed (Some 502) ''upstream in-band error: upstream reported an in-band error''"
  using assms
  by (simp add: probe_stream_def classify_def and_then_def probed_def in_band_code_def or_default_def wrap_i32_def)

section \<open>Counts and finish reasons of a translated stream\<close>

lemma trim_idem: "trim (trim s) = trim s"
proof (cases "trim s")
  case (Cons x xs)
  have "\<exists>z. t = trim_end_by P t @ z" for P and t :: string
    unfolding trim_end_by_def by (metis rev_append rev_rev_ident takeWhile_dropWhile_id)
  then obtain z where "dropWhile is_ws s = trim s @ z" unfolding trim_def by blast
  then have "\<not> is_ws x" using Cons hd_dropWhile[of is_ws s] by fastforce
  then have "dropWhile is_ws (trim s) = trim s" by (simp add: Cons)
  then show ?thesis by (metis trim_def trim_end_by_idem)
next
  case Nil
  then show ?thesis by (simp add: Nil) (simp add: trim_def trim_end_by_def)
qed

lemma counted_kept:
  "counted kind j (Some p, Some c, k) = (Some p, Some c, snd (snd (counted kind j (Some p, Some c, k))))"
  by (auto simp: counted_def or_usage_def split: option.split prod.split)

lemma count_frames_kept:
  "\<exists>k'. count_frames kind from_str fs (Some p, Some c, k) = (Some p, Some c, k')"
proof (induction fs arbitrary: k)
  case (Cons f fs)
  show ?case
    using Cons.IH[of "snd (snd (counted kind (from_str (trim (sf_data f))) (Some p, Some c, k)))"]
    by (simp add: count_frames_def) (metis counted_kept)
qed (simp add: count_frames_def)

text \<open>
  The counts of a stream are the first ones it reports: once a payload has reported both,
  no later payload changes them. A provider that reports running totals with every payload,
  as Google does, is logged with the counts of its first payload.
\<close>

theorem first_counts_kept:
  assumes "from_str (trim (sf_data f)) = Some v" "frame_usage kind v = (Some p, Some c, k)"
  shows "\<exists>k'. count_frames kind from_str (f # fs) (None, None, None) = (Some p, Some c, k')"
  using assms count_frames_kept[of kind from_str fs p c k]
  by (simp add: count_frames_def counted_def or_usage_def)

text \<open>
  The last finish reason of a translated Anthropic stream is always \<open>stop\<close>: the payload
  that ends it is rendered as a chunk that says so, after and in spite of the reason an
  earlier payload gave, such as a length limit or a tool call.
\<close>

theorem anthropic_end_says_stop:
  assumes "pu_kind E = Anthropic" "ps_room s = None" "js_parse (lb_js (pu_lib E)) (trim (sf_data f)) = Some v"
    and "get ''type'' v = Some (JStr ''message_stop'')" "get ''error'' v = None" "trim (sf_data f) \<noteq> []" "trim (sf_data f) \<noteq> ''[DONE]''"
  shows "pump_frame E f s =
    ([Sent (event_line (js_print (lb_js (pu_lib E)) (chunk_json (pu_model E) (pu_id E) (pu_created E (ps_rendered s))
        (object (if ps_first s then [(''role'', JStr ''assistant'')] else [])) (Some ''stop'')))),
      Sent (event_line ''[DONE]'')], Inr (Pumped None (counted Anthropic (Some v) (ps_usage s))))"
proof -
  have cl: "classify (js_parse (lb_js (pu_lib E))) (sf_data f) = Other (trim (sf_data f)) (Some v)"
    using assms(3,5,7) by (simp add: classify_def and_then_def)
  have ev: "parse_stream_chunk (js_parse (lb_js (pu_lib E))) (pu_kind E) (trim (sf_data f)) =
      Some (empty_event\<lparr>se_finish_reason := Some ''stop'', se_done := True\<rparr>)"
    using assms(1,3,4,6) trim_idem
    by (simp add: parse_stream_chunk_def anthropic_stream_chunk_def anthropic_stream_event_def and_then_def or_default_def Let_def)
  show ?thesis
    unfolding pump_frame_def cl using assms(1,2)
    by (simp add: pump_payload_def Let_def ev[unfolded assms(1)] render_openai_chunk_def room_left_def send_to_def take_room_def empty_event_def
        delta_members_def)
qed

section \<open>The first stream that proves itself\<close>

definition gives_stream :: "stream_attempt \<Rightarrow> bool" where
  "gives_stream a \<longleftrightarrow> (\<exists>v u. a = Complete v u) \<or> (\<exists>c. a = Commit c)"

lemma try_streams_choice:
  "fst (try_streams L m who att n ts d) = Stream t c \<longleftrightarrow>
     (\<exists>k<length ts. ts ! k = t \<and> att (n + k) t = Commit c \<and> (\<forall>j<k. \<not> gives_stream (att (n + j) (ts ! j))))"
proof (induction ts arbitrary: n d)
  case (Cons x ts)
  have split: "(\<exists>k<length (x # ts). (x # ts) ! k = t \<and> att (n + k) t = Commit c \<and> (\<forall>j<k. \<not> gives_stream (att (n + j) ((x # ts) ! j))))
      \<longleftrightarrow> x = t \<and> att n t = Commit c \<or> \<not> gives_stream (att n x) \<and>
        (\<exists>k<length ts. ts ! k = t \<and> att (Suc n + k) t = Commit c \<and> (\<forall>j<k. \<not> gives_stream (att (Suc n + j) (ts ! j))))"
    by (auto simp: Ex_less_Suc2 All_less_Suc2)
  show ?case
    unfolding split by (cases "att n x") (auto simp: Cons.IH gives_stream_def)
qed simp

text \<open>
  A client is streamed the first target, in the order of the resolution, whose body
  proved itself, and only when every target before it failed: until then nothing has been
  sent, so a failure before the first frame is never seen by the client.
\<close>

theorem first_stream_wins:
  "fst (try_streams L m who att 0 ts d) = Stream t c \<longleftrightarrow>
     (\<exists>k<length ts. ts ! k = t \<and> att k t = Commit c \<and> (\<forall>j<k. \<not> gives_stream (att j (ts ! j))))"
  using try_streams_choice[of L m who att 0 ts d t c] by simp

section \<open>A streamed answer from end to end\<close>

lemma probe_commits:
  assumes "body_frames guarded as = (f # fs, e)" "classify from_str (sf_data f) = Other raw j"
  shows "\<exists>c. probe_stream from_str guarded as = Committed c"
  using probe_verdict_loop[OF idle_Nil, of from_str "[]" guarded as] assms
  by (simp add: probe_stream_def body_frames_def verdict_def)


section \<open>Concrete streams\<close>

text \<open>A parser that knows three payloads, and a stream of two of them cut in the middle.\<close>

definition demo_parse :: "string \<Rightarrow> json option" where
  "demo_parse s =
     (if s = ''x'' then Some (JObj [(''usage'', JObj [(''prompt_tokens'', JInt 5)])])
      else if s = ''e'' then Some (JObj [(''error'', JNull), (''id'', JStr ''1'')]) else None)"

definition stream_library :: library where
  "stream_library = demo_library\<lparr>lb_js := \<lparr>js_parse = demo_parse, js_print = (\<lambda>_. [])\<rparr>\<rparr>"

definition demo_body :: "arrival list" where
  "demo_body = [Bytes ''data: x'', Silence, Bytes ([nl, nl] @ ''data: y'' @ [nl, nl] @ ''data: [DO''), Bytes (''NE]'' @ [nl, nl])]"

definition demo_world :: "connection \<Rightarrow> stream_world" where
  "demo_world conn = \<lparr>sw_open = (\<lambda>_ _ _ _. conn), sw_send = (\<lambda>_ _ _ _. Inl ''upstream timeout''), sw_guarded = False,
     sw_idle_text = ''0ns'', sw_now_secs = 0, sw_id_millis = 0, sw_created = (\<lambda>_. 0), sw_room = None,
     sw_end_latency = 9, sw_end_logged = 0\<rparr>"

abbreviation data_frame :: "string \<Rightarrow> sse_frame" where
  "data_frame s \<equiv> \<lparr>sf_event = [], sf_data = s\<rparr>"

lemma demo_body_frames:
  "body_frames False demo_body = ([data_frame ''x'', data_frame ''y'', data_frame ''[DONE]''], Closed)"
  by code_simp

lemma demo_payloads:
  "trim ''x'' = ''x''" "trim ''y'' = ''y''" "trim ''[DONE]'' = ''[DONE]''" "trim ''e'' = ''e''"
  by code_simp+

lemma demo_classify:
  "classify demo_parse ''x'' = Other ''x'' (Some (JObj [(''usage'', JObj [(''prompt_tokens'', JInt 5)])]))"
  "classify demo_parse ''y'' = Other ''y'' None"
  by (simp_all add: classify_def demo_payloads demo_parse_def and_then_def)

theorem requests_keep_integrity_witness:
  "db_ok (fst (snd (chat_completions demo_library (demo_moment 0) (demo_world No_Headers) tagging_cipher (\<lambda>_ _ _. Timed_Out) [] (\<lambda>_. [])
      (Some ''t'') None ''{}'' cached_store (\<lambda>_. None))))"
proof -
  obtain out d' rr' where h: "chat_completions demo_library (demo_moment 0) (demo_world No_Headers) tagging_cipher (\<lambda>_ _ _. Timed_Out) [] (\<lambda>_. [])
      (Some ''t'') None ''{}'' cached_store (\<lambda>_. None) = (out, d', rr')" by (metis prod_cases3)
  from requests_keep_integrity[OF this cached_ok] show ?thesis by (simp add: h)
qed

definition demo_pump :: pump_env where
  "demo_pump = pump_env_of stream_library (demo_world No_Headers) ''p/r'' (demo_provider_target OpenAI)"

lemma demo_pump_fields: "pu_guarded demo_pump = False" "pu_kind demo_pump = OpenAI" "lb_js (pu_lib demo_pump) = \<lparr>js_parse = demo_parse, js_print = (\<lambda>_. [])\<rparr>"
  by (simp_all add: demo_pump_def pump_env_of_def demo_world_def stream_library_def)

theorem probe_loses_nothing_witness:
  "\<exists>c. probe_stream demo_parse False demo_body = Committed c
     \<and> pump_loop demo_pump (cm_pending c) (cm_buf c) (cm_arrivals c) (pump_start None) =
       pump_frames demo_pump [data_frame ''x'', data_frame ''y'', data_frame ''[DONE]''] Closed (pump_start None)"
proof -
  obtain c where c: "probe_stream demo_parse False demo_body = Committed c"
    using probe_commits[OF demo_body_frames] demo_classify(1) by fastforce
  from probe_loses_nothing[of demo_parse demo_pump demo_body c] c show ?thesis
    by (simp add: demo_pump_fields demo_body_frames)
qed

definition tool_event :: stream_event where
  "tool_event = empty_event\<lparr>se_delta := ''a'', se_tool_call_deltas :=
     [\<lparr>td_index = 0, td_id = Some ''c1'', td_call_id = Some ''c1'', td_name = Some ''shell'', td_arguments = None\<rparr>]\<rparr>"

theorem chunk_roundtrip_witness:
  "\<exists>v. render_openai_chunk (js_print demo_codec) 7 ''p/r'' ''i'' tool_event True = Some (js_print demo_codec v)
     \<and> openai_stream_event v = tool_event"
proof -
  have "list_all delta_ok (se_tool_call_deltas tool_event)" by (simp add: tool_event_def delta_ok_def)
  from chunk_roundtrip[OF this, where print = "js_print demo_codec" and created = 7 and model = "''p/r''" and i = "''i''" and role = True]
  show ?thesis by (auto simp: tool_event_def empty_event_def split: option.splits)
qed

theorem stream_rows_witness:
  "\<exists>r. usage (snd (try_streams demo_library (demo_moment 0) ''t'' (\<lambda>n _. if n = 0 then Attempt_Failed (Some 429) ''busy'' else Not_Built [])
      0 demo_targets demo_store)) = [r] \<and> us_status_code r = Some 429"
proof -
  let ?att = "\<lambda>n (_ :: target). if n = 0 then Attempt_Failed (Some 429) ''busy'' else Not_Built []"
  have "list_all (\<lambda>t. re_id (tg_entry t) \<in> entry_ids demo_store) demo_targets" "usage demo_store = []"
    by code_simp+
  then obtain rows where rows: "usage (snd (try_streams demo_library (demo_moment 0) ''t'' ?att 0 demo_targets demo_store)) = rows"
    "list_all2 (row_of_stream ''t'') (filter leaves_row (streams_tried ?att 0 demo_targets)) rows"
    using stream_rows[of demo_targets demo_store demo_library "demo_moment 0" "''t''" ?att] by (auto simp: list_all_iff)
  then show ?thesis by (auto simp: demo_targets_def list_all2_Cons1)
qed

theorem streaming_ignores_masks_witness:
  "stream_attempt_on stream_library (demo_world (Opened demo_body)) tool_chat 0
     ((demo_provider_target OpenAI)\<lparr>tg_provider := (tg_provider (demo_provider_target OpenAI))\<lparr>pv_mask := Some demo_mask\<rparr>\<rparr>)
   = stream_attempt_on stream_library (demo_world (Opened demo_body)) tool_chat 0 (demo_provider_target OpenAI)"
  by (rule streaming_ignores_masks) simp

theorem sentinel_first_witness:
  "(\<exists>msg. probe_stream demo_parse True [Bytes (''data: [DONE]'' @ [nl, nl])] = Probe_Failed msg)
   \<and> (\<exists>c. probe_stream demo_parse True [Bytes (''data: [DONE]'' @ [nl, nl, nl])] = Committed c)"
proof -
  have "feed [] (''data: [DONE]'' @ [nl, nl]) = ([data_frame ''[DONE]''], [])"
    "feed [] (''data: [DONE]'' @ [nl, nl, nl]) = ([data_frame ''[DONE]''], [nl])"
    by code_simp+
  from sentinel_first[OF this(1), of demo_parse True "[]"] sentinel_first[OF this(2), of demo_parse True "[]"]
  show ?thesis by (simp add: demo_payloads)
qed

theorem null_error_fails_over_witness:
  "probed (probe_stream demo_parse True [Bytes (''data: e'' @ [nl, nl])]) =
    Attempt_Failed (Some 502) ''upstream in-band error: upstream reported an in-band error''"
proof -
  have "feed [] (''data: e'' @ [nl, nl]) = ([data_frame ''e''], [])" by code_simp
  from null_error_fails_over[OF this, of demo_parse "JObj [(''error'', JNull), (''id'', JStr ''1'')]" True "[]"]
  show ?thesis by (simp add: demo_payloads demo_parse_def)
qed

theorem first_stream_wins_witness:
  "\<exists>c. fst (try_streams demo_library (demo_moment 0) ''t'' (\<lambda>n _. if n = 0 then Attempt_Failed None [] else Commit c) 0 demo_targets demo_store)
     = Stream (demo_targets ! 1) c"
proof -
  have "1 < length demo_targets" by (simp add: demo_targets_def)
  then show ?thesis
    unfolding first_stream_wins by (intro exI[of _ "\<lparr>cm_pending = [], cm_buf = [], cm_arrivals = []\<rparr>"] exI[of _ 1])
      (simp add: gives_stream_def)
qed

text \<open>A store with one OpenAI target.\<close>

definition stream_store :: db where
  "stream_store = reached
     [On_Profile (Create_Profile_With_Token ''me'' None None ''t'' 0),
      On_Provider (Create_Provider tagging_cipher (replicate 12 CHR ''n'') ''t'' (spec_x\<lparr>np_kind := OpenAI\<rparr>)),
      On_Route (Create_Proxy ''t'' ''p'' None), On_Route (Create_Route 1 ''r'' None Priority None),
      On_Entry (Add_Entry 1 1 ''a'' 0 (FFin 1) default_caps)]"

lemma stream_resolves:
  "case fst (resolve_targets_with_strategy tagging_cipher exact_fl (FFin 0) stream_store ''t'' ''p/r'' no_needs 0 (\<lambda>_. None)) of
     Inr (t # ts) \<Rightarrow> pv_kind (tg_provider t) = OpenAI | _ \<Rightarrow> False"
  by code_simp


text \<open>A parser of one Google and one Anthropic payload.\<close>

definition native_parse :: "string \<Rightarrow> json option" where
  "native_parse s =
     (if s = ''g'' then Some (JObj [(''usageMetadata'', JObj [(''candidatesTokenCount'', JInt 1), (''promptTokenCount'', JInt 9)])])
      else if s = ''s'' then Some (JObj [(''type'', JStr ''message_stop'')]) else None)"

theorem first_counts_kept_witness:
  "\<exists>k. count_frames Google native_parse [data_frame ''g'', data_frame ''g''] (None, None, None) = (Some 9, Some 1, k)"
proof -
  have "native_parse (trim (sf_data (data_frame ''g''))) =
      Some (JObj [(''usageMetadata'', JObj [(''candidatesTokenCount'', JInt 1), (''promptTokenCount'', JInt 9)])])"
    "frame_usage Google (JObj [(''usageMetadata'', JObj [(''candidatesTokenCount'', JInt 1), (''promptTokenCount'', JInt 9)])])
      = (Some 9, Some 1, None)"
    by code_simp+
  from first_counts_kept[of native_parse "data_frame ''g''", OF this] show ?thesis by blast
qed

theorem anthropic_end_says_stop_witness:
  "\<exists>out u. pump_frame (demo_pump\<lparr>pu_kind := Anthropic, pu_lib := stream_library\<lparr>lb_js := \<lparr>js_parse = native_parse, js_print = (\<lambda>_. [])\<rparr>\<rparr>\<rparr>)
     (data_frame ''s'') (pump_start None) = (out @ [Sent (event_line ''[DONE]'')], Inr (Pumped None u))"
proof -
  let ?E = "demo_pump\<lparr>pu_kind := Anthropic, pu_lib := stream_library\<lparr>lb_js := \<lparr>js_parse = native_parse, js_print = (\<lambda>_. [])\<rparr>\<rparr>\<rparr>"
  have "trim ''s'' = ''s''" by code_simp
  then show ?thesis
    using anthropic_end_says_stop[of ?E "pump_start None" "data_frame ''s''" "JObj [(''type'', JStr ''message_stop'')]"]
    by (cases "counted Anthropic (Some (JObj [(''type'', JStr ''message_stop'')])) (None, None, None)")
       (simp add: native_parse_def pump_start_def)
qed

end
