(* ===== verification/Completion_Stream.thy ===== *)
theory Completion_Stream
  imports Completions Streaming_Props
begin

text \<open>
  The streamed side of \<open>/v1/completions\<close> and the two handlers that read the body of a
  passthrough request (\<open>src/server/handlers.rs\<close>): the probe and the pump are those of chat,
  the request is the passthrough one, and the pump relays in the OpenAI way whatever the
  provider's kind is.
\<close>

section \<open>Streaming a completion\<close>

text \<open>A stream that breaks during the probe is reported by the bare text of the error.\<close>

definition probed_completion :: "probe \<Rightarrow> stream_attempt" where
  "probed_completion p = (case p of Probe_Transport e \<Rightarrow> Attempt_Failed None e | _ \<Rightarrow> probed p)"

definition completion_stream_attempt :: "library \<Rightarrow> stream_world \<Rightarrow> completion_request \<Rightarrow> nat \<Rightarrow> target \<Rightarrow> stream_attempt" where
  "completion_stream_attempt L w r n t =
     (case sw_open w n (passthrough_url ''completions'' t) (passthrough_headers t) (passthrough_body t (completion_to_json r)) of
        Opened as \<Rightarrow> probed_completion (probe_stream (js_parse (lb_js L)) (sw_guarded w) as)
      | other \<Rightarrow> opened L (sw_guarded w) other)"

definition relay_stream :: "library \<Rightarrow> stream_world \<Rightarrow> string \<Rightarrow> string \<Rightarrow> target \<Rightarrow> committed \<Rightarrow> db \<Rightarrow> sent list \<times> db" where
  "relay_stream L w who model t c d =
     (let (out, e) = pump_loop ((pump_env_of L w model t)\<lparr>pu_kind := OpenAI\<rparr>) (cm_pending c) (cm_buf c) (cm_arrivals c)
            (pump_start (sw_room w))
      in (out, settle_pump L who t e (sw_end_latency w) (sw_end_logged w) d))"

definition handle_completion_streaming ::
  "library \<Rightarrow> moment \<Rightarrow> stream_world \<Rightarrow> cipher \<Rightarrow> string \<Rightarrow> completion_request \<Rightarrow> db \<Rightarrow> rr_state \<Rightarrow> http_out \<times> db \<times> rr_state" where
  "handle_completion_streaming L m w c who r d rr =
     (case resolve_targets_with_strategy c (mo_floats m) (mo_draw m) d who (cp_model r) no_needs (mo_resolved m) rr of
        (Inl e, rr') \<Rightarrow> (Whole (resolution_reply L (route_error_text L d (cp_model r) e)), d, rr')
      | (Inr [], rr') \<Rightarrow> (Whole (no_targets L no_needs), d, rr')
      | (Inr (t # ts), rr') \<Rightarrow>
          (case try_streams L m who (completion_stream_attempt L w r) 0 (t # ts) d of
             (Stream s c, d') \<Rightarrow>
               (let (out, d'') = relay_stream L w who (cp_model r) s c d' in (Event_Stream out, d'', rr'))
           | (_, d') \<Rightarrow> (Whole (all_failed_reply L), d', rr')))"

section \<open>Dispatch\<close>

text \<open>Reading the body, shared by both: the identity slot, the limit, and the parse.\<close>

definition read_request ::
  "library \<Rightarrow> string \<Rightarrow> (bytes \<Rightarrow> string) \<Rightarrow> string option \<Rightarrow> (json \<Rightarrow> 'r option) \<Rightarrow> bytes \<Rightarrow> response + string \<times> 'r" where
  "read_request L limit_text parse_text slot reader body =
     (case slot of
        None \<Rightarrow> Inl (bad_request L ''unauthenticated'')
      | Some who \<Rightarrow>
          (if length body > HANDLER_BODY_LIMIT then Inl (bad_request L (''failed to read body: '' @ limit_text))
           else (case and_then (js_parse (lb_js L) body) reader of
               None \<Rightarrow> Inl (bad_request L (''invalid request body: '' @ parse_text body))
             | Some r \<Rightarrow> Inr (who, r))))"

definition completions ::
  "library \<Rightarrow> moment \<Rightarrow> stream_world \<Rightarrow> cipher \<Rightarrow> (rat \<Rightarrow> rat) \<Rightarrow> (nat \<Rightarrow> bool) \<Rightarrow> (string \<Rightarrow> headers \<Rightarrow> json \<Rightarrow> http_reply option) \<Rightarrow> float_text
     \<Rightarrow> string \<Rightarrow> (bytes \<Rightarrow> string) \<Rightarrow> string option \<Rightarrow> bytes \<Rightarrow> db \<Rightarrow> rr_state \<Rightarrow> http_out \<times> db \<times> rr_state" where
  "completions L m w c narrow late send ft limit_text parse_text slot body d rr =
     (case read_request L limit_text parse_text slot (completion_of_json narrow) body of
        Inl resp \<Rightarrow> (Whole resp, d, rr)
      | Inr (who, r) \<Rightarrow>
          (if cp_stream r then handle_completion_streaming L m w c who r d rr
           else (let (resp, d', rr') = handle_completion L m c late send ft who r d rr in (Whole resp, d', rr'))))"

definition embeddings ::
  "library \<Rightarrow> moment \<Rightarrow> cipher \<Rightarrow> (nat \<Rightarrow> bool) \<Rightarrow> (string \<Rightarrow> headers \<Rightarrow> json \<Rightarrow> http_reply option) \<Rightarrow> float_text
     \<Rightarrow> string \<Rightarrow> (bytes \<Rightarrow> string) \<Rightarrow> string option \<Rightarrow> bytes \<Rightarrow> db \<Rightarrow> rr_state \<Rightarrow> response \<times> db \<times> rr_state" where
  "embeddings L m c late send ft limit_text parse_text slot body d rr =
     (case read_request L limit_text parse_text slot embedding_of_json body of
        Inl resp \<Rightarrow> (resp, d, rr)
      | Inr (who, r) \<Rightarrow> handle_embeddings L m c late send ft who r d rr)"

section \<open>What the passthrough surfaces keep\<close>

lemma via_log_answer [via]: "via_ops who d (log_answer L m who att n ts d)"
proof (induction ts arbitrary: n d)
  case (Cons t ts)
  show ?case by (cases "att n t") (simp_all add: via Cons.IH)
qed (simp add: via)

lemma via_passthrough [via]: "via_ops who d (fst (snd (handle_passthrough L m c att who model d rr)))"
proof -
  obtain r rr' where r: "resolve_targets_with_strategy c (mo_floats m) (mo_draw m) d who model no_needs (mo_resolved m) rr = (r, rr')"
    by fastforce
  have "via_ops who d (snd (execute_with_failover parse secs clock f ts (log_answer L m who att 0 ts d)))" for parse secs clock f ts
    by (rule via_trans[OF via_log_answer via_failover])
  then show ?thesis
    by (cases r; cases "projr r") (simp_all add: handle_passthrough_def r split_beta split: sum.split del: log_answer.simps)
qed

lemma via_completion_streaming [via]: "via_ops who d (fst (snd (handle_completion_streaming L m w c who r d rr)))"
proof -
  obtain res rr' where res: "resolve_targets_with_strategy c (mo_floats m) (mo_draw m) d who (cp_model r) no_needs (mo_resolved m) rr = (res, rr')"
    by fastforce
  consider e where "res = Inl e" | "res = Inr []" | t ts where "res = Inr (t # ts)"
    by (cases res) (auto intro: list.exhaust)
  then show ?thesis
  proof cases
    case 3
    obtain ch d1 where tried: "try_streams L m who (completion_stream_attempt L w r) 0 (t # ts) d = (ch, d1)" by fastforce
    have d1: "via_ops who d d1" using via_try_streams[of who d L m "completion_stream_attempt L w r" 0 "t # ts"] tried by simp
    have "via_ops who d1 (snd (relay_stream L w who model s cm d1))" for model s cm
      by (simp add: relay_stream_def via split: prod.split)
    then show ?thesis
      using d1 via_trans[OF d1]
      by (cases ch) (simp_all add: handle_completion_streaming_def res 3 tried split_beta del: try_streams.simps)
  qed (simp_all add: handle_completion_streaming_def res)
qed

lemma read_request_slot: "read_request L limit_text parse_text slot reader body = Inr (who, r) \<Longrightarrow> slot = Some who"
  by (auto simp: read_request_def split: option.splits if_splits)

lemma via_completions [via]:
  "via_ops who d (fst (snd (completions L m w c narrow late send ft limit_text parse_text (Some who) body d rr)))"
  "via_ops who d (fst (snd (embeddings L m c late send ft limit_text parse_text (Some who) body d rr)))"
  by (auto simp: completions_def embeddings_def handle_completion_def handle_embeddings_def split_beta
      dest: read_request_slot intro: via split: sum.split)

lemma read_request_none:
  "completions L m w c narrow late send ft limit_text parse_text None body d rr = (Whole (bad_request L ''unauthenticated''), d, rr)"
  "embeddings L m c late send ft limit_text parse_text None body d rr = (bad_request L ''unauthenticated'', d, rr)"
  by (simp_all add: completions_def embeddings_def read_request_def)

text \<open>
  The passthrough surfaces keep the store's integrity as chat does: completions, buffered
  or streamed, and embeddings change the store only through its own operations.
\<close>

theorem passthrough_keeps_integrity:
  assumes "db_ok d"
  shows "db_ok (fst (snd (completions L m w c narrow late send ft limit_text parse_text slot body d rr)))
    \<and> db_ok (fst (snd (embeddings L m c late send ft limit_text parse_text slot body d rr)))"
  using assms via_ok[OF via_completions(1)] via_ok[OF via_completions(2)]
  by (cases slot) (simp_all add: read_request_none)

text \<open>
  An attempt to stream a completion contacts the provider's own URL, mask or no mask, on
  every dialect; and a failed buffered completion or embedding leaves no row in the usage
  log: only an answer is logged.
\<close>

theorem passthrough_gaps:
  "completion_stream_attempt L w r n (t\<lparr>tg_provider := (tg_provider t)\<lparr>pv_mask := hop\<rparr>\<rparr>) = completion_stream_attempt L w r n t
   \<and> ((\<forall>n. \<forall>t\<in>set ts. \<forall>b. att n t \<noteq> Answered b) \<longrightarrow> log_answer L m who att k ts d = d)"
proof -
  have "log_answer L m who att k ts d = d" if "\<forall>n. \<forall>t\<in>set ts. \<forall>b. att n t \<noteq> Answered b"
    using that
  proof (induction ts arbitrary: k)
    case (Cons t ts)
    then show ?case by (cases "att k t") auto
  qed simp
  then show ?thesis
    by (simp add: completion_stream_attempt_def passthrough_url_def passthrough_headers_def passthrough_body_def)
qed

theorem passthrough_keeps_integrity_witness:
  "db_ok (fst (snd (embeddings demo_library (demo_moment 0) tagging_cipher (\<lambda>_. False) (\<lambda>_ _ _. None) demo_ft [] (\<lambda>_. []) (Some ''t'') ''{}''
     cached_store (\<lambda>_. None))))"
  using passthrough_keeps_integrity[OF cached_ok] by blast

theorem passthrough_gaps_witness:
  "log_answer demo_library (demo_moment 0) ''t'' (\<lambda>_ _. Timed_Out) 0 demo_targets demo_store = demo_store"
  using passthrough_gaps[where att = "\<lambda>_ _. Timed_Out" and ts = demo_targets and L = demo_library and m = "demo_moment 0"
      and who = "''t''" and k = 0 and d = demo_store] by simp

end
