(* ===== verification/Native_Inbound.thy ===== *)
theory Native_Inbound
  imports Completion_Stream
begin

text \<open>
  The native client surfaces (\<open>src/adapter/mod.rs\<close>, \<open>src/adapter/inbound\<close>): which surface a
  path belongs to, and for the OpenAI, the Anthropic and the Google dialect how a request is
  read into the canonical one and how canonical answers and stream events are written. The
  adapters have no state. Printing JSON is an argument.
\<close>

section \<open>Surfaces\<close>

datatype api_kind = Api_OpenAI | Api_Anthropic | Api_Google | Api_Responses

fun api_prefix :: "api_kind \<Rightarrow> string" where
  "api_prefix Api_OpenAI = ''/openai''"
| "api_prefix Api_Anthropic = ''/anthropic''"
| "api_prefix Api_Google = ''/google''"
| "api_prefix Api_Responses = ''/codex''"

definition api_from_path :: "string \<Rightarrow> api_kind option" where
  "api_from_path path =
     (let seg = hd (split_on CHR ''/'' (trim_start_matches CHR ''/'' path)) in
      if seg = ''openai'' then Some Api_OpenAI
      else if seg = ''anthropic'' then Some Api_Anthropic
      else if seg = ''google'' then Some Api_Google
      else if seg = ''codex'' then Some Api_Responses
      else None)"

section \<open>Shared pieces\<close>

definition str_member :: "string \<Rightarrow> json \<Rightarrow> string option" where
  "str_member k v = and_then (get k v) as_str"

definition model_member :: "json \<Rightarrow> string" where
  "model_member body = or_default [] (str_member ''model'' body)"

definition stream_member :: "bool \<Rightarrow> json \<Rightarrow> bool" where
  "stream_member unset body = or_default unset (and_then (get ''stream'' body) as_bool)"

text \<open>The texts of the elements that have one, a line each.\<close>

definition joined_texts :: "json list \<Rightarrow> string" where
  "joined_texts vs = join [CHR 0x0A] (filter_map (str_member ''text'') vs)"

definition image_url_part :: "string \<Rightarrow> json" where
  "image_url_part url = object [(''type'', JStr ''image_url''), (''image_url'', object [(''url'', JStr url)])]"

definition text_json_part :: "string \<Rightarrow> json" where
  "text_json_part t = object [(''type'', JStr ''text''), (''text'', JStr t)]"

definition base64_url :: "string \<Rightarrow> string \<Rightarrow> string" where
  "base64_url media payload = ''data:'' @ media @ '';base64,'' @ payload"

text \<open>A system prompt becomes a message only when it has a text.\<close>

definition system_message :: "string \<Rightarrow> message list" where
  "system_message t = (if t = [] then [] else [text_message ''system'' t])"

definition on_object :: "((string \<times> json) list \<Rightarrow> (string \<times> json) list) \<Rightarrow> json \<Rightarrow> json" where
  "on_object f v = (case v of JObj m \<Rightarrow> JObj (f m) | _ \<Rightarrow> v)"

definition event_frame :: "string \<Rightarrow> string \<Rightarrow> bytes" where
  "event_frame name payload = ''event: '' @ name @ [nl] @ event_line payload"

section \<open>OpenAI\<close>

definition openai_response :: "canonical_response \<Rightarrow> json" where
  "openai_response r =
     object [(''id'', JStr (cr_id r)), (''object'', JStr ''chat.completion''), (''model'', JStr (cr_model r)),
       (''choices'', JArr [object [(''index'', JInt 0),
          (''message'', object [(''role'', JStr ''assistant''), (''content'', JStr (cr_text r))]),
          (''finish_reason'', JStr (cr_finish_reason r))]]),
       (''usage'', object [(''prompt_tokens'', JInt (int (cr_prompt_tokens r))),
          (''completion_tokens'', JInt (int (cr_completion_tokens r))), (''total_tokens'', JInt (int (total_tokens r)))])]"

definition openai_event :: "(json \<Rightarrow> string) \<Rightarrow> stream_event \<Rightarrow> string \<Rightarrow> bytes option" where
  "openai_event print ev i =
     Some (event_line (print (object [(''id'', JStr i), (''object'', JStr ''chat.completion.chunk''), (''model'', JStr []),
       (''choices'', JArr [object [(''index'', JInt 0),
          (''delta'', object (if se_delta ev = [] then [] else [(''content'', JStr (se_delta ev))])),
          (''finish_reason'', case se_finish_reason ev of None \<Rightarrow> JNull | Some r \<Rightarrow> JStr r)]])])))"

section \<open>Anthropic\<close>

definition anthropic_content_text :: "json \<Rightarrow> string" where
  "anthropic_content_text content =
     (case content of JStr s \<Rightarrow> s | JArr blocks \<Rightarrow> joined_texts blocks | _ \<Rightarrow> [])"

definition anthropic_image_part :: "json \<Rightarrow> json option" where
  "anthropic_image_part block =
     and_then (get ''source'' block) (\<lambda>source.
     and_then (str_member ''type'' source) (\<lambda>kind.
       map_option image_url_part
         (if kind = ''url'' then str_member ''url'' source
          else if kind = ''base64'' then
            Some (base64_url (or_default ''image/png'' (str_member ''media_type'' source))
                             (or_default [] (str_member ''data'' source)))
          else None)))"

definition anthropic_part :: "json \<Rightarrow> json option" where
  "anthropic_part b =
     (if str_member ''type'' b = Some ''image'' then anthropic_image_part b
      else (let t = or_default [] (str_member ''text'' b) in if t = [] then None else Some (text_json_part t)))"

definition from_anthropic_content :: "json \<Rightarrow> json" where
  "from_anthropic_content content =
     (let blocks = or_default [] (as_array content) in
      if \<not> list_ex (\<lambda>b. str_member ''type'' b = Some ''image'') blocks then JStr (anthropic_content_text content)
      else JArr (filter_map anthropic_part blocks))"

definition anthropic_stop_reason :: "string \<Rightarrow> string" where
  "anthropic_stop_reason reason =
     (if reason = ''length'' then ''max_tokens''
      else if reason = ''tool_calls'' then ''tool_use''
      else ''end_turn'')"

definition from_anthropic_message :: "json \<Rightarrow> message" where
  "from_anthropic_message m =
     new_message (or_default ''user'' (str_member ''role'' m))
       (from_anthropic_content (or_default JNull (get ''content'' m)))"

definition from_anthropic :: "json \<Rightarrow> chat_request" where
  "from_anthropic body =
     \<lparr>cq_model = model_member body,
      cq_messages =
        (case get ''system'' body of None \<Rightarrow> [] | Some sys \<Rightarrow> system_message (anthropic_content_text sys))
        @ map from_anthropic_message (or_default [] (and_then (get ''messages'' body) as_array)),
      cq_stream = stream_member False body,
      cq_extra = on_object (\<lambda>m.
        let m' = fold obj_remove [''model'', ''messages'', ''system'', ''stream''] m
        in case map_of m' ''stop_sequences'' of
             None \<Rightarrow> m'
           | Some v \<Rightarrow> obj_insert ''stop'' v (obj_remove ''stop_sequences'' m')) body\<rparr>"

definition anthropic_response :: "canonical_response \<Rightarrow> json" where
  "anthropic_response r =
     object [(''id'', JStr (cr_id r)), (''type'', JStr ''message''), (''role'', JStr ''assistant''),
       (''model'', JStr (cr_model r)), (''content'', JArr [text_json_part (cr_text r)]),
       (''stop_reason'', JStr (anthropic_stop_reason (cr_finish_reason r))), (''stop_sequence'', JNull),
       (''usage'', object [(''input_tokens'', JInt (int (cr_prompt_tokens r))),
          (''output_tokens'', JInt (int (cr_completion_tokens r)))])]"

definition message_stop_frame :: bytes where
  "message_stop_frame =
     (let quoted = (\<lambda>s. [CHR 0x22] @ s @ [CHR 0x22])
      in event_frame ''message_stop'' (''{'' @ quoted ''type'' @ '':'' @ quoted ''message_stop'' @ ''}''))"

definition anthropic_event :: "(json \<Rightarrow> string) \<Rightarrow> stream_event \<Rightarrow> bytes option" where
  "anthropic_event print ev =
     (if se_done ev then Some message_stop_frame
      else if se_delta ev \<noteq> [] then
        Some (event_frame ''content_block_delta'' (print (object [(''type'', JStr ''content_block_delta''), (''index'', JInt 0),
          (''delta'', object [(''type'', JStr ''text_delta''), (''text'', JStr (se_delta ev))])])))
      else (case se_finish_reason ev of
          None \<Rightarrow> None
        | Some reason \<Rightarrow>
            Some (event_frame ''message_delta'' (print (object [(''type'', JStr ''message_delta''),
              (''delta'', object [(''stop_reason'', JStr (anthropic_stop_reason reason)), (''stop_sequence'', JNull)]),
              (''usage'', object [(''output_tokens'', JInt (int (or_default 0 (se_completion_tokens ev))))])])))))"

section \<open>Google\<close>

definition google_parts_text :: "json \<Rightarrow> string" where
  "google_parts_text parts = joined_texts (or_default [] (as_array parts))"

text \<open>A field in either spelling, the first one preferred.\<close>

definition either_field :: "json \<Rightarrow> string \<Rightarrow> string \<Rightarrow> json option" where
  "either_field part camel snake = (case get camel part of Some v \<Rightarrow> Some v | None \<Rightarrow> get snake part)"

definition google_part :: "json \<Rightarrow> json option" where
  "google_part p =
     (case either_field p ''inlineData'' ''inline_data'' of
        Some inline \<Rightarrow>
          Some (image_url_part (base64_url
            (or_default ''image/png'' (and_then (either_field inline ''mimeType'' ''mime_type'') as_str))
            (or_default [] (str_member ''data'' inline))))
      | None \<Rightarrow>
          (case either_field p ''fileData'' ''file_data'' of
             Some file \<Rightarrow> map_option image_url_part (and_then (either_field file ''fileUri'' ''file_uri'') as_str)
           | None \<Rightarrow> map_option text_json_part (str_member ''text'' p)))"

definition google_has_image :: "json list \<Rightarrow> bool" where
  "google_has_image parts \<longleftrightarrow> list_ex (\<lambda>p. either_field p ''inlineData'' ''inline_data'' \<noteq> None
     \<or> either_field p ''fileData'' ''file_data'' \<noteq> None) parts"

definition from_google_content :: "json \<Rightarrow> json" where
  "from_google_content parts =
     (let ps = or_default [] (as_array parts) in
      if \<not> google_has_image ps then JStr (google_parts_text parts) else JArr (filter_map google_part ps))"

definition google_finish_reason :: "string \<Rightarrow> string" where
  "google_finish_reason reason = (if reason = ''length'' then ''MAX_TOKENS'' else ''STOP'')"

definition from_google_message :: "json \<Rightarrow> message" where
  "from_google_message c =
     new_message (if str_member ''role'' c = Some ''model'' then ''assistant'' else ''user'')
       (from_google_content (or_default JNull (get ''parts'' c)))"

definition google_knob :: "string \<Rightarrow> string" where
  "google_knob k =
     (if k = ''maxOutputTokens'' then ''max_tokens''
      else if k = ''stopSequences'' then ''stop''
      else if k = ''topP'' then ''top_p''
      else if k = ''topK'' then ''top_k''
      else k)"

definition from_google :: "json \<Rightarrow> chat_request" where
  "from_google body =
     \<lparr>cq_model = model_member body,
      cq_messages =
        (case pointer [Key ''systemInstruction'', Key ''parts''] body of
           None \<Rightarrow> [] | Some sys \<Rightarrow> system_message (google_parts_text sys))
        @ map from_google_message (or_default [] (and_then (get ''contents'' body) as_array)),
      cq_stream = stream_member False body,
      cq_extra = on_object (\<lambda>m.
        let m' = fold obj_remove [''model'', ''contents'', ''systemInstruction'', ''stream''] m;
            m'' = obj_remove ''generationConfig'' m'
        in case map_of m' ''generationConfig'' of
             Some (JObj cfg) \<Rightarrow> insert_all (map (\<lambda>(k, v). (google_knob k, v)) cfg) m''
           | _ \<Rightarrow> m'') body\<rparr>"

definition google_response :: "canonical_response \<Rightarrow> json" where
  "google_response r =
     object [(''candidates'', JArr [object [
         (''content'', object [(''parts'', JArr [object [(''text'', JStr (cr_text r))]]), (''role'', JStr ''model'')]),
         (''finishReason'', JStr (google_finish_reason (cr_finish_reason r))), (''index'', JInt 0)]]),
       (''usageMetadata'', object [(''promptTokenCount'', JInt (int (cr_prompt_tokens r))),
          (''candidatesTokenCount'', JInt (int (cr_completion_tokens r))), (''totalTokenCount'', JInt (int (total_tokens r)))]),
       (''modelVersion'', JStr (cr_model r))]"

definition google_event :: "(json \<Rightarrow> string) \<Rightarrow> stream_event \<Rightarrow> bytes option" where
  "google_event print ev =
     Some (event_line (print (object [(''candidates'', JArr [object
       ([(''content'', object [(''role'', JStr ''model''),
           (''parts'', JArr (if se_delta ev = [] then [] else [object [(''text'', JStr (se_delta ev))]]))])]
        @ (case se_finish_reason ev of None \<Rightarrow> [] | Some r \<Rightarrow> [(''finishReason'', JStr (google_finish_reason r))]))])])))"

end
