(* ===== verification/Responses_Inbound.thy ===== *)
theory Responses_Inbound
  imports Native_Inbound
begin

text \<open>
  The OpenAI Responses dialect on the client side (\<open>src/adapter/inbound/responses.rs\<close>), the
  one the Codex client speaks: its items and tools are read into canonical messages and
  function tools, and its event stream is written by a renderer with a state, since the
  closing events carry what was accumulated. Printing JSON and the clock are arguments.
\<close>

section \<open>Reading a request\<close>

definition is_text_part :: "json \<Rightarrow> bool" where
  "is_text_part p \<longleftrightarrow> str_member ''type'' p \<in> {Some ''input_text'', Some ''output_text'', Some ''text''}"

definition join_text_parts :: "json list \<Rightarrow> string" where
  "join_text_parts parts = joined_texts (filter is_text_part parts)"

definition response_part :: "json \<Rightarrow> json option" where
  "response_part p =
     (if is_text_part p then Some (text_json_part (or_default [] (str_member ''text'' p)))
      else if str_member ''type'' p = Some ''input_image'' then
        Some (image_url_part (or_default [] (str_member ''image_url'' p)))
      else None)"

definition from_responses_content :: "json option \<Rightarrow> json" where
  "from_responses_content content =
     (case content of
        Some (JStr s) \<Rightarrow> JStr s
      | Some (JArr parts) \<Rightarrow>
          (if list_ex (\<lambda>p. str_member ''type'' p = Some ''input_image'') parts
           then JArr (filter_map response_part parts)
           else JStr (join_text_parts parts))
      | _ \<Rightarrow> JStr [])"

text \<open>The result of a tool, as text.\<close>

definition output_content :: "(json \<Rightarrow> string) \<Rightarrow> json option \<Rightarrow> json" where
  "output_content print output =
     (case output of
        Some (JStr s) \<Rightarrow> JStr s
      | Some (JArr parts) \<Rightarrow> JStr (join_text_parts parts)
      | Some other \<Rightarrow> JStr (print other)
      | None \<Rightarrow> JStr [])"

definition function_entry :: "(string \<times> json) list \<Rightarrow> json" where
  "function_entry es = object [(''type'', JStr ''function''), (''function'', object es)]"

definition tool_call_json :: "(json \<Rightarrow> string) \<Rightarrow> json \<Rightarrow> string \<Rightarrow> json" where
  "tool_call_json print item kind =
     (let call_id = or_default [] (str_member ''call_id'' item);
          i = or_default call_id (nonempty (str_member ''id'' item));
          arguments = arguments_to_string print (get (if kind = ''custom_tool_call'' then ''input'' else ''arguments'') item)
      in object [(''id'', JStr i), (''type'', JStr ''function''),
           (''function'', object [(''name'', JStr (or_default [] (str_member ''name'' item))),
                                  (''arguments'', JStr arguments)])])"

definition call_message :: "json list \<Rightarrow> message" where
  "call_message calls = (new_message ''assistant'' JNull)\<lparr>ms_extra := object [(''tool_calls'', JArr calls)]\<rparr>"

text \<open>Calls of one turn belong to one message: the last one, if it has calls already.\<close>

definition append_call :: "json \<Rightarrow> message list \<Rightarrow> message list option" where
  "append_call encoded messages =
     (if messages = [] then None
      else (let msg = last messages in
        if ms_role msg \<noteq> ''assistant'' then None
        else map_option (\<lambda>calls. butlast messages @
               [msg\<lparr>ms_extra := with_members [(''tool_calls'', JArr (calls @ [encoded]))] (ms_extra msg)\<rparr>])
             (and_then (get ''tool_calls'' (ms_extra msg)) as_array)))"

text \<open>One item; the kinds that have no counterpart are passed over.\<close>

definition item_kind :: "json \<Rightarrow> string" where
  "item_kind item = or_default ''message'' (str_member ''type'' item)"

definition push_input_item :: "(json \<Rightarrow> string) \<Rightarrow> message list \<Rightarrow> json \<Rightarrow> message list" where
  "push_input_item print messages item =
     (let kind = item_kind item in
      if kind = ''message'' then
        messages @ [new_message (or_default ''user'' (str_member ''role'' item)) (from_responses_content (get ''content'' item))]
      else if kind \<in> {''function_call'', ''custom_tool_call''} then
        (let encoded = tool_call_json print item kind in
         or_default (messages @ [call_message [encoded]]) (append_call encoded messages))
      else if kind \<in> {''function_call_output'', ''custom_tool_call_output''} then
        messages @ [(new_message ''tool'' (output_content print (get ''output'' item)))
          \<lparr>ms_extra := object [(''tool_call_id'', JStr (or_default [] (str_member ''call_id'' item)))]\<rparr>]
      else messages)"

section \<open>Tools\<close>

definition plain_tool :: "json \<Rightarrow> json" where
  "plain_tool tool =
     function_entry
       [(''name'', JStr (or_default [] (str_member ''name'' tool))),
        (''description'', JStr (or_default [] (str_member ''description'' tool))),
        (''parameters'', or_default (object [(''type'', JStr ''object'')]) (get ''parameters'' tool)),
        (''strict'', JBool (or_default False (and_then (get ''strict'' tool) as_bool)))]"

definition custom_tool :: "json \<Rightarrow> json" where
  "custom_tool tool =
     (let grammar = or_default [] (str_at [Key ''format'', Key ''definition''] tool);
          description = or_default [] (str_member ''description'' tool)
      in function_entry
       [(''name'', JStr (or_default [] (str_member ''name'' tool))),
        (''description'', JStr (if grammar = [] then description
           else description @ [nl, nl] @ ''Input grammar:'' @ [nl] @ grammar)),
        (''parameters'', object [(''type'', JStr ''object''),
           (''properties'', object [(''input'', object [(''type'', JStr ''string'')])]),
           (''required'', JArr [JStr ''input'']), (''additionalProperties'', JBool False)])])"

text \<open>
  The inner name gets the namespace in front. The code indexes into the entry, which would
  panic on one without a \<open>function\<close> object; the entries made here have one.
\<close>

definition qualify_tool :: "string \<Rightarrow> json \<Rightarrow> json" where
  "qualify_tool namespace entry =
     (let name = or_default [] (str_at [Key ''function'', Key ''name''] entry)
      in with_members [(''function'', with_members [(''name'', JStr (namespace @ ''.'' @ name))]
           (or_default JNull (get ''function'' entry)))] entry)"

lemma size_map_of: "map_of m k = Some v \<Longrightarrow> size v < Suc (size_list (size_prod (\<lambda>_. 0) size) m)"
  by (induction m) (auto split: if_splits)

lemma size_as_array:
  "and_then (get k v) as_array = Some xs \<Longrightarrow> x \<in> set xs \<Longrightarrow> size x < size v"
proof -
  assume a: "and_then (get k v) as_array = Some xs" "x \<in> set xs"
  then obtain m where v: "v = JObj m" "map_of m k = Some (JArr xs)"
    by (cases v; cases "get k v") (auto simp: and_then_def elim!: as_array.elims)
  have "size x < size (JArr xs)"
    using a(2) by (auto simp: size_list_estimation' less_Suc_eq_le)
  with size_map_of[OF v(2)] v(1) show ?thesis by simp
qed

function convert_tool :: "json \<Rightarrow> json list" where
  "convert_tool tool =
     (let kind = str_member ''type'' tool in
      if kind = Some ''function'' then [plain_tool tool]
      else if kind = Some ''custom'' then [custom_tool tool]
      else if kind = Some ''namespace'' then
        (case and_then (get ''tools'' tool) as_array of
           None \<Rightarrow> []
         | Some inner \<Rightarrow> map (qualify_tool (or_default [] (str_member ''name'' tool))) (concat (map convert_tool inner)))
      else [])"
  by pat_completeness auto
termination
  by (relation "measure size") (auto dest: size_as_array)

declare convert_tool.simps [simp del]

definition convert_tools :: "json list \<Rightarrow> json list" where
  "convert_tools tools = concat (map convert_tool tools)"

section \<open>The canonical request\<close>

definition RESPONSES_ONLY_FIELDS :: "string list" where
  "RESPONSES_ONLY_FIELDS = [''store'', ''include'', ''reasoning'', ''prompt_cache_key'', ''stream_options'',
     ''service_tier'', ''client_metadata'', ''text'', ''access_programs'', ''max_output_tokens'']"

definition responses_extra :: "json \<Rightarrow> json" where
  "responses_extra body =
     (let tools = convert_tools (or_default [] (and_then (get ''tools'' body) as_array));
          same = (\<lambda>k. (k, k));
          reserved = carried (map same RESPONSES_ONLY_FIELDS) body
      in object ((if tools = [] then [] else [(''tools'', JArr tools)])
           @ carried (map same [''tool_choice'', ''parallel_tool_calls'', ''temperature'', ''top_p'']) body
           @ carried [(''max_output_tokens'', ''max_tokens'')] body
           @ (if reserved = [] then [] else [(''agos_responses'', object reserved)])))"

definition responses_messages :: "(json \<Rightarrow> string) \<Rightarrow> json \<Rightarrow> message list" where
  "responses_messages print body =
     (let start = (case str_member ''instructions'' body of
            None \<Rightarrow> [] | Some i \<Rightarrow> if trim i = [] then [] else [text_message ''system'' i])
      in case get ''input'' body of
           Some (JStr t) \<Rightarrow> start @ [text_message ''user'' t]
         | Some (JArr items) \<Rightarrow> foldl (push_input_item print) start items
         | _ \<Rightarrow> start)"

definition from_responses :: "(json \<Rightarrow> string) \<Rightarrow> json \<Rightarrow> string + chat_request" where
  "from_responses print body =
     (case nonempty (str_member ''model'' body) of
        None \<Rightarrow> Inl ([CHR 0x60] @ ''model'' @ [CHR 0x60] @ '' is required'')
      | Some model \<Rightarrow>
          Inr \<lparr>cq_model = model, cq_messages = responses_messages print body,
               cq_stream = stream_member True body, cq_extra = responses_extra body\<rparr>)"

section \<open>Writing a response\<close>

definition response_id :: "string \<Rightarrow> string" where
  "response_id i =
     (if starts_with i ''resp_'' then i else if i = [] then ''resp_agos'' else ''resp_'' @ i)"

definition responses_usage :: "nat \<Rightarrow> nat \<Rightarrow> json" where
  "responses_usage p c =
     object [(''input_tokens'', JInt (int p)), (''input_tokens_details'', object [(''cached_tokens'', JInt 0)]),
       (''output_tokens'', JInt (int c)), (''output_tokens_details'', object [(''reasoning_tokens'', JInt 0)]),
       (''total_tokens'', JInt (int (add_u64 p c)))]"

definition message_item :: "string \<Rightarrow> string \<Rightarrow> json" where
  "message_item t i =
     object [(''type'', JStr ''message''), (''id'', JStr (''msg_'' @ i)), (''status'', JStr ''completed''),
       (''role'', JStr ''assistant''),
       (''content'', JArr [object [(''type'', JStr ''output_text''), (''text'', JStr t), (''annotations'', JArr [])]])]"

definition function_call_item :: "tool_call \<Rightarrow> nat \<Rightarrow> json" where
  "function_call_item call index =
     (let i = (if tc_id call = [] then ''fc_'' @ decimal index else tc_id call);
          call_id = (if tc_call_id call = [] then i else tc_call_id call)
      in object [(''type'', JStr ''function_call''), (''id'', JStr i), (''call_id'', JStr call_id),
           (''name'', JStr (tc_name call)), (''arguments'', JStr (tc_arguments call)), (''status'', JStr ''completed'')])"

definition numbered :: "'a list \<Rightarrow> (nat \<times> 'a) list" where
  "numbered xs = zip [0..<length xs] xs"

definition responses_response :: "int \<Rightarrow> canonical_response \<Rightarrow> json" where
  "responses_response now r =
     (let i = response_id (cr_id r) in
      object [(''id'', JStr i), (''object'', JStr ''response''), (''created_at'', JInt now),
        (''status'', JStr ''completed''), (''model'', JStr (cr_model r)),
        (''output'', JArr ((if cr_text r = [] then [] else [message_item (cr_text r) i])
           @ map (\<lambda>(n, call). function_call_item call n) (numbered (cr_tool_calls r)))),
        (''parallel_tool_calls'', JBool True), (''tool_choice'', JStr ''auto''), (''tools'', JArr []),
        (''usage'', responses_usage (cr_prompt_tokens r) (cr_completion_tokens r))])"

section \<open>Writing a stream\<close>

record responses_renderer =
  rr_response_id :: string
  rr_created :: bool
  rr_text :: string
  rr_calls :: "tool_call list"
  rr_prompt_tokens :: nat
  rr_completion_tokens :: nat
  rr_finished :: bool

definition fresh_renderer :: responses_renderer where
  "fresh_renderer = \<lparr>rr_response_id = [], rr_created = False, rr_text = [], rr_calls = [],
     rr_prompt_tokens = 0, rr_completion_tokens = 0, rr_finished = False\<rparr>"

text \<open>Printing, and the two readings of the clock: at the opening and at the closing event.\<close>

record render_env =
  re_print :: "json \<Rightarrow> string"
  re_opened_at :: int
  re_closed_at :: int

definition response_event :: "render_env \<Rightarrow> string \<Rightarrow> (string \<times> json) list \<Rightarrow> bytes" where
  "response_event E name es = event_frame name (re_print E (object ((''type'', JStr name) # es)))"

definition created_frame :: "render_env \<Rightarrow> responses_renderer \<Rightarrow> bytes" where
  "created_frame E s =
     response_event E ''response.created'' [(''response'', object [(''id'', JStr (rr_response_id s)),
       (''object'', JStr ''response''), (''created_at'', JInt (re_opened_at E)), (''status'', JStr ''in_progress''),
       (''output'', JArr [])])]"

definition delta_frame :: "render_env \<Rightarrow> responses_renderer \<Rightarrow> string \<Rightarrow> bytes" where
  "delta_frame E s t =
     response_event E ''response.output_text.delta'' [(''item_id'', JStr (''msg_'' @ rr_response_id s)),
       (''output_index'', JInt 0), (''content_index'', JInt 0), (''delta'', JStr t)]"

definition item_done_frame :: "render_env \<Rightarrow> nat \<Rightarrow> json \<Rightarrow> bytes" where
  "item_done_frame E index item =
     response_event E ''response.output_item.done'' [(''output_index'', JInt (int index)), (''item'', item)]"

definition completed_frame :: "render_env \<Rightarrow> responses_renderer \<Rightarrow> bytes" where
  "completed_frame E s =
     response_event E ''response.completed'' [(''response'', object [(''id'', JStr (rr_response_id s)),
       (''object'', JStr ''response''), (''created_at'', JInt (re_closed_at E)), (''status'', JStr ''completed''),
       (''usage'', responses_usage (rr_prompt_tokens s) (rr_completion_tokens s))])]"

definition empty_call :: tool_call where
  "empty_call = \<lparr>tc_id = [], tc_call_id = [], tc_name = [], tc_arguments = []\<rparr>"

text \<open>A fragment is folded into the call at its index; the list grows up to it.\<close>

definition or_keep :: "string \<Rightarrow> string option \<Rightarrow> string" where
  "or_keep old x = or_default old (nonempty x)"

definition absorb_call :: "tool_call_delta \<Rightarrow> tool_call \<Rightarrow> tool_call" where
  "absorb_call delta call =
     \<lparr>tc_id = or_keep (tc_id call) (td_id delta), tc_call_id = or_keep (tc_call_id call) (td_call_id delta),
      tc_name = or_keep (tc_name call) (td_name delta),
      tc_arguments = tc_arguments call @ or_default [] (td_arguments delta)\<rparr>"

definition absorb :: "tool_call_delta \<Rightarrow> tool_call list \<Rightarrow> tool_call list" where
  "absorb delta calls =
     (let i = td_index delta; grown = calls @ replicate (Suc i - length calls) empty_call
      in grown[i := absorb_call delta (grown ! i)])"

text \<open>The closing burst: the message, every call that has a name, and the end of the turn.\<close>

definition terminal_frames :: "render_env \<Rightarrow> responses_renderer \<Rightarrow> bytes" where
  "terminal_frames E s =
     (let first = (if rr_text s = [] then 0 else 1) in
      (if rr_text s = [] then [] else item_done_frame E 0 (message_item (rr_text s) (rr_response_id s)))
      @ concat (map (\<lambda>(position, call). if tc_name call = [] then []
            else item_done_frame E (first + position) (function_call_item call position)) (numbered (rr_calls s)))
      @ completed_frame E s)"

definition named :: "string \<Rightarrow> responses_renderer \<Rightarrow> responses_renderer" where
  "named i s = (if rr_response_id s = [] then s\<lparr>rr_response_id := response_id i\<rparr> else s)"

definition open_stream :: "render_env \<Rightarrow> string \<Rightarrow> responses_renderer \<Rightarrow> bytes \<times> responses_renderer" where
  "open_stream E i s0 =
     (let s = named i s0 in
      if rr_created s then ([], s) else (created_frame E (s\<lparr>rr_created := True\<rparr>), s\<lparr>rr_created := True\<rparr>))"

definition absorb_event :: "stream_event \<Rightarrow> responses_renderer \<Rightarrow> responses_renderer" where
  "absorb_event ev s =
     s\<lparr>rr_prompt_tokens := or_default (rr_prompt_tokens s) (se_prompt_tokens ev),
       rr_completion_tokens := or_default (rr_completion_tokens s) (se_completion_tokens ev),
       rr_calls := fold absorb (se_tool_call_deltas ev) (rr_calls s),
       rr_text := rr_text s @ se_delta ev\<rparr>"

definition ends_stream :: "stream_event \<Rightarrow> bool" where
  "ends_stream ev \<longleftrightarrow> se_finish_reason ev \<noteq> None \<or> se_done ev"

definition responses_render :: "render_env \<Rightarrow> stream_event \<Rightarrow> string \<Rightarrow> responses_renderer \<Rightarrow> bytes option \<times> responses_renderer" where
  "responses_render E ev i s0 =
     (if rr_finished s0 then (None, s0)
      else (let (opening, s1) = open_stream E i s0; s2 = absorb_event ev s1;
                frames = opening
                  @ (if se_delta ev = [] then [] else delta_frame E s2 (se_delta ev))
                  @ (if ends_stream ev then terminal_frames E (s2\<lparr>rr_finished := True\<rparr>) else [])
            in (if frames = [] then None else Some frames,
                if ends_stream ev then s2\<lparr>rr_finished := True\<rparr> else s2)))"

definition responses_finish :: "render_env \<Rightarrow> string \<Rightarrow> responses_renderer \<Rightarrow> bytes option \<times> responses_renderer" where
  "responses_finish E i s0 =
     (if rr_finished s0 then (None, s0)
      else (let (opening, s) = open_stream E i s0
            in (Some (opening @ terminal_frames E (s\<lparr>rr_finished := True\<rparr>)), s\<lparr>rr_finished := True\<rparr>)))"

end
