(* ===== verification/Native.thy ===== *)
theory Native
  imports Responses_Inbound
begin

text \<open>
  The registry of client surfaces (\<open>src/adapter/mod.rs\<close>, \<open>src/adapter/inbound/mod.rs\<close>) and the
  native handlers (\<open>src/server/native.rs\<close>): a native request is read into the canonical one,
  routed, forwarded with failover, and answered in the client's dialect, as JSON or as an
  event stream that is re-encoded line by line. The network, the clock, the client's
  readiness to receive and the texts of library errors are arguments.
\<close>

section \<open>The registry\<close>

definition parse_request :: "(json \<Rightarrow> string) \<Rightarrow> (json \<Rightarrow> string) \<Rightarrow> api_kind \<Rightarrow> json \<Rightarrow> string + chat_request" where
  "parse_request print serde_text kind body =
     (case kind of
        Api_OpenAI \<Rightarrow> ok_or (serde_text body) (chat_of_json body)
      | Api_Anthropic \<Rightarrow> Inr (from_anthropic body)
      | Api_Google \<Rightarrow> Inr (from_google body)
      | Api_Responses \<Rightarrow> from_responses print body)"

definition render_response :: "int \<Rightarrow> api_kind \<Rightarrow> canonical_response \<Rightarrow> json" where
  "render_response now kind r =
     (case kind of
        Api_OpenAI \<Rightarrow> openai_response r
      | Api_Anthropic \<Rightarrow> anthropic_response r
      | Api_Google \<Rightarrow> google_response r
      | Api_Responses \<Rightarrow> responses_response now r)"

definition render_stream_event :: "render_env \<Rightarrow> api_kind \<Rightarrow> stream_event \<Rightarrow> string \<Rightarrow> bytes option" where
  "render_stream_event E kind ev i =
     (case kind of
        Api_OpenAI \<Rightarrow> openai_event (re_print E) ev i
      | Api_Anthropic \<Rightarrow> anthropic_event (re_print E) ev
      | Api_Google \<Rightarrow> google_event (re_print E) ev
      | Api_Responses \<Rightarrow> fst (responses_render E ev i fresh_renderer))"

definition stream_end_marker :: "api_kind \<Rightarrow> bytes option" where
  "stream_end_marker kind = (if kind = Api_OpenAI then Some (event_line ''[DONE]'') else None)"

text \<open>The renderer of one stream: stateless for every surface but Responses.\<close>

datatype renderer = Stateless api_kind | Stateful responses_renderer

definition stream_renderer :: "api_kind \<Rightarrow> renderer" where
  "stream_renderer kind = (if kind = Api_Responses then Stateful fresh_renderer else Stateless kind)"

fun render :: "render_env \<Rightarrow> stream_event \<Rightarrow> string \<Rightarrow> renderer \<Rightarrow> bytes option \<times> renderer" where
  "render E ev i (Stateless kind) = (render_stream_event E kind ev i, Stateless kind)"
| "render E ev i (Stateful s) = (let (out, s') = responses_render E ev i s in (out, Stateful s'))"

fun finish_render :: "render_env \<Rightarrow> string \<Rightarrow> renderer \<Rightarrow> bytes option \<times> renderer" where
  "finish_render E i (Stateless kind) = (stream_end_marker kind, Stateless kind)"
| "finish_render E i (Stateful s) = (let (out, s') = responses_finish E i s in (out, Stateful s'))"

section \<open>The model in a Google path\<close>

fun after_first :: "string \<Rightarrow> string \<Rightarrow> string option" where
  "after_first p [] = (if p = [] then Some [] else None)"
| "after_first p (c # s) = (if prefix p (c # s) then Some (drop (length p) (c # s)) else after_first p s)"

function replace_all :: "string \<Rightarrow> string \<Rightarrow> string \<Rightarrow> string" where
  "replace_all p r s =
     (case s of [] \<Rightarrow> []
      | c # s' \<Rightarrow> if p \<noteq> [] \<and> prefix p s then r @ replace_all p r (drop (length p) s) else c # replace_all p r s')"
  by pat_completeness auto
termination
  by (relation "measure (\<lambda>(p, r, s). length s)") auto

declare replace_all.simps [simp del]

definition model_from_google_path :: "string \<Rightarrow> string option" where
  "model_from_google_path path =
     and_then (after_first ''models/'' path) (\<lambda>rest.
       let model = hd (split_on CHR '':'' rest)
       in if model = [] then None
          else Some (replace_all ''%2f'' ''/'' (replace_all ''%2F'' ''/'' model)))"

section \<open>Buffered requests\<close>

text \<open>The text of the last error, as \<open>Display\<close> prints it: only the outer context.\<close>

definition failover_text :: "library \<Rightarrow> failover_error \<Rightarrow> string" where
  "failover_text L e =
     (case e of
        No_Targets \<Rightarrow> ''no healthy targets for this route''
      | Last_Failed (Refused pe) \<Rightarrow> ''provider returned an error response''
      | Last_Failed (Broken msg) \<Rightarrow> msg
      | Last_Failed _ \<Rightarrow> ''attempt timed out after '' @ lb_timeout_text L)"

definition plain_json :: "bytes \<Rightarrow> response" where
  "plain_json b = \<lparr>rp_status = 200, rp_headers = [(''Content-Type'', ''application/json'')], rp_body = b\<rparr>"

definition native_answer :: "library \<Rightarrow> int \<Rightarrow> api_kind \<Rightarrow> bytes \<Rightarrow> response" where
  "native_answer L now kind b =
     (case parse_canonical (js_parse (lb_js L)) (js_print (lb_js L)) b of
        Some canon \<Rightarrow> plain_json (js_print (lb_js L) (render_response now kind canon))
      | None \<Rightarrow> plain_json b)"

definition chat_non_stream ::
  "library \<Rightarrow> moment \<Rightarrow> cipher \<Rightarrow> int \<Rightarrow> (chat_request \<Rightarrow> nat \<Rightarrow> target \<Rightarrow> attempt) \<Rightarrow> api_kind \<Rightarrow> string \<Rightarrow> request_needs
     \<Rightarrow> chat_request \<Rightarrow> db \<Rightarrow> rr_state \<Rightarrow> response \<times> db \<times> rr_state" where
  "chat_non_stream L m c now att kind who needs req d rr =
     (case resolve_targets_with_strategy c (mo_floats m) (mo_draw m) d who (cq_model req) needs (mo_resolved m) rr of
        (Inl e, rr') \<Rightarrow> (resolution_reply L (route_error_text L d (cq_model req) e), d, rr')
      | (Inr [], rr') \<Rightarrow> (no_targets L needs, d, rr')
      | (Inr (t # ts), rr') \<Rightarrow>
          (case logged_failover L m who (att (prepared_request 0 (t # ts) req)) (t # ts) d of
             (Inr b, d') \<Rightarrow> (native_answer L now kind b, d', rr')
           | (Inl e, d') \<Rightarrow> (bad_request L (''all providers failed: '' @ failover_text L e), d', rr')))"

section \<open>Opening a stream\<close>

text \<open>What sending meets: a 2xx and its body, another status, no connection, no headers.\<close>

datatype live = Live "arrival list" | Status int response_headers | Unreachable string | Too_Late

datatype native_attempt = Skipped | Native_Failed string | Streaming "arrival list"

record native_world =
  nw_open :: "nat \<Rightarrow> string \<Rightarrow> headers \<Rightarrow> json \<Rightarrow> live"
  nw_room :: room
  nw_render :: render_env
  nw_end_latency :: int
  nw_end_logged :: int

definition opened_native :: "library \<Rightarrow> live \<Rightarrow> native_attempt" where
  "opened_native L r =
     (case r of
        Live as \<Rightarrow> Streaming as
      | Status status hs \<Rightarrow>
          Native_Failed (if is_mask_rejection hs then MASK_FAILED @ '' egress mask returned '' @ lb_status_text L status
            else ''provider returned '' @ lb_status_text L status)
      | Unreachable e \<Rightarrow> Native_Failed (''upstream failed: '' @ e)
      | Too_Late \<Rightarrow> Native_Failed ''upstream timeout'')"

definition native_attempt_on :: "library \<Rightarrow> native_world \<Rightarrow> chat_request \<Rightarrow> nat \<Rightarrow> target \<Rightarrow> native_attempt" where
  "native_attempt_on L w req n t =
     (case build_upstream_request t req True of
        Inl msg \<Rightarrow> Skipped
      | Inr (url, headers, body) \<Rightarrow>
          (case apply_json (\<lambda>b. length (js_print (lb_js L) b)) (pv_mask (tg_provider t)) url headers body of
             Inl msg \<Rightarrow> Skipped
           | Inr (url', headers') \<Rightarrow> opened_native L (nw_open w n url' headers' body)))"

text \<open>The row of a streamed attempt: that of a buffered one, with the flag set.\<close>

definition log_streamed :: "library \<Rightarrow> string \<Rightarrow> target \<Rightarrow> attempt \<Rightarrow> int \<Rightarrow> int \<Rightarrow> db \<Rightarrow> db" where
  "log_streamed L who t a latency now d =
     (case attempt_row L who t a latency of
        None \<Rightarrow> d
      | Some u \<Rightarrow> snd (record_usage (u\<lparr>nu_streamed := True\<rparr>) now d))"

fun try_native ::
  "library \<Rightarrow> moment \<Rightarrow> string \<Rightarrow> (nat \<Rightarrow> target \<Rightarrow> native_attempt) \<Rightarrow> nat \<Rightarrow> target list \<Rightarrow> db
     \<Rightarrow> (target \<times> arrival list) option \<times> db" where
  "try_native L m who att n [] d = (None, d)"
| "try_native L m who att n (t # ts) d =
     (case att n t of
        Streaming as \<Rightarrow> (Some (t, as), d)
      | Skipped \<Rightarrow> try_native L m who att (n + 1) ts d
      | Native_Failed msg \<Rightarrow>
          try_native L m who att (n + 1) ts (log_streamed L who t (Broken msg) (mo_latency m n) (mo_logged m n) d))"

section \<open>Re-encoding a stream\<close>

definition STREAM_ID :: string where
  "STREAM_ID = ''chatcmpl-agos''"

text \<open>\<open>trim_start_matches("data:")\<close> removes the prefix as often as it occurs.\<close>

function strip_data :: "string \<Rightarrow> string" where
  "strip_data s = (if prefix ''data:'' s then strip_data (drop 5 s) else s)"
  by pat_completeness auto
termination
  by (relation "measure length") (auto simp: prefix_def)

declare strip_data.simps [simp del]

definition decode_line ::
  "(string \<Rightarrow> json option) \<Rightarrow> render_env \<Rightarrow> provider_kind \<Rightarrow> string \<Rightarrow> renderer \<Rightarrow> (bytes \<times> bool) option \<times> renderer" where
  "decode_line from_str E kind line0 s =
     (let line = trim line0 in
      if \<not> starts_with line ''data:'' then (None, s)
      else (let payload = trim (strip_data line) in
        if payload = ''[DONE]'' then (None, s)
        else (case parse_stream_chunk from_str kind payload of
            None \<Rightarrow> (None, s)
          | Some ev \<Rightarrow>
              (let (out, s') = render E ev STREAM_ID s in (map_option (\<lambda>f. (f, ends_stream ev)) out, s')))))"

function take_lines :: "string \<Rightarrow> string list \<times> string" where
  "take_lines buf =
     (case split_once nl buf of
        None \<Rightarrow> ([], buf)
      | Some (line, rest) \<Rightarrow> (let (lines, left) = take_lines rest in ((line @ [nl]) # lines, left)))"
  by pat_completeness auto
termination
  by (relation "measure length") (auto simp: split_once_Some)

declare take_lines.simps [simp del]

record relay =
  rl_renderer :: renderer
  rl_terminal :: bool
  rl_room :: room

definition relay_line ::
  "(string \<Rightarrow> json option) \<Rightarrow> render_env \<Rightarrow> provider_kind \<Rightarrow> string \<Rightarrow> relay \<Rightarrow> sent list \<times> relay" where
  "relay_line from_str E kind line r =
     (case decode_line from_str E kind line (rl_renderer r) of
        (None, s) \<Rightarrow> ([], r\<lparr>rl_renderer := s\<rparr>)
      | (Some (frame, done), s) \<Rightarrow>
          (send_to (rl_room r) (Sent frame),
           \<lparr>rl_renderer = s, rl_terminal = (rl_terminal r \<or> done), rl_room = take_room (rl_room r)\<rparr>))"

fun relay_lines ::
  "(string \<Rightarrow> json option) \<Rightarrow> render_env \<Rightarrow> provider_kind \<Rightarrow> string list \<Rightarrow> relay \<Rightarrow> sent list \<times> relay" where
  "relay_lines from_str E kind [] r = ([], r)"
| "relay_lines from_str E kind (line # lines) r =
     (let (out, r') = relay_line from_str E kind line r in prepend out (relay_lines from_str E kind lines r'))"

text \<open>The end of the body: a last line without its end, and the closing frame, if none was seen.\<close>

definition relay_end :: "(string \<Rightarrow> json option) \<Rightarrow> render_env \<Rightarrow> provider_kind \<Rightarrow> string \<Rightarrow> relay \<Rightarrow> sent list" where
  "relay_end from_str E kind buf r =
     (let (out, r') = (if rl_terminal r then ([], r) else relay_line from_str E kind buf r) in
      out @ (if rl_terminal r' then []
             else (case fst (finish_render E STREAM_ID (rl_renderer r')) of
                None \<Rightarrow> [] | Some marker \<Rightarrow> send_to (rl_room r') (Sent marker))))"

text \<open>
  The relay of a body; the second component tells whether it ended, so that the row is
  written. There is no idle guard: a silence is waited out.
\<close>

fun native_pump ::
  "(string \<Rightarrow> json option) \<Rightarrow> render_env \<Rightarrow> provider_kind \<Rightarrow> string \<Rightarrow> arrival list \<Rightarrow> relay \<Rightarrow> sent list \<times> bool" where
  "native_pump from_str E kind buf [] r = (relay_end from_str E kind buf r, True)"
| "native_pump from_str E kind buf (Silence # as) r = native_pump from_str E kind buf as r"
| "native_pump from_str E kind buf (Cut e # as) r = (send_to (rl_room r) (Sent_Error (''stream error: '' @ e)), False)"
| "native_pump from_str E kind buf (Bytes b # as) r =
     (let (lines, buf') = take_lines (buf @ from_utf8_lossy b); (out, r') = relay_lines from_str E kind lines r
      in prepend out (native_pump from_str E kind buf' as r'))"

definition relay_start :: "api_kind \<Rightarrow> room \<Rightarrow> relay" where
  "relay_start kind r = \<lparr>rl_renderer = stream_renderer kind, rl_terminal = False, rl_room = r\<rparr>"

definition relay_body ::
  "library \<Rightarrow> native_world \<Rightarrow> api_kind \<Rightarrow> string \<Rightarrow> target \<Rightarrow> arrival list \<Rightarrow> db \<Rightarrow> sent list \<times> db" where
  "relay_body L w kind who t as d =
     (case native_pump (js_parse (lb_js L)) (nw_render w) (pv_kind (tg_provider t)) [] as (relay_start kind (nw_room w)) of
        (out, True) \<Rightarrow> (out, log_streamed L who t (Answered []) (nw_end_latency w) (nw_end_logged w) d)
      | (out, False) \<Rightarrow> (out, d))"

definition chat_stream ::
  "library \<Rightarrow> moment \<Rightarrow> native_world \<Rightarrow> cipher \<Rightarrow> api_kind \<Rightarrow> string \<Rightarrow> request_needs \<Rightarrow> chat_request \<Rightarrow> db \<Rightarrow> rr_state
     \<Rightarrow> http_out \<times> db \<times> rr_state" where
  "chat_stream L m w c kind who needs req d rr =
     (case resolve_targets_with_strategy c (mo_floats m) (mo_draw m) d who (cq_model req) needs (mo_resolved m) rr of
        (Inl e, rr') \<Rightarrow>
          (Whole (bad_request L (''route resolution failed: '' @ route_error_text L d (cq_model req) e)), d, rr')
      | (Inr [], rr') \<Rightarrow> (Whole (no_targets L needs), d, rr')
      | (Inr (t # ts), rr') \<Rightarrow>
          (case try_native L m who (native_attempt_on L w req) 0 (t # ts) d of
             (None, d') \<Rightarrow> (Whole (all_failed_reply L), d', rr')
           | (Some (s, as), d') \<Rightarrow>
               (let (out, d'') = relay_body L w kind who s as d' in (Event_Stream out, d'', rr'))))"

section \<open>The handlers\<close>

text \<open>
  A native request: identity slot, path and body. The surface of Google has the model in
  the path; what a request needs is read off the canonical request.
\<close>

definition google_model :: "api_kind \<Rightarrow> string \<Rightarrow> json \<Rightarrow> json" where
  "google_model kind path body =
     (case (if kind = Api_Google then model_from_google_path path else None) of
        None \<Rightarrow> body
      | Some model \<Rightarrow> with_members [(''model'', JStr model)] body)"

definition native_chat ::
  "library \<Rightarrow> moment \<Rightarrow> native_world \<Rightarrow> cipher \<Rightarrow> int \<Rightarrow> (chat_request \<Rightarrow> nat \<Rightarrow> target \<Rightarrow> attempt) \<Rightarrow> string \<Rightarrow> (bytes \<Rightarrow> string)
     \<Rightarrow> (json \<Rightarrow> string) \<Rightarrow> api_kind \<Rightarrow> string option \<Rightarrow> string \<Rightarrow> bytes \<Rightarrow> db \<Rightarrow> rr_state \<Rightarrow> http_out \<times> db \<times> rr_state" where
  "native_chat L m w c now att limit_text parse_text serde_text kind slot path body d rr =
     (case read_request L limit_text parse_text slot Some body of
        Inl resp \<Rightarrow> (Whole resp, d, rr)
      | Inr (who, v) \<Rightarrow>
          (case parse_request (js_print (lb_js L)) serde_text kind (google_model kind path v) of
             Inl e \<Rightarrow> (Whole (bad_request L (''invalid request body: '' @ e)), d, rr)
           | Inr req \<Rightarrow>
               (let needs = needs_from_body (or_default JNull (chat_to_json req)) in
                if cq_stream req then chat_stream L m w c kind who needs req d rr
                else (let (resp, d', rr') = chat_non_stream L m c now att kind who needs req d rr
                      in (Whole resp, d', rr')))))"

section \<open>Lists of models\<close>

definition list_native_models :: "string \<Rightarrow> db \<Rightarrow> store_error + string list" where
  "list_native_models who d =
     collect_res (\<lambda>p. case list_routes (px_id p) d of
          Inl e \<Rightarrow> Inl e
        | Inr rs \<Rightarrow> Inr (map (\<lambda>r. px_name p @ ''/'' @ rt_name r) rs)) (list_proxies who d)"

definition native_models :: "library \<Rightarrow> (string list \<Rightarrow> json) \<Rightarrow> string \<Rightarrow> db \<Rightarrow> response" where
  "native_models L shape who d =
     (case get_profile_by_id who d of
        None \<Rightarrow> bad_request L ''invalid profile token''
      | Some pf \<Rightarrow>
          (case list_native_models (pf_id pf) d of
             Inl e \<Rightarrow> bad_request L (''failed to list models: '' @ lb_store_text L e)
           | Inr ids \<Rightarrow> json_reply L 200 (shape ids)))"

definition anthropic_models :: "library \<Rightarrow> string \<Rightarrow> db \<Rightarrow> response" where
  "anthropic_models L = native_models L (\<lambda>ids. object [(''data'', JArr (map (\<lambda>i.
     object [(''type'', JStr ''model''), (''id'', JStr i), (''display_name'', JStr i),
             (''created_at'', JStr ''2024-01-01T00:00:00Z'')]) ids))])"

definition google_models :: "library \<Rightarrow> string \<Rightarrow> db \<Rightarrow> response" where
  "google_models L = native_models L (\<lambda>ids. object [(''models'', JArr (map (\<lambda>i.
     object [(''name'', JStr (''models/'' @ i)), (''displayName'', JStr i)]) ids))])"

end
