(* ===== verification/Rate_Limit.thy ===== *)
theory Rate_Limit
  imports Agos_Prelude
begin

text \<open>
  The in-memory sliding-window limiter (\<open>src/server/ratelimit.rs\<close>). Instants are integers
  (nanoseconds); a window is the queue of accepted instants of one key, oldest first. A run
  of the limiter advances a monotonic clock and carries, beside the code's state, a log of
  every accepted request that nothing is ever removed from.
\<close>

section \<open>The limiter\<close>

definition WINDOW :: int where
  "WINDOW = 60 * 10 ^ 9"

type_synonym windows = "string \<Rightarrow> int list option"

text \<open>\<open>Instant::duration_since\<close> saturates at zero.\<close>

definition duration_since :: "int \<Rightarrow> int \<Rightarrow> int" where
  "duration_since now t = max 0 (now - t)"

definition evict :: "int \<Rightarrow> int list \<Rightarrow> int list" where
  "evict now w = dropWhile (\<lambda>t. duration_since now t \<ge> WINDOW) w"

definition window_of :: "string \<Rightarrow> windows \<Rightarrow> int list" where
  "window_of key ws = (case ws key of None \<Rightarrow> [] | Some w \<Rightarrow> w)"

definition check :: "string \<Rightarrow> int \<Rightarrow> int \<Rightarrow> windows \<Rightarrow> bool \<times> windows" where
  "check key rpm_limit now ws =
     (let w = evict now (window_of key ws)
      in if int (length w) \<ge> rpm_limit then (False, ws(key \<mapsto> w))
         else (True, ws(key \<mapsto> w @ [now])))"

definition prune :: "int \<Rightarrow> int \<Rightarrow> windows \<Rightarrow> windows" where
  "prune max_age now ws =
     (\<lambda>key. case ws key of
        None \<Rightarrow> None
      | Some w \<Rightarrow> (let w' = filter (\<lambda>t. duration_since now t < max_age) w
                  in if w' = [] then None else Some w'))"

section \<open>Runs\<close>

text \<open>The health loop prunes with half an hour.\<close>

definition PRUNE_AGE :: int where
  "PRUNE_AGE = 30 * 60 * 10 ^ 9"

datatype rl_event = Check string | Prune

record rl_run =
  rl_now :: int
  rl_windows :: windows
  rl_log :: "string \<Rightarrow> int list"

text \<open>One event, \<open>delta\<close> after the previous one; \<open>limit\<close> is each profile's ceiling.\<close>

definition rl_step :: "(string \<Rightarrow> int) \<Rightarrow> nat \<times> rl_event \<Rightarrow> rl_run \<Rightarrow> rl_run" where
  "rl_step limit ev s =
     (let now = rl_now s + int (fst ev)
      in case snd ev of
           Check key \<Rightarrow>
             (let (accepted, ws) = check key (limit key) now (rl_windows s)
              in s\<lparr>rl_now := now, rl_windows := ws,
                   rl_log := (if accepted then (rl_log s)(key := rl_log s key @ [now]) else rl_log s)\<rparr>)
         | Prune \<Rightarrow> s\<lparr>rl_now := now, rl_windows := prune PRUNE_AGE now (rl_windows s)\<rparr>)"

definition rl_start :: "int \<Rightarrow> rl_run" where
  "rl_start now = \<lparr>rl_now = now, rl_windows = (\<lambda>_. None), rl_log = (\<lambda>_. [])\<rparr>"

definition rl_run :: "(string \<Rightarrow> int) \<Rightarrow> (nat \<times> rl_event) list \<Rightarrow> int \<Rightarrow> rl_run" where
  "rl_run limit evs now = fold (rl_step limit) evs (rl_start now)"

section \<open>The invariant\<close>

text \<open>
  The log of a key is what was evicted, all of it a window old, followed by the queue; and
  an accepted request is a window away from the one \<open>n\<close> before it.
\<close>

definition spaced :: "int \<Rightarrow> int list \<Rightarrow> bool" where
  "spaced n lg \<longleftrightarrow> (\<forall>i j. j < length lg \<longrightarrow> int i + n \<le> int j \<longrightarrow> lg ! j - lg ! i \<ge> WINDOW)"

definition rl_inv :: "(string \<Rightarrow> int) \<Rightarrow> rl_run \<Rightarrow> bool" where
  "rl_inv limit s \<longleftrightarrow> (\<forall>key. sorted (rl_log s key) \<and> (\<forall>t\<in>set (rl_log s key). t \<le> rl_now s)
     \<and> (limit key > 0 \<longrightarrow> spaced (limit key) (rl_log s key))
     \<and> (\<exists>old. rl_log s key = old @ window_of key (rl_windows s) \<and> (\<forall>t\<in>set old. rl_now s - t \<ge> WINDOW)))"

lemma WINDOW_pos [simp]: "WINDOW > 0"
  by (simp add: WINDOW_def)

lemma duration_window [simp]: "duration_since now t \<ge> WINDOW \<longleftrightarrow> now - t \<ge> WINDOW"
  unfolding duration_since_def using WINDOW_pos by (intro iffI; linarith)

lemma evict_split: "\<exists>gone. w = gone @ evict now w \<and> (\<forall>t\<in>set gone. now - t \<ge> WINDOW)"
proof -
  have "\<forall>t\<in>set (takeWhile (\<lambda>t. duration_since now t \<ge> WINDOW) w). now - t \<ge> WINDOW"
    by (auto dest: set_takeWhileD)
  then show ?thesis unfolding evict_def by (metis takeWhile_dropWhile_id)
qed

lemma evict_recent: "sorted w \<Longrightarrow> t \<in> set (evict now w) \<Longrightarrow> now - t < WINDOW"
proof -
  assume s: "sorted w" and t: "t \<in> set (evict now w)"
  obtain x xs where x: "evict now w = x # xs" using t by (cases "evict now w") auto
  have "\<not> duration_since now x \<ge> WINDOW" using x hd_dropWhile unfolding evict_def by (metis list.distinct(1) list.sel(1))
  moreover have "sorted (x # xs)" using s x unfolding evict_def by (metis sorted_dropWhile)
  ultimately show ?thesis using t x by auto
qed

lemma window_upd [simp]: "window_of k (ws(key \<mapsto> w)) = (if k = key then w else window_of k ws)"
  by (simp add: window_of_def)

lemma spaced_snoc:
  assumes "spaced n lg" "lg = old @ w" "\<forall>t\<in>set old. now - t \<ge> WINDOW" "int (length w) < n" 
  shows "spaced n (lg @ [now])"
  unfolding spaced_def
proof (intro allI impI)
  fix i j assume j: "j < length (lg @ [now])" and ij: "int i + n \<le> int j"
  show "(lg @ [now]) ! j - (lg @ [now]) ! i \<ge> WINDOW"
  proof (cases "j < length lg")
    case True
    then have "i < length lg" using ij assms(4) by linarith
    with True show ?thesis using assms(1) ij by (simp add: spaced_def nth_append)
  next
    case False
    with j have jl: "j = length lg" by simp
    then have "i < length old" using ij assms(2,4) by simp
    then have "(lg @ [now]) ! i \<in> set old" using assms(2) by (simp add: nth_append)
    then show ?thesis using jl assms(3) by simp
  qed
qed

lemma sorted_snoc_le: "sorted xs \<Longrightarrow> (\<forall>t\<in>set xs. t \<le> x) \<Longrightarrow> sorted (xs @ [x])"
  by (auto simp: sorted_append)

lemma prune_window:
  assumes "sorted w" "age \<ge> WINDOW"
  shows "\<exists>gone. w = gone @ filter (\<lambda>t. duration_since now t < age) w \<and> (\<forall>t\<in>set gone. now - t \<ge> WINDOW)"
  using assms(1)
proof (induction w)
  case (Cons x w)
  then obtain gone where g: "w = gone @ filter (\<lambda>t. duration_since now t < age) w" "\<forall>t\<in>set gone. now - t \<ge> WINDOW"
    by auto
  have old: "now - t \<ge> WINDOW" if "\<not> duration_since now t < age" for t
  proof -
    have "age \<le> max 0 (now - t)" using that unfolding duration_since_def by linarith
    then show ?thesis using assms(2) WINDOW_pos by linarith
  qed
  show ?case
  proof (cases "duration_since now x < age")
    case True
    have "\<forall>t\<in>set w. duration_since now t < age"
      using Cons.prems True by (force simp: duration_since_def)
    with True show ?thesis by (intro exI[of _ "[]"]) (auto simp: filter_id_conv)
  next
    case False
    with g old show ?thesis by (intro exI[of _ "x # gone"]) auto
  qed
qed simp

lemma rl_inv_check:
  assumes inv: "rl_inv limit s"
  shows "rl_inv limit (rl_step limit (delta, Check key) s)"
proof -
  define now where "now = rl_now s + int delta"
  obtain old where old: "rl_log s key = old @ window_of key (rl_windows s)" "\<forall>t\<in>set old. rl_now s - t \<ge> WINDOW"
    using inv unfolding rl_inv_def by blast
  obtain gone where gone: "window_of key (rl_windows s) = gone @ evict now (window_of key (rl_windows s))"
    "\<forall>t\<in>set gone. now - t \<ge> WINDOW" using evict_split by blast
  define w where "w = evict now (window_of key (rl_windows s))"
  have lg: "rl_log s key = (old @ gone) @ w" using old(1) gone(1) w_def by simp
  have dropped: "\<forall>t\<in>set (old @ gone). now - t \<ge> WINDOW"
    using old(2) gone(2) by (auto simp: now_def)
  have past: "\<And>k t. t \<in> set (rl_log s k) \<Longrightarrow> t \<le> now" "\<And>k. sorted (rl_log s k)"
    using inv by (fastforce simp: rl_inv_def now_def)+
  have others: "\<exists>o'. rl_log s k = o' @ window_of k (rl_windows s) \<and> (\<forall>t\<in>set o'. now - t \<ge> WINDOW)" for k
    using inv by (fastforce simp: rl_inv_def now_def)
  show ?thesis
  proof (cases "int (length w) \<ge> limit key")
    case True
    then have "rl_step limit (delta, Check key) s = s\<lparr>rl_now := now, rl_windows := (rl_windows s)(key \<mapsto> w)\<rparr>"
      by (simp add: rl_step_def check_def Let_def now_def w_def)
    then show ?thesis using inv past others lg dropped by (auto simp: rl_inv_def)
  next
    case False
    then have "rl_step limit (delta, Check key) s = s\<lparr>rl_now := now, rl_windows := (rl_windows s)(key \<mapsto> w @ [now]),
        rl_log := (rl_log s)(key := rl_log s key @ [now])\<rparr>"
      by (simp add: rl_step_def check_def Let_def now_def w_def)
    moreover have "spaced (limit key) (rl_log s key @ [now])" if "limit key > 0"
      by (rule spaced_snoc[OF _ lg dropped]) (use inv that False in \<open>auto simp: rl_inv_def\<close>)
    moreover have "\<exists>o'. rl_log s key @ [now] = o' @ (w @ [now]) \<and> (\<forall>t\<in>set o'. now - t \<ge> WINDOW)"
      using lg dropped by (intro exI[of _ "old @ gone"]) simp
    ultimately show ?thesis using inv past others by (auto simp: rl_inv_def sorted_snoc_le)
  qed
qed

lemma rl_inv_prune:
  assumes inv: "rl_inv limit s"
  shows "rl_inv limit (rl_step limit (delta, Prune) s)"
proof -
  define now where "now = rl_now s + int delta"
  have "\<exists>o'. rl_log s k = o' @ window_of k (prune PRUNE_AGE now (rl_windows s)) \<and> (\<forall>t\<in>set o'. now - t \<ge> WINDOW)" for k
  proof -
    obtain old where old: "rl_log s k = old @ window_of k (rl_windows s)" "\<forall>t\<in>set old. rl_now s - t \<ge> WINDOW"
      using inv unfolding rl_inv_def by blast
    let ?f = "filter (\<lambda>t. duration_since now t < PRUNE_AGE) (window_of k (rl_windows s))"
    have "sorted (window_of k (rl_windows s))" using inv old(1) unfolding rl_inv_def by (metis sorted_append)
    then obtain gone where "window_of k (rl_windows s) = gone @ ?f" "\<forall>t\<in>set gone. now - t \<ge> WINDOW"
      using prune_window[of _ PRUNE_AGE now] by (auto simp: PRUNE_AGE_def WINDOW_def)
    moreover have "window_of k (prune PRUNE_AGE now (rl_windows s)) = ?f"
      by (simp add: prune_def window_of_def Let_def split: option.split)
    ultimately show ?thesis using old by (intro exI[of _ "old @ gone"]) (auto simp: now_def)
  qed
  moreover have "rl_step limit (delta, Prune) s = s\<lparr>rl_now := now, rl_windows := prune PRUNE_AGE now (rl_windows s)\<rparr>"
    by (simp add: rl_step_def now_def Let_def)
  moreover have "\<And>k t. t \<in> set (rl_log s k) \<Longrightarrow> t \<le> now" using inv by (fastforce simp: rl_inv_def now_def)
  ultimately show ?thesis using inv by (auto simp: rl_inv_def)
qed

interpretation limiter: invariant_machine "rl_step limit" "rl_inv limit" for limit
proof
  show "rl_inv limit (rl_step limit ev s)" if "rl_inv limit s" for s ev
    using that rl_inv_check rl_inv_prune by (cases ev; cases "snd ev") auto
qed

lemma rl_run_inv: "rl_inv limit (rl_run limit evs now)"
  unfolding rl_run_def by (rule limiter.run_inv) (simp add: rl_inv_def rl_start_def spaced_def window_of_def)

section \<open>What callers get\<close>

text \<open>
  Never more than the ceiling in a minute: in any run of checks and prunings, for a
  profile with ceiling \<open>L > 0\<close>, an accepted request comes at least a full window after the
  \<open>L\<close>-th accepted request before it. So no interval shorter than a minute holds more than
  \<open>L\<close> of them.
\<close>

theorem ceiling_respected:
  assumes "limit key > 0" "i + nat (limit key) \<le> j" "j < length (rl_log (rl_run limit evs now) key)"
  shows "rl_log (rl_run limit evs now) key ! j - rl_log (rl_run limit evs now) key ! i \<ge> WINDOW"
  using rl_run_inv[of limit evs now] assms by (auto simp: rl_inv_def spaced_def)

text \<open>Three requests at once and one a minute later, with a ceiling of two.\<close>

definition demo_run :: rl_run where
  "demo_run = rl_run (\<lambda>_. 2) [(0, Check ''a''), (0, Check ''a''), (0, Check ''a''), (60000000000, Check ''a'')] 0"

lemma demo_run_log: "rl_log demo_run ''a'' = [0, 0, 60000000000]"
  by (simp add: demo_run_def rl_run_def rl_step_def rl_start_def check_def evict_def duration_since_def
      WINDOW_def window_of_def Let_def)

theorem ceiling_respected_witness: "rl_log demo_run ''a'' ! 2 - rl_log demo_run ''a'' ! 0 \<ge> WINDOW"
  unfolding demo_run_def
  by (rule ceiling_respected) (simp_all add: demo_run_log[unfolded demo_run_def])

text \<open>
  No request is refused without cause: when a check refuses in a state some run
  reached, the profile has at least its ceiling of accepted requests less than a minute old
  in the log; the refusal records nothing, and the check leaves every other profile alone.
\<close>

theorem refusals_justified:
  assumes "check key (limit key) (rl_now s) (rl_windows s) = (False, ws')" "s = rl_run limit evs now"
  shows "int (length (filter (\<lambda>t. rl_now s - t < WINDOW) (rl_log s key))) \<ge> limit key
    \<and> window_of key ws' = evict (rl_now s) (window_of key (rl_windows s))
    \<and> (\<forall>k. k \<noteq> key \<longrightarrow> ws' k = rl_windows s k)"
proof -
  obtain old where old: "rl_log s key = old @ window_of key (rl_windows s)" "sorted (rl_log s key)"
    using rl_run_inv[of limit evs now] assms(2) unfolding rl_inv_def by blast
  let ?w = "evict (rl_now s) (window_of key (rl_windows s))"
  have w: "int (length ?w) \<ge> limit key" "ws' = (rl_windows s)(key \<mapsto> ?w)"
    using assms(1) by (auto simp: check_def Let_def split: if_splits)
  have "sorted (window_of key (rl_windows s))" using old by (metis sorted_append)
  then have "filter (\<lambda>t. rl_now s - t < WINDOW) ?w = ?w"
    by (intro filter_True ballI evict_recent)
  moreover obtain gone where "window_of key (rl_windows s) = gone @ ?w" using evict_split by blast
  ultimately have "length ?w \<le> length (filter (\<lambda>t. rl_now s - t < WINDOW) (rl_log s key))"
    using old(1) by (metis filter_append length_append le_add2 trans_le_add2)
  then show ?thesis using w by (auto simp: window_of_def)
qed

theorem refusals_justified_witness:
  "int (length (filter (\<lambda>t. rl_now (rl_run (\<lambda>_. 1) [(0, Check ''a'')] 0) - t < WINDOW)
      (rl_log (rl_run (\<lambda>_. 1) [(0, Check ''a'')] 0) ''a''))) \<ge> 1"
proof -
  have "check ''a'' ((\<lambda>_. 1) ''a'') (rl_now (rl_run (\<lambda>_. 1) [(0, Check ''a'')] 0)) (rl_windows (rl_run (\<lambda>_. 1) [(0, Check ''a'')] 0))
    = (False, (\<lambda>_. None)(''a'' \<mapsto> [0]))"
    by (simp add: rl_run_def rl_step_def rl_start_def check_def evict_def duration_since_def
      WINDOW_def window_of_def Let_def)
  from refusals_justified[OF this refl] show ?thesis by blast
qed

end
