(* ===== verification/Auth.thy ===== *)
theory Auth
  imports Rate_Limit Failover_Props
begin

text \<open>
  What a request passes before a handler sees it (\<open>src/server/auth.rs\<close>,
  \<open>src/server/middleware.rs\<close>): the request id, which is put in the slot handlers read the
  caller's identity from, and then the check of the profile token, which overwrites it, and
  of the profile's rate limit. Header values are \<open>None\<close> when absent or not text.
\<close>

record http_request =
  rq_path :: string
  rq_authorization :: "string option"
  rq_api_key :: "string option"
  rq_request_id :: "string option"
  rq_query :: "string option"

definition or_else :: "'a option \<Rightarrow> 'a option \<Rightarrow> 'a option" where
  "or_else x y = (case x of None \<Rightarrow> y | Some v \<Rightarrow> Some v)"

definition query_key :: "string option \<Rightarrow> string option" where
  "query_key query =
     and_then query (\<lambda>q. find_map (\<lambda>pair. and_then (split_once CHR ''='' pair)
       (\<lambda>(k, v). if k = ''key'' then Some v else None)) (split_on CHR ''&'' q))"

definition token_of :: "http_request \<Rightarrow> string option" where
  "token_of rq =
     or_else (and_then (rq_authorization rq) (\<lambda>h. strip_prefix h ''Bearer ''))
       (or_else (rq_api_key rq) (query_key (rq_query rq)))"

definition open_path :: "bool \<Rightarrow> string \<Rightarrow> bool" where
  "open_path require_auth_on_health path \<longleftrightarrow>
     path = ''/health'' \<or>
     ((path = ''/metrics'' \<or> path = ''/v1/providers/health'' \<or> path = ''/ready'') \<and> \<not> require_auth_on_health)"

text \<open>A reply by the middleware, or the handler with the text in the identity slot.\<close>

datatype gate = Unauthorized | Too_Many_Requests int | Handle string

definition auth_middleware ::
  "bool \<Rightarrow> db \<Rightarrow> int \<Rightarrow> http_request \<Rightarrow> string \<Rightarrow> windows \<Rightarrow> gate \<times> windows" where
  "auth_middleware require_auth_on_health d now rq slot ws =
     (if open_path require_auth_on_health (rq_path rq) then (Handle slot, ws)
      else (case and_then (token_of rq) (\<lambda>t. get_profile_by_id t d) of
              None \<Rightarrow> (Unauthorized, ws)
            | Some profile \<Rightarrow>
                (let (admitted, ws') =
                       (if pf_rpm_limit profile > 0 then check (pf_id profile) (pf_rpm_limit profile) now ws
                        else (True, ws))
                 in if \<not> admitted then (Too_Many_Requests (pf_rpm_limit profile), ws')
                    else (Handle (case token_of rq of Some t \<Rightarrow> t | None \<Rightarrow> slot), ws'))))"

text \<open>The two layers in their order: the request id is set outside, the token inside.\<close>

definition request_id :: "string \<Rightarrow> http_request \<Rightarrow> string" where
  "request_id fresh_uuid rq = (case rq_request_id rq of None \<Rightarrow> fresh_uuid | Some i \<Rightarrow> i)"

definition gated_request ::
  "bool \<Rightarrow> string \<Rightarrow> db \<Rightarrow> int \<Rightarrow> http_request \<Rightarrow> windows \<Rightarrow> gate \<times> windows" where
  "gated_request require_auth fresh_uuid d now rq ws =
     auth_middleware require_auth d now rq (request_id fresh_uuid rq) ws"

lemma get_profile_id: "get_profile_by_id t d = Some p \<Longrightarrow> p \<in> set (profiles d) \<and> pf_id p = t"
  unfolding get_profile_by_id_def by (drule find_mem) simp

text \<open>
  The gate as a whole, for a path that is not open: 401 exactly when the request carries
  no token of an existing profile, 429 exactly when that profile has a positive limit and
  the limiter refuses, and otherwise the handler runs with the profile's id in the identity
  slot. So behind the gate the identity is always that of an existing profile whose token
  was presented; a caller's request id never becomes one.
\<close>

theorem gate_decides:
  assumes "\<not> open_path require_auth (rq_path rq)"
  shows "(case fst (gated_request require_auth uuid d now rq ws) of
      Unauthorized \<Rightarrow> \<not> (\<exists>p\<in>set (profiles d). token_of rq = Some (pf_id p))
    | Too_Many_Requests n \<Rightarrow> \<exists>p\<in>set (profiles d). token_of rq = Some (pf_id p) \<and> n = pf_rpm_limit p \<and> n > 0
        \<and> \<not> fst (check (pf_id p) n now ws)
    | Handle who \<Rightarrow> \<exists>p\<in>set (profiles d). token_of rq = Some who \<and> pf_id p = who
        \<and> (pf_rpm_limit p > 0 \<longrightarrow> fst (check who (pf_rpm_limit p) now ws)))"
proof (cases "and_then (token_of rq) (\<lambda>t. get_profile_by_id t d)")
  case None
  then have "\<not> (\<exists>p\<in>set (profiles d). token_of rq = Some (pf_id p))"
    by (auto simp: and_then_def get_profile_by_id_def find_None_iff2 split: option.splits)
  then show ?thesis using assms None by (simp add: gated_request_def auth_middleware_def)
next
  case (Some p)
  then obtain t where t: "token_of rq = Some t" "get_profile_by_id t d = Some p"
    by (auto simp: and_then_def split: option.splits)
  have p: "p \<in> set (profiles d)" "pf_id p = t" using get_profile_id[OF t(2)] by simp_all
  obtain admitted ws' where adm: "(if pf_rpm_limit p > 0 then check (pf_id p) (pf_rpm_limit p) now ws else (True, ws)) = (admitted, ws')"
    by fastforce
  have g: "fst (gated_request require_auth uuid d now rq ws) = (if \<not> admitted then Too_Many_Requests (pf_rpm_limit p) else Handle t)"
    using assms Some t by (simp add: gated_request_def auth_middleware_def Let_def adm)
  have lim: "\<not> admitted \<Longrightarrow> pf_rpm_limit p > 0 \<and> \<not> fst (check (pf_id p) (pf_rpm_limit p) now ws)"
    "admitted \<Longrightarrow> pf_rpm_limit p > 0 \<Longrightarrow> fst (check (pf_id p) (pf_rpm_limit p) now ws)"
    using adm by (auto split: if_splits)
  show ?thesis
  proof (cases admitted)
    case True
    then show ?thesis using g t(1) p lim(2) by auto
  next
    case False
    then show ?thesis using g t(1) p lim(1) by auto
  qed
qed

definition demo_request :: http_request where
  "demo_request = \<lparr>rq_path = ''/v1/models'', rq_authorization = Some ''Basic x'', rq_api_key = None,
     rq_request_id = Some ''u'', rq_query = Some ''alt=sse&key=t''\<rparr>"

lemma demo_token: "token_of demo_request = Some ''t''"
  by code_simp

theorem gate_decides_witness:
  "fst (gated_request True ''uuid'' one_profile 0 demo_request (\<lambda>_. None)) = Handle ''t''"
proof -
  have "\<not> open_path True (rq_path demo_request)" by code_simp
  from gate_decides[OF this, where uuid = "''uuid''" and d = one_profile and now = 0 and ws = "\<lambda>_. None"]
  show ?thesis by (auto simp: demo_token one_profile_eq split: gate.splits)
qed

end
