(* ===== verification/Health.thy ===== *)
theory Health
  imports Outbound
begin

text \<open>
  The background probe (\<open>src/health/mod.rs\<close>): the ping of one entry through its provider's
  mask, the status machine, and one cycle over the entries that need probing. The HTTP
  client and the JSON parser are arguments.
\<close>

section \<open>The ping\<close>

text \<open>The status of a ping's reply, and its body if that arrived in time.\<close>

type_synonym pinger = "string \<Rightarrow> headers \<Rightarrow> (int \<times> bytes option) option"

definition model_listed :: "string \<Rightarrow> json \<Rightarrow> bool" where
  "model_listed model_id body =
     (case and_then (get ''data'' body) as_array of
        None \<Rightarrow> True
      | Some ids \<Rightarrow>
          (let listed = filter_map (\<lambda>m. and_then (get ''id'' m) as_str) ids
           in listed = [] \<or> list_ex (\<lambda>i. i = model_id \<or> ends_with i (''/'' @ model_id)) listed))"

definition read_ping :: "(bytes \<Rightarrow> json option) \<Rightarrow> string \<Rightarrow> (int \<times> bytes option) option \<Rightarrow> bool" where
  "read_ping parse model_id reply =
     (case reply of
        None \<Rightarrow> False
      | Some (status, bytes) \<Rightarrow>
          (if status = 404 \<or> status = 405 then True
           else if \<not> is_success status then False
           else (case bytes of
                   None \<Rightarrow> True
                 | Some b \<Rightarrow> (case parse b of None \<Rightarrow> True | Some body \<Rightarrow> model_listed model_id body))))"

definition ping :: "(bytes \<Rightarrow> json option) \<Rightarrow> pinger \<Rightarrow> provider \<Rightarrow> string \<Rightarrow> bool" where
  "ping parse send provider model_id =
     (let url = normalize_base (pv_base_url provider) @ ''/v1/models'';
          headers = (if pv_auth_token provider = [] then []
                     else hdr_insert ''Authorization'' (''Bearer '' @ pv_auth_token provider) [])
      in case apply_request (pv_mask provider) url headers 0 of
           Inl e \<Rightarrow> False
         | Inr (url', headers') \<Rightarrow> read_ping parse model_id (send url' headers'))"

section \<open>The status machine\<close>

fun decide_status :: "model_status \<Rightarrow> bool \<Rightarrow> model_status" where
  "decide_status Healthy _ = Healthy"
| "decide_status Degraded True = Healthy"
| "decide_status Degraded False = Unhealthy"
| "decide_status Unhealthy True = Degraded"
| "decide_status Unhealthy False = Unhealthy"
| "decide_status Disabled _ = Disabled"

text \<open>One cycle: the candidates as read at its start, each pinged and then written.\<close>

fun probe_all ::
  "(bytes \<Rightarrow> json option) \<Rightarrow> pinger \<Rightarrow> (route_entry \<times> provider) list \<Rightarrow> db \<Rightarrow> db" where
  "probe_all parse send [] d = d"
| "probe_all parse send ((e, p) # cs) d =
     (let new_status = decide_status (re_status e) (ping parse send p (re_model_id e))
      in probe_all parse send cs
           (if new_status \<noteq> re_status e then snd (set_route_entry_status (re_id e) new_status d) else d))"

definition run_once :: "(bytes \<Rightarrow> json option) \<Rightarrow> cipher \<Rightarrow> pinger \<Rightarrow> db \<Rightarrow> unit outcome" where
  "run_once parse c send d =
     (case entries_needing_probe c d of
        Inl e \<Rightarrow> fail e d
      | Inr cs \<Rightarrow> ok () (probe_all parse send cs d))"

section \<open>What the probe does to an entry\<close>

inductive probe_step :: "bool \<Rightarrow> model_status \<Rightarrow> model_status \<Rightarrow> bool" where
  "probe_step b s (decide_status s b)"

inductive_simps probe_step_simps: "probe_step b s t"

text \<open>
  The status machine recovers and demotes one rung at a time: two successful probes
  bring any entry that is not disabled back to healthy, one failed probe makes a degraded
  one unhealthy, a probe never takes a healthy entry out of rotation or touches a disabled
  one, and no number of failed probes ever makes an unusable entry usable.
\<close>

theorem probe_recovery:
  "(s \<noteq> Disabled \<longrightarrow> (probe_step True ^^ 2) s Healthy)
   \<and> ((probe_step b)\<^sup>*\<^sup>* Disabled t \<longrightarrow> t = Disabled)
   \<and> ((probe_step b)\<^sup>*\<^sup>* Healthy t \<longrightarrow> t = Healthy)
   \<and> ((probe_step False)\<^sup>*\<^sup>* Unhealthy t \<longrightarrow> t = Unhealthy)
   \<and> (probe_step False Degraded t \<longleftrightarrow> t = Unhealthy)"
proof (intro conjI[rotated] impI)
  show "s \<noteq> Disabled \<Longrightarrow> (probe_step True ^^ 2) s Healthy"
    by (cases s) (auto simp: numeral_2_eq_2 relcompp_apply probe_step_simps)
  have stuck: "(probe_step b)\<^sup>*\<^sup>* u t \<Longrightarrow> decide_status u b = u \<Longrightarrow> t = u" for b u t
    by (induction rule: rtranclp_induct) (auto simp: probe_step_simps)
  show "(probe_step b)\<^sup>*\<^sup>* Disabled t \<Longrightarrow> t = Disabled" "(probe_step b)\<^sup>*\<^sup>* Healthy t \<Longrightarrow> t = Healthy"
    "(probe_step False)\<^sup>*\<^sup>* Unhealthy t \<Longrightarrow> t = Unhealthy"
    by (erule stuck, simp)+
  show "probe_step False Degraded t \<longleftrightarrow> t = Unhealthy" by (simp add: probe_step_simps)
qed

theorem probe_recovery_witness: "(probe_step True ^^ 2) Unhealthy Healthy"
  using probe_recovery[of Unhealthy] by simp

lemma probe_all_frame: "db_frame ((\<lambda>(e, p). re_id e) ` set cs) d (probe_all parse send cs d)"
proof (induction cs arbitrary: d)
  case (Cons c cs)
  obtain e p where c: "c = (e, p)" by fastforce
  have step: "db_frame {re_id e} d (if n \<noteq> re_status e then snd (set_route_entry_status (re_id e) n d) else d)" for n
    by (simp add: entry_ops_frame)
  have "db_frame ({re_id e} \<union> (\<lambda>(e, p). re_id e) ` set cs) d
      (probe_all parse send cs (if n \<noteq> re_status e then snd (set_route_entry_status (re_id e) n d) else d))" for n
    by (rule db_frame_trans[OF step Cons.IH])
  then show ?case by (simp add: c Let_def)
qed simp

lemma needing_probe_mem:
  assumes "entries_needing_probe c d = Inr cs" "(e, p) \<in> set cs"
  shows "\<exists>row\<in>set (entries d). probe_candidate row \<and> map_route_entry_row row = Inr e \<and> re_id e = en_id row"
proof -
  obtain raws where raws: "map_res (\<lambda>(e, p). res_bind (map_route_entry_row e) (\<lambda>x. Inr (x, p)))
      (concat (map (\<lambda>e. map (\<lambda>p. (e, p)) (filter (\<lambda>p. en_provider_id e = Some (pr_id p)) (providers d)))
                   (filter probe_candidate (entries d)))) = Inr raws"
    and cs: "map_res (\<lambda>(x, p). res_bind (build_joined c d p) (\<lambda>y. Inr (x, y))) raws = Inr cs"
    using assms(1) by (auto simp: entries_needing_probe_def Let_def res_bind_def split: sum.splits)
  obtain x q where x: "(x, q) \<in> set raws" "x = e"
    using map_res_Inr_mem[OF cs assms(2)] by (fastforce simp: res_bind_def split: sum.splits)
  from map_res_Inr_mem[OF raws x(1)] obtain row where "row \<in> set (entries d)" "probe_candidate row"
    "map_route_entry_row row = Inr x"
    by (fastforce simp: res_bind_def split: sum.splits)
  moreover from this(3) have "re_id x = en_id row"
    by (auto simp: map_route_entry_row_def res_bind_def split: sum.splits)
  ultimately show ?thesis using x(2) by blast
qed

text \<open>
  A probe cycle writes nothing but the status of entries that were neither healthy nor
  disabled and have a provider: cooldowns and capabilities keep their values, so a probe
  that finds a parked key reachable does not unpark it.
\<close>

theorem probe_cycle_scope:
  assumes "run_once parse c send d = ok () d'"
  shows "d' = d\<lparr>entries := entries d'\<rparr> \<and>
    list_all2 (\<lambda>r r'. r' = r \<or> (\<exists>st. r' = r\<lparr>en_status := st\<rparr>)) (entries d) (entries d') \<and>
    list_all2 (\<lambda>r r'. r' = r \<or> (\<exists>row\<in>set (entries d). probe_candidate row \<and> en_id row = en_id r)) (entries d) (entries d')"
proof -
  obtain cs where cs: "entries_needing_probe c d = Inr cs" "d' = probe_all parse send cs d"
    using assms by (auto simp: run_once_def split: sum.splits)
  have frame: "db_frame ((\<lambda>(e, p). re_id e) ` set cs) d d'" using probe_all_frame cs(2) by simp
  have "list_all2 (\<lambda>r r'. r' = r \<or> (\<exists>st. r' = r\<lparr>en_status := st\<rparr>)) (entries x) (entries (probe_all parse send cs y))"
    if "list_all2 (\<lambda>r r'. r' = r \<or> (\<exists>st. r' = r\<lparr>en_status := st\<rparr>)) (entries x) (entries y)" for x y
    using that
  proof (induction cs arbitrary: y)
    case (Cons c cs)
    obtain e p where c: "c = (e, p)" by fastforce
    have "list_all2 (\<lambda>r r'. r' = r \<or> (\<exists>st. r' = r\<lparr>en_status := st\<rparr>)) (entries x)
        (entries (if n \<noteq> re_status e then snd (set_route_entry_status (re_id e) n y) else y))" for n
      using Cons.prems by (auto simp: set_route_entry_status_def upd_entry_def upd_where_def list_all2_map2
          elim!: list_all2_mono)
    then show ?case unfolding c probe_all.simps Let_def by (rule Cons.IH)
  qed simp
  moreover have "list_all2 (\<lambda>r r'. r' = r \<or> (\<exists>st. r' = r\<lparr>en_status := st\<rparr>)) (entries d) (entries d)"
    by (simp add: list_all2_refl)
  ultimately have st: "list_all2 (\<lambda>r r'. r' = r \<or> (\<exists>st. r' = r\<lparr>en_status := st\<rparr>)) (entries d) (entries d')"
    unfolding cs(2) .
  have "list_all2 (entry_frame ((\<lambda>(e, p). re_id e) ` set cs)) (entries d) (entries d')"
    using frame by (simp add: db_frame_def)
  then have "list_all2 (\<lambda>r r'. r' = r \<or> (\<exists>row\<in>set (entries d). probe_candidate row \<and> en_id row = en_id r)) (entries d) (entries d')"
    by (rule list_all2_mono) (use needing_probe_mem[OF cs(1)] in \<open>fastforce simp: entry_frame_def\<close>)
  then show ?thesis using frame st by (simp add: db_frame_def)
qed

lemma demo_failed_candidates:
  "(case entries_needing_probe tagging_cipher demo_failed of Inr cs \<Rightarrow> map (\<lambda>(e, p). re_id e) cs = [3] | _ \<Rightarrow> False)"
  by code_simp

theorem probe_cycle_scope_witness:
  "\<exists>d'. run_once (\<lambda>_. None) tagging_cipher (\<lambda>_ _. Some (200, None)) demo_failed = ok () d'
     \<and> d' = demo_failed\<lparr>entries := entries d'\<rparr>"
proof -
  obtain d' where d': "run_once (\<lambda>_. None) tagging_cipher (\<lambda>_ _. Some (200, None)) demo_failed = ok () d'"
    using demo_failed_candidates by (auto simp: run_once_def split: sum.splits)
  from probe_cycle_scope[OF d'] d' show ?thesis by blast
qed

text \<open>
  Probes leave through the mask too: for a provider with a mask the outcome of a ping
  depends only on what the hop's URL answers.
\<close>

theorem ping_only_via_hop:
  assumes "pv_mask p = Some m" "\<And>hs. send (mk_endpoint_url m) hs = send' (mk_endpoint_url m) hs"
  shows "ping parse send p model = ping parse send' p model"
  using assms by (simp add: ping_def apply_request_def)

theorem ping_only_via_hop_witness:
  "ping (\<lambda>_. None) (\<lambda>u _. if u = ''https://edge'' then Some (200, None) else None) (tg_provider masked_target) ''a''
   = ping (\<lambda>_. None) (\<lambda>_ _. Some (200, None)) (tg_provider masked_target) ''a''"
  by (rule ping_only_via_hop[of _ demo_mask]) (simp_all add: masked_target_def provider_of_def demo_mask_def)

end
