(* ===== verification/Gateway.thy ===== *)
theory Gateway
  imports Native_Props Auth Health
begin

text \<open>
  The HTTP surface as a whole (\<open>src/server/mod.rs\<close>, \<open>src/server/middleware.rs\<close>): which
  handler a method and a path lead to, the layers a request passes on its way in and its
  reply on its way out, and the two reports over the store. One request is one step of the
  gateway; the libraries, the network, the clock and the texts of errors are its
  surroundings.
\<close>

section \<open>Routing of paths\<close>

datatype http_method = Get | Head | Post | Options | Other_Method

datatype endpoint =
    Chat_Endpoint | Native_Endpoint api_kind | Completions_Endpoint | Embeddings_Endpoint
  | Models_Endpoint | Anthropic_Models | Google_Models
  | Health_Endpoint | Ready_Endpoint | Metrics_Endpoint | Provider_Health
  | Wrong_Method | No_Such_Path

definition post_only :: "http_method \<Rightarrow> endpoint \<Rightarrow> endpoint" where
  "post_only m e = (if m = Post then e else Wrong_Method)"

text \<open>A route for GET answers HEAD as well; the library drops the body.\<close>

definition get_only :: "http_method \<Rightarrow> endpoint \<Rightarrow> endpoint" where
  "get_only m e = (if m \<in> {Get, Head} then e else Wrong_Method)"

definition endpoint_of :: "http_method \<Rightarrow> string \<Rightarrow> endpoint" where
  "endpoint_of m path =
     (if path = ''/v1/chat/completions'' then post_only m Chat_Endpoint
      else if path = ''/openai/v1/chat/completions'' then post_only m (Native_Endpoint Api_OpenAI)
      else if path \<in> {''/openai/v1/completions'', ''/v1/completions''} then post_only m Completions_Endpoint
      else if path \<in> {''/openai/v1/embeddings'', ''/v1/embeddings''} then post_only m Embeddings_Endpoint
      else if path \<in> {''/openai/v1/models'', ''/codex/v1/models'', ''/v1/models''} then get_only m Models_Endpoint
      else if path = ''/anthropic/v1/messages'' then post_only m (Native_Endpoint Api_Anthropic)
      else if path = ''/anthropic/v1/models'' then get_only m Anthropic_Models
      else if path = ''/google/v1beta/models'' then get_only m Google_Models
      else if starts_with path ''/google/v1beta/models/'' \<and> path \<noteq> ''/google/v1beta/models/'' then Native_Endpoint Api_Google
      else if path = ''/codex/v1/responses'' then post_only m (Native_Endpoint Api_Responses)
      else if path = ''/health'' then get_only m Health_Endpoint
      else if path = ''/ready'' then get_only m Ready_Endpoint
      else if path = ''/metrics'' then get_only m Metrics_Endpoint
      else if path = ''/v1/providers/health'' then get_only m Provider_Health
      else No_Such_Path)"

section \<open>Reports\<close>

definition status_reply :: "int \<Rightarrow> string \<Rightarrow> response" where
  "status_reply status word =
     (let quoted = (\<lambda>s. [CHR 0x22] @ s @ [CHR 0x22]) in
      \<lparr>rp_status = status, rp_headers = [(''Content-Type'', ''application/json'')],
       rp_body = ''{'' @ quoted ''status'' @ '':'' @ quoted word @ ''}''\<rparr>)"

definition or_empty :: "'e + 'a list \<Rightarrow> 'a list" where
  "or_empty r = (case r of Inl e \<Rightarrow> [] | Inr xs \<Rightarrow> xs)"

definition entries_of_profile :: "db \<Rightarrow> profile \<Rightarrow> route_entry list" where
  "entries_of_profile d p =
     concat (map (\<lambda>x. concat (map (\<lambda>r. or_empty (route_entries (rt_id r) d)) (or_empty (list_routes (px_id x) d))))
       (list_proxies (pf_id p) d))"

definition metrics :: "cipher \<Rightarrow> db \<Rightarrow> json" where
  "metrics c d =
     (let ps = list_profiles d; count = (\<lambda>f. JInt (int (sum_list (map f ps))));
          routes_of = (\<lambda>p. sum_list (map (\<lambda>x. length (or_empty (list_routes (px_id x) d))) (list_proxies (pf_id p) d)));
          serves = (\<lambda>e. re_status e \<in> {Healthy, Degraded})
      in object [(''profiles'', JInt (int (length ps))),
           (''providers'', count (\<lambda>p. length (or_empty (list_providers c (pf_id p) d)))),
           (''proxies'', count (\<lambda>p. length (list_proxies (pf_id p) d))),
           (''routes'', count routes_of),
           (''healthy_entries'', count (\<lambda>p. length (filter serves (entries_of_profile d p)))),
           (''unhealthy_entries'', count (\<lambda>p. length (filter (\<lambda>e. \<not> serves e) (entries_of_profile d p))))])"

definition status_text :: "model_status \<Rightarrow> string" where
  "status_text s = (case s of Healthy \<Rightarrow> ''Healthy'' | Degraded \<Rightarrow> ''Degraded'' | Unhealthy \<Rightarrow> ''Unhealthy'' | Disabled \<Rightarrow> ''Disabled'')"

text \<open>The bytes of the arrow before the name of a nested route.\<close>

definition arrow :: string where
  "arrow = [char_of (226::nat), char_of (134::nat), char_of (146::nat), CHR '' '']"

definition entry_server :: "cipher \<Rightarrow> db \<Rightarrow> route_entry \<Rightarrow> store_error + string" where
  "entry_server c d e =
     (case re_provider_id e of
        Some i \<Rightarrow> res_bind (get_provider c i d) (\<lambda>p. Inr (case p of None \<Rightarrow> [] | Some v \<Rightarrow> pv_name v))
      | None \<Rightarrow> Inr (case re_target_route_id e of
            None \<Rightarrow> []
          | Some i \<Rightarrow> (case get_route_by_id i d of Inr (Some r) \<Rightarrow> arrow @ rt_name r | _ \<Rightarrow> [])))"

definition health_line :: "profile \<Rightarrow> proxy \<Rightarrow> route \<Rightarrow> route_entry \<Rightarrow> string \<Rightarrow> json" where
  "health_line p x r e server =
     object [(''entry_id'', JInt (re_id e)), (''profile'', JStr (pf_name p)), (''proxy'', JStr (px_name x)),
       (''route'', JStr (rt_name r)), (''provider'', JStr server), (''model'', JStr (re_model_id e)),
       (''status'', JStr (status_text (re_status e)))]"

definition collect_provider_health :: "cipher \<Rightarrow> db \<Rightarrow> store_error + json list" where
  "collect_provider_health c d =
     collect_res (\<lambda>p. collect_res (\<lambda>x.
         res_bind (list_routes (px_id x) d) (collect_res (\<lambda>r.
           res_bind (route_entries (rt_id r) d) (map_res (\<lambda>e.
             res_bind (entry_server c d e) (\<lambda>server. Inr (health_line p x r e server)))))))
       (list_proxies (pf_id p) d)) (list_profiles d)"

definition provider_health :: "library \<Rightarrow> cipher \<Rightarrow> db \<Rightarrow> response" where
  "provider_health L c d =
     (case collect_provider_health c d of
        Inl e \<Rightarrow> json_reply L 500 (object [(''error'', JStr ''failed to read provider health'')])
      | Inr lines \<Rightarrow> json_reply L 200 (object [(''entries'', JArr lines)]))"

section \<open>One request\<close>

record gateway_request = http_request +
  gq_method :: http_method
  gq_body :: bytes
  gq_content_length :: "nat option"
  gq_escalate :: "string option"

text \<open>What a request meets outside the program.\<close>

record surroundings =
  su_lib :: library
  su_moment :: moment
  su_stream :: stream_world
  su_native :: native_world
  su_late :: "nat \<Rightarrow> bool"
  su_send :: "string \<Rightarrow> headers \<Rightarrow> json \<Rightarrow> http_reply option"
  su_float_text :: float_text
  su_narrow :: "rat \<Rightarrow> rat"
  su_limit_text :: string
  su_parse_text :: "bytes \<Rightarrow> string"
  su_serde_text :: "json \<Rightarrow> string"
  su_uuid :: string
  su_instant :: int
  su_now_secs :: int
  su_preflight :: response
  su_too_large :: response
  su_fallback :: "endpoint \<Rightarrow> response"
  su_valid_header :: "string \<Rightarrow> bool"

text \<open>
  What the program keeps: the store, the turns of round-robin routes, the windows of the
  limiter, and the two counters of the background task.
\<close>

record gateway =
  gw_db :: db
  gw_turns :: rr_state
  gw_windows :: windows
  gw_log_ticks :: nat
  gw_limit_ticks :: nat

definition answer :: "response \<Rightarrow> db \<Rightarrow> rr_state \<Rightarrow> http_out \<times> db \<times> rr_state" where
  "answer resp d rr = (Whole resp, d, rr)"

definition handle ::
  "surroundings \<Rightarrow> cipher \<Rightarrow> gateway_request \<Rightarrow> string \<Rightarrow> db \<Rightarrow> rr_state \<Rightarrow> http_out \<times> db \<times> rr_state" where
  "handle S c rq who d rr =
     (let L = su_lib S; m = su_moment S; slot = Some who;
          att = chat_attempt L (su_late S) (su_now_secs S) (su_send S) (mo_floats m) (su_float_text S);
          whole = (\<lambda>resp. answer resp d rr)
      in case endpoint_of (gq_method rq) (rq_path rq) of
           Chat_Endpoint \<Rightarrow>
             chat_completions L m (su_stream S) c att (su_limit_text S) (su_parse_text S) slot (gq_escalate rq) (gq_body rq) d rr
         | Native_Endpoint kind \<Rightarrow>
             native_chat L m (su_native S) c (su_now_secs S) att (su_limit_text S) (su_parse_text S) (su_serde_text S) kind
               slot (rq_path rq) (gq_body rq) d rr
         | Completions_Endpoint \<Rightarrow>
             completions L m (su_stream S) c (su_narrow S) (su_late S) (su_send S) (su_float_text S) (su_limit_text S)
               (su_parse_text S) slot (gq_body rq) d rr
         | Embeddings_Endpoint \<Rightarrow>
             (let (resp, d', rr') = embeddings L m c (su_late S) (su_send S) (su_float_text S) (su_limit_text S)
                  (su_parse_text S) slot (gq_body rq) d rr in (Whole resp, d', rr'))
         | Models_Endpoint \<Rightarrow> whole (list_models L (su_now_secs S) who d)
         | Anthropic_Models \<Rightarrow> whole (anthropic_models L who d)
         | Google_Models \<Rightarrow> whole (google_models L who d)
         | Health_Endpoint \<Rightarrow> whole (status_reply 200 ''ok'')
         | Ready_Endpoint \<Rightarrow> whole (status_reply 200 ''ready'')
         | Metrics_Endpoint \<Rightarrow> whole (json_reply L 200 (metrics c d))
         | Provider_Health \<Rightarrow> whole (provider_health L c d)
         | Wrong_Method \<Rightarrow> whole (su_fallback S Wrong_Method)
         | No_Such_Path \<Rightarrow> whole (su_fallback S No_Such_Path))"

section \<open>Layers\<close>

text \<open>
  From the outside in: the limit of the body, the library's answer to an OPTIONS request,
  the request id, the security headers, the gate. What the libraries' layers add to a reply
  (cross-origin headers, compression, the deadline of a request) is left out.
\<close>

definition MAX_BODY_SIZE :: nat where
  "MAX_BODY_SIZE = 10 * 1024 * 1024"

datatype payload = Body bytes | Stream "sent list"

record reply =
  ry_status :: int
  ry_headers :: headers
  ry_payload :: payload

definition reply_of :: "http_out \<Rightarrow> reply" where
  "reply_of out =
     (case out of
        Whole resp \<Rightarrow> \<lparr>ry_status = rp_status resp, ry_headers = rp_headers resp, ry_payload = Body (rp_body resp)\<rparr>
      | Event_Stream s \<Rightarrow> \<lparr>ry_status = 200, ry_headers = sse_headers, ry_payload = Stream s\<rparr>)"

definition unauthorized :: "library \<Rightarrow> response" where
  "unauthorized L = json_reply L 401 (error_json ''missing or invalid bearer token'' ''auth_error'' [])"

text \<open>The name of the profile is not in it, only its limit.\<close>

definition too_many_requests :: "library \<Rightarrow> int \<Rightarrow> response" where
  "too_many_requests L n =
     \<lparr>rp_status = 429, rp_headers = [(''Content-Type'', ''application/json''), (''Retry-After'', ''60'')],
      rp_body = js_print (lb_js L) (error_json
        (''rate limit exceeded: '' @ decimal (nat n) @ '' requests per minute for this profile'') ''rate_limit_error'' [])\<rparr>"

definition SECURITY_HEADERS :: headers where
  "SECURITY_HEADERS =
     [(''X-Content-Type-Options'', ''nosniff''), (''X-Frame-Options'', ''DENY''), (''X-XSS-Protection'', ''1; mode=block''),
      (''Referrer-Policy'', ''strict-origin-when-cross-origin''), (''Server'', ''agos-proxy'')]"

definition set_headers :: "headers \<Rightarrow> headers \<Rightarrow> headers" where
  "set_headers es hs = fold (\<lambda>(k, v). hdr_insert k v) es hs"

definition security_headers :: "reply \<Rightarrow> reply" where
  "security_headers r = r\<lparr>ry_headers := set_headers SECURITY_HEADERS (ry_headers r)\<rparr>"

definition REQUEST_ID_HEADER :: string where
  "REQUEST_ID_HEADER = ''X-Request-ID''"

definition echo_request_id :: "(string \<Rightarrow> bool) \<Rightarrow> string \<Rightarrow> reply \<Rightarrow> reply" where
  "echo_request_id valid i r =
     (if valid i then r\<lparr>ry_headers := hdr_insert REQUEST_ID_HEADER i (ry_headers r)\<rparr> else r)"

text \<open>Behind the request id: the gate and, when it opens, the handler.\<close>

definition inner_request :: "surroundings \<Rightarrow> cipher \<Rightarrow> gateway_request \<Rightarrow> gateway \<Rightarrow> http_out \<times> gateway" where
  "inner_request S c rq g =
     (let (verdict, ws) = gated_request False (su_uuid S) (gw_db g) (su_instant S) (http_request.truncate rq) (gw_windows g);
          g' = g\<lparr>gw_windows := ws\<rparr>
      in case verdict of
           Unauthorized \<Rightarrow> (Whole (unauthorized (su_lib S)), g')
         | Too_Many_Requests n \<Rightarrow> (Whole (too_many_requests (su_lib S) n), g')
         | Handle who \<Rightarrow>
             (let (out, d, rr) = handle S c rq who (gw_db g) (gw_turns g) in (out, g'\<lparr>gw_db := d, gw_turns := rr\<rparr>)))"

definition serve_request :: "surroundings \<Rightarrow> cipher \<Rightarrow> gateway_request \<Rightarrow> gateway \<Rightarrow> reply \<times> gateway" where
  "serve_request S c rq g =
     (if case gq_content_length rq of None \<Rightarrow> False | Some n \<Rightarrow> n > MAX_BODY_SIZE then (reply_of (Whole (su_too_large S)), g)
      else if gq_method rq = Options then (reply_of (Whole (su_preflight S)), g)
      else (let (out, g') = inner_request S c rq g
            in (echo_request_id (su_valid_header S) (request_id (su_uuid S) (http_request.truncate rq))
                  (security_headers (reply_of out)), g')))"

section \<open>The background task\<close>

text \<open>What one tick meets: the models a ping finds, and the readings of the clock.\<close>

record pulse =
  pl_parse :: "bytes \<Rightarrow> json option"
  pl_ping :: pinger
  pl_usage_now :: int
  pl_cache_now :: int
  pl_instant :: int

definition USAGE_DAYS :: nat where
  "USAGE_DAYS = 30"

text \<open>
  One round of the loop: every twelfth prunes the log and the cache, every sixtieth the
  limiter, and each probes the entries that are down.
\<close>

definition health_tick :: "cipher \<Rightarrow> pulse \<Rightarrow> gateway \<Rightarrow> gateway" where
  "health_tick c u g =
     (let n = gw_log_ticks g + 1; k = gw_limit_ticks g + 1;
          d = (if n \<ge> 12
               then snd (prune_response_cache (pl_cache_now u) (snd (prune_usage_log USAGE_DAYS (pl_usage_now u) (gw_db g))))
               else gw_db g)
      in g\<lparr>gw_log_ticks := (if n \<ge> 12 then 0 else n), gw_limit_ticks := (if k \<ge> 60 then 0 else k),
           gw_windows := (if k \<ge> 60 then prune PRUNE_AGE (pl_instant u) (gw_windows g) else gw_windows g),
           gw_db := snd (run_once (pl_parse u) c (pl_ping u) d)\<rparr>)"

section \<open>Runs\<close>

text \<open>
  The console works on the same store through its operations. A run is a sequence of
  requests, ticks and operations of the console.
\<close>

datatype gateway_event = Request surroundings gateway_request | Tick pulse | Console store_op

definition gateway_step :: "cipher \<Rightarrow> gateway_event \<Rightarrow> gateway \<Rightarrow> gateway" where
  "gateway_step c ev g =
     (case ev of
        Request S rq \<Rightarrow> snd (serve_request S c rq g)
      | Tick u \<Rightarrow> health_tick c u g
      | Console op \<Rightarrow> g\<lparr>gw_db := exec_op op (gw_db g)\<rparr>)"

text \<open>The program as it starts over a store.\<close>

definition start_gateway :: "db \<Rightarrow> gateway" where
  "start_gateway d = \<lparr>gw_db = d, gw_turns = (\<lambda>_. None), gw_windows = (\<lambda>_. None), gw_log_ticks = 0, gw_limit_ticks = 0\<rparr>"

definition gateway_run :: "cipher \<Rightarrow> gateway_event list \<Rightarrow> db \<Rightarrow> gateway" where
  "gateway_run c evs d = fold (gateway_step c) evs (start_gateway d)"

end
