(* ===== verification/Gateway_Props.thy ===== *)
theory Gateway_Props
  imports Gateway
begin

text \<open>
  The gateway as a whole: what a request may do to the store and in whose name, who gets
  past the gate and how often, what every reply carries, and what any run keeps.
\<close>

section \<open>What a request does to the store\<close>

lemma handle_via: "via_ops who (gw_db g) (fst (snd (handle S c rq who (gw_db g) rr)))"
  by (cases "endpoint_of (gq_method rq) (rq_path rq)")
    (simp_all add: handle_def answer_def via split_beta Let_def)

text \<open>The request reaches the gate: neither too large nor answered by the library.\<close>

definition reaches_gate :: "gateway_request \<Rightarrow> bool" where
  "reaches_gate rq \<longleftrightarrow> \<not> (case gq_content_length rq of None \<Rightarrow> False | Some n \<Rightarrow> n > MAX_BODY_SIZE) \<and> gq_method rq \<noteq> Options"

definition verdict :: "surroundings \<Rightarrow> gateway_request \<Rightarrow> gateway \<Rightarrow> gate" where
  "verdict S rq g = fst (gated_request False (su_uuid S) (gw_db g) (su_instant S) (http_request.truncate rq) (gw_windows g))"

text \<open>The profile a request is served for, if it is served behind the gate.\<close>

definition caller_of :: "surroundings \<Rightarrow> gateway_request \<Rightarrow> gateway \<Rightarrow> string option" where
  "caller_of S rq g =
     (if reaches_gate rq \<and> \<not> open_path False (rq_path rq)
      then (case verdict S rq g of Handle who \<Rightarrow> Some who | _ \<Rightarrow> None) else None)"

lemma truncate_path [simp]: "rq_path (http_request.truncate rq) = rq_path rq"
  by (simp add: http_request.truncate_def)

lemma open_endpoints:
  "open_path False path \<Longrightarrow> endpoint_of m path \<in> {Health_Endpoint, Ready_Endpoint, Metrics_Endpoint, Provider_Health, Wrong_Method}"
  by (auto simp: open_path_def endpoint_of_def get_only_def starts_with_def)

lemma open_silent: "open_path False (rq_path rq) \<Longrightarrow> snd (handle S c rq who d rr) = (d, rr)"
  using open_endpoints[of "rq_path rq" "gq_method rq"] by (auto simp: handle_def answer_def Let_def)

lemma serve_gate:
  assumes "reaches_gate rq"
  shows "snd (serve_request S c rq g) = snd (inner_request S c rq g)"
  using assms by (simp add: serve_request_def reaches_gate_def split_beta Let_def)

lemma serve_store:
  "gw_db (snd (serve_request S c rq g)) = gw_db g
   \<or> (\<exists>who. caller_of S rq g = Some who \<and> via_ops who (gw_db g) (gw_db (snd (serve_request S c rq g))))"
proof (cases "reaches_gate rq")
  case False
  then show ?thesis by (auto simp: serve_request_def reaches_gate_def)
next
  case True
  show ?thesis
  proof (cases "verdict S rq g")
    case (Handle who)
    then have "gw_db (snd (serve_request S c rq g)) = fst (snd (handle S c rq who (gw_db g) (gw_turns g)))"
      by (simp add: serve_gate[OF True] inner_request_def verdict_def split_beta Let_def)
    then show ?thesis
      using Handle True handle_via[of who g S c rq "gw_turns g"] open_silent[of rq S c who "gw_db g" "gw_turns g"]
      by (cases "open_path False (rq_path rq)") (simp_all add: caller_of_def)
  qed (simp_all add: serve_gate[OF True] inner_request_def verdict_def split_beta Let_def)
qed


section \<open>In whose name\<close>

text \<open>
  The effect of a request made as \<open>who\<close>: new rows of the usage log in that name, the cache,
  and the health of entries; the configuration stays.
\<close>

definition request_effect :: "string \<Rightarrow> db \<Rightarrow> db \<Rightarrow> bool" where
  "request_effect who d d' \<longleftrightarrow>
     d' = d\<lparr>entries := entries d', usage := usage d', seq_usage := seq_usage d', cache := cache d'\<rparr>
     \<and> list_all2 (entry_frame UNIV) (entries d) (entries d')
     \<and> (\<exists>rows. usage d' = usage d @ rows \<and> list_all (\<lambda>u. us_profile_id u = who) rows)"

lemma request_effect_trans:
  assumes "request_effect who d d'" "request_effect who d' d''"
  shows "request_effect who d d''"
proof -
  have "list_all2 (entry_frame UNIV) (entries d) (entries d'')"
    using assms unfolding request_effect_def
    by (blast intro: list_all2_trans[where ?P1.0 = "entry_frame UNIV" and ?P2.0 = "entry_frame UNIV"]
        entry_frame_trans[of UNIV _ _ UNIV, simplified])
  moreover have "d'' = d\<lparr>entries := entries d'', usage := usage d'', seq_usage := seq_usage d'', cache := cache d''\<rparr>"
    using assms by (cases d; cases d'; cases d'') (simp add: request_effect_def)
  ultimately show ?thesis
    using assms by (auto simp: request_effect_def)
qed

lemma entries_effect: "db_frame {i} d d' \<Longrightarrow> request_effect who d d'"
  by (cases d; cases d') (auto simp: request_effect_def db_frame_def entry_frame_def elim!: list_all2_mono)

lemma logs_effect: "request_effect who d (d\<lparr>cache := x\<rparr>)"
  "list_all (\<lambda>u. us_profile_id u = who) rows \<Longrightarrow> request_effect who d (d\<lparr>usage := usage d @ rows, seq_usage := n\<rparr>)"
  by (auto simp: request_effect_def entry_frame_def list_all2_same)

lemma op_effect: "by_request who op \<Longrightarrow> request_effect who d (exec_op op d)"
proof (induction who op rule: by_request.induct)
  case (1 who u now)
  then show ?case
    using logs_effect(1)[of who d "cache d"] by (auto simp: record_usage_def Let_def intro!: logs_effect)
next
  case (2 who r h now)
  then show ?case by (simp add: cache_get_def drop_expired_def logs_effect)
next
  case (3 who r h b p c now ttl)
  then show ?case
    using logs_effect(1)[of who d "cache d"] by (auto simp: cache_put_def Let_def intro!: logs_effect)
qed (simp_all add: entries_effect[OF entry_ops_frame(1)] entries_effect[OF entry_ops_frame(2)] entries_effect[OF entry_ops_frame(3)])

lemma via_effect:
  assumes "via_ops who d d'"
  shows "request_effect who d d'"
proof -
  have "request_effect who d (fold exec_op ops d)" if "list_all (by_request who) ops" for ops
    using that
  proof (induction ops arbitrary: d)
    case Nil
    then show ?case using logs_effect(1)[of who d "cache d"] by simp
  next
    case (Cons op ops)
    then show ?case using request_effect_trans[OF op_effect Cons.IH] by simp
  qed
  with assms show ?thesis by (auto simp: via_ops_def)
qed

text \<open>
  C5. What a request may do. Whatever it asks, wherever it goes and however it ends, a
  request either leaves the store as it was, or it was let through for a profile whose
  token it carried, and then it has only added usage rows in the name of that profile,
  touched the cache, and set the status, capabilities or cooldown of entries: no profile,
  provider, mask, proxy or route changes, and nobody else is billed.
\<close>

theorem request_scope:
  "gw_db (snd (serve_request S c rq g)) = gw_db g \<or>
   (\<exists>who. caller_of S rq g = Some who \<and> token_of (http_request.truncate rq) = Some who
      \<and> get_profile_by_id who (gw_db g) \<noteq> None
      \<and> request_effect who (gw_db g) (gw_db (snd (serve_request S c rq g))))"
proof -
  have "token_of (http_request.truncate rq) = Some who \<and> get_profile_by_id who (gw_db g) \<noteq> None"
    if "caller_of S rq g = Some who" for who
    using that
    by (auto simp: caller_of_def verdict_def gated_request_def auth_middleware_def and_then_def Let_def
        split: if_splits option.splits gate.splits prod.splits)
  then show ?thesis using serve_store[of S c rq g] via_effect by blast
qed

section \<open>Without a token\<close>


section \<open>What every reply carries\<close>

lemma echo_simps [simp]:
  "ry_status (echo_request_id v i r) = ry_status r"
  "ry_headers (echo_request_id v i r) = (if v i then hdr_insert REQUEST_ID_HEADER i (ry_headers r) else ry_headers r)"
  by (simp_all add: echo_request_id_def)

lemma security_simps [simp]:
  "ry_status (security_headers r) = ry_status r"
  "map_of (ry_headers (security_headers r)) = map_of (ry_headers r) ++ map_of SECURITY_HEADERS"
  by (simp_all add: security_headers_def set_headers_def SECURITY_HEADERS_def map_add_def fun_eq_iff)

text \<open>
  Every reply of the program's own layers is hardened, whichever handler or refusal it
  comes from, a stream, a 401 or a 404 alike: the five security headers are there with
  their values, and the reply names the request id - the caller's own when it sent one -
  provided the id can be a header value.
\<close>

theorem replies_hardened:
  assumes "reaches_gate rq"
  shows "map_of SECURITY_HEADERS \<subseteq>\<^sub>m map_of (ry_headers (fst (serve_request S c rq g)))
    \<and> (su_valid_header S (case rq_request_id rq of None \<Rightarrow> su_uuid S | Some i \<Rightarrow> i) \<longrightarrow>
         map_of (ry_headers (fst (serve_request S c rq g))) REQUEST_ID_HEADER
           = Some (case rq_request_id rq of None \<Rightarrow> su_uuid S | Some i \<Rightarrow> i))"
proof -
  have "REQUEST_ID_HEADER \<notin> dom (map_of SECURITY_HEADERS)"
    by (simp add: REQUEST_ID_HEADER_def SECURITY_HEADERS_def)
  then show ?thesis
    using assms
    by (auto simp: serve_request_def reaches_gate_def request_id_def http_request.truncate_def split_beta Let_def
        map_le_def map_add_Some_iff split: option.splits)
qed

section \<open>Any run keeps the store sound\<close>

lemma probe_all_ok: "db_ok d \<Longrightarrow> db_ok (probe_all parse send cs d)"
  by (induction parse send cs d rule: probe_all.induct) (simp_all add: Let_def keeps)

lemma tick_ok: "db_ok (gw_db g) \<Longrightarrow> db_ok (gw_db (health_tick c u g))"
proof -
  have "db_ok (snd (run_once parse c send d))" if "db_ok d" for parse send d
    using that by (simp add: run_once_def probe_all_ok split: sum.split)
  then show "db_ok (gw_db g) \<Longrightarrow> ?thesis" by (simp add: health_tick_def Let_def keeps)
qed

lemma serve_ok: "db_ok (gw_db g) \<Longrightarrow> db_ok (gw_db (snd (serve_request S c rq g)))"
  using serve_store[of S c rq g] via_ok by (metis (no_types, lifting))

interpretation gateway: invariant_machine "gateway_step c" "\<lambda>g. db_ok (gw_db g)" for c
proof
  show "db_ok (gw_db (gateway_step c ev g))" if "db_ok (gw_db g)" for ev g
    using that by (cases ev) (simp_all add: gateway_step_def serve_ok tick_ok keeps)
qed

text \<open>
  C2. Whatever the program goes through - requests to any endpoint, served, refused or
  failing; ticks of the background task; operations of the console, in any order and with
  whatever the network, the clock and the libraries answer - a store that any history of
  operations produced stays sound: every reference resolves, keys are unique and every
  column can be read.
\<close>

theorem gateway_keeps_integrity:
  "db_ok (gw_db (gateway_run c evs (reached ops)))"
  unfolding gateway_run_def by (rule gateway.run_inv) (simp add: start_gateway_def)

section \<open>How often a caller gets through\<close>

text \<open>The instants at which requests of one profile were let through, in their order.\<close>

fun handled :: "cipher \<Rightarrow> string \<Rightarrow> gateway_event list \<Rightarrow> gateway \<Rightarrow> int list" where
  "handled c who [] g = []"
| "handled c who (ev # evs) g =
     (case ev of Request S rq \<Rightarrow> if caller_of S rq g = Some who then [su_instant S] else [] | _ \<Rightarrow> [])
     @ handled c who evs (gateway_step c ev g)"

text \<open>The reading of the monotonic clock an event makes; the console makes none.\<close>

fun instant :: "gateway_event \<Rightarrow> int list" where
  "instant (Request S rq) = [su_instant S]"
| "instant (Tick u) = [pl_instant u]"
| "instant (Console op) = []"

fun by_server :: "gateway_event \<Rightarrow> bool" where
  "by_server (Console op) = False"
| "by_server _ = True"

definition limits :: "db \<Rightarrow> string \<Rightarrow> int" where
  "limits d who = (case get_profile_by_id who d of None \<Rightarrow> 0 | Some p \<Rightarrow> pf_rpm_limit p)"

lemma limits_profiles: "profiles d' = profiles d \<Longrightarrow> limits d' = limits d"
  by (simp add: limits_def get_profile_by_id_def fun_eq_iff)

lemma server_keeps_profiles: "by_server ev \<Longrightarrow> profiles (gw_db (gateway_step c ev g)) = profiles (gw_db g)"
proof (cases ev)
  case (Request S rq)
  have "request_effect who d d' \<Longrightarrow> profiles d' = profiles d" for who d d'
    by (cases d; cases d') (simp add: request_effect_def)
  then have "via_ops who d d' \<Longrightarrow> profiles d' = profiles d" for who d d' using via_effect by blast
  then show ?thesis using serve_store[of S c rq g] by (auto simp: Request gateway_step_def simp del: split_paired_Ex)
next
  case (Tick u)
  have frame: "db_frame I d d' \<Longrightarrow> profiles d' = profiles d" for I d d'
    by (cases d; cases d') (simp add: db_frame_def)
  have "profiles (snd (run_once parse c send d)) = profiles d" for parse send d
    using frame[OF probe_all_frame] by (simp add: run_once_def split: sum.split)
  then show ?thesis
    by (simp add: Tick gateway_step_def health_tick_def Let_def prune_usage_log_def prune_response_cache_def drop_expired_def)
qed simp

text \<open>What the gate does to the windows, and for whom it opens.\<close>

lemma gate_limiter:
  assumes "reaches_gate rq"
  shows "(caller_of S rq g = None \<and> gw_windows (snd (serve_request S c rq g)) = gw_windows g)
    \<or> (\<exists>t. caller_of S rq g = Some t \<and> limits (gw_db g) t \<le> 0 \<and> gw_windows (snd (serve_request S c rq g)) = gw_windows g)
    \<or> (\<exists>t. limits (gw_db g) t > 0
         \<and> caller_of S rq g = (if fst (check t (limits (gw_db g) t) (su_instant S) (gw_windows g)) then Some t else None)
         \<and> gw_windows (snd (serve_request S c rq g)) = snd (check t (limits (gw_db g) t) (su_instant S) (gw_windows g)))"
proof -
  let ?rq = "http_request.truncate rq" and ?d = "gw_db g"
  have win: "gw_windows (snd (serve_request S c rq g)) =
      snd (gated_request False (su_uuid S) ?d (su_instant S) ?rq (gw_windows g))"
    by (simp add: serve_gate[OF assms] inner_request_def split_beta Let_def split: gate.split)
  show ?thesis
  proof (cases "open_path False (rq_path rq) \<or> and_then (token_of ?rq) (\<lambda>t. get_profile_by_id t ?d) = None")
    case True
    then show ?thesis
      unfolding win by (auto simp: caller_of_def verdict_def gated_request_def auth_middleware_def)
  next
    case False
    then obtain t p where t: "token_of ?rq = Some t" "get_profile_by_id t ?d = Some p"
      by (auto simp: and_then_def split: option.splits)
    have "pf_id p = t" "limits ?d t = pf_rpm_limit p" using get_profile_id[OF t(2)] t(2) by (simp_all add: limits_def)
    note facts = t False assms this caller_of_def verdict_def gated_request_def auth_middleware_def Let_def and_then_def
    show ?thesis
    proof (cases "pf_rpm_limit p > 0")
      case True
      obtain admitted ws where "check t (pf_rpm_limit p) (su_instant S) (gw_windows g) = (admitted, ws)" by fastforce
      with True have "limits ?d t > 0
         \<and> caller_of S rq g = (if fst (check t (limits ?d t) (su_instant S) (gw_windows g)) then Some t else None)
         \<and> gw_windows (snd (serve_request S c rq g)) = snd (check t (limits ?d t) (su_instant S) (gw_windows g))"
        unfolding win using facts(1-4) by (simp add: facts)
      then show ?thesis by blast
    next
      case False
      then have "caller_of S rq g = Some t \<and> limits ?d t \<le> 0 \<and> gw_windows (snd (serve_request S c rq g)) = gw_windows g"
        unfolding win using facts(1-4) by (simp add: facts)
      then show ?thesis by blast
    qed
  qed
qed

lemma run_simulates:
  assumes "rl_inv L s" "gw_windows g = rl_windows s" "limits (gw_db g) = L"
    and "list_all by_server evs" "sorted (rl_now s # concat (map instant evs))" "L who > 0"
  shows "\<exists>s'. rl_inv L s' \<and> rl_log s' who = rl_log s who @ handled c who evs g"
  using assms
proof (induction evs arbitrary: s g)
  case Nil
  then show ?case by auto
next
  case (Cons ev evs)
  have "\<exists>s'. rl_inv L s' \<and> gw_windows (gateway_step c ev g) = rl_windows s'
      \<and> sorted (rl_now s' # concat (map instant evs)) \<and> rl_log s' who = rl_log s who @ handled c who [ev] g"
  proof (cases ev)
    case (Request S rq)
    then have now: "rl_now s \<le> su_instant S" "sorted (su_instant S # concat (map instant evs))"
      "sorted (rl_now s # concat (map instant evs))"
      using Cons.prems(5) by auto
    let ?checked = "\<lambda>t. rl_step L (nat (su_instant S - rl_now s), Check t) s"
    have step: "rl_now (?checked t) = su_instant S" "rl_windows (?checked t) = snd (check t (L t) (su_instant S) (rl_windows s))"
      "rl_log (?checked t) who = rl_log s who @ (if t = who \<and> fst (check t (L t) (su_instant S) (rl_windows s)) then [su_instant S] else [])"
      for t
      using now(1) by (simp_all add: rl_step_def split_beta Let_def)
    have step_inv: "rl_inv L (?checked t)" for t by (rule limiter.step_inv[OF Cons.prems(1)])
    show ?thesis
    proof (cases "reaches_gate rq")
      case False
      then have "snd (serve_request S c rq g) = g" by (auto simp: serve_request_def reaches_gate_def)
      then show ?thesis using Cons.prems(1,2) now(3) False by (auto simp: Request gateway_step_def caller_of_def)
    next
      case True
      from gate_limiter[OF this, of S g c] consider
          "caller_of S rq g = None" "gw_windows (snd (serve_request S c rq g)) = gw_windows g"
        | t where "caller_of S rq g = Some t" "L t \<le> 0" "gw_windows (snd (serve_request S c rq g)) = gw_windows g"
        | t where "caller_of S rq g = (if fst (check t (L t) (su_instant S) (rl_windows s)) then Some t else None)"
            "gw_windows (snd (serve_request S c rq g)) = snd (check t (L t) (su_instant S) (rl_windows s))"
        unfolding Cons.prems(2,3) by metis
      then show ?thesis
      proof cases
        case 1
        then show ?thesis using Cons.prems(1,2) now(3) by (auto simp: Request gateway_step_def)
      next
        case 2
        then show ?thesis using Cons.prems(1,2,6) now(3) by (auto simp: Request gateway_step_def)
      next
        case (3 t)
        then show ?thesis using step[of t] step_inv[of t] now(2)
          by (intro exI[of _ "?checked t"]) (cases "t = who"; simp add: Request gateway_step_def)
      qed
    qed
  next
    case (Tick u)
    then have now: "rl_now s \<le> pl_instant u" "sorted (pl_instant u # concat (map instant evs))"
      "sorted (rl_now s # concat (map instant evs))"
      using Cons.prems(5) by auto
    let ?pruned = "rl_step L (nat (pl_instant u - rl_now s), Prune) s"
    have "rl_now ?pruned = pl_instant u" "rl_windows ?pruned = prune PRUNE_AGE (pl_instant u) (rl_windows s)"
      "rl_log ?pruned = rl_log s"
      using now(1) by (simp_all add: rl_step_def Let_def)
    moreover have "rl_inv L ?pruned" by (rule limiter.step_inv[OF Cons.prems(1)])
    moreover have "gw_windows (gateway_step c ev g) = rl_windows s \<or> gw_windows (gateway_step c ev g) = rl_windows ?pruned"
      using calculation(2) Cons.prems(2) by (simp add: Tick gateway_step_def health_tick_def Let_def)
    ultimately show ?thesis using Cons.prems(1) now(2,3) by (auto simp: Tick)
  next
    case (Console op)
    then show ?thesis using Cons.prems(4) by simp
  qed
  then obtain s' where s': "rl_inv L s'" "gw_windows (gateway_step c ev g) = rl_windows s'"
    "sorted (rl_now s' # concat (map instant evs))" "rl_log s' who = rl_log s who @ handled c who [ev] g" by blast
  moreover have "limits (gw_db (gateway_step c ev g)) = L"
    using Cons.prems(3,4) limits_profiles[OF server_keeps_profiles] by simp
  ultimately show ?case
    using Cons.IH[OF s'(1,2) _ _ s'(3) Cons.prems(6)] Cons.prems(4) by auto
qed

text \<open>
  C8. The ceiling holds for the program as a whole: while the console leaves the store
  alone, of the requests of a profile with the limit \<open>L > 0\<close> that any run lets through to a
  handler, on whatever endpoints, one comes at least a full minute after the \<open>L\<close>-th before
  it - the ticks that prune the limiter in between do not loosen it.
\<close>

theorem gateway_ceiling:
  assumes "get_profile_by_id who d = Some p" "pf_rpm_limit p > 0"
    and "list_all by_server evs" "sorted (concat (map instant evs))"
    and "i + nat (pf_rpm_limit p) \<le> j" "j < length (handled c who evs (start_gateway d))"
  shows "handled c who evs (start_gateway d) ! j - handled c who evs (start_gateway d) ! i \<ge> WINDOW"
proof -
  have first_least: "sorted xs \<Longrightarrow> sorted ((case xs of [] \<Rightarrow> 0 | t # ts \<Rightarrow> t) # xs)" for xs :: "int list"
    by (cases xs) auto
  let ?first = "case concat (map instant evs) of [] \<Rightarrow> 0 | t # ts \<Rightarrow> t"
  have bound: "limits d who = pf_rpm_limit p" using assms(1) by (simp add: limits_def)
  have "rl_inv (limits d) (rl_start ?first)"
    by (simp add: rl_inv_def rl_start_def spaced_def window_of_def)
  moreover have "sorted (rl_now (rl_start ?first) # concat (map instant evs))"
    using first_least[OF assms(4)] by (simp add: rl_start_def)
  ultimately obtain s where s: "rl_inv (limits d) s" "rl_log s who = handled c who evs (start_gateway d)"
    using run_simulates[of "limits d" "rl_start ?first" "start_gateway d" evs who c] assms(2,3)
    by (auto simp: rl_start_def start_gateway_def bound)
  have "int i + limits d who \<le> int j" "limits d who > 0" using assms(2,5) bound by linarith+
  moreover from s(1) this(2) have "spaced (limits d who) (rl_log s who)" by (simp add: rl_inv_def)
  ultimately show ?thesis using s(2) assms(6) unfolding spaced_def by metis
qed

section \<open>The metrics count everything once\<close>

lemma route_ids_listed:
  assumes "db_ok d"
  shows "map rt_id (or_empty (list_routes i d)) = map ro_id (sort_key ro_name (filter (\<lambda>r. ro_proxy_id r = i) (routes d)))"
proof -
  obtain rs where rs: "list_routes i d = Inr rs" using list_routes_total[OF assms] by blast
  show ?thesis
    unfolding rs or_empty_def sum.case
    by (rule map_res_keys[OF rs[unfolded list_routes_def]]) (auto simp: map_route_row_def res_simps)
qed

lemma entries_listed:
  assumes "db_ok d"
  shows "map re_status (or_empty (route_entries i d)) =
    map (\<lambda>e. status_from_tag (en_status e)) (sort_key en_priority (filter (\<lambda>e. en_route_id e = i) (entries d)))"
proof -
  obtain es where es: "route_entries i d = Inr es" using route_entries_total[OF assms] by blast
  show ?thesis
    unfolding es or_empty_def sum.case
    by (rule map_res_keys[OF es[unfolded route_entries_def]]) (auto simp: map_route_entry_row_def res_simps)
qed

lemma over_proxies:
  fixes h :: "proxy \<Rightarrow> nat"
  assumes "db_ok d"
  shows "sum_list (map (\<lambda>p. sum_list (map h (list_proxies (pf_id p) d))) (list_profiles d)) = sum_list (map h (proxies d))"
  unfolding list_profiles_def list_proxies_def sum_sorted
  by (rule sum_partition) (use db_keys(1)[OF assms] proxy_rowD[OF assms] in \<open>auto simp: profile_ids_def\<close>)

lemma over_routes:
  fixes g :: "int \<Rightarrow> nat"
  assumes "db_ok d"
  shows "sum_list (map (\<lambda>x. sum_list (map (\<lambda>r. g (rt_id r)) (or_empty (list_routes (px_id x) d)))) (proxies d))
    = sum_list (map (\<lambda>r. g (ro_id r)) (routes d))"
proof -
  have "sum_list (map (\<lambda>r. g (rt_id r)) (or_empty (list_routes i d)))
      = sum_list (map (\<lambda>r. g (ro_id r)) (filter (\<lambda>r. ro_proxy_id r = i) (routes d)))" for i
  proof -
    have "map (\<lambda>r. g (rt_id r)) (or_empty (list_routes i d)) = map g (map rt_id (or_empty (list_routes i d)))" by simp
    also have "\<dots> = map (\<lambda>r. g (ro_id r)) (sort_key ro_name (filter (\<lambda>r. ro_proxy_id r = i) (routes d)))"
      unfolding route_ids_listed[OF assms] by simp
    finally show ?thesis by simp
  qed
  then show ?thesis
    using sum_partition[of px_id "proxies d" "routes d" ro_proxy_id] db_keys(7)[OF assms] route_rowD[OF assms]
    by (simp add: route_ok_def proxy_ids_def)
qed

lemma over_entries:
  assumes "db_ok d"
  shows "sum_list (map (\<lambda>r. length (filter (\<lambda>e. Q (re_status e)) (or_empty (route_entries (ro_id r) d)))) (routes d))
    = length (filter (\<lambda>e. Q (status_from_tag (en_status e))) (entries d))"
proof -
  have "length (filter (\<lambda>e. Q (re_status e)) (or_empty (route_entries i d)))
      = sum_list (map (\<lambda>e. if Q (status_from_tag (en_status e)) then 1 else 0) (filter (\<lambda>e. en_route_id e = i) (entries d)))" for i
  proof -
    have "length (filter (\<lambda>e. Q (re_status e)) (or_empty (route_entries i d)))
        = sum_list (map (\<lambda>s. if Q s then 1 else 0) (map re_status (or_empty (route_entries i d))))"
      by (simp add: length_filter_sum o_def)
    then show ?thesis unfolding entries_listed[OF assms] by (simp add: o_def)
  qed
  then show ?thesis
    using sum_partition[of ro_id "routes d" "entries d" en_route_id] db_keys(9)[OF assms] entry_rowD[OF assms]
    by (simp add: length_filter_sum entry_ok_def route_ids_def)
qed

lemma providers_listed:
  assumes "db_ok d" "sealed c d"
  shows "sum_list (map (\<lambda>p. length (or_empty (list_providers c (pf_id p) d))) (list_profiles d)) = length (providers d)"
proof -
  have "length (or_empty (list_providers c i d)) = sum_list (map (\<lambda>_. 1) (filter (\<lambda>q. pr_profile_id q = i) (providers d)))" for i
  proof -
    obtain qs where "list_providers c i d = Inr qs"
      unfolding list_providers_def
      using map_res_ex[of "sort_key pr_name (filter (\<lambda>p. pr_profile_id p = i) (providers d))" "build_joined c d"]
        build_joined_total[OF assms] by auto
    then have "length (or_empty (list_providers c i d)) = length (filter (\<lambda>q. pr_profile_id q = i) (providers d))"
      using list_all2_lengthD[OF map_res_InrD[OF \<open>list_providers c i d = Inr qs\<close>[unfolded list_providers_def]]]
      by (simp add: or_empty_def)
    then show ?thesis by (simp add: length_as_sum)
  qed
  then show ?thesis
    using sum_partition[of pf_id "profiles d" "providers d" pr_profile_id "\<lambda>_. 1 :: nat"] db_keys(1)[OF assms(1)]
      provider_rowD[OF assms(1)]
    by (simp add: list_profiles_def length_as_sum provider_ok_def profile_ids_def)
qed

definition serves :: "model_status \<Rightarrow> bool" where
  "serves s \<longleftrightarrow> s \<in> {Healthy, Degraded}"

text \<open>
  C31. The metrics tell the truth: over a sound store whose secrets open, the nested loops
  over profiles, proxies and routes count every row of every table exactly once - none is
  missed because its owner is, none is counted twice - and the entries split into those
  with a serving status and the others.
\<close>

theorem metrics_count_everything:
  assumes "db_ok d" "sealed c d"
  shows "metrics c d = object [(''profiles'', JInt (int (length (profiles d)))), (''providers'', JInt (int (length (providers d)))),
      (''proxies'', JInt (int (length (proxies d)))), (''routes'', JInt (int (length (routes d)))),
      (''healthy_entries'', JInt (int (n_where (\<lambda>e. serves (status_from_tag (en_status e))) (entries d)))),
      (''unhealthy_entries'', JInt (int (n_where (\<lambda>e. \<not> serves (status_from_tag (en_status e))) (entries d))))]"
proof -
  have count: "sum_list (map (\<lambda>p. length (filter (\<lambda>e. Q (re_status e)) (entries_of_profile d p))) (list_profiles d))
      = n_where (\<lambda>e. Q (status_from_tag (en_status e))) (entries d)" for Q
    using over_entries[OF assms(1), of Q] over_proxies[OF assms(1)]
      over_routes[OF assms(1), of "\<lambda>i. length (filter (\<lambda>e. Q (re_status e)) (or_empty (route_entries i d)))"]
    by (simp add: entries_of_profile_def filter_concat length_concat o_def n_where_def)
  have "sum_list (map (\<lambda>p. sum_list (map (\<lambda>x. length (or_empty (list_routes (px_id x) d))) (list_proxies (pf_id p) d))) (list_profiles d))
      = length (routes d)"
    using over_routes[OF assms(1), of "\<lambda>_. 1"] by (simp add: over_proxies[OF assms(1)] length_as_sum)
  moreover have "sum_list (map (\<lambda>p. length (list_proxies (pf_id p) d)) (list_profiles d)) = length (proxies d)"
    using over_proxies[OF assms(1), of "\<lambda>_. 1"] by (simp add: length_as_sum)
  moreover have "length (list_profiles d) = length (profiles d)" by (simp add: list_profiles_def)
  ultimately show ?thesis
    using providers_listed[OF assms] count[of serves] count[of "\<lambda>s. \<not> serves s"]
    by (simp add: metrics_def Let_def serves_def)
qed

section \<open>Instances\<close>

definition demo_surroundings :: "int \<Rightarrow> surroundings" where
  "demo_surroundings now = \<lparr>su_lib = demo_library, su_moment = demo_moment 0, su_stream = demo_world No_Headers,
     su_native = demo_native Too_Late, su_late = (\<lambda>_. False), su_send = (\<lambda>_ _ _. None), su_float_text = demo_ft,
     su_narrow = id, su_limit_text = [], su_parse_text = (\<lambda>_. []), su_serde_text = (\<lambda>_. []), su_uuid = ''uuid'',
     su_instant = now, su_now_secs = 0, su_preflight = bad_request demo_library [], su_too_large = bad_request demo_library [],
     su_fallback = (\<lambda>_. not_found demo_library []), su_valid_header = (\<lambda>_. True)\<rparr>"

text \<open>A request for the list of models, with a token in the way of Google's SDK.\<close>

definition models_request :: gateway_request where
  "models_request = \<lparr>rq_path = ''/v1/models'', rq_authorization = Some ''Basic x'', rq_api_key = None,
     rq_request_id = Some ''u'', rq_query = Some ''alt=sse&key=t'', gq_method = Get, gq_body = [],
     gq_content_length = None, gq_escalate = None\<rparr>"

lemma demo_instant [simp]: "su_instant (demo_surroundings now) = now"
  by (simp add: demo_surroundings_def)

lemma models_truncate: "http_request.truncate models_request = demo_request"
  by (simp add: models_request_def demo_request_def http_request.truncate_def)

lemma models_gate [simp]: "reaches_gate models_request" "\<not> open_path False (rq_path models_request)"
  by (simp_all add: models_request_def reaches_gate_def open_path_def)


theorem replies_hardened_witness:
  "map_of (ry_headers (fst (serve_request (demo_surroundings 0) tagging_cipher models_request (start_gateway empty_db)))) ''Server''
    = Some ''agos-proxy''"
  using replies_hardened[of models_request "demo_surroundings 0" tagging_cipher "start_gateway empty_db"]
  by (simp add: map_le_def SECURITY_HEADERS_def)

lemma demo_store_sealed: "sealed tagging_cipher demo_store"
  unfolding demo_store_def
  by (rule sealed_reached[OF tagging_cipher_ok])
     (simp add: op_sealed_def secret_args_def NONCE_LEN_def valid_utf8_ascii code_def spec_x_def)

lemma demo_counts:
  "(length (profiles demo_store), length (providers demo_store), length (proxies demo_store), length (routes demo_store),
    n_where (\<lambda>e. serves (status_from_tag (en_status e))) (entries demo_store),
    n_where (\<lambda>e. \<not> serves (status_from_tag (en_status e))) (entries demo_store)) = (1, 1, 1, 2, 3, 0)"
  by code_simp

theorem metrics_count_everything_witness:
  "metrics tagging_cipher demo_store = object [(''profiles'', JInt 1), (''providers'', JInt 1), (''proxies'', JInt 1),
     (''routes'', JInt 2), (''healthy_entries'', JInt 3), (''unhealthy_entries'', JInt 0)]"
proof -
  have "db_ok demo_store" by (simp add: demo_store_def)
  from metrics_count_everything[OF this demo_store_sealed] demo_counts show ?thesis by simp
qed

definition limited_profile :: db where
  "limited_profile = one_profile\<lparr>profiles := map (\<lambda>p. p\<lparr>pf_rpm_limit := 1\<rparr>) (profiles one_profile)\<rparr>"

definition minute_apart :: "gateway_event list" where
  "minute_apart = map (\<lambda>now. Request (demo_surroundings now) models_request) [0, 1, WINDOW]"

lemma limited_caller: "\<exists>p. get_profile_by_id ''t'' limited_profile = Some p \<and> pf_id p = ''t'' \<and> pf_rpm_limit p = 1"
  by (simp add: limited_profile_def one_profile_eq get_profile_by_id_def)

lemma models_step:
  assumes "gw_db g = limited_profile"
  shows "caller_of (demo_surroundings now) models_request g
      = (if fst (check ''t'' 1 now (gw_windows g)) then Some ''t'' else None)"
    "gw_windows (gateway_step c (Request (demo_surroundings now) models_request) g) = snd (check ''t'' 1 now (gw_windows g))"
    "gw_db (gateway_step c (Request (demo_surroundings now) models_request) g) = limited_profile"
proof -
  obtain p where p: "get_profile_by_id ''t'' limited_profile = Some p" "pf_id p = ''t''" "pf_rpm_limit p = 1"
    using limited_caller by blast
  obtain a ws where "check ''t'' 1 now (gw_windows g) = (a, ws)" by fastforce
  moreover have "endpoint_of (gq_method models_request) (rq_path models_request) = Models_Endpoint"
    by (simp add: models_request_def endpoint_of_def get_only_def)
  moreover have "rq_path demo_request = rq_path models_request" by (simp add: demo_request_def models_request_def)
  ultimately show "caller_of (demo_surroundings now) models_request g
      = (if fst (check ''t'' 1 now (gw_windows g)) then Some ''t'' else None)"
    "gw_windows (gateway_step c (Request (demo_surroundings now) models_request) g) = snd (check ''t'' 1 now (gw_windows g))"
    "gw_db (gateway_step c (Request (demo_surroundings now) models_request) g) = limited_profile"
    using p assms models_gate(2)
    by (simp_all add: caller_of_def verdict_def gated_request_def auth_middleware_def models_truncate demo_token and_then_def
        gateway_step_def serve_gate inner_request_def handle_def answer_def split_beta)
qed

lemma minute_apart_handled: "handled tagging_cipher ''t'' minute_apart (start_gateway limited_profile) = [0, WINDOW]"
  by (simp add: minute_apart_def models_step start_gateway_def check_def evict_def window_of_def duration_since_def
      WINDOW_def)

theorem gateway_ceiling_witness:
  "handled tagging_cipher ''t'' minute_apart (start_gateway limited_profile) ! 1
   - handled tagging_cipher ''t'' minute_apart (start_gateway limited_profile) ! 0 \<ge> WINDOW"
proof -
  obtain p where p: "get_profile_by_id ''t'' limited_profile = Some p" "pf_rpm_limit p = 1"
    using limited_caller by blast
  show ?thesis
    by (rule gateway_ceiling[OF p(1)])
       (simp_all add: p(2) minute_apart_handled, simp_all add: minute_apart_def WINDOW_def)
qed

end
