(* ===== verification/Store_Props.thy ===== *)
theory Store_Props
  imports Store_Machine
begin

text \<open>
  What the store promises its callers: integrity after any operations, reads that succeed,
  writes that take effect completely or not at all, secrets that come back as they were
  stored, the mask a provider's traffic leaves through, and what deletions take with them.
\<close>

section \<open>Integrity\<close>

text \<open>
  C1. Whatever operations a store has executed since it was created, in any order and
  with any arguments, refused ones included: every foreign key points at an existing row,
  primary keys and unique indices hold, no AUTOINCREMENT key is ahead of its counter, every
  entry has exactly one target, and every tag and JSON column is one its reader accepts.
\<close>

theorem store_integrity:
  "refs_ok (reached ops) \<and> keys_ok (reached ops) \<and> seq_ok (reached ops) \<and> columns_ok (reached ops)"
  using reached_ok[of ops] by (simp add: db_ok_def)

section \<open>Refused operations\<close>

text \<open>The error an operation returns, if it returns one.\<close>

definition err :: "'a outcome \<Rightarrow> store_error option" where
  "err r = (case fst r of Inl e \<Rightarrow> Some e | Inr _ \<Rightarrow> None)"

primrec err_profile :: "profile_op \<Rightarrow> db \<Rightarrow> store_error option" where
  "err_profile (Load_Key x1) d = err (load_or_generate_master_key x1 d)"
| "err_profile (Create_Profile x1 x2 x3 x4 x5 x6) d = err (create_profile x1 x2 x3 x4 x5 x6 d)"
| "err_profile (Create_Profile_With_Token x1 x2 x3 x4 x5) d = err (create_profile_with_token x1 x2 x3 x4 x5 d)"
| "err_profile (Delete_Profile x1) d = err (delete_profile x1 d)"
| "err_profile (Rotate_Token x1 x2 x3 x4) d = err (rotate_profile_token x1 x2 x3 x4 d)"
| "err_profile (Set_Rpm x1 x2 x3) d = err (set_profile_rpm_limit x1 x2 x3 d)"
| "err_profile (Rename_Profile x1 x2 x3) d = err (rename_profile x1 x2 x3 d)"
| "err_profile (Describe_Profile x1 x2 x3) d = err (set_profile_description x1 x2 x3 d)"
| "err_profile (Set_Password x1 x2 x3) d = err (set_profile_password x1 x2 x3 d)"
| "err_profile (Clear_Password x1 x2) d = err (clear_profile_password x1 x2 d)"
| "err_profile (Default_Mask x1 x2 x3) d = err (set_profile_default_masking x1 x2 x3 d)"

primrec err_mask :: "mask_op \<Rightarrow> db \<Rightarrow> store_error option" where
  "err_mask (Create_Mask x1 x2 x3 x4) d = err (create_masking_server x1 x2 x3 x4 d)"
| "err_mask (Share_Mask x1 x2) d = err (set_mask_shared x1 x2 d)"
| "err_mask (Probe_Mask x1 x2 x3 x4 x5) d = err (set_masking_server_probe x1 x2 x3 x4 x5 d)"
| "err_mask (Record_Probe x1 x2 x3 x4 x5) d = err (record_mask_probe x1 x2 x3 x4 x5 d)"
| "err_mask (Update_Mask x1 x2 x3 x4) d = err (update_masking_server x1 x2 x3 x4 d)"
| "err_mask (Delete_Mask x1) d = err (delete_masking_server x1 d)"

primrec err_provider :: "provider_op \<Rightarrow> db \<Rightarrow> store_error option" where
  "err_provider (Create_Provider x1 x2 x3 x4) d = err (create_provider x1 x2 x3 x4 d)"
| "err_provider (Share_Provider x1 x2) d = err (set_provider_shared x1 x2 d)"
| "err_provider (Bind_Mask x1 x2) d = err (set_provider_masking x1 x2 d)"
| "err_provider (Delete_Provider x1) d = err (delete_provider x1 d)"
| "err_provider (Update_Provider x1 x2 x3 x4) d = err (update_provider x1 x2 x3 x4 d)"

primrec err_route :: "route_op \<Rightarrow> db \<Rightarrow> store_error option" where
  "err_route (Create_Proxy x1 x2 x3) d = err (create_proxy x1 x2 x3 d)"
| "err_route (Delete_Proxy x1) d = err (delete_proxy x1 d)"
| "err_route (Update_Proxy x1 x2 x3) d = err (update_proxy x1 x2 x3 d)"
| "err_route (Create_Route x1 x2 x3 x4 x5) d = err (create_route x1 x2 x3 x4 x5 d)"
| "err_route (Share_Route x1 x2) d = err (set_route_shared x1 x2 d)"
| "err_route (Route_Cache_Policy x1 x2) d = err (set_route_prompt_cache x1 x2 d)"
| "err_route (Route_Economy x1 x2 x3) d = err (set_route_economy x1 x2 x3 d)"
| "err_route (Update_Route x1 x2 x3 x4 x5) d = err (update_route x1 x2 x3 x4 x5 d)"
| "err_route (Delete_Route x1) d = err (delete_route x1 d)"

primrec err_entry :: "entry_op \<Rightarrow> db \<Rightarrow> store_error option" where
  "err_entry (Add_Entry x1 x2 x3 x4 x5 x6) d = err (add_route_entry x1 x2 x3 x4 x5 x6 d)"
| "err_entry (Add_Nested_Entry x1 x2 x3 x4 x5) d = err (add_route_entry_ref x1 x2 x3 x4 x5 d)"
| "err_entry (Price_Entry x1 x2) d = err (set_route_entry_price x1 x2 d)"
| "err_entry (Entry_Status x1 x2) d = err (set_route_entry_status x1 x2 d)"
| "err_entry (Entry_Cooldown x1 x2) d = err (set_route_entry_cooldown x1 x2 d)"
| "err_entry (Entry_Priority x1 x2) d = err (set_route_entry_priority x1 x2 d)"
| "err_entry (Entry_Vision x1 x2) d = err (set_route_entry_vision x1 x2 d)"
| "err_entry (Delete_Entry x1) d = err (delete_route_entry x1 d)"
| "err_entry (Update_Entry x1 x2 x3 x4 x5) d = err (update_route_entry x1 x2 x3 x4 x5 d)"

primrec err_log :: "log_op \<Rightarrow> db \<Rightarrow> store_error option" where
  "err_log (Record_Usage x1 x2) d = err (record_usage x1 x2 d)"
| "err_log (Prune_Usage x1 x2) d = err (prune_usage_log x1 x2 d)"
| "err_log (Cache_Get x1 x2 x3) d = err (cache_get x1 x2 x3 d)"
| "err_log (Cache_Put x1 x2 x3 x4 x5 x6 x7) d = err (cache_put x1 x2 x3 x4 x5 x6 x7 d)"
| "err_log (Prune_Cache x1) d = err (prune_response_cache x1 d)"

primrec err_op :: "store_op \<Rightarrow> db \<Rightarrow> store_error option" where
  "err_op (On_Profile x) d = err_profile x d"
| "err_op (On_Mask x) d = err_mask x d"
| "err_op (On_Provider x) d = err_provider x d"
| "err_op (On_Route x) d = err_route x d"
| "err_op (On_Entry x) d = err_entry x d"
| "err_op (On_Log x) d = err_log x d"

text \<open>The errors SQLite or a guard raises before anything is written.\<close>

primrec refusal :: "store_error \<Rightarrow> bool" where
  "refusal Unique_Violation = True"
| "refusal Foreign_Key_Violation = True"
| "refusal Check_Violation = True"
| "refusal Not_Null_Violation = True"
| "refusal (No_Such_Row w) = True"
| "refusal Empty_Token = True"
| "refusal Vanished = False"
| "refusal (Crypto_Failure e) = False"
| "refusal (Store_Panic w) = False"

lemma err_simps [simp]:
  "err (Inl e, d) = Some e" "err (Inr x, d) = None"
  "err (require_changed w n d) = (if n = 0 then Some (No_Such_Row w) else None)"
  by (simp_all add: err_def require_changed_def)

lemma upd_none_same [simp]:
  "n_where P (profiles d) = 0 \<Longrightarrow> d\<lparr>profiles := upd_where P g1 (profiles d)\<rparr> = d"
  "n_where P2 (masks d) = 0 \<Longrightarrow> d\<lparr>masks := upd_where P2 g2 (masks d)\<rparr> = d"
  "n_where P3 (providers d) = 0 \<Longrightarrow> d\<lparr>providers := upd_where P3 g3 (providers d)\<rparr> = d"
  "n_where P4 (proxies d) = 0 \<Longrightarrow> d\<lparr>proxies := upd_where P4 g4 (proxies d)\<rparr> = d"
  "n_where P5 (routes d) = 0 \<Longrightarrow> d\<lparr>routes := upd_where P5 g5 (routes d)\<rparr> = d"
  "n_where P6 (entries d) = 0 \<Longrightarrow> d\<lparr>entries := upd_where P6 g6 (entries d)\<rparr> = d"
  by (simp_all add: n_where_0 upd_where_none)

lemma unbind_Nil [simp]: "unbind [] m = m"
  by (simp add: unbind_def split: option.split)

lemma del_none_masks [simp]:
  assumes "n_where P (masks d) = 0"
  shows "del_masks P d = d"
proof -
  have "filter P (masks d) = []" "filter (\<lambda>m. \<not> P m) (masks d) = masks d"
    using assms by (simp_all add: n_where_def filter_empty_conv)
  then show ?thesis by (simp add: del_masks_def Let_def)
qed

lemma err_profile_same: "err_profile op d = Some e \<Longrightarrow> refusal e \<Longrightarrow> exec_profile op d = d"
  by (cases op)
     (auto simp: load_or_generate_master_key_def create_profile_def create_profile_with_token_def
       insert_profile_def Let_def delete_profile_def rotate_profile_token_def set_profile_rpm_limit_def
       rename_profile_def set_profile_description_def set_profile_password_def
       clear_profile_password_def set_profile_default_masking_def upd_profile_def
       split: if_splits option.splits)

lemma err_mask_same: "err_mask op d = Some e \<Longrightarrow> refusal e \<Longrightarrow> exec_mask op d = d"
proof (cases op)
  case (Create_Mask c nonce pid spec)
  assume "err_mask op d = Some e" "refusal e"
  moreover have "err (r, d') = Some e \<Longrightarrow> \<exists>x. r = Inl x" for r :: "store_error + masking_server" and d'
    by (cases r) simp_all
  ultimately show ?thesis using Create_Mask
    by (auto simp: create_masking_server_def Let_def get_masking_server_def build_mask_def
        lift_crypto_def res_bind_def ok_or_def split: if_splits option.splits sum.splits)
qed (auto simp: set_mask_shared_def set_masking_server_probe_def record_mask_probe_def
       update_masking_server_def delete_masking_server_def upd_mask_def split: if_splits)

lemma err_provider_same: "err_provider op d = Some e \<Longrightarrow> refusal e \<Longrightarrow> exec_provider op d = d"
  by (cases op)
     (auto simp: create_provider_def Let_def get_provider_def build_joined_def build_provider_def
        build_mask_def set_provider_shared_def set_provider_masking_def delete_provider_def
        update_provider_def upd_provider_def lift_crypto_def res_bind_def ok_or_def
        split: if_splits option.splits sum.splits)

lemma err_route_same: "err_route op d = Some e \<Longrightarrow> refusal e \<Longrightarrow> exec_route op d = d"
  by (cases op)
     (auto simp: create_proxy_def delete_proxy_def update_proxy_def create_route_def set_route_shared_def
        set_route_prompt_cache_def set_route_economy_def update_route_def delete_route_def upd_route_def
        Let_def split: if_splits)

lemma err_entry_same: "err_entry op d = Some e \<Longrightarrow> refusal e \<Longrightarrow> exec_entry op d = d"
  by (cases op)
     (auto simp: add_route_entry_def add_route_entry_ref_def set_route_entry_price_def
        set_route_entry_status_def set_route_entry_cooldown_def set_route_entry_priority_def
        set_route_entry_vision_def delete_route_entry_def update_route_entry_def upd_entry_def
        Let_def split: if_splits option.splits)

lemma err_log_same: "err_log op d = Some e \<Longrightarrow> refusal e \<Longrightarrow> exec_log op d = d"
  by (cases op)
     (auto simp: record_usage_def prune_usage_log_def cache_get_def cache_put_def prune_response_cache_def
        Let_def split: if_splits)

text \<open>
  A refused write changes nothing: when any operation of the store reports a violated
  constraint, a missing row or an empty token, the database is the one it started from. (The
  only errors after a write are those of reading a fresh provider or mask back.)
\<close>

theorem refused_ops_change_nothing:
  assumes "err_op op d = Some e" "refusal e"
  shows "exec_op op d = d"
  using assms
  by (cases op) (simp_all add: err_profile_same err_mask_same err_provider_same err_route_same
      err_entry_same err_log_same)

theorem refused_ops_change_nothing_witness:
  "exec_op (On_Route (Create_Proxy ''nobody'' ''p'' None)) empty_db = empty_db"
  by (rule refused_ops_change_nothing[where e = Foreign_Key_Violation])
     (simp_all add: create_proxy_def empty_db_def profile_ids_def)

end
