(* ===== verification/Store_Reports.thy ===== *)
theory Store_Reports
  imports Store_Contracts "HOL-Library.Option_ord"
begin

text \<open>
  The aggregates over the usage log (\<open>usage_stats\<close> and \<open>key_stats\<close> in \<open>src/storage/mod.rs\<close>).
  GROUP BY makes one group per value of the key, in the order of the values, of its rows in
  the order of the log; ORDER BY is a stable sort, so groups with equal counts keep that
  order. SUM over a column adds in \<open>i64\<close> and fails when a partial sum leaves the range,
  whatever follows; NULLs are passed over. AVG and the arithmetic of \<open>f64\<close> are arguments.
\<close>

section \<open>Aggregates\<close>

definition group_by :: "('r \<Rightarrow> 'k::linorder) \<Rightarrow> 'r list \<Rightarrow> ('k \<times> 'r list) list" where
  "group_by key rows = map (\<lambda>k. (k, filter (\<lambda>r. key r = k) rows)) (sorted_list_of_set (key ` set rows))"

fun sum_from :: "int \<Rightarrow> int option list \<Rightarrow> store_error + int" where
  "sum_from acc [] = Inr acc"
| "sum_from acc (None # xs) = sum_from acc xs"
| "sum_from acc (Some x # xs) = (if in_i64 (acc + x) then sum_from (acc + x) xs else Inl Integer_Overflow)"

text \<open>\<open>COALESCE(SUM(c), 0)\<close>\<close>

definition sql_sum :: "int option list \<Rightarrow> store_error + int" where
  "sql_sum xs = sum_from 0 xs"

definition count_where :: "('r \<Rightarrow> bool) \<Rightarrow> 'r list \<Rightarrow> int" where
  "count_where P rows = int (n_where P rows)"

record report_ops =
  ro_avg :: "int list \<Rightarrow> f64"
  ro_of_int :: "int \<Rightarrow> f64"
  ro_mul :: "f64 \<Rightarrow> f64 \<Rightarrow> f64"
  ro_div :: "f64 \<Rightarrow> f64 \<Rightarrow> f64"

section \<open>Per model\<close>

record usage_stat =
  st_model_id :: string
  st_calls :: int
  st_failures :: int
  st_avg_latency_ms :: f64
  st_prompt_tokens :: int
  st_completion_tokens :: int
  st_cached_prompt_tokens :: int
  st_cached_calls :: int
  st_est_cost_usd :: f64

definition model_stat :: "report_ops \<Rightarrow> string \<times> usage_record list \<Rightarrow> store_error + usage_stat" where
  "model_stat ro g =
     (case g of (model, rows) \<Rightarrow>
        res_bind (sql_sum (map us_prompt_tokens rows)) (\<lambda>prompt.
        res_bind (sql_sum (map us_completion_tokens rows)) (\<lambda>completion.
        res_bind (sql_sum (map us_cached_prompt_tokens rows)) (\<lambda>cached.
          Inr \<lparr>st_model_id = model, st_calls = int (length rows), st_failures = count_where (\<lambda>u. \<not> us_success u) rows,
               st_avg_latency_ms = ro_avg ro (map us_latency_ms rows), st_prompt_tokens = prompt,
               st_completion_tokens = completion, st_cached_prompt_tokens = cached,
               st_cached_calls = count_where (\<lambda>u. case us_cached_prompt_tokens u of None \<Rightarrow> False | Some n \<Rightarrow> n > 0) rows,
               st_est_cost_usd = FFin 0\<rparr>))))"

text \<open>The cheapest positive price of the model, over the entries of every profile.\<close>

definition cheapest :: "string \<Rightarrow> db \<Rightarrow> f64 option" where
  "cheapest model d =
     (case map en_price_per_1m (filter (\<lambda>e. en_model_id e = model \<and> en_price_per_1m e > FFin 0) (entries d)) of
        [] \<Rightarrow> None
      | p # ps \<Rightarrow> Some (fold min ps p))"

definition priced :: "report_ops \<Rightarrow> db \<Rightarrow> usage_stat \<Rightarrow> usage_stat" where
  "priced ro d s =
     (case cheapest (st_model_id s) d of
        None \<Rightarrow> s
      | Some p \<Rightarrow> s\<lparr>st_est_cost_usd :=
          ro_div ro (ro_mul ro (ro_of_int ro (add_i64 (st_prompt_tokens s) (st_completion_tokens s))) p) (FFin 1000000)\<rparr>)"

definition rows_of :: "string \<Rightarrow> db \<Rightarrow> usage_record list" where
  "rows_of pid d = filter (\<lambda>u. us_profile_id u = pid) (usage d)"

definition usage_stats :: "report_ops \<Rightarrow> string \<Rightarrow> db \<Rightarrow> store_error + usage_stat list" where
  "usage_stats ro pid d =
     res_bind (map_res (model_stat ro) (group_by us_model_id (rows_of pid d)))
       (\<lambda>ss. Inr (map (priced ro d) (sort_key (\<lambda>s. - st_calls s) ss)))"

section \<open>Per key\<close>

record key_stat =
  ks_provider_id :: int
  ks_provider_name :: string
  ks_mask_name :: "string option"
  ks_calls :: int
  ks_failures :: int
  ks_rate_limited :: int
  ks_avg_latency_ms :: f64

text \<open>The provider behind a row, joined through its entry; a nested entry has none.\<close>

definition joined_provider :: "db \<Rightarrow> usage_record \<Rightarrow> provider_row option" where
  "joined_provider d u =
     (case find (\<lambda>e. en_id e = us_entry_id u) (entries d) of
        None \<Rightarrow> None
      | Some e \<Rightarrow> (case en_provider_id e of
            None \<Rightarrow> None
          | Some i \<Rightarrow> find (\<lambda>p. pr_id p = i) (providers d)))"

fun joined_rows :: "db \<Rightarrow> usage_record list \<Rightarrow> (usage_record \<times> provider_row) list" where
  "joined_rows d [] = []"
| "joined_rows d (u # us) =
     (case joined_provider d u of None \<Rightarrow> joined_rows d us | Some p \<Rightarrow> (u, p) # joined_rows d us)"

definition key_stat_of :: "report_ops \<Rightarrow> (int \<times> string option) \<times> (usage_record \<times> provider_row) list \<Rightarrow> key_stat" where
  "key_stat_of ro g =
     (case g of ((i, hop), rows) \<Rightarrow>
        \<lparr>ks_provider_id = i, ks_provider_name = (case rows of [] \<Rightarrow> [] | (u, p) # _ \<Rightarrow> pr_name p), ks_mask_name = hop,
         ks_calls = int (length rows), ks_failures = count_where (\<lambda>(u, p). \<not> us_success u) rows,
         ks_rate_limited = count_where (\<lambda>(u, p). us_status_code u = Some 429) rows,
         ks_avg_latency_ms = ro_avg ro (map (\<lambda>(u, p). us_latency_ms u) rows)\<rparr>)"

definition key_stats :: "report_ops \<Rightarrow> string \<Rightarrow> db \<Rightarrow> key_stat list" where
  "key_stats ro pid d =
     sort_key (\<lambda>s. - ks_calls s) (map (key_stat_of ro)
       (group_by (\<lambda>(u, p). (pr_id p, map_option mr_name (mask_join d p))) (joined_rows d (rows_of pid d))))"

section \<open>Groups\<close>

lemma group_keys [simp]: "map fst (group_by key rows) = sorted_list_of_set (key ` set rows)"
  by (simp add: group_by_def o_def)

lemma group_rows: "(k, g) \<in> set (group_by key rows) \<Longrightarrow> g = filter (\<lambda>r. key r = k) rows \<and> g \<noteq> []"
  by (auto simp: group_by_def filter_empty_conv)

lemma group_total:
  fixes h :: "'r \<Rightarrow> 'b::comm_monoid_add"
  shows "sum_list (map (\<lambda>(k, g). sum_list (map h g)) (group_by key rows)) = sum_list (map h rows)"
  using sum_partition[of "\<lambda>k. k" "sorted_list_of_set (key ` set rows)" rows key h]
  by (simp add: group_by_def o_def)

definition tokens :: "int option \<Rightarrow> int" where
  "tokens x = (case x of None \<Rightarrow> 0 | Some n \<Rightarrow> n)"

lemma tokens_simps [simp]: "tokens None = 0" "tokens (Some n) = n"
  by (simp_all add: tokens_def)

lemma sum_from_exact: "sum_from acc xs = Inr s \<Longrightarrow> s = acc + sum_list (map tokens xs)"
  by (induction acc xs rule: sum_from.induct) (auto split: if_splits)

lemma ex_take_Cons: "(\<exists>k. P (take k (x # xs))) \<longleftrightarrow> P [] \<or> (\<exists>k. P (x # take k xs))"
proof
  assume "\<exists>k. P (take k (x # xs))"
  then obtain k where "P (take k (x # xs))" by blast
  then show "P [] \<or> (\<exists>k. P (x # take k xs))" by (cases k) auto
next
  assume "P [] \<or> (\<exists>k. P (x # take k xs))"
  then show "\<exists>k. P (take k (x # xs))" by (metis take0 take_Suc_Cons)
qed

lemma sum_from_fails:
  "in_i64 acc \<Longrightarrow> (\<exists>e. sum_from acc xs = Inl e) \<longleftrightarrow> (\<exists>k. \<not> in_i64 (acc + sum_list (map tokens (take k xs))))"
proof (induction acc xs rule: sum_from.induct)
  case (2 acc xs)
  then show ?case
    using ex_take_Cons[of "\<lambda>ys. \<not> in_i64 (acc + sum_list (map tokens ys))" None xs] by simp
next
  case (3 acc x xs)
  have "(\<exists>k. \<not> in_i64 (acc + sum_list (map tokens (take k (Some x # xs))))) \<longleftrightarrow>
      (\<exists>k. \<not> in_i64 (acc + x + sum_list (map tokens (take k xs))))"
    using ex_take_Cons[of "\<lambda>ys. \<not> in_i64 (acc + sum_list (map tokens ys))" "Some x" xs] 3(2)
    by (simp add: add.assoc)
  moreover have "\<not> in_i64 (acc + x) \<Longrightarrow> \<exists>k. \<not> in_i64 (acc + x + sum_list (map tokens (take k xs)))"
    by (intro exI[of _ 0]) simp
  ultimately show ?case using 3 by auto
qed simp

section \<open>What the reports say\<close>

text \<open>A report that succeeds is the groups with their exact totals, reordered and priced.\<close>

definition summary :: "report_ops \<Rightarrow> string \<times> usage_record list \<Rightarrow> usage_stat" where
  "summary ro g =
     (case g of (model, rows) \<Rightarrow>
        \<lparr>st_model_id = model, st_calls = int (length rows), st_failures = count_where (\<lambda>u. \<not> us_success u) rows,
         st_avg_latency_ms = ro_avg ro (map us_latency_ms rows),
         st_prompt_tokens = sum_list (map (tokens \<circ> us_prompt_tokens) rows),
         st_completion_tokens = sum_list (map (tokens \<circ> us_completion_tokens) rows),
         st_cached_prompt_tokens = sum_list (map (tokens \<circ> us_cached_prompt_tokens) rows),
         st_cached_calls = count_where (\<lambda>u. tokens (us_cached_prompt_tokens u) > 0) rows,
         st_est_cost_usd = FFin 0\<rparr>)"

lemma model_stat_Inr: "model_stat ro g = Inr s \<Longrightarrow> s = summary ro g"
proof -
  have "(case x of None \<Rightarrow> False | Some n \<Rightarrow> n > 0) \<longleftrightarrow> tokens x > 0" for x by (simp add: tokens_def split: option.split)
  then show "model_stat ro g = Inr s \<Longrightarrow> s = summary ro g"
    by (cases g) (auto simp: model_stat_def summary_def sql_sum_def res_simps dest!: sum_from_exact)
qed

lemma usage_stats_Inr:
  assumes "usage_stats ro pid d = Inr ss"
  shows "ss = map (priced ro d) (sort_key (\<lambda>s. - st_calls s) (map (summary ro) (group_by us_model_id (rows_of pid d))))"
proof -
  obtain ms where ms: "map_res (model_stat ro) (group_by us_model_id (rows_of pid d)) = Inr ms"
    "ss = map (priced ro d) (sort_key (\<lambda>s. - st_calls s) ms)"
    using assms by (auto simp: usage_stats_def res_simps)
  have "map (\<lambda>s. s) ms = map (summary ro) (group_by us_model_id (rows_of pid d))"
    by (rule map_res_keys[OF ms(1)]) (rule model_stat_Inr)
  with ms(2) show ?thesis by simp
qed

lemma priced_fields [simp]:
  "st_model_id (priced ro d s) = st_model_id s" "st_calls (priced ro d s) = st_calls s"
  "st_failures (priced ro d s) = st_failures s" "st_prompt_tokens (priced ro d s) = st_prompt_tokens s"
  "st_completion_tokens (priced ro d s) = st_completion_tokens s"
  by (simp_all add: priced_def split: option.split)

lemma sum_list_sorted: "sum_list (map h (sort_key f xs)) = sum_list (map (h :: 'a \<Rightarrow> 'b::comm_monoid_add) xs)"
  by simp

lemma totals:
  fixes h :: "usage_record \<Rightarrow> int"
  assumes "\<And>s. f (priced ro d s) = f s" "\<And>m g. f (summary ro (m, g)) = sum_list (map h g)"
    and "ss = map (priced ro d) (sort_key (\<lambda>s. - st_calls s) (map (summary ro) (group_by us_model_id rows)))"
  shows "sum_list (map f ss) = sum_list (map h rows)"
proof -
  have "sum_list (map f ss) = sum_list (map f (sort_key (\<lambda>s. - st_calls s) (map (summary ro) (group_by us_model_id rows))))"
    by (simp add: assms(3) o_def assms(1))
  also have "\<dots> = sum_list (map (\<lambda>g. f (summary ro g)) (group_by us_model_id rows))" by (simp add: o_def)
  also have "\<dots> = sum_list (map (\<lambda>(k, g). sum_list (map h g)) (group_by us_model_id rows))"
    by (intro arg_cong[of _ _ sum_list] map_cong) (auto simp: assms(2))
  finally show ?thesis by (simp only: group_total)
qed

lemma count_sum: "count_where P xs = sum_list (map (\<lambda>x. if P x then 1 else 0) xs)"
  by (induction xs) (auto simp: count_where_def n_where_def)

lemma int_length_sum: "int (length xs) = sum_list (map (\<lambda>_. 1) xs)"
  by (induction xs) auto

text \<open>
  C19. The report over models accounts for every call: when it succeeds, it has exactly one
  line for each model the profile has called, the busiest first, and calls, failures and
  tokens over all lines are those of the profile's rows in the log - a row is neither
  counted twice nor left out, and no other profile's is counted.
\<close>

theorem usage_stats_account:
  assumes "usage_stats ro pid d = Inr ss"
  shows "distinct (map st_model_id ss) \<and> set (map st_model_id ss) = us_model_id ` set (rows_of pid d)
    \<and> sorted (map (\<lambda>s. - st_calls s) ss)
    \<and> sum_list (map st_calls ss) = int (length (rows_of pid d))
    \<and> sum_list (map st_failures ss) = count_where (\<lambda>u. \<not> us_success u) (rows_of pid d)
    \<and> sum_list (map st_prompt_tokens ss) = sum_list (map (tokens \<circ> us_prompt_tokens) (rows_of pid d))
    \<and> sum_list (map st_completion_tokens ss) = sum_list (map (tokens \<circ> us_completion_tokens) (rows_of pid d))"
proof -
  let ?gs = "group_by us_model_id (rows_of pid d)"
  note ss = usage_stats_Inr[OF assms]
  have "mset (map st_model_id ss) = mset (map st_model_id (map (summary ro) ?gs))"
    by (simp add: ss multiset.map_comp o_def)
  also have "map st_model_id (map (summary ro) ?gs) = map fst ?gs"
    unfolding map_map by (rule map_cong) (auto simp: summary_def)
  finally have m: "mset (map st_model_id ss) = mset (sorted_list_of_set (us_model_id ` set (rows_of pid d)))" by simp
  have "distinct (map st_model_id ss)" using mset_eq_imp_distinct_iff[OF m] by simp
  moreover have "set (map st_model_id ss) = us_model_id ` set (rows_of pid d)" using mset_eq_setD[OF m] by simp
  moreover have "sorted (map (\<lambda>s. - st_calls s) ss)" by (simp add: ss o_def)
  ultimately show ?thesis
    using totals[OF _ _ ss, of st_calls "\<lambda>_. 1"] totals[OF _ _ ss, of st_failures "\<lambda>u. if \<not> us_success u then 1 else 0"]
      totals[OF _ _ ss, of st_prompt_tokens "tokens \<circ> us_prompt_tokens"]
      totals[OF _ _ ss, of st_completion_tokens "tokens \<circ> us_completion_tokens"]
    by (simp add: summary_def count_sum int_length_sum)
qed

definition overflows :: "(usage_record \<Rightarrow> int option) \<Rightarrow> usage_record list \<Rightarrow> bool" where
  "overflows col rows \<longleftrightarrow> (\<exists>k. \<not> in_i64 (sum_list (map (tokens \<circ> col) (take k rows))))"

lemma sql_sum_fails: "(\<exists>e. sql_sum (map col rows) = Inl e) \<longleftrightarrow> overflows col rows"
  using sum_from_fails[of 0 "map col rows"] by (simp add: sql_sum_def overflows_def take_map in_i64_def o_def)

lemma map_res_fails: "(\<exists>e. map_res f xs = Inl e) \<longleftrightarrow> (\<exists>x\<in>set xs. \<exists>e. f x = Inl e)"
  by (induction xs) (auto split: sum.split)

lemma res_bind_fails: "(\<exists>e. res_bind r f = Inl e) \<longleftrightarrow> (\<exists>e. r = Inl e) \<or> (\<exists>x e. r = Inr x \<and> f x = Inl e)"
  by (cases r) auto

lemma model_stat_fails:
  "(\<exists>e. model_stat ro (m, g) = Inl e) \<longleftrightarrow>
    overflows us_prompt_tokens g \<or> overflows us_completion_tokens g \<or> overflows us_cached_prompt_tokens g"
  unfolding sql_sum_fails[symmetric]
  by (cases "sql_sum (map us_prompt_tokens g)"; cases "sql_sum (map us_completion_tokens g)";
      cases "sql_sum (map us_cached_prompt_tokens g)") (simp_all add: model_stat_def)

text \<open>
  C33. When the report over models fails: exactly when, for some model, the running total of
  one of the three token columns leaves the 64-bit range somewhere in the log. The counts
  are the upstreams' own, so one upstream that reports absurd counts denies its callers the
  report for all models, until the rows are pruned.
\<close>

theorem usage_stats_fails_iff:
  "(\<exists>e. usage_stats ro pid d = Inl e) \<longleftrightarrow>
     (\<exists>m. overflows us_prompt_tokens (filter (\<lambda>u. us_model_id u = m) (rows_of pid d))
        \<or> overflows us_completion_tokens (filter (\<lambda>u. us_model_id u = m) (rows_of pid d))
        \<or> overflows us_cached_prompt_tokens (filter (\<lambda>u. us_model_id u = m) (rows_of pid d)))"
proof -
  let ?g = "\<lambda>m. filter (\<lambda>u. us_model_id u = m) (rows_of pid d)"
  let ?bad = "\<lambda>g. overflows us_prompt_tokens g \<or> overflows us_completion_tokens g \<or> overflows us_cached_prompt_tokens g"
  have "(\<exists>e. usage_stats ro pid d = Inl e) \<longleftrightarrow> (\<exists>e. map_res (model_stat ro) (group_by us_model_id (rows_of pid d)) = Inl e)"
    by (simp add: usage_stats_def res_bind_fails)
  also have "\<dots> \<longleftrightarrow> (\<exists>m\<in>us_model_id ` set (rows_of pid d). ?bad (?g m))"
    unfolding map_res_fails by (auto simp: group_by_def model_stat_fails)
  also have "\<dots> \<longleftrightarrow> (\<exists>m. ?bad (?g m))"
  proof -
    have "?g m = []" if "m \<notin> us_model_id ` set (rows_of pid d)" for m
      using that by (auto simp: filter_empty_conv)
    then have "m \<in> us_model_id ` set (rows_of pid d)" if "?bad (?g m)" for m
      using that by (force simp: overflows_def in_i64_def)
    then show ?thesis by blast
  qed
  finally show ?thesis .
qed

section \<open>Keys\<close>

lemma joined_rows_eq:
  "joined_rows d us = map (\<lambda>u. (u, the (joined_provider d u))) (filter (\<lambda>u. joined_provider d u \<noteq> None) us)"
  by (induction us) (auto split: option.split)

lemma joined_provider_mem: "joined_provider d u = Some p \<Longrightarrow> p \<in> set (providers d)"
  by (auto simp: joined_provider_def dest: find_mem split: option.splits)

lemma joined_provider_iff:
  assumes "db_ok d"
  shows "joined_provider d u \<noteq> None \<longleftrightarrow> (\<exists>e\<in>set (entries d). en_id e = us_entry_id u \<and> en_provider_id e \<noteq> None)"
proof
  assume "joined_provider d u \<noteq> None"
  then show "\<exists>e\<in>set (entries d). en_id e = us_entry_id u \<and> en_provider_id e \<noteq> None"
    by (auto simp: joined_provider_def dest!: find_mem split: option.splits)
next
  assume "\<exists>e\<in>set (entries d). en_id e = us_entry_id u \<and> en_provider_id e \<noteq> None"
  then obtain e i where e: "e \<in> set (entries d)" "en_id e = us_entry_id u" "en_provider_id e = Some i" by auto
  have "find (\<lambda>x. en_id x = us_entry_id u) (entries d) = Some e"
    using find_distinct[OF db_keys(11)[OF assms] e(1)] e(2) by simp
  moreover have "i \<in> provider_ids d" using entry_rowD[OF assms e(1)] e(3) by (auto simp: entry_ok_def)
  then have "find (\<lambda>p. pr_id p = i) (providers d) \<noteq> None" by (auto simp: provider_ids_def find_None_iff2)
  ultimately show "joined_provider d u \<noteq> None" using e(3) by (simp add: joined_provider_def)
qed

text \<open>The line of a provider: its name, and the mask its traffic leaves through.\<close>

definition names_key :: "db \<Rightarrow> key_stat \<Rightarrow> bool" where
  "names_key d s \<longleftrightarrow> (\<exists>p\<in>set (providers d). pr_id p = ks_provider_id s \<and> pr_name p = ks_provider_name s
     \<and> map_option mr_name (mask_join d p) = ks_mask_name s)"

text \<open>
  The report over keys attributes every call it can: over a sound store it has one line
  per provider, with the provider's name and the mask its traffic leaves through, and the
  calls over all lines are the profile's rows whose entry is bound to a provider.
\<close>

theorem key_stats_account:
  assumes "db_ok d"
  shows "distinct (map ks_provider_id (key_stats ro pid d)) \<and> list_all (names_key d) (key_stats ro pid d)
    \<and> sum_list (map ks_calls (key_stats ro pid d)) =
        count_where (\<lambda>u. \<exists>e\<in>set (entries d). en_id e = us_entry_id u \<and> en_provider_id e \<noteq> None) (rows_of pid d)"
proof -
  define key where "key = (\<lambda>(u :: usage_record, p). (pr_id p, map_option mr_name (mask_join d p)))"
  define rows where "rows = joined_rows d (rows_of pid d)"
  have stats: "key_stats ro pid d = sort_key (\<lambda>s. - ks_calls s) (map (key_stat_of ro) (group_by key rows))"
    by (simp add: key_stats_def key_def rows_def)
  have mem: "p \<in> set (providers d)" if "(u, p) \<in> set rows" for u p
    using that joined_provider_mem by (auto simp: rows_def joined_rows_eq)
  have same: "p = q" if "(u, p) \<in> set rows" "(v, q) \<in> set rows" "pr_id p = pr_id q" for u v p q
    using key_unique[OF db_keys(3)[OF assms] mem[OF that(1)] mem[OF that(2)] that(3)] .
  have "mset (map ks_provider_id (key_stats ro pid d)) = mset (map (\<lambda>g. fst (fst g)) (group_by key rows))"
    by (simp add: stats multiset.map_comp o_def key_stat_of_def split_beta)
  also have "map (\<lambda>g. fst (fst g)) (group_by key rows) = map fst (map fst (group_by key rows))" by (simp del: group_keys add: o_def)
  also have "\<dots> = map fst (sorted_list_of_set (key ` set rows))" unfolding group_keys ..
  finally have m: "mset (map ks_provider_id (key_stats ro pid d)) = mset (map fst (sorted_list_of_set (key ` set rows)))" .
  have "inj_on fst (key ` set rows)"
    using same by (force simp: inj_on_def key_def)
  then have "distinct (map ks_provider_id (key_stats ro pid d))"
    using mset_eq_imp_distinct_iff[OF m] by (simp add: distinct_map)
  moreover have "names_key d (key_stat_of ro (k, g))" if kg: "(k, g) \<in> set (group_by key rows)" for k g
  proof -
    have "g \<noteq> []" using group_rows[OF kg] by blast
    then obtain u p r where g: "g = (u, p) # r" by (metis list.exhaust surj_pair)
    then have "(u, p) \<in> set (filter (\<lambda>r. key r = k) rows)" using group_rows[OF kg] by (metis list.set_intros(1))
    then have "(u, p) \<in> set rows" "key (u, p) = k" by auto
    with g show ?thesis using mem by (auto simp: names_key_def key_stat_of_def key_def)
  qed
  moreover have "sum_list (map ks_calls (key_stats ro pid d)) = sum_list (map (\<lambda>(k, g). sum_list (map (\<lambda>_. 1) g)) (group_by key rows))"
    by (simp add: stats o_def key_stat_of_def case_prod_unfold int_length_sum)
  then have "sum_list (map ks_calls (key_stats ro pid d)) = int (length rows)"
    by (simp only: group_total int_length_sum)
  ultimately show ?thesis
    using joined_provider_iff[OF assms]
    by (auto simp: stats list_all_iff rows_def joined_rows_eq count_where_def n_where_def)
qed

section \<open>Instances\<close>

text \<open>A profile with a provider and a route, and three calls of which two are of one model.\<close>

definition call_row :: "string \<Rightarrow> int \<Rightarrow> int \<Rightarrow> new_usage" where
  "call_row model prompt status =
     \<lparr>nu_profile_id = ''t'', nu_entry_id = 1, nu_model_id = model, nu_streamed = False, nu_success = (status = 200),
      nu_status_code = Some status, nu_error_message = None, nu_latency_ms = 5, nu_prompt_tokens = Some prompt,
      nu_completion_tokens = None, nu_cached_prompt_tokens = None\<rparr>"

definition called_store :: "(string \<times> int \<times> int) list \<Rightarrow> db" where
  "called_store calls = reached
     ([On_Profile (Create_Profile_With_Token ''me'' None None ''t'' 0),
       On_Provider (Create_Provider tagging_cipher (replicate 12 CHR ''n'') ''t'' spec_x),
       On_Route (Create_Proxy ''t'' ''p'' None),
       On_Route (Create_Route 1 ''r'' None Priority None),
       On_Entry (Add_Entry 1 1 ''a'' 0 (FFin 1) default_caps)]
      @ map (\<lambda>(model, prompt, status). On_Log (Record_Usage (call_row model prompt status) 0)) calls)"

definition demo_report :: report_ops where
  "demo_report = \<lparr>ro_avg = (\<lambda>_. FFin 0), ro_of_int = (\<lambda>n. FFin (of_int n)), ro_mul = (\<lambda>x y. x), ro_div = (\<lambda>x y. x)\<rparr>"

definition three_calls :: db where
  "three_calls = called_store [(''a'', 2, 200), (''b'', 3, 429), (''a'', 4, 200)]"

lemma three_calls_report:
  "case usage_stats demo_report ''t'' three_calls of Inl e \<Rightarrow> False
   | Inr ss \<Rightarrow> map (\<lambda>s. (st_model_id s, st_calls s, st_failures s, st_prompt_tokens s)) ss = [(''a'', 2, 0, 6), (''b'', 1, 1, 3)]"
  by code_simp

theorem usage_stats_account_witness:
  "\<exists>ss. usage_stats demo_report ''t'' three_calls = Inr ss \<and> sum_list (map st_calls ss) = int (length (rows_of ''t'' three_calls))"
proof -
  obtain ss where "usage_stats demo_report ''t'' three_calls = Inr ss"
    using three_calls_report by (auto split: sum.splits)
  with usage_stats_account[OF this] show ?thesis by blast
qed

theorem key_stats_account_witness: "sum_list (map ks_calls (key_stats demo_report ''t'' three_calls)) = 3"
proof -
  have ok: "db_ok three_calls" by (simp add: three_calls_def called_store_def del: append.simps list.map)
  have "length (filter (\<lambda>u. list_ex (\<lambda>e. en_id e = us_entry_id u \<and> en_provider_id e \<noteq> None) (entries three_calls)) (rows_of ''t'' three_calls)) = 3"
    by code_simp
  then show ?thesis
    using key_stats_account[OF ok, of demo_report "''t''"] by (simp add: count_where_def n_where_def list_ex_iff)
qed

text \<open>Two answers that claim \<open>2^62\<close> prompt tokens each, and the report is gone.\<close>

lemma absurd_counts:
  "usage_stats demo_report ''t'' (called_store [(''a'', 2 ^ 62, 200), (''b'', 1, 200), (''a'', 2 ^ 62, 200)]) = Inl Integer_Overflow"
  by code_simp

end
