(* ===== verification/Store_Migration.thy ===== *)
theory Store_Migration
  imports Rust_Text
begin

text \<open>
  Opening a database file (\<open>src/storage/schema.rs\<close> and \<open>Store::open\<close> in
  \<open>src/storage/mod.rs\<close>): the schema is applied if it is not there, columns that later
  versions added are added, and a table of entries from before nested routes is rebuilt. A
  file is its tables, with the names of their columns and their rows, its indices, and
  whether foreign keys are enforced. A statement that fails changes nothing; those before
  it in a batch stay, unless a transaction is rolled back.
\<close>

section \<open>Files\<close>

datatype sql_value = Null | Int_Val int | Real_Val f64 | Text_Val string | Blob_Val string

type_synonym sql_row = "string \<Rightarrow> sql_value"

record sql_table =
  tb_columns :: "string list"
  tb_rows :: "sql_row list"

record sql_file =
  fl_tables :: "string \<Rightarrow> sql_table option"
  fl_indices :: "string list"
  fl_foreign_keys :: bool

definition empty_file :: sql_file where
  "empty_file = \<lparr>fl_tables = (\<lambda>_. None), fl_indices = [], fl_foreign_keys = False\<rparr>"

datatype sql_error = Missing_Table string | Missing_Column string | Duplicate_Keys string | Table_Exists string | Bad_Row

type_synonym applied = "(sql_error + unit) \<times> sql_file"

definition and_apply :: "applied \<Rightarrow> (sql_file \<Rightarrow> applied) \<Rightarrow> applied" where
  "and_apply m k = (case m of (Inl e, f) \<Rightarrow> (Inl e, f) | (Inr u, f) \<Rightarrow> k f)"

fun apply_all :: "(sql_file \<Rightarrow> applied) list \<Rightarrow> sql_file \<Rightarrow> applied" where
  "apply_all [] f = (Inr (), f)"
| "apply_all (s # ss) f = and_apply (s f) (apply_all ss)"

definition put_table :: "string \<Rightarrow> sql_table \<Rightarrow> sql_file \<Rightarrow> sql_file" where
  "put_table t tb f = f\<lparr>fl_tables := (fl_tables f)(t \<mapsto> tb)\<rparr>"

section \<open>The schema\<close>

datatype ddl =
    Create_Table string "string list"
  | Create_Index string string "string list"
  | Create_Unique string string "string list"

text \<open>NULLs are distinct from everything in a unique index.\<close>

definition index_keys :: "string list \<Rightarrow> sql_table \<Rightarrow> sql_value list list" where
  "index_keys cols tb = filter (\<lambda>ks. Null \<notin> set ks) (map (\<lambda>r. map r cols) (tb_rows tb))"

definition create_index :: "bool \<Rightarrow> string \<Rightarrow> string \<Rightarrow> string list \<Rightarrow> sql_file \<Rightarrow> applied" where
  "create_index unique i t cols f =
     (if i \<in> set (fl_indices f) then (Inr (), f)
      else (case fl_tables f t of
              None \<Rightarrow> (Inl (Missing_Table t), f)
            | Some tb \<Rightarrow>
                (case find (\<lambda>c. c \<notin> set (tb_columns tb)) cols of
                   Some c \<Rightarrow> (Inl (Missing_Column c), f)
                 | None \<Rightarrow>
                     (if unique \<and> \<not> distinct (index_keys cols tb) then (Inl (Duplicate_Keys i), f)
                      else (Inr (), f\<lparr>fl_indices := fl_indices f @ [i]\<rparr>)))))"

fun exec_ddl :: "ddl \<Rightarrow> sql_file \<Rightarrow> applied" where
  "exec_ddl (Create_Table t cols) f =
     (Inr (), if fl_tables f t = None then put_table t \<lparr>tb_columns = cols, tb_rows = []\<rparr> f else f)"
| "exec_ddl (Create_Index i t cols) f = create_index False i t cols f"
| "exec_ddl (Create_Unique i t cols) f = create_index True i t cols f"

definition ROUTE_ENTRIES_BODY :: "string list" where
  "ROUTE_ENTRIES_BODY =
     [''id'', ''route_id'', ''provider_id'', ''target_route_id'', ''model_id'', ''priority'', ''weight'', ''status'',
      ''capabilities'', ''price_per_1m'', ''cooldown_until'']"

definition SCHEMA_HEAD :: "ddl list" where
  "SCHEMA_HEAD =
     [Create_Table ''meta'' [''key'', ''value''],
      Create_Table ''profiles'' [''id'', ''name'', ''description'', ''password_hash'', ''created_at'', ''updated_at'', ''rpm_limit''],
      Create_Table ''providers'' [''id'', ''profile_id'', ''name'', ''description'', ''base_url'', ''auth_token'', ''kind'',
        ''extra_headers'', ''shared''],
      Create_Table ''masking_servers'' [''id'', ''profile_id'', ''name'', ''kind'', ''endpoint_url'', ''secret'', ''max_body_bytes'',
        ''expected_egress_ip'', ''last_verified_ip'', ''last_verified_asn'', ''last_verified_country'', ''last_verified_at'', ''shared''],
      Create_Unique ''idx_masks_profile'' ''masking_servers'' [''profile_id'', ''name''],
      Create_Table ''proxies'' [''id'', ''profile_id'', ''name'', ''description''],
      Create_Table ''routes'' [''id'', ''proxy_id'', ''name'', ''description'', ''strategy'', ''identity'', ''max_tokens'',
        ''cache_ttl_secs'', ''shared'', ''prompt_cache''],
      Create_Unique ''idx_providers_profile'' ''providers'' [''profile_id'', ''name''],
      Create_Unique ''idx_proxies_profile'' ''proxies'' [''profile_id'', ''name''],
      Create_Unique ''idx_routes_proxy'' ''routes'' [''proxy_id'', ''name''],
      Create_Table ''usage_log'' [''id'', ''profile_id'', ''route_entry_id'', ''model_id'', ''streamed'', ''success'', ''status_code'',
        ''error_message'', ''latency_ms'', ''prompt_tokens'', ''completion_tokens'', ''cached_prompt_tokens'', ''created_at''],
      Create_Index ''idx_usage_profile'' ''usage_log'' [''profile_id'', ''created_at''],
      Create_Index ''idx_usage_entry'' ''usage_log'' [''route_entry_id'', ''created_at''],
      Create_Table ''response_cache'' [''id'', ''route_id'', ''req_hash'', ''resp_json'', ''prompt_tokens'', ''completion_tokens'',
        ''created_at'', ''expires_at''],
      Create_Unique ''idx_cache_route_hash'' ''response_cache'' [''route_id'', ''req_hash''],
      Create_Index ''idx_cache_expiry'' ''response_cache'' [''expires_at'']]"

definition schema_sql :: "ddl list" where
  "schema_sql = SCHEMA_HEAD @ [Create_Table ''route_entries'' ROUTE_ENTRIES_BODY]"

text \<open>The pragma comes first in the batch.\<close>

definition apply_schema :: "sql_file \<Rightarrow> applied" where
  "apply_schema f = apply_all (map exec_ddl schema_sql) (f\<lparr>fl_foreign_keys := True\<rparr>)"

section \<open>Columns of later versions\<close>

definition ensure_column :: "string \<times> string \<times> sql_value \<Rightarrow> sql_file \<Rightarrow> applied" where
  "ensure_column spec f =
     (case spec of (t, c, v) \<Rightarrow>
        (case fl_tables f t of
           None \<Rightarrow> (Inl (Missing_Table t), f)
         | Some tb \<Rightarrow>
             (Inr (), if c \<in> set (tb_columns tb) then f
                      else put_table t \<lparr>tb_columns = tb_columns tb @ [c], tb_rows = map (\<lambda>r. r(c := v)) (tb_rows tb)\<rparr> f)))"

definition NEW_COLUMNS :: "(string \<times> string \<times> sql_value) list" where
  "NEW_COLUMNS =
     [(''profiles'', ''rpm_limit'', Int_Val 0), (''routes'', ''identity'', Null), (''routes'', ''max_tokens'', Int_Val 0),
      (''routes'', ''cache_ttl_secs'', Int_Val 0), (''route_entries'', ''price_per_1m'', Real_Val (FFin 0)),
      (''providers'', ''masking_server_id'', Null), (''profiles'', ''default_masking_server_id'', Null),
      (''route_entries'', ''cooldown_until'', Int_Val 0), (''providers'', ''shared'', Int_Val 0),
      (''masking_servers'', ''shared'', Int_Val 0), (''routes'', ''shared'', Int_Val 0),
      (''routes'', ''prompt_cache'', Text_Val ''auto''), (''usage_log'', ''cached_prompt_tokens'', Null)]"

definition VALID_STATUSES :: "string list" where
  "VALID_STATUSES = [''healthy'', ''degraded'', ''unhealthy'', ''disabled'']"

text \<open>A NULL status makes the condition NULL, so its row is left alone.\<close>

definition stale_status :: "sql_row \<Rightarrow> bool" where
  "stale_status r \<longleftrightarrow> r ''status'' \<noteq> Null \<and> r ''status'' \<notin> Text_Val ` set VALID_STATUSES"

definition normalize_statuses :: "sql_file \<Rightarrow> applied" where
  "normalize_statuses f =
     (case fl_tables f ''route_entries'' of
        None \<Rightarrow> (Inl (Missing_Table ''route_entries''), f)
      | Some tb \<Rightarrow>
          (if ''status'' \<notin> set (tb_columns tb) then (Inl (Missing_Column ''status''), f)
           else (Inr (), put_table ''route_entries''
             (tb\<lparr>tb_rows := upd_where stale_status (\<lambda>r. r(''status'' := Text_Val ''unhealthy'')) (tb_rows tb)\<rparr>) f)))"

definition migrate_columns :: "sql_file \<Rightarrow> applied" where
  "migrate_columns f = and_apply (apply_all (map ensure_column NEW_COLUMNS) f) normalize_statuses"

section \<open>Entries from before nested routes\<close>

definition COPIED_COLUMNS :: "string list" where
  "COPIED_COLUMNS = removeAll ''target_route_id'' ROUTE_ENTRIES_BODY"

definition REBUILT :: string where
  "REBUILT = ''route_entries_rebuilt''"

definition copied_row :: "sql_row \<Rightarrow> sql_row" where
  "copied_row r = (\<lambda>c. if c \<in> set COPIED_COLUMNS then r c else Null)"

text \<open>
  NOT NULL for the columns that have it, and the CHECK, which demands a provider where there
  is no target. The key is that of the old table, so it is never NULL and the copy cannot
  clash.
\<close>

definition acceptable :: "sql_row \<Rightarrow> bool" where
  "acceptable r \<longleftrightarrow> list_all (\<lambda>c. r c \<noteq> Null) COPIED_COLUMNS"

definition migrate_route_entries :: "sql_file \<Rightarrow> applied" where
  "migrate_route_entries f =
     (case fl_tables f ''route_entries'' of
        None \<Rightarrow> (Inl (Missing_Table ''route_entries''), f)
      | Some tb \<Rightarrow>
          (if ''target_route_id'' \<in> set (tb_columns tb) then (Inr (), f)
           else if fl_tables f REBUILT \<noteq> None
           then (Inl (Table_Exists REBUILT), f\<lparr>fl_tables := (fl_tables f)(REBUILT := None), fl_foreign_keys := True\<rparr>)
           else (case find (\<lambda>c. c \<notin> set (tb_columns tb)) COPIED_COLUMNS of
                   Some c \<Rightarrow> (Inl (Missing_Column c), f\<lparr>fl_foreign_keys := True\<rparr>)
                 | None \<Rightarrow>
                     (if \<not> list_all acceptable (tb_rows tb) then (Inl Bad_Row, f\<lparr>fl_foreign_keys := True\<rparr>)
                      else (Inr (), put_table ''route_entries''
                        \<lparr>tb_columns = ROUTE_ENTRIES_BODY, tb_rows = map copied_row (tb_rows tb)\<rparr>
                        (f\<lparr>fl_foreign_keys := True\<rparr>))))))"

text \<open>\<open>Store::open\<close>, up to the master key.\<close>

definition open_file :: "sql_file \<Rightarrow> applied" where
  "open_file f = and_apply (and_apply (apply_schema f) migrate_columns) migrate_route_entries"

section \<open>Nothing is lost\<close>

text \<open>
  What a file must carry over: all columns of all tables, but of the entries the columns the
  program knows, and not the status, which may be normalised. A leftover of a rebuild is no
  data.
\<close>

definition carried_over :: "string \<Rightarrow> string \<Rightarrow> bool" where
  "carried_over t c \<longleftrightarrow> t \<noteq> ''route_entries'' \<or> c \<in> set COPIED_COLUMNS - {''status''}"

definition table_kept :: "string \<Rightarrow> sql_table \<Rightarrow> sql_table \<Rightarrow> bool" where
  "table_kept t tb tb' \<longleftrightarrow>
     (\<forall>c. carried_over t c \<and> c \<in> set (tb_columns tb) \<longrightarrow> c \<in> set (tb_columns tb'))
     \<and> list_all2 (\<lambda>r r'. \<forall>c. carried_over t c \<and> c \<in> set (tb_columns tb) \<longrightarrow> r' c = r c) (tb_rows tb) (tb_rows tb')"

definition kept :: "sql_file \<Rightarrow> sql_file \<Rightarrow> bool" where
  "kept f f' \<longleftrightarrow> (\<forall>t tb. t \<noteq> REBUILT \<and> fl_tables f t = Some tb \<longrightarrow>
     (\<exists>tb'. fl_tables f' t = Some tb' \<and> table_kept t tb tb'))"

lemma table_kept_refl [simp]: "table_kept t tb tb"
  by (simp add: table_kept_def list_all2_same)

lemma table_kept_trans:
  assumes a: "table_kept t x y" and b: "table_kept t y z"
  shows "table_kept t x z"
proof -
  let ?same = "\<lambda>tb r r'. \<forall>c. carried_over t c \<and> c \<in> set (tb_columns tb) \<longrightarrow> r' c = r c"
  have cols: "\<forall>c. carried_over t c \<and> c \<in> set (tb_columns x) \<longrightarrow> c \<in> set (tb_columns y)"
    using a by (simp add: table_kept_def)
  have "list_all2 (?same x) (tb_rows x) (tb_rows z)"
  proof (rule list_all2_trans)
    show "list_all2 (?same x) (tb_rows x) (tb_rows y)" using a by (simp add: table_kept_def)
    show "list_all2 (?same y) (tb_rows y) (tb_rows z)" using b by (simp add: table_kept_def)
    show "?same x r r'" if "?same x r s" "?same y s r'" for r s r' using that cols by simp
  qed
  with cols b show ?thesis by (simp add: table_kept_def)
qed

lemma kept_same [simp]: "fl_tables f' = fl_tables f \<Longrightarrow> kept f f'"
  by (auto simp: kept_def)

lemma kept_trans: "kept f g \<Longrightarrow> kept g h \<Longrightarrow> kept f h"
  unfolding kept_def by (meson table_kept_trans)

lemma kept_put:
  assumes "\<And>tb. fl_tables f t = Some tb \<Longrightarrow> table_kept t tb tb'"
  shows "kept f (put_table t tb' f)"
  using assms by (auto simp: kept_def put_table_def)

lemma put_flags [simp]: "fl_foreign_keys (put_table t tb f) = fl_foreign_keys f" "fl_indices (put_table t tb f) = fl_indices f"
  by (simp_all add: put_table_def)

definition safe_step :: "(sql_file \<Rightarrow> applied) \<Rightarrow> bool" where
  "safe_step s \<longleftrightarrow> (\<forall>f. kept f (snd (s f)) \<and> (fl_foreign_keys f \<longrightarrow> fl_foreign_keys (snd (s f))))"

lemma safe_then: "safe_step m \<Longrightarrow> safe_step k \<Longrightarrow> safe_step (\<lambda>f. and_apply (m f) k)"
  unfolding safe_step_def and_apply_def
  by (auto split: prod.split sum.split) (metis kept_trans snd_conv)+

lemma safe_all: "(\<And>s. s \<in> set ss \<Longrightarrow> safe_step s) \<Longrightarrow> safe_step (apply_all ss)"
proof (induction ss)
  case Nil
  then show ?case by (simp add: safe_step_def)
next
  case (Cons s ss)
  then have "safe_step (\<lambda>f. and_apply (s f) (apply_all ss))" by (intro safe_then) auto
  moreover have "apply_all (s # ss) = (\<lambda>f. and_apply (s f) (apply_all ss))" by (simp add: fun_eq_iff)
  ultimately show ?case by simp
qed

lemma safe_ddl: "safe_step (exec_ddl d)"
  by (cases d) (auto simp: safe_step_def create_index_def intro!: kept_put split: option.split)

lemma safe_column: "safe_step (ensure_column spec)"
proof -
  obtain t c v where spec: "spec = (t, c, v)" using prod_cases3 by blast
  show ?thesis
    by (auto simp: spec safe_step_def ensure_column_def table_kept_def list_all2_map2 list_all2_same
        intro!: kept_put split: option.split)
qed

lemma safe_statuses: "safe_step normalize_statuses"
  by (auto simp: safe_step_def normalize_statuses_def table_kept_def upd_where_def list_all2_map2 list_all2_same carried_over_def
      intro!: kept_put split: option.split)

lemma safe_rebuild: "safe_step migrate_route_entries"
proof -
  have rebuilt: "kept f (put_table ''route_entries'' \<lparr>tb_columns = ROUTE_ENTRIES_BODY, tb_rows = map copied_row (tb_rows tb)\<rparr>
      (f\<lparr>fl_foreign_keys := True\<rparr>))" if "fl_tables f ''route_entries'' = Some tb" for f tb
  proof -
    have "table_kept ''route_entries'' tb \<lparr>tb_columns = ROUTE_ENTRIES_BODY, tb_rows = map copied_row (tb_rows tb)\<rparr>"
      by (auto simp: table_kept_def carried_over_def list_all2_map2 list_all2_same copied_row_def COPIED_COLUMNS_def)
    then have "kept (f\<lparr>fl_foreign_keys := True\<rparr>) (put_table ''route_entries''
        \<lparr>tb_columns = ROUTE_ENTRIES_BODY, tb_rows = map copied_row (tb_rows tb)\<rparr> (f\<lparr>fl_foreign_keys := True\<rparr>))"
      using that by (intro kept_put) simp
    then show ?thesis by (rule kept_trans[rotated]) simp
  qed
  have dropped: "kept f (f\<lparr>fl_tables := (fl_tables f)(REBUILT := None), fl_foreign_keys := True\<rparr>)" for f
    by (auto simp: kept_def)
  show ?thesis
    unfolding safe_step_def migrate_route_entries_def by (auto simp: rebuilt dropped split: option.split)
qed

lemma open_safe:
  "kept (f\<lparr>fl_foreign_keys := True\<rparr>) (snd (open_file f)) \<and> fl_foreign_keys (snd (open_file f))"
proof -
  have "safe_step (\<lambda>f. and_apply (and_apply (apply_all (map exec_ddl schema_sql) f) migrate_columns) migrate_route_entries)"
    unfolding migrate_columns_def
    by (intro safe_then safe_rebuild safe_statuses safe_all) (auto simp: safe_ddl safe_column)
  then show ?thesis by (simp add: safe_step_def open_file_def apply_schema_def)
qed


section \<open>Opening twice\<close>

text \<open>What a step leaves behind, and that the other steps leave it there.\<close>

fun has_item :: "ddl \<Rightarrow> sql_file \<Rightarrow> bool" where
  "has_item (Create_Table t cols) f \<longleftrightarrow> fl_tables f t \<noteq> None"
| "has_item (Create_Index i t cols) f \<longleftrightarrow> i \<in> set (fl_indices f)"
| "has_item (Create_Unique i t cols) f \<longleftrightarrow> i \<in> set (fl_indices f)"

definition has_column :: "string \<times> string \<times> sql_value \<Rightarrow> sql_file \<Rightarrow> bool" where
  "has_column spec f \<longleftrightarrow> (case spec of (t, c, v) \<Rightarrow> \<exists>tb. fl_tables f t = Some tb \<and> c \<in> set (tb_columns tb))"

definition statuses_valid :: "sql_file \<Rightarrow> bool" where
  "statuses_valid f \<longleftrightarrow> (\<exists>tb. fl_tables f ''route_entries'' = Some tb \<and> ''status'' \<in> set (tb_columns tb)
     \<and> (\<forall>r\<in>set (tb_rows tb). \<not> stale_status r))"

definition current :: "sql_file \<Rightarrow> bool" where
  "current f \<longleftrightarrow> fl_foreign_keys f \<and> list_all (\<lambda>d. has_item d f) schema_sql \<and> list_all (\<lambda>x. has_column x f) NEW_COLUMNS
     \<and> statuses_valid f \<and> has_column (''route_entries'', ''target_route_id'', Null) f"

lemma and_apply_Inr: "and_apply m k = (Inr (), f') \<longleftrightarrow> (\<exists>f. m = (Inr (), f) \<and> k f = (Inr (), f'))"
  by (auto simp: and_apply_def split: prod.splits sum.splits)

lemma apply_all_noop: "(\<And>x. x \<in> set xs \<Longrightarrow> F x f = (Inr (), f)) \<Longrightarrow> apply_all (map F xs) f = (Inr (), f)"
  by (induction xs) (auto simp: and_apply_def)

text \<open>Steps that succeed one after the other each establish their part and keep the others'.\<close>

lemma apply_all_keeps:
  assumes "apply_all (map F xs) f = (Inr (), f')" "P f"
    and "\<And>x g g'. x \<in> set xs \<Longrightarrow> F x g = (Inr (), g') \<Longrightarrow> P g \<Longrightarrow> P g'"
  shows "P f'"
  using assms by (induction xs arbitrary: f) (auto simp: and_apply_Inr)

lemma apply_all_establishes:
  assumes "apply_all (map F xs) f = (Inr (), f')" "x \<in> set xs"
    and "\<And>g g'. F x g = (Inr (), g') \<Longrightarrow> P g'"
    and "\<And>y g g'. y \<in> set xs \<Longrightarrow> F y g = (Inr (), g') \<Longrightarrow> P g \<Longrightarrow> P g'"
  shows "P f'"
proof -
  obtain as bs where xs: "xs = as @ x # bs" using assms(2) by (auto simp: in_set_conv_decomp)
  have append: "apply_all (ss @ ts) g = and_apply (apply_all ss g) (apply_all ts)" for ss ts g
    by (induction ss arbitrary: g) (auto simp: and_apply_def split: prod.split sum.split)
  obtain g where "apply_all (map F (x # bs)) g = (Inr (), f')"
    using assms(1) by (auto simp: xs append and_apply_Inr)
  then obtain g' where "F x g = (Inr (), g')" "apply_all (map F bs) g' = (Inr (), f')"
    by (auto simp: and_apply_Inr)
  moreover from this(1) have "P g'" by (rule assms(3))
  moreover have "P h'" if "y \<in> set bs" "F y h = (Inr (), h')" "P h" for y h h'
    by (rule assms(4)[OF _ that(2,3)]) (simp add: xs that(1))
  ultimately show ?thesis using apply_all_keeps by metis
qed

lemma ddl_steps:
  "has_item d f \<Longrightarrow> exec_ddl d f = (Inr (), f)"
  "exec_ddl d f = (Inr (), f') \<Longrightarrow> has_item d f'"
  "exec_ddl d' f = (Inr (), f') \<Longrightarrow> has_item d f \<Longrightarrow> has_item d f'"
proof -
  show "has_item d f \<Longrightarrow> exec_ddl d f = (Inr (), f)"
    by (cases d) (auto simp: create_index_def)
  show "exec_ddl d f = (Inr (), f') \<Longrightarrow> has_item d f'"
    by (cases d) (auto simp: create_index_def put_table_def split: if_splits option.splits)
  show "exec_ddl d' f = (Inr (), f') \<Longrightarrow> has_item d f \<Longrightarrow> has_item d f'"
    by (cases d; cases d') (auto simp: create_index_def put_table_def split: if_splits option.splits)
qed

lemma column_steps:
  "has_column x f \<Longrightarrow> ensure_column x f = (Inr (), f)"
  "ensure_column x f = (Inr (), f') \<Longrightarrow> has_column x f'"
  "ensure_column y f = (Inr (), f') \<Longrightarrow> has_column x f \<Longrightarrow> has_column x f'"
  "ensure_column y f = (Inr (), f') \<Longrightarrow> has_item d f \<Longrightarrow> has_item d f'"
proof -
  note defs = has_column_def ensure_column_def put_table_def
  show "has_column x f \<Longrightarrow> ensure_column x f = (Inr (), f)"
    "ensure_column x f = (Inr (), f') \<Longrightarrow> has_column x f'"
    "ensure_column y f = (Inr (), f') \<Longrightarrow> has_column x f \<Longrightarrow> has_column x f'"
    by (auto simp: defs split: prod.splits option.splits if_splits)
  show "ensure_column y f = (Inr (), f') \<Longrightarrow> has_item d f \<Longrightarrow> has_item d f'"
    by (cases d) (auto simp: defs split: prod.splits option.splits if_splits)
qed

lemma status_steps:
  "statuses_valid f \<Longrightarrow> normalize_statuses f = (Inr (), f)"
  "normalize_statuses f = (Inr (), f') \<Longrightarrow> statuses_valid f'"
  "normalize_statuses f = (Inr (), f') \<Longrightarrow> has_column x f \<Longrightarrow> has_column x f'"
  "normalize_statuses f = (Inr (), f') \<Longrightarrow> has_item d f \<Longrightarrow> has_item d f'"
proof -
  note defs = normalize_statuses_def statuses_valid_def put_table_def
  show "statuses_valid f \<Longrightarrow> normalize_statuses f = (Inr (), f)"
    by (auto simp: defs upd_where_none map_upd_triv)
  show "normalize_statuses f = (Inr (), f') \<Longrightarrow> statuses_valid f'"
    by (auto simp: defs table_simps stale_status_def VALID_STATUSES_def split: option.splits if_splits)
  show "normalize_statuses f = (Inr (), f') \<Longrightarrow> has_column x f \<Longrightarrow> has_column x f'"
    by (auto simp: defs has_column_def split: option.splits if_splits)
  show "normalize_statuses f = (Inr (), f') \<Longrightarrow> has_item d f \<Longrightarrow> has_item d f'"
    by (cases d) (auto simp: defs split: option.splits if_splits)
qed

text \<open>The rebuild keeps every column it knows, and any item but its own scratch table.\<close>

lemma rebuild_steps:
  "has_column (''route_entries'', ''target_route_id'', Null) f \<Longrightarrow> migrate_route_entries f = (Inr (), f)"
  "migrate_route_entries f = (Inr (), f') \<Longrightarrow> has_column (''route_entries'', ''target_route_id'', Null) f'"
  "migrate_route_entries f = (Inr (), f') \<Longrightarrow> has_column (t, c, v) f \<Longrightarrow> t = ''route_entries'' \<longrightarrow> c \<in> set ROUTE_ENTRIES_BODY
     \<Longrightarrow> has_column (t, c, v) f'"
  "migrate_route_entries f = (Inr (), f') \<Longrightarrow> has_item d f \<Longrightarrow> has_item d f'"
  "migrate_route_entries f = (Inr (), f') \<Longrightarrow> statuses_valid f \<Longrightarrow> statuses_valid f'"
proof -
  note defs = migrate_route_entries_def put_table_def
  show "has_column (''route_entries'', ''target_route_id'', Null) f \<Longrightarrow> migrate_route_entries f = (Inr (), f)"
    by (auto simp: defs has_column_def)
  show "migrate_route_entries f = (Inr (), f') \<Longrightarrow> has_column (''route_entries'', ''target_route_id'', Null) f'"
    by (auto simp: defs has_column_def ROUTE_ENTRIES_BODY_def split: option.splits if_splits)
  show "migrate_route_entries f = (Inr (), f') \<Longrightarrow> has_column (t, c, v) f \<Longrightarrow> t = ''route_entries'' \<longrightarrow> c \<in> set ROUTE_ENTRIES_BODY
     \<Longrightarrow> has_column (t, c, v) f'"
    by (auto simp: defs has_column_def split: option.splits if_splits)
  show "migrate_route_entries f = (Inr (), f') \<Longrightarrow> has_item d f \<Longrightarrow> has_item d f'"
    by (cases d) (auto simp: defs split: option.splits if_splits)
  have "stale_status (copied_row r) = stale_status r" for r
    by (simp add: stale_status_def copied_row_def COPIED_COLUMNS_def ROUTE_ENTRIES_BODY_def)
  moreover have "''status'' \<in> set ROUTE_ENTRIES_BODY" by (simp add: ROUTE_ENTRIES_BODY_def)
  ultimately show "migrate_route_entries f = (Inr (), f') \<Longrightarrow> statuses_valid f \<Longrightarrow> statuses_valid f'"
    by (auto simp: defs statuses_valid_def split: option.splits if_splits)
qed

lemma open_current: "current f \<Longrightarrow> open_file f = (Inr (), f)"
proof -
  assume f: "current f"
  then have same: "f\<lparr>fl_foreign_keys := True\<rparr> = f" by (simp add: current_def)
  have "apply_schema f = (Inr (), f)"
    unfolding apply_schema_def same
    using f apply_all_noop[of schema_sql exec_ddl f] ddl_steps(1) by (simp add: current_def list_all_iff)
  moreover have "apply_all (map ensure_column NEW_COLUMNS) f = (Inr (), f)"
    using f by (auto simp: current_def list_all_iff intro!: apply_all_noop column_steps(1))
  ultimately show ?thesis
    using f status_steps(1)[of f] rebuild_steps(1)[of f] by (simp add: open_file_def migrate_columns_def and_apply_def current_def)
qed

text \<open>
  A file that was opened is up to date: it has every table and index of the schema and
  every column of later versions, its entries may refer to routes and have statuses the
  program knows, foreign keys are enforced - and opening it again changes nothing at all.
\<close>

theorem open_is_idempotent:
  assumes "open_file f = (Inr (), f')"
  shows "current f' \<and> open_file f' = (Inr (), f')"
proof -
  obtain g h k where g: "apply_schema f = (Inr (), g)" and h: "apply_all (map ensure_column NEW_COLUMNS) g = (Inr (), h)"
    and k: "normalize_statuses h = (Inr (), k)" and f': "migrate_route_entries k = (Inr (), f')"
    using assms by (auto simp: open_file_def migrate_columns_def and_apply_Inr)
  have "has_item d f'" if "d \<in> set schema_sql" for d
  proof -
    have "has_item d g"
      by (rule apply_all_establishes[OF g[unfolded apply_schema_def] that]) (auto intro: ddl_steps)
    then have "has_item d h" by (rule apply_all_keeps[OF h, where P = "has_item d"]) (rule column_steps(4))
    then show ?thesis using status_steps(4)[OF k] rebuild_steps(4)[OF f'] by blast
  qed
  moreover have "has_column x f'" if x: "x \<in> set NEW_COLUMNS" for x
  proof -
    obtain t c v where tcv: "x = (t, c, v)" using prod_cases3 by blast
    have "has_column x h" by (rule apply_all_establishes[OF h x]) (auto intro: column_steps)
    moreover have "t = ''route_entries'' \<longrightarrow> c \<in> set ROUTE_ENTRIES_BODY"
      using x by (auto simp: tcv NEW_COLUMNS_def ROUTE_ENTRIES_BODY_def)
    ultimately show ?thesis using status_steps(3)[OF k] rebuild_steps(3)[OF f'] tcv by blast
  qed
  moreover have "statuses_valid f'" using status_steps(2)[OF k] rebuild_steps(5)[OF f'] by blast
  moreover have "fl_foreign_keys f'" using open_safe[of f] assms by simp
  ultimately have "current f'" using rebuild_steps(2)[OF f'] by (simp add: current_def list_all_iff)
  then show ?thesis using open_current by blast
qed

section \<open>Instances\<close>

text \<open>A store from before nested routes, with one entry, the deprecated status and one logged call.\<close>

definition row_of :: "(string \<times> sql_value) list \<Rightarrow> sql_row" where
  "row_of vs = (\<lambda>c. case map_of vs c of None \<Rightarrow> Null | Some v \<Rightarrow> v)"

definition old_entry :: sql_row where
  "old_entry = row_of [(''id'', Int_Val 1), (''route_id'', Int_Val 1), (''provider_id'', Int_Val 1), (''model_id'', Text_Val ''m''),
     (''priority'', Int_Val 1), (''weight'', Real_Val (FFin 1)), (''status'', Text_Val ''draining''), (''capabilities'', Text_Val ''{}'')]"

definition old_call :: sql_row where
  "old_call = row_of [(''id'', Int_Val 1), (''profile_id'', Text_Val ''p''), (''route_entry_id'', Int_Val 1), (''created_at'', Int_Val 42)]"

definition legacy_file :: sql_file where
  "legacy_file = \<lparr>fl_tables = (\<lambda>_. None)(''route_entries'' \<mapsto>
       \<lparr>tb_columns = [''id'', ''route_id'', ''provider_id'', ''model_id'', ''priority'', ''weight'', ''status'', ''capabilities''],
        tb_rows = [old_entry]\<rparr>,
     ''usage_log'' \<mapsto> \<lparr>tb_columns = [''id'', ''profile_id'', ''route_entry_id'', ''created_at''], tb_rows = [old_call]\<rparr>),
     fl_indices = [], fl_foreign_keys = True\<rparr>"

definition cells :: "string \<Rightarrow> string list \<Rightarrow> sql_file \<Rightarrow> sql_value list list" where
  "cells t cols f = (case fl_tables f t of None \<Rightarrow> [] | Some tb \<Rightarrow> map (\<lambda>r. map r cols) (tb_rows tb))"

lemma legacy_opened:
  "fst (open_file legacy_file) = Inr ()"
  "cells ''usage_log'' [''created_at'', ''cached_prompt_tokens''] (snd (open_file legacy_file)) = [[Int_Val 42, Null]]"
  "cells ''route_entries'' [''provider_id'', ''target_route_id'', ''status'', ''cooldown_until''] (snd (open_file legacy_file))
     = [[Int_Val 1, Null, Text_Val ''unhealthy'', Int_Val 0]]"
  by code_simp+

theorem open_is_idempotent_witness: "open_file (snd (open_file legacy_file)) = (Inr (), snd (open_file legacy_file))"
proof -
  have "open_file legacy_file = (Inr (), snd (open_file legacy_file))"
    using legacy_opened(1) by (simp add: prod_eq_iff)
  from open_is_idempotent[OF this] show ?thesis by blast
qed

text \<open>An empty file gets everything.\<close>

lemma empty_opened: "fst (open_file empty_file) = Inr ()"
  by code_simp

end
