(* ===== verification/Console.thy ===== *)
theory Console
  imports Store_Contracts
begin

text \<open>
  What the commands of the console share (\<open>src/cli/util.rs\<close>): actions that read and write the
  store and stop at the first error, the password that guards a profile's management, and
  the choice of a profile, provider, proxy or route. What the user types is an argument: a
  name that was given as a flag, or the row picked in a menu. Argon2, SHA-256 and the
  hexadecimal encoding are library code and parameters (\<open>vault\<close>).
\<close>

section \<open>Actions\<close>

datatype console_error =
    Store_Says store_error
  | Profile_Exists string
  | Proxy_Exists string
  | Route_Exists string
  | Unknown_Profile string
  | Unknown_Mask string
  | Unknown_Provider string
  | Unknown_Proxy string
  | Unknown_Route string
  | Unknown_Model string
  | Nothing_Configured
  | Choose_Provider
  | Bad_Kind string
  | Bad_Strategy string
  | Bad_Header string
  | Bad_Reference string
  | Not_Shared string
  | Needs_Model string
  | Bad_Position int
  | Negative_Limit
  | Probe_Failed string
  | No_Probe_Made
  | Wrong_Egress string
  | Shared_Networks "string list"
  | Dangling_Entry
  | Derivation_Failed
  | Bad_Hash
  | Wrong_Password string
  | No_Answer
  | Not_An_Export string
  | Bad_Version nat
  | Bad_Encoding
  | Bad_Bundle

type_synonym 'a action = "db \<Rightarrow> (console_error + 'a) \<times> db"

definition give :: "'a \<Rightarrow> 'a action" where
  "give x d = (Inr x, d)"

definition refuse :: "console_error \<Rightarrow> 'a action" where
  "refuse e d = (Inl e, d)"

text \<open>The \<open>?\<close> between two steps.\<close>

definition next_with :: "'a action \<Rightarrow> ('a \<Rightarrow> 'b action) \<Rightarrow> 'b action" where
  "next_with m k d = (case m d of (Inl e, d') \<Rightarrow> (Inl e, d') | (Inr x, d') \<Rightarrow> k x d')"

definition as_console :: "store_error + 'a \<Rightarrow> console_error + 'a" where
  "as_console r = (case r of Inl e \<Rightarrow> Inl (Store_Says e) | Inr x \<Rightarrow> Inr x)"

text \<open>A store operation that may write, one that only reads, and one whose error is dropped (\<open>let _ = ...\<close>).\<close>

definition doing :: "(db \<Rightarrow> 'a outcome) \<Rightarrow> 'a action" where
  "doing m d = (case m d of (r, d') \<Rightarrow> (as_console r, d'))"

definition reading :: "(db \<Rightarrow> store_error + 'a) \<Rightarrow> 'a action" where
  "reading q d = (as_console (q d), d)"

definition looking :: "(db \<Rightarrow> 'a) \<Rightarrow> 'a action" where
  "looking q d = (Inr (q d), d)"

definition trying :: "(db \<Rightarrow> 'a outcome) \<Rightarrow> unit action" where
  "trying m d = (Inr (), snd (m d))"

text \<open>\<open>with_context\<close>: a value that must be there, and \<open>bail!\<close> unless a condition holds.\<close>

definition need :: "console_error \<Rightarrow> 'a option \<Rightarrow> 'a action" where
  "need e x = (case x of None \<Rightarrow> refuse e | Some a \<Rightarrow> give a)"

definition ensure :: "bool \<Rightarrow> console_error \<Rightarrow> unit action" where
  "ensure b e = (if b then give () else refuse e)"

definition from_result :: "console_error + 'a \<Rightarrow> 'a action" where
  "from_result r = (case r of Inl e \<Rightarrow> refuse e | Inr x \<Rightarrow> give x)"

text \<open>A loop over the elements of a list that carries a value along.\<close>

fun each :: "('x \<Rightarrow> 's \<Rightarrow> 's action) \<Rightarrow> 'x list \<Rightarrow> 's \<Rightarrow> 's action" where
  "each f [] s = give s"
| "each f (x # xs) s = next_with (f x s) (each f xs)"

lemma action_runs:
  "give x d = (Inr x, d)" "refuse e d = (Inl e, d)" "looking q d = (Inr (q d), d)" "trying m d = (Inr (), snd (m d))"
  by (simp_all add: give_def refuse_def looking_def trying_def)

lemma action_eqs [simp]:
  "next_with (give x) k = k x" "next_with (refuse e) k = refuse e"
  "as_console (Inl se) = Inl (Store_Says se)" "as_console (Inr x) = Inr x"
  "need e (Some x) = give x" "need e None = refuse e" "ensure True e = give ()" "ensure False e = refuse e"
  "from_result (Inr x) = give x" "from_result (Inl e) = refuse e"
  by (simp_all add: give_def refuse_def next_with_def as_console_def need_def ensure_def
      from_result_def fun_eq_iff)

lemma next_with_simps:
  "m d = (Inl e, d') \<Longrightarrow> next_with m k d = (Inl e, d')"
  "m d = (Inr x, d') \<Longrightarrow> next_with m k d = k x d'"
  by (simp_all add: next_with_def)

lemma next_with_Inr: "next_with m k d = (Inr y, d'') \<longleftrightarrow> (\<exists>x d'. m d = (Inr x, d') \<and> k x d' = (Inr y, d''))"
  by (auto simp: next_with_def split: prod.split sum.split)

lemma doing_Inr [simp]: "doing m d = (Inr x, d') \<longleftrightarrow> m d = (Inr x, d')"
  by (auto simp: doing_def trying_def as_console_def split: prod.split sum.split)

lemma reading_Inr [simp]: "reading q d = (Inr x, d') \<longleftrightarrow> q d = Inr x \<and> d' = d"
  by (auto simp: reading_def as_console_def split: sum.split)

text \<open>
  What an action keeps: whatever holds before holds after, success or not, and what it
  returns satisfies \<open>Q\<close>.
\<close>

definition acts :: "(db \<Rightarrow> bool) \<Rightarrow> 'a action \<Rightarrow> ('a \<Rightarrow> bool) \<Rightarrow> bool" where
  "acts I m Q \<longleftrightarrow> (\<forall>d. I d \<longrightarrow> I (snd (m d)) \<and> (\<forall>x. fst (m d) = Inr x \<longrightarrow> Q x))"

named_theorems acts_rules \<open>what actions keep\<close>

lemma acts_next [acts_rules]:
  assumes "acts I m Q" "\<And>x. Q x \<Longrightarrow> acts I (k x) R"
  shows "acts I (next_with m k) R"
  unfolding acts_def
proof (intro allI impI)
  fix d assume "I d"
  then have m: "I (snd (m d))" "\<And>x. fst (m d) = Inr x \<Longrightarrow> Q x" using assms(1) by (auto simp: acts_def)
  show "I (snd (next_with m k d)) \<and> (\<forall>y. fst (next_with m k d) = Inr y \<longrightarrow> R y)"
  proof (cases "m d")
    case (Pair r d')
    with m assms(2) show ?thesis by (cases r) (auto simp: next_with_def acts_def)
  qed
qed

lemma acts_each:
  assumes "\<And>x s. x \<in> set xs \<Longrightarrow> S s \<Longrightarrow> acts I (f x s) S" "S s"
  shows "acts I (each f xs s) S"
  using assms
proof (induction xs arbitrary: s)
  case Nil
  then show ?case by (simp add: acts_def give_def)
next
  case (Cons x xs)
  then have "acts I (f x s) S" "\<And>s. S s \<Longrightarrow> acts I (each f xs s) S" by simp_all
  from acts_next[OF this] show ?case by simp
qed

lemma acts_weaken: "acts I m Q \<Longrightarrow> (\<And>x. Q x \<Longrightarrow> R x) \<Longrightarrow> acts I m R"
  unfolding acts_def by blast

lemma acts_if: "(b \<Longrightarrow> acts I m Q) \<Longrightarrow> (\<not> b \<Longrightarrow> acts I k Q) \<Longrightarrow> acts I (if b then m else k) Q"
  by simp

lemma acts_pure:
  "Q x \<Longrightarrow> acts I (give x) Q" "acts I (refuse e) Q" "(\<And>x. r = Inr x \<Longrightarrow> Q x) \<Longrightarrow> acts I (from_result r) Q"
  "(\<And>a. x' = Some a \<Longrightarrow> Q a) \<Longrightarrow> acts I (need e x') Q" "(b \<Longrightarrow> R ()) \<Longrightarrow> acts I (ensure b e) R"
  by (auto simp: acts_def from_result_def need_def ensure_def give_def refuse_def split: sum.split option.split)

lemma acts_read:
  "(\<And>d. I d \<Longrightarrow> Q (q d)) \<Longrightarrow> acts I (looking q) Q"
  "(\<And>d x. I d \<Longrightarrow> q' d = Inr x \<Longrightarrow> Q x) \<Longrightarrow> acts I (reading q') Q"
  by (auto simp: acts_def looking_def reading_def as_console_def split: sum.splits)

lemma acts_do:
  "(\<And>d. I d \<Longrightarrow> I (snd (m d))) \<Longrightarrow> (\<And>d x. I d \<Longrightarrow> fst (m d) = Inr x \<Longrightarrow> Q x) \<Longrightarrow> acts I (doing m) Q"
  "(\<And>d. I d \<Longrightarrow> I (snd (m d))) \<Longrightarrow> acts I (trying m) (\<lambda>_. True)"
  unfolding acts_def by (auto simp: doing_def trying_def as_console_def split: prod.splits sum.splits) (metis snd_conv fst_conv)+

section \<open>Passwords\<close>

record vault =
  vt_argon2 :: "string \<Rightarrow> bytes \<Rightarrow> bytes option"
  vt_sha256 :: "bytes \<Rightarrow> bytes"
  vt_hex :: "bytes \<Rightarrow> string"
  vt_unhex :: "string \<Rightarrow> bytes option"

text \<open>Documented: keys have the 32 bytes asked for; the encoding is read back, and is of hexadecimal digits.\<close>

definition vault_ok :: "vault \<Rightarrow> bool" where
  "vault_ok v \<longleftrightarrow> (\<forall>pw salt k. vt_argon2 v pw salt = Some k \<longrightarrow> length k = MASTER_KEY_LEN)
     \<and> (\<forall>b. vt_unhex v (vt_hex v b) = Some b \<and> CHR '':'' \<notin> set (vt_hex v b))"

definition derive_key :: "vault \<Rightarrow> string \<Rightarrow> bytes \<Rightarrow> console_error + bytes" where
  "derive_key v password salt = ok_or Derivation_Failed (vt_argon2 v password salt)"

definition hash_password :: "vault \<Rightarrow> bytes \<Rightarrow> string \<Rightarrow> console_error + string" where
  "hash_password v salt password =
     res_bind (derive_key v password salt) (\<lambda>key. Inr (''argon2id:'' @ vt_hex v salt @ '':'' @ vt_hex v key))"

text \<open>The comparison folds the differences of all bytes together.\<close>

definition same_bytes :: "bytes \<Rightarrow> bytes \<Rightarrow> bool" where
  "same_bytes a b \<longleftrightarrow> length a = length b \<and> fold (\<lambda>(x, y) diff. diff \<or> x \<noteq> y) (zip a b) False = False"

definition verify_password :: "vault \<Rightarrow> string \<Rightarrow> string \<Rightarrow> console_error + bool" where
  "verify_password v stored candidate =
     (case strip_prefix stored ''argon2id:'' of
        Some rest \<Rightarrow>
          res_bind (ok_or Bad_Hash (split_once CHR '':'' rest)) (\<lambda>(salt_hex, key_hex).
          res_bind (ok_or Bad_Hash (vt_unhex v salt_hex)) (\<lambda>salt.
          res_bind (derive_key v candidate salt) (\<lambda>key.
          res_bind (ok_or Bad_Hash (vt_unhex v key_hex)) (\<lambda>stored_key. Inr (same_bytes stored_key key)))))
      | None \<Rightarrow>
          (case strip_prefix stored ''sha256:'' of
             Some digest_hex \<Rightarrow> Inr (vt_hex v (vt_sha256 v (''agos-password-marker:'' @ candidate)) = digest_hex)
           | None \<Rightarrow> Inl Bad_Hash))"

text \<open>Up to three attempts; an attempt the user does not make is an error of the prompt.\<close>

fun password_attempts :: "vault \<Rightarrow> string \<Rightarrow> string \<Rightarrow> nat \<Rightarrow> string list \<Rightarrow> console_error + unit" where
  "password_attempts v name h 0 typed = Inl (Wrong_Password name)"
| "password_attempts v name h (Suc n) [] = Inl No_Answer"
| "password_attempts v name h (Suc n) (candidate # typed) =
     res_bind (verify_password v h candidate)
       (\<lambda>good. if good then Inr () else password_attempts v name h n typed)"

definition ensure_password_ok :: "vault \<Rightarrow> string list \<Rightarrow> profile \<Rightarrow> console_error + unit" where
  "ensure_password_ok v typed p =
     (case pf_password_hash p of None \<Rightarrow> Inr () | Some h \<Rightarrow> password_attempts v (pf_name p) h 3 typed)"

lemma same_bytes_eq: "same_bytes a b \<longleftrightarrow> a = b"
proof -
  have fold: "fold (\<lambda>(x, y) diff. diff \<or> x \<noteq> y) zs b0 \<longleftrightarrow> b0 \<or> (\<exists>(x, y)\<in>set zs. x \<noteq> y)" for zs b0
    by (induction zs arbitrary: b0) auto
  show ?thesis
  proof
    assume s: "same_bytes a b"
    then have "length a = length b" "\<forall>(x, y)\<in>set (zip a b). x = y" by (auto simp: same_bytes_def fold)
    then show "a = b" by (induction a b rule: list_induct2) auto
  next
    assume "a = b"
    then show "same_bytes a b" by (auto simp: same_bytes_def fold in_set_zip)
  qed
qed

text \<open>
  A password that was set lets in who knows it and nobody else, as far as the key
  derivation tells them apart: checking a candidate against the stored hash succeeds, with
  the answer whether both give the same key under the hash's own salt.
\<close>

theorem password_checked:
  assumes "vault_ok v" "hash_password v salt password = Inr h" "vt_argon2 v candidate salt = Some k"
  shows "verify_password v h candidate = Inr (vt_argon2 v password salt = Some k)"
proof -
  obtain key where key: "vt_argon2 v password salt = Some key" "h = ''argon2id:'' @ vt_hex v salt @ '':'' @ vt_hex v key"
    using assms(2) by (auto simp: hash_password_def derive_key_def res_simps)
  have "strip_prefix h ''argon2id:'' = Some (vt_hex v salt @ CHR '':'' # vt_hex v key)"
    by (simp add: key(2) strip_prefix_Some)
  moreover have "split_once CHR '':'' (vt_hex v salt @ CHR '':'' # vt_hex v key) = Some (vt_hex v salt, vt_hex v key)"
    using assms(1) by (intro split_once_join) (simp add: vault_ok_def)
  ultimately show ?thesis
    using assms(1,3) by (simp add: verify_password_def derive_key_def vault_ok_def key(1) same_bytes_eq)
qed

text \<open>A vault that satisfies the laws, for witnesses.\<close>

definition letters_of :: "char \<Rightarrow> string" where
  "letters_of c = [char_of (97 + code c div 16), char_of (97 + code c mod 16)]"

fun of_letters :: "string \<Rightarrow> bytes option" where
  "of_letters [] = Some []"
| "of_letters [c] = None"
| "of_letters (a # b # s) = map_option ((#) (char_of ((code a - 97) * 16 + (code b - 97)))) (of_letters s)"

definition toy_vault :: vault where
  "toy_vault = \<lparr>vt_argon2 = (\<lambda>pw salt. Some (take 32 (pw @ salt @ replicate 32 CHR ''0''))), vt_sha256 = id,
     vt_hex = (\<lambda>b. concat (map letters_of b)), vt_unhex = of_letters\<rparr>"

lemma code_char_of: "n < 256 \<Longrightarrow> code (char_of n) = n"
  by (simp add: code_def)

lemma of_letters_of: "of_letters (concat (map letters_of b)) = Some b"
proof (induction b)
  case (Cons c b)
  have "code c < 256" by (simp add: code_def)
  then have "code c div 16 < 16" "code c mod 16 < 16" by simp_all
  then have "code (char_of (97 + code c div 16)) = 97 + code c div 16" "code (char_of (97 + code c mod 16)) = 97 + code c mod 16"
    by (intro code_char_of; simp)+
  moreover have "char_of (code c) = c" by (simp add: code_def)
  ultimately show ?case using Cons by (simp add: letters_of_def div_mult_mod_eq)
qed simp

lemma toy_vault_ok: "vault_ok toy_vault"
proof -
  have "CHR '':'' \<notin> set (letters_of c)" for c
  proof -
    have "code c < 256" by (simp add: code_def)
    then have "97 + code c div 16 < 256" "97 + code c mod 16 < 256" by simp_all
    moreover have "code CHR '':'' = 58" by (simp add: code_def)
    ultimately show ?thesis using code_char_of by (fastforce simp: letters_of_def)
  qed
  moreover have "length (take 32 (a @ b @ replicate 32 CHR ''0'')) = 32" for a b by (simp add: min_def)
  ultimately show ?thesis by (simp add: vault_ok_def toy_vault_def of_letters_of MASTER_KEY_LEN_def del: length_take)
qed

theorem password_checked_witness:
  "verify_password toy_vault (''argon2id:'' @ vt_hex toy_vault ''salt'' @ '':'' @ vt_hex toy_vault (take 32 (''pw'' @ ''salt'' @ replicate 32 CHR ''0''))) ''px''
     = Inr False"
proof -
  have "hash_password toy_vault ''salt'' ''pw''
      = Inr (''argon2id:'' @ vt_hex toy_vault ''salt'' @ '':'' @ vt_hex toy_vault (take 32 (''pw'' @ ''salt'' @ replicate 32 CHR ''0'')))"
    by (simp add: hash_password_def derive_key_def toy_vault_def)
  from password_checked[OF toy_vault_ok this, of "''px''" "take 32 (''px'' @ ''salt'' @ replicate 32 CHR ''0'')"]
  show ?thesis by (simp add: toy_vault_def)
qed

end
