(* ===== verification/Setup_Frame.thy ===== *)
theory Setup_Frame
  imports Console
begin

text \<open>
  Building one profile's tree touches nothing else. \<open>grown pid nm d0 d\<close> says that \<open>d\<close> is
  \<open>d0\<close> with one profile more, with that id and name, and with rows of its tree added behind the old ones: every old row
  is where it was, as it was, and every new row belongs to the new profile, to one of its
  proxies or to one of its routes. The operations a set-up uses keep it, so whole set-ups do
  (\<open>Bootstrap\<close>, \<open>Portable\<close>); and deleting the profile takes exactly the new rows away again.
\<close>

section \<open>The frame\<close>

definition grown :: "string \<Rightarrow> string \<Rightarrow> db \<Rightarrow> db \<Rightarrow> bool" where
  "grown pid nm d0 d \<longleftrightarrow>
     (\<exists>p ps ms xs rs es.
        profiles d = profiles d0 @ [p] \<and> pf_id p = pid \<and> pf_name p = nm
      \<and> providers d = providers d0 @ ps \<and> (\<forall>q\<in>set ps. pr_profile_id q = pid \<and> seq_providers d0 < pr_id q)
      \<and> masks d = masks d0 @ ms \<and> (\<forall>m\<in>set ms. mr_profile_id m = pid \<and> seq_masks d0 < mr_id m)
      \<and> proxies d = proxies d0 @ xs \<and> (\<forall>x\<in>set xs. px_profile_id x = pid \<and> seq_proxies d0 < px_id x)
      \<and> routes d = routes d0 @ rs \<and> (\<forall>r\<in>set rs. ro_proxy_id r \<in> px_id ` set xs \<and> seq_routes d0 < ro_id r)
      \<and> entries d = entries d0 @ es \<and> (\<forall>e\<in>set es. en_route_id e \<in> ro_id ` set rs \<and> seq_entries d0 < en_id e))
   \<and> usage d = usage d0 \<and> cache d = cache d0 \<and> db_master_key d = db_master_key d0
   \<and> seq_providers d0 \<le> seq_providers d \<and> seq_masks d0 \<le> seq_masks d \<and> seq_proxies d0 \<le> seq_proxies d
   \<and> seq_routes d0 \<le> seq_routes d \<and> seq_entries d0 \<le> seq_entries d \<and> seq_usage d = seq_usage d0"

text \<open>The invariant of a set-up in progress.\<close>

definition building :: "string \<Rightarrow> string \<Rightarrow> db \<Rightarrow> db \<Rightarrow> bool" where
  "building pid nm d0 d \<longleftrightarrow> db_ok d \<and> grown pid nm d0 d"

lemma upd_behind:
  assumes "\<forall>r\<in>set old. \<not> P r"
  shows "upd_where P g (old @ new) = old @ upd_where P g new"
  using assms by (induction old) auto

lemma grown_start:
  assumes "insert_profile name desc h pid now d0 = (Inr p, d)"
  shows "grown pid name d0 d \<and> pf_id p = pid \<and> pf_name p = name \<and> pid \<notin> profile_ids d0"
  using assms by (auto simp: insert_profile_def Let_def grown_def split: if_splits)

lemma grown_mask: "grown pid nm d0 d \<Longrightarrow> grown pid nm d0 (snd (create_masking_server c nonce pid spec d))"
  unfolding grown_def create_masking_server_def Let_def by (auto split: if_splits)

lemma grown_provider: "grown pid nm d0 d \<Longrightarrow> grown pid nm d0 (snd (create_provider c nonce pid spec d))"
  unfolding grown_def create_provider_def Let_def by (auto split: if_splits)

lemma grown_proxy: "grown pid nm d0 d \<Longrightarrow> grown pid nm d0 (snd (create_proxy pid name desc d))"
  unfolding grown_def create_proxy_def Let_def by (fastforce split: if_splits)

lemma grown_default_mask:
  assumes "grown pid nm d0 d" "pid \<notin> profile_ids d0"
  shows "grown pid nm d0 (snd (set_profile_default_masking pid m now d))"
proof -
  have "\<forall>p\<in>set (profiles d0). pf_id p \<noteq> pid" using assms(2) by (auto simp: profile_ids_def)
  then show ?thesis
    using assms(1) unfolding grown_def set_profile_default_masking_def upd_profile_def
    by (auto simp: require_changed_def upd_behind)
qed

lemma grown_route:
  assumes "db_ok d0" "grown pid nm d0 d" "seq_proxies d0 < x"
  shows "grown pid nm d0 (snd (create_route x name desc s ident d))"
proof (cases "x \<in> proxy_ids d \<and> (x, name) \<notin> (\<lambda>r. (ro_proxy_id r, ro_name r)) ` set (routes d)")
  case True
  have "x \<notin> px_id ` set (proxies d0)" using assms(1,3) proxy_rowD by force
  then show ?thesis
    using True assms(2) unfolding grown_def create_route_def Let_def by (auto simp: proxy_ids_def)
next
  case False
  then show ?thesis using assms(2) by (auto simp: create_route_def Let_def)
qed

lemma grown_economy:
  assumes "db_ok d0" "grown pid nm d0 d" "seq_routes d0 < i"
  shows "grown pid nm d0 (snd (set_route_economy i mt ttl d))"
proof -
  have "\<forall>r\<in>set (routes d0). ro_id r \<noteq> i" using assms(1,3) route_rowD by force
  moreover have "ro_id ` set (upd_where (\<lambda>r. ro_id r = i) (\<lambda>r. r\<lparr>ro_max_tokens := int mt, ro_cache_ttl_secs := ttl\<rparr>) rs) = ro_id ` set rs" for rs :: "route_row list"
    by (rule image_upd_same) simp
  ultimately show ?thesis
    using assms(2) unfolding grown_def set_route_economy_def upd_route_def
    by (auto simp: require_changed_def upd_behind ball_upd_where)
qed

lemma grown_entry_row:
  assumes "db_ok d0" "grown pid nm d0 d" "seq_routes d0 < en_route_id e" "en_route_id e \<in> route_ids d" "en_id e = seq_entries d + 1"
  shows "grown pid nm d0 (d\<lparr>entries := entries d @ [e], seq_entries := seq_entries d + 1\<rparr>)"
proof -
  have "en_route_id e \<notin> ro_id ` set (routes d0)" using assms(1,3) route_rowD by force
  then show ?thesis using assms(2,4,5) unfolding grown_def by (auto simp: route_ids_def)
qed

lemma grown_entry:
  assumes "db_ok d0" "grown pid nm d0 d" "seq_routes d0 < rid"
  shows "grown pid nm d0 (snd (add_route_entry rid p m pri w caps d))"
  using assms unfolding add_route_entry_def Let_def by (auto intro!: grown_entry_row)

lemma grown_entry_ref:
  assumes "db_ok d0" "grown pid nm d0 d" "seq_routes d0 < rid"
  shows "grown pid nm d0 (snd (add_route_entry_ref rid t m pri w d))"
  using assms unfolding add_route_entry_ref_def Let_def by (auto intro!: grown_entry_row)

lemma grown_price:
  assumes "db_ok d0" "grown pid nm d0 d" "seq_entries d0 < i"
  shows "grown pid nm d0 (snd (set_route_entry_price i x d))"
proof -
  have "\<forall>e\<in>set (entries d0). en_id e \<noteq> i" using assms(1,3) entry_rowD by force
  then show ?thesis
    using assms(2) unfolding grown_def set_route_entry_price_def upd_entry_def
    by (auto simp: upd_behind ball_upd_where)
qed

section \<open>Its rules\<close>

text \<open>
  The ids a set-up hands from step to step are those of rows it made: they lie beyond the
  counters the store had before.
\<close>

lemma acts_mask [acts_rules]:
  "acts (building pid nm d0) (doing (create_masking_server c nonce pid spec)) (\<lambda>_. True)"
  by (rule acts_do) (auto simp: building_def keeps grown_mask)

lemma acts_provider [acts_rules]:
  "acts (building pid nm d0) (doing (create_provider c nonce pid spec)) (\<lambda>_. True)"
  by (rule acts_do) (auto simp: building_def keeps grown_provider)

lemma acts_default_mask [acts_rules]:
  "pid \<notin> profile_ids d0 \<Longrightarrow> acts (building pid nm d0) (doing (set_profile_default_masking pid m now)) (\<lambda>_. True)"
  by (rule acts_do) (auto simp: building_def keeps grown_default_mask)

lemma acts_proxy [acts_rules]:
  "acts (building pid nm d0) (doing (create_proxy pid name desc)) (\<lambda>x. seq_proxies d0 < px_id x)"
  by (rule acts_do) (simp add: building_def keeps grown_proxy, auto simp: building_def create_proxy_def Let_def grown_def split: if_splits)

lemma acts_route [acts_rules]:
  "db_ok d0 \<Longrightarrow> seq_proxies d0 < x \<Longrightarrow>
     acts (building pid nm d0) (doing (create_route x name desc s ident)) (\<lambda>r. seq_routes d0 < rt_id r)"
  by (rule acts_do) (simp add: building_def keeps grown_route, auto simp: building_def create_route_def Let_def grown_def split: if_splits)

lemma acts_economy [acts_rules]:
  "db_ok d0 \<Longrightarrow> seq_routes d0 < i \<Longrightarrow> acts (building pid nm d0) (trying (set_route_economy i mt ttl)) (\<lambda>_. True)"
  by (rule acts_do) (auto simp: building_def keeps grown_economy)

lemma acts_entry [acts_rules]:
  "db_ok d0 \<Longrightarrow> seq_routes d0 < i \<Longrightarrow>
     acts (building pid nm d0) (doing (add_route_entry i p m pri w caps)) (\<lambda>e. seq_entries d0 < re_id e)"
  by (rule acts_do) (simp add: building_def keeps grown_entry, auto simp: building_def add_route_entry_def Let_def grown_def split: if_splits)

lemma acts_entry_ref [acts_rules]:
  "db_ok d0 \<Longrightarrow> seq_routes d0 < i \<Longrightarrow>
     acts (building pid nm d0) (doing (add_route_entry_ref i t m pri w)) (\<lambda>e. seq_entries d0 < re_id e)"
  by (rule acts_do) (simp add: building_def keeps grown_entry_ref, auto simp: building_def add_route_entry_ref_def Let_def grown_def split: if_splits)

lemma acts_price [acts_rules]:
  "db_ok d0 \<Longrightarrow> seq_entries d0 < i \<Longrightarrow> acts (building pid nm d0) (trying (set_route_entry_price i x)) (\<lambda>_. True)"
  by (rule acts_do) (auto simp: building_def keeps grown_price)

section \<open>Undoing\<close>

text \<open>The same store, except that the counters of new rows may be further on.\<close>

definition same_rows :: "db \<Rightarrow> db \<Rightarrow> bool" where
  "same_rows d d' \<longleftrightarrow> d' = d\<lparr>seq_providers := seq_providers d', seq_masks := seq_masks d', seq_proxies := seq_proxies d',
     seq_routes := seq_routes d', seq_entries := seq_entries d'\<rparr>"

lemma same_rows_iff:
  "same_rows d d' \<longleftrightarrow> db_master_key d' = db_master_key d \<and> profiles d' = profiles d \<and> providers d' = providers d
     \<and> masks d' = masks d \<and> proxies d' = proxies d \<and> routes d' = routes d \<and> entries d' = entries d
     \<and> usage d' = usage d \<and> cache d' = cache d \<and> seq_usage d' = seq_usage d"
  unfolding same_rows_def by (cases d; cases d') auto

lemma filter_behind:
  assumes "\<forall>x\<in>set old. \<not> P x" "\<forall>x\<in>set new. P x"
  shows "filter P (old @ new) = new \<and> filter (\<lambda>x. \<not> P x) (old @ new) = old"
  using assms by (auto simp: filter_empty_conv filter_id_conv)

text \<open>Rows the old store refers to are old ones.\<close>

lemma old_refs:
  assumes "db_ok d0"
  shows "m \<in> mask_ids d0 \<Longrightarrow> m \<le> seq_masks d0" "i \<in> provider_ids d0 \<Longrightarrow> i \<le> seq_providers d0"
    "x \<in> proxy_ids d0 \<Longrightarrow> x \<le> seq_proxies d0" "r \<in> route_ids d0 \<Longrightarrow> r \<le> seq_routes d0"
    "e \<in> entry_ids d0 \<Longrightarrow> e \<le> seq_entries d0"
  using assms row_dests by (auto simp: id_sets)

lemma unbind_kept: "ref_ok m S \<Longrightarrow> (\<And>k. k \<in> S \<Longrightarrow> k \<notin> set gone) \<Longrightarrow> unbind gone m = m"
  by (cases m) (auto simp: unbind_def)

lemma not_refers: "ref_ok m S \<Longrightarrow> (\<And>k. k \<in> S \<Longrightarrow> k \<notin> set gone) \<Longrightarrow> \<not> refers_to m gone"
  by (cases m) (auto simp: refers_to_def)

lemma undone:
  assumes base: "db_ok d0" "pid \<notin> profile_ids d0" and grown: "grown pid nm d0 d"
  shows "same_rows d0 (snd (delete_profile pid d))"
proof -
  obtain p ps ms xs rs es where
      pf: "profiles d = profiles d0 @ [p]" "pf_id p = pid"
    and pr: "providers d = providers d0 @ ps" "\<forall>q\<in>set ps. pr_profile_id q = pid \<and> seq_providers d0 < pr_id q"
    and mr: "masks d = masks d0 @ ms" "\<forall>m\<in>set ms. mr_profile_id m = pid \<and> seq_masks d0 < mr_id m"
    and px: "proxies d = proxies d0 @ xs" "\<forall>x\<in>set xs. px_profile_id x = pid \<and> seq_proxies d0 < px_id x"
    and ro: "routes d = routes d0 @ rs" "\<forall>r\<in>set rs. ro_proxy_id r \<in> px_id ` set xs \<and> seq_routes d0 < ro_id r"
    and en: "entries d = entries d0 @ es" "\<forall>e\<in>set es. en_route_id e \<in> ro_id ` set rs \<and> seq_entries d0 < en_id e"
    and rest: "usage d = usage d0" "cache d = cache d0" "db_master_key d = db_master_key d0" "seq_usage d = seq_usage d0"
    using grown unfolding grown_def by blast
  note old = old_refs[OF base(1)]
  have other: "k \<noteq> pid" if "k \<in> profile_ids d0" for k using that base(2) by blast
  have P: "filter (\<lambda>p. pf_id p = pid) (profiles d) = [p]" "filter (\<lambda>p. pf_id p \<noteq> pid) (profiles d) = profiles d0"
    using base(2) by (auto simp: pf profile_ids_def filter_empty_conv filter_id_conv)
  have Q: "filter (\<lambda>p. pr_profile_id p = pid) (providers d) = ps" "filter (\<lambda>p. pr_profile_id p \<noteq> pid) (providers d) = providers d0"
    using filter_behind[of "providers d0" "\<lambda>p. pr_profile_id p = pid" ps] provider_rowD[OF base(1)] other pr(2)
    by (auto simp: pr(1) provider_ok_def)
  have M: "filter (\<lambda>p. mr_profile_id p = pid) (masks d) = ms" "filter (\<lambda>p. mr_profile_id p \<noteq> pid) (masks d) = masks d0"
    using filter_behind[of "masks d0" "\<lambda>p. mr_profile_id p = pid" ms] mask_rowD[OF base(1)] other mr(2) by (auto simp: mr(1))
  have X: "filter (\<lambda>p. px_profile_id p = pid) (proxies d) = xs" "filter (\<lambda>p. px_profile_id p \<noteq> pid) (proxies d) = proxies d0"
    using filter_behind[of "proxies d0" "\<lambda>p. px_profile_id p = pid" xs] proxy_rowD[OF base(1)] other px(2) by (auto simp: px(1))
  have R: "filter (\<lambda>r. ro_proxy_id r \<in> set (map px_id xs)) (routes d) = rs"
      "filter (\<lambda>r. ro_proxy_id r \<notin> set (map px_id xs)) (routes d) = routes d0"
    using filter_behind[of "routes d0" "\<lambda>r. ro_proxy_id r \<in> set (map px_id xs)" rs] route_rowD[OF base(1)] old(3) px(2) ro(2)
    by (fastforce simp: ro(1) route_ok_def)+
  define e1 where "e1 = filter (\<lambda>e. \<not> refers_to (en_provider_id e) (map pr_id ps)) es"
  have E1: "filter (\<lambda>e. \<not> refers_to (en_provider_id e) (map pr_id ps)) (entries d) = entries d0 @ e1"
    using not_refers[of _ "provider_ids d0" "map pr_id ps"] entry_rowD[OF base(1)] old(2) pr(2)
    by (fastforce simp: en(1) e1_def entry_ok_def filter_id_conv)
  have old_entry: "\<not> (en_route_id e \<in> set (map ro_id rs) \<or> refers_to (en_target_route_id e) (map ro_id rs))"
    if e: "e \<in> set (entries d0)" for e
    using not_refers[of _ "route_ids d0" "map ro_id rs"] entry_rowD[OF base(1) e] old(4) ro(2) by (fastforce simp: entry_ok_def)
  have E2: "filter (\<lambda>e. \<not> (en_route_id e \<in> set (map ro_id rs) \<or> refers_to (en_target_route_id e) (map ro_id rs))) (entries d0 @ e1)
      = entries d0"
    using filter_behind[of "entries d0" "\<lambda>e. en_route_id e \<in> set (map ro_id rs) \<or> refers_to (en_target_route_id e) (map ro_id rs)" e1]
      old_entry en(2) by (auto simp: e1_def)
  have U: "filter (\<lambda>u. us_entry_id u \<notin> set (map en_id (filter B (entries d0 @ e)))) (usage d0) = usage d0"
    if "\<And>x. x \<in> set (entries d0) \<Longrightarrow> \<not> B x" "set e \<subseteq> set es" for B and e :: "entry_row list"
    using that usage_rowD[OF base(1)] old(5) en(2) by (fastforce simp: filter_id_conv)
  have C: "filter (\<lambda>c. ca_route_id c \<notin> set (map ro_id rs)) (cache d0) = cache d0"
    using cache_rowD[OF base(1)] old(4) ro(2) by (fastforce simp: filter_id_conv)
  have B: "map (\<lambda>p. p\<lparr>pr_mask_id := unbind (map mr_id ms) (pr_mask_id p)\<rparr>) (providers d0) = providers d0"
      "map (\<lambda>p. p\<lparr>pf_default_mask := unbind (map mr_id ms) (pf_default_mask p)\<rparr>) (profiles d0) = profiles d0"
    using unbind_kept[of _ "mask_ids d0" "map mr_id ms"] provider_rowD[OF base(1)] profile_rowD[OF base(1)] old(1) mr(2)
    by (fastforce simp: provider_ok_def intro!: map_idI)+
  have old_provider: "\<not> refers_to (en_provider_id e) (map pr_id ps)" if e: "e \<in> set (entries d0)" for e
    using not_refers[of _ "provider_ids d0" "map pr_id ps"] entry_rowD[OF base(1) e] old(2) pr(2) by (fastforce simp: entry_ok_def)
  have U1: "filter (\<lambda>u. us_entry_id u \<notin> set (map en_id (filter (\<lambda>e. refers_to (en_provider_id e) (map pr_id ps)) (entries d)))) (usage d0)
      = usage d0"
    unfolding en(1) by (rule U) (use old_provider in auto)
  have U2: "filter (\<lambda>u. us_entry_id u \<notin> set (map en_id (filter (\<lambda>e. en_route_id e \<in> set (map ro_id rs)
      \<or> refers_to (en_target_route_id e) (map ro_id rs)) (entries d0 @ e1)))) (usage d0) = usage d0"
    by (rule U) (use old_entry in \<open>auto simp: e1_def\<close>)
  define d1 where "d1 = del_providers (\<lambda>p. pr_profile_id p = pid) (d\<lparr>profiles := profiles d0\<rparr>)"
  have d1: "profiles d1 = profiles d0" "providers d1 = providers d0" "masks d1 = masks d" "proxies d1 = proxies d"
      "routes d1 = routes d" "entries d1 = entries d0 @ e1" "usage d1 = usage d0" "cache d1 = cache d0"
      "db_master_key d1 = db_master_key d0" "seq_usage d1 = seq_usage d0"
    using Q(1) Q(2) E1 U1 rest by (simp_all add: d1_def del_providers_def del_entries_def Let_def)
  define d2 where "d2 = del_masks (\<lambda>m. mr_profile_id m = pid) d1"
  have d2: "profiles d2 = profiles d0" "providers d2 = providers d0" "masks d2 = masks d0" "proxies d2 = proxies d"
      "routes d2 = routes d" "entries d2 = entries d0 @ e1" "usage d2 = usage d0" "cache d2 = cache d0"
      "db_master_key d2 = db_master_key d0" "seq_usage d2 = seq_usage d0"
    using M B d1 by (simp_all add: d2_def del_masks_def Let_def)
  have "snd (delete_profile pid d) = del_proxies (\<lambda>p. px_profile_id p = pid) d2"
    using P pf(2) by (simp add: delete_profile_def del_profiles_def Let_def d1_def d2_def)
  also have "same_rows d0 \<dots>"
    using X R E2 C d2 U2
    by (simp add: same_rows_iff del_proxies_def del_routes_def del_entries_def Let_def del: list.set_map set_filter filter_append)
  finally show ?thesis .
qed

end
