(* ===== verification/Bootstrap.thy ===== *)
theory Bootstrap
  imports Setup_Frame
begin

text \<open>
  A profile set up from one document (\<open>src/cli/bootstrap.rs\<close>): providers, then proxies with
  their routes and models, then the models that chain another route, which may come later
  in the document or belong to another profile. A set-up that fails deletes what it made.
  The clock, the random numbers of a token and the nonces of the providers are arguments.
\<close>

section \<open>The document\<close>

record provider_spec =
  sp_name :: string
  sp_description :: "string option"
  sp_base_url :: string
  sp_auth_token :: string
  sp_kind :: "string option"
  sp_extra_headers :: "(string \<times> string) list"
  sp_shared :: "bool option"

record model_spec =
  sm_provider :: "string option"
  sm_route :: "string option"
  sm_model :: "string option"
  sm_priority :: "int option"
  sm_weight :: "f64 option"
  sm_price :: "f64 option"
  sm_capabilities :: route_capabilities

record route_spec =
  sr_name :: string
  sr_description :: "string option"
  sr_strategy :: "string option"
  sr_identity :: "string option"
  sr_max_tokens :: "nat option"
  sr_cache_ttl_secs :: "int option"
  sr_models :: "model_spec list"

record proxy_spec =
  sx_name :: string
  sx_description :: "string option"
  sx_routes :: "route_spec list"

record setup_doc =
  sd_profile :: string
  sd_description :: "string option"
  sd_token :: "string option"
  sd_providers :: "provider_spec list"
  sd_proxies :: "proxy_spec list"

definition or_else :: "'a option \<Rightarrow> 'a \<Rightarrow> 'a" where
  "or_else x y = (case x of None \<Rightarrow> y | Some a \<Rightarrow> a)"

definition parse_kind :: "string option \<Rightarrow> console_error + provider_kind" where
  "parse_kind raw =
     (let t = or_else raw ''openai''
      in if t = ''openai'' then Inr OpenAI
         else if t = ''openai_responses'' then Inr OpenAIResponses
         else if t = ''anthropic'' then Inr Anthropic
         else if t = ''google'' then Inr Google
         else if t = ''custom'' then Inr Custom
         else Inl (Bad_Kind t))"

definition parse_strategy :: "string option \<Rightarrow> console_error + routing_strategy" where
  "parse_strategy raw =
     (let t = or_else raw ''priority''
      in if t = ''priority'' then Inr Priority
         else if t = ''round_robin'' then Inr RoundRobin
         else if t = ''weighted'' then Inr Weighted
         else if t = ''economy'' then Inr Economy
         else Inl (Bad_Strategy t))"

section \<open>Seeding\<close>

record draws =
  dr_now :: int
  dr_token :: "nat \<times> nat"
  dr_nonce :: "nat \<Rightarrow> bytes"

type_synonym names = "string \<Rightarrow> int option"

text \<open>The \<open>i\<close>-th provider of the document; its nonce is the \<open>i\<close>-th that is drawn.\<close>

definition seed_provider :: "cipher \<Rightarrow> draws \<Rightarrow> string \<Rightarrow> nat \<times> provider_spec \<Rightarrow> names \<Rightarrow> names action" where
  "seed_provider c R pid ispec known =
     (case ispec of (i, spec) \<Rightarrow>
        next_with (from_result (parse_kind (sp_kind spec))) (\<lambda>kind.
        next_with (doing (create_provider c (dr_nonce R i) pid
            \<lparr>np_name = sp_name spec, np_description = sp_description spec,
             np_base_url = trim_end_matches CHR ''/'' (sp_base_url spec), np_auth_token = sp_auth_token spec,
             np_kind = kind, np_extra_headers = sp_extra_headers spec, np_mask_id = None,
             np_shared = or_else (sp_shared spec) False\<rparr>)) (\<lambda>provider.
        give (known(sp_name spec \<mapsto> pv_id provider)))))"

text \<open>A model that names another route waits: the route it is in, the reference, priority and weight.\<close>

type_synonym pending_ref = "int \<times> string \<times> int \<times> f64"

definition seed_model :: "names \<Rightarrow> int \<Rightarrow> nat \<times> model_spec \<Rightarrow> pending_ref list \<Rightarrow> pending_ref list action" where
  "seed_model known rid ispec pending =
     (case ispec of (index, m) \<Rightarrow>
        let priority = or_else (sm_priority m) (int index); weight = or_else (sm_weight m) (FFin 1)
        in case sm_route m of
             Some r \<Rightarrow> give (pending @ [(rid, r, priority, weight)])
           | None \<Rightarrow>
               let name = or_else (sm_provider m) []
               in next_with (need (Unknown_Provider name) (known name)) (\<lambda>i.
                  next_with (need (Needs_Model name) (sm_model m)) (\<lambda>model.
                  next_with (doing (add_route_entry rid i model priority weight (sm_capabilities m))) (\<lambda>e.
                  next_with (case sm_price m of None \<Rightarrow> give () | Some p \<Rightarrow> trying (set_route_entry_price (re_id e) p)) (\<lambda>_.
                  give pending)))))"

definition seed_route :: "names \<Rightarrow> int \<Rightarrow> route_spec \<Rightarrow> pending_ref list \<Rightarrow> pending_ref list action" where
  "seed_route known xid spec pending =
     next_with (from_result (parse_strategy (sr_strategy spec))) (\<lambda>strategy.
     next_with (doing (create_route xid (sr_name spec) (sr_description spec) strategy (sr_identity spec))) (\<lambda>r.
     next_with (if or_else (sr_max_tokens spec) 0 > 0 \<or> or_else (sr_cache_ttl_secs spec) 0 > 0
                then trying (set_route_economy (rt_id r) (or_else (sr_max_tokens spec) 0) (max 0 (or_else (sr_cache_ttl_secs spec) 0)))
                else give ()) (\<lambda>_.
     each (seed_model known (rt_id r)) (enumerate 0 (sr_models spec)) pending)))"

definition seed_proxy :: "names \<Rightarrow> string \<Rightarrow> proxy_spec \<Rightarrow> pending_ref list \<Rightarrow> pending_ref list action" where
  "seed_proxy known pid spec pending =
     next_with (doing (create_proxy pid (sx_name spec) (sx_description spec))) (\<lambda>x.
     each (seed_route known (px_id x)) (sx_routes spec) pending)"

text \<open>\<open><proxy>/<route>\<close> of the same profile, or \<open><profile>/<proxy>/<route>\<close>\<close>

definition route_path :: "string \<Rightarrow> string \<Rightarrow> console_error + string \<times> string \<times> string" where
  "route_path own r =
     (case split_on CHR ''/'' r of
        [x, n] \<Rightarrow> Inr (own, x, n)
      | [p, x, n] \<Rightarrow> Inr (p, x, n)
      | _ \<Rightarrow> Inl (Bad_Reference r))"

definition seed_ref :: "profile \<Rightarrow> pending_ref \<Rightarrow> unit \<Rightarrow> unit action" where
  "seed_ref me ref u =
     (case ref of (rid, r, priority, weight) \<Rightarrow>
        next_with (from_result (route_path (pf_name me) r)) (\<lambda>(profile_name, proxy_name, route_name).
        next_with (looking (get_profile_by_name profile_name)) (\<lambda>found.
        next_with (need (Unknown_Profile profile_name) found) (\<lambda>owner.
        next_with (looking (get_proxy_named (pf_id owner) proxy_name)) (\<lambda>found_proxy.
        next_with (need (Unknown_Proxy proxy_name) found_proxy) (\<lambda>owner_proxy.
        next_with (reading (get_route_named (px_id owner_proxy) route_name)) (\<lambda>found_route.
        next_with (need (Unknown_Route route_name) found_route) (\<lambda>target.
        next_with (ensure (pf_id owner = pf_id me \<or> rt_shared target) (Not_Shared r)) (\<lambda>_.
        next_with (doing (add_route_entry_ref rid (rt_id target) r priority weight)) (\<lambda>_. give ()))))))))))"

definition seed :: "cipher \<Rightarrow> draws \<Rightarrow> profile \<Rightarrow> setup_doc \<Rightarrow> unit action" where
  "seed c R me s =
     next_with (each (seed_provider c R (pf_id me)) (enumerate 0 (sd_providers s)) (\<lambda>_. None)) (\<lambda>known.
     next_with (each (seed_proxy known (pf_id me)) (sd_proxies s) []) (\<lambda>pending.
     each (seed_ref me) pending ()))"

text \<open>\<open>apply\<close>: the token of the new profile, or the error with the half-built profile deleted.\<close>

definition apply_setup :: "cipher \<Rightarrow> draws \<Rightarrow> setup_doc \<Rightarrow> string action" where
  "apply_setup c R s =
     next_with (case sd_token s of
         Some token \<Rightarrow> doing (create_profile_with_token (sd_profile s) (sd_description s) None token (dr_now R))
       | None \<Rightarrow> doing (create_profile (sd_profile s) (sd_description s) None (fst (dr_token R)) (snd (dr_token R)) (dr_now R))) (\<lambda>me d.
     case seed c R me s d of
       (Inl e, d') \<Rightarrow> (Inl e, snd (delete_profile (pf_id me) d'))
     | (Inr u, d') \<Rightarrow> (Inr (pf_id me), d'))"

section \<open>All or nothing\<close>

lemma seed_builds:
  assumes base: "db_ok d0" "pf_id me = pid"
  shows "acts (building pid nm d0) (seed c R me s) (\<lambda>_. True)"
proof -
  have provider: "acts (building pid nm d0) (seed_provider c R pid x known) (\<lambda>_. True)" for x known
    unfolding seed_provider_def
    by (cases x) (auto intro!: acts_next[OF acts_pure(3)] acts_next[OF acts_provider] acts_pure(1))
  have model: "acts (building pid nm d0) (seed_model known rid x pending) (\<lambda>ps. \<forall>p\<in>set ps. seq_routes d0 < fst p)"
    if "seq_routes d0 < rid" "\<forall>p\<in>set pending. seq_routes d0 < fst p" for known rid x pending
    using that base(1) unfolding seed_model_def Let_def
    by (cases x) (auto split: option.split intro!: acts_next[OF acts_pure(4)] acts_next[OF acts_entry] acts_pure(1)
        acts_next[OF acts_price])
  have route: "acts (building pid nm d0) (seed_route known x spec pending) (\<lambda>ps. \<forall>p\<in>set ps. seq_routes d0 < fst p)"
    if "seq_proxies d0 < x" "\<forall>p\<in>set pending. seq_routes d0 < fst p" for known x spec pending
    unfolding seed_route_def
    by (intro acts_next[OF acts_pure(3)] acts_next[OF acts_route[OF base(1) that(1)]]
        acts_next[where Q = "\<lambda>_. True"] acts_each)
       (auto simp: that(2) base(1) acts_economy intro: model acts_pure)
  have proxy: "acts (building pid nm d0) (seed_proxy known pid spec pending) (\<lambda>ps. \<forall>p\<in>set ps. seq_routes d0 < fst p)"
    if "\<forall>p\<in>set pending. seq_routes d0 < fst p" for known spec pending
    unfolding seed_proxy_def by (intro acts_next[OF acts_proxy] acts_each) (auto simp: that intro: route)
  have ref: "acts (building pid nm d0) (seed_ref me p ()) (\<lambda>_. True)" if "seq_routes d0 < fst p" for p
    using that unfolding seed_ref_def
    by (cases p) (auto intro!: acts_next[where Q = "\<lambda>_. True"] acts_pure acts_read
        acts_weaken[OF acts_entry_ref[OF base(1)]] split: prod.split)
  show ?thesis
    unfolding seed_def base(2)
    by (rule acts_next[where Q = "\<lambda>_. True"], rule acts_each, rule provider, simp,
        rule acts_next[where Q = "\<lambda>ps. \<forall>p\<in>set ps. seq_routes d0 < fst p"], rule acts_each, rule proxy, simp_all,
        rule acts_each) (auto intro: ref)
qed

lemma created:
  assumes "(case sd_token s of
         Some token \<Rightarrow> doing (create_profile_with_token (sd_profile s) (sd_description s) None token (dr_now R))
       | None \<Rightarrow> doing (create_profile (sd_profile s) (sd_description s) None (fst (dr_token R)) (snd (dr_token R)) (dr_now R))) d = (r, d')"
  shows "case r of Inl e \<Rightarrow> d' = d
    | Inr me \<Rightarrow> grown (pf_id me) (sd_profile s) d d' \<and> pf_id me \<notin> profile_ids d \<and> (\<exists>pid. insert_profile (sd_profile s) (sd_description s) None pid (dr_now R) d = (Inr me, d'))"
  using assms
  by (auto simp: doing_def as_console_def create_profile_def create_profile_with_token_def insert_profile_def Let_def grown_def
      split: option.splits if_splits sum.split)

text \<open>
  C3. A set-up from a document is all or nothing. When it succeeds, the store is sound, and
  it is the old one with the profile and its tree added behind the old rows, none of which
  has changed; the token printed is the new profile's. When it fails, at whichever step,
  every row is as it was before: what had been made is gone, and nothing else went with it.
\<close>

theorem bootstrap_all_or_nothing:
  assumes "db_ok d"
  shows "case apply_setup c R s d of
      (Inl e, d') \<Rightarrow> same_rows d d' \<and> db_ok d'
    | (Inr token, d') \<Rightarrow> db_ok d' \<and> token \<notin> profile_ids d \<and> grown token (sd_profile s) d d'"
proof -
  let ?make = "case sd_token s of
         Some token \<Rightarrow> doing (create_profile_with_token (sd_profile s) (sd_description s) None token (dr_now R))
       | None \<Rightarrow> doing (create_profile (sd_profile s) (sd_description s) None (fst (dr_token R)) (snd (dr_token R)) (dr_now R))"
  obtain r d1 where made: "?make d = (r, d1)" by fastforce
  show ?thesis
  proof (cases r)
    case (Inl e)
    with created[OF made] have "apply_setup c R s d = (Inl e, d)"
      using made by (simp add: apply_setup_def next_with_simps)
    with assms show ?thesis by (simp add: same_rows_iff)
  next
    case (Inr me)
    with created[OF made] obtain pid where me: "grown (pf_id me) (sd_profile s) d d1" "pf_id me \<notin> profile_ids d"
        and ins: "insert_profile (sd_profile s) (sd_description s) None pid (dr_now R) d = (Inr me, d1)" by auto
    then have "db_ok d1" using insert_profile_ok[OF assms] by (metis snd_conv)
    then have b: "building (pf_id me) (sd_profile s) d (snd (seed c R me s d1))"
      using seed_builds[OF assms refl, of me "sd_profile s" c R s] me by (auto simp: acts_def building_def)
    obtain r2 d2 where seeded: "seed c R me s d1 = (r2, d2)" by fastforce
    have run: "apply_setup c R s d = (case seed c R me s d1 of
        (Inl e, d') \<Rightarrow> (Inl e, snd (delete_profile (pf_id me) d')) | (Inr u, d') \<Rightarrow> (Inr (pf_id me), d'))"
      using made Inr by (simp add: apply_setup_def next_with_simps)
    show ?thesis
      using b me(2) undone[OF assms me(2), of "sd_profile s" d2]
      by (cases r2) (simp_all add: run seeded building_def delete_profile_ok)
  qed
qed

section \<open>A set-up that fails half-way\<close>

text \<open>The second model names a provider that is not in the document.\<close>

definition demo_model :: "string \<Rightarrow> string \<Rightarrow> model_spec" where
  "demo_model p m = \<lparr>sm_provider = Some p, sm_route = None, sm_model = Some m, sm_priority = None, sm_weight = None,
     sm_price = None, sm_capabilities = default_caps\<rparr>"

definition demo_doc :: "string \<Rightarrow> setup_doc" where
  "demo_doc other =
     \<lparr>sd_profile = ''me'', sd_description = None, sd_token = Some ''t'',
      sd_providers = [\<lparr>sp_name = ''up'', sp_description = None, sp_base_url = ''https://up/'', sp_auth_token = ''sk'', sp_kind = None,
         sp_extra_headers = [], sp_shared = None\<rparr>],
      sd_proxies = [\<lparr>sx_name = ''p'', sx_description = None, sx_routes =
        [\<lparr>sr_name = ''r'', sr_description = None, sr_strategy = None, sr_identity = None, sr_max_tokens = None,
          sr_cache_ttl_secs = None, sr_models = [demo_model ''up'' ''m'', demo_model other ''n'']\<rparr>]\<rparr>]\<rparr>"

definition demo_draws :: draws where
  "demo_draws = \<lparr>dr_now = 0, dr_token = (1, 2), dr_nonce = (\<lambda>_. replicate 12 CHR ''n'')\<rparr>"

lemma demo_runs:
  "fst (apply_setup tagging_cipher demo_draws (demo_doc ''ghost'') empty_db) = Inl (Unknown_Provider ''ghost'')"
  "fst (apply_setup tagging_cipher demo_draws (demo_doc ''up'') empty_db) = Inr ''t''"
  "map en_priority (entries (snd (apply_setup tagging_cipher demo_draws (demo_doc ''up'') empty_db))) = [0, 1]"
  by code_simp+

theorem bootstrap_all_or_nothing_witness:
  "same_rows empty_db (snd (apply_setup tagging_cipher demo_draws (demo_doc ''ghost'') empty_db))"
  using bootstrap_all_or_nothing[OF empty_db_ok, where c = tagging_cipher and R = demo_draws and s = "demo_doc ''ghost''"] demo_runs(1)
  by (cases "apply_setup tagging_cipher demo_draws (demo_doc ''ghost'') empty_db") auto

end
