(* ===== verification/Console_Commands.thy ===== *)
theory Console_Commands
  imports Bootstrap Outbound
begin

text \<open>
  The commands of the console on profiles and proxies (\<open>src/cli/profile.rs\<close>,
  \<open>src/cli/proxy.rs\<close>), and how every command finds what it works on (\<open>src/cli/util.rs\<close>): by the
  name in a flag, or by a menu. What the user does is part of the record \<open>desk\<close>: the row
  picked in each menu, the text entered at each field, the answer to each question - as the
  dialog returns it, defaults included, or nothing when the dialog is left. What is only
  printed is not modelled.
\<close>

section \<open>The desk\<close>

datatype menu = Profiles | Providers | Proxies | Routes | Entries | Masks | Kinds | Strategies

datatype field =
    Name_Field | Description_Field | Identity_Field | Base_Url_Field | Weight_Field | Position_Field
  | Price_Field | Max_Tokens_Field | Ttl_Field | Endpoint_Field | Max_Body_Field | New_Password_Field

datatype question =
    Really_Delete | Wants_Password | Sets_Password | Wants_Limit | Shares_It | Has_Tools | Has_Vision | Has_Json

text \<open>A round of the dialog for a model: a row of the provider's catalogue, or a typed identifier.\<close>

datatype model_try = Browse nat | Typed string

text \<open>
  Also the library of the desk: secrets, the clock, fresh random bytes, the parsing of floats,
  and what the network answers a GET - nothing, or a status and a body, if it is JSON.
\<close>

record desk =
  dk_cipher :: cipher
  dk_vault :: vault
  dk_now :: int
  dk_nonce :: bytes
  dk_salt :: bytes
  dk_token :: "nat \<times> nat"
  dk_float :: "string \<Rightarrow> f64 option"
  dk_row :: "menu \<Rightarrow> nat option"
  dk_text :: "field \<Rightarrow> string option"
  dk_yes :: "question \<Rightarrow> bool option"
  dk_rpm :: "int option"
  dk_passwords :: "string list"
  dk_pasted :: "(string \<times> nat \<times> bool) list"
  dk_headers :: "(string \<times> string) list"
  dk_get :: "string \<Rightarrow> headers \<Rightarrow> (int \<times> json option) option"
  dk_models :: "model_try list"

definition text_of :: "desk \<Rightarrow> field \<Rightarrow> string action" where
  "text_of E f = need No_Answer (dk_text E f)"

definition answer_of :: "desk \<Rightarrow> question \<Rightarrow> bool action" where
  "answer_of E q = need No_Answer (dk_yes E q)"

definition row_of :: "desk \<Rightarrow> menu \<Rightarrow> 'a list \<Rightarrow> 'a action" where
  "row_of E m xs =
     (case dk_row E m of None \<Rightarrow> refuse No_Answer | Some i \<Rightarrow> if i < length xs then give (xs ! i) else refuse No_Answer)"

text \<open>The pickers: an error without rows, no question with one.\<close>

definition pick_among :: "desk \<Rightarrow> menu \<Rightarrow> 'a list \<Rightarrow> 'a action" where
  "pick_among E m xs =
     (if xs = [] then refuse Nothing_Configured else if length xs = 1 then give (xs ! 0) else row_of E m xs)"

definition pick_profile :: "desk \<Rightarrow> profile action" where
  "pick_profile E = next_with (looking list_profiles) (pick_among E Profiles)"

definition pick_provider :: "desk \<Rightarrow> profile \<Rightarrow> provider action" where
  "pick_provider E p = next_with (reading (list_providers_for (dk_cipher E) (pf_id p))) (pick_among E Providers)"

definition pick_proxy :: "desk \<Rightarrow> profile \<Rightarrow> proxy action" where
  "pick_proxy E p = next_with (looking (list_proxies (pf_id p))) (pick_among E Proxies)"

definition pick_route :: "desk \<Rightarrow> proxy \<Rightarrow> route action" where
  "pick_route E x = next_with (reading (list_routes (px_id x))) (pick_among E Routes)"

definition require_profile :: "string \<Rightarrow> profile action" where
  "require_profile name = next_with (looking (get_profile_by_name name)) (need (Unknown_Profile name))"

text \<open>\<open>Some(n) if !n.is_empty()\<close>, and the reverse for an optional text.\<close>

definition flag :: "string option \<Rightarrow> string option" where
  "flag x = (case x of None \<Rightarrow> None | Some n \<Rightarrow> if n = [] then None else Some n)"

definition resolve_profile :: "desk \<Rightarrow> string option \<Rightarrow> profile action" where
  "resolve_profile E given = (case flag given of Some n \<Rightarrow> require_profile n | None \<Rightarrow> pick_profile E)"

definition unlocked :: "desk \<Rightarrow> profile \<Rightarrow> unit action" where
  "unlocked E p = from_result (ensure_password_ok (dk_vault E) (dk_passwords E) p)"

text \<open>
  \<open>prompt_token\<close>: a pasted token is trimmed and shown masked; it is taken when the user says so
  at once (row 0) or after seeing it in full (row 1), else asked for again.
\<close>

fun prompt_token :: "bool \<Rightarrow> (string \<times> nat \<times> bool) list \<Rightarrow> console_error + string" where
  "prompt_token allow_empty [] = Inl No_Answer"
| "prompt_token allow_empty ((raw, row, sure) # rest) =
     (let token = trim raw
      in if token = [] then (if allow_empty then Inr token else prompt_token allow_empty rest)
         else if row = 0 \<or> row = 1 \<and> sure then Inr token
         else prompt_token allow_empty rest)"

text \<open>
  \<open>fetch_provider_models\<close>: the catalogue of a provider, asked for the way requests travel - by its
  mask when it has one. Any error is just reported, and the dialog goes on.
\<close>

definition catalogue_ids :: "json \<Rightarrow> string list" where
  "catalogue_ids j =
     (case and_then (get ''data'' j) as_array of
        None \<Rightarrow> []
      | Some xs \<Rightarrow> List.map_filter (\<lambda>x. and_then (get ''id'' x) as_str) xs)"

definition fetch_provider_models :: "(string \<Rightarrow> headers \<Rightarrow> (int \<times> json option) option) \<Rightarrow> provider \<Rightarrow> string list option" where
  "fetch_provider_models ask v =
     (let headers = (if pv_auth_token v = [] then [] else [(''Authorization'', ''Bearer '' @ pv_auth_token v)])
      in case apply_request (pv_mask v) (normalize_base (pv_base_url v) @ ''/models'') headers 0 of
           Inl e \<Rightarrow> None
         | Inr (url, hs) \<Rightarrow>
             (case ask url hs of
                Some (status, Some j) \<Rightarrow> if is_success status then Some (sort (catalogue_ids j)) else None
              | _ \<Rightarrow> None))"

lemma catalogue_via_hop:
  "pv_mask v = Some m \<Longrightarrow> (\<And>hs. ask (mk_endpoint_url m) hs = ask' (mk_endpoint_url m) hs) \<Longrightarrow>
   fetch_provider_models ask v = fetch_provider_models ask' v"
  by (auto simp: fetch_provider_models_def apply_request_def Let_def split: sum.split)

fun prompt_model_id ::
  "(string \<Rightarrow> headers \<Rightarrow> (int \<times> json option) option) \<Rightarrow> provider \<Rightarrow> model_try list \<Rightarrow> console_error + string" where
  "prompt_model_id ask v [] = Inl No_Answer"
| "prompt_model_id ask v (Browse i # rest) =
     (if pv_kind v \<in> {OpenAI, Custom} then
        (case fetch_provider_models ask v of
           None \<Rightarrow> prompt_model_id ask v rest
         | Some ids \<Rightarrow>
             if ids = [] then prompt_model_id ask v rest
             else if i < length ids then Inr (ids ! i) else Inl No_Answer)
      else Inl No_Answer)"
| "prompt_model_id ask v (Typed s # rest) =
     (if trim s = [] then prompt_model_id ask v rest else Inr (trim s))"

text \<open>A model is never named by an empty text that was typed.\<close>

lemma typed_model_nonempty:
  "prompt_model_id ask v tries = Inr s \<Longrightarrow> pv_kind v \<notin> {OpenAI, Custom} \<Longrightarrow> s \<noteq> []"
  by (induction ask v tries rule: prompt_model_id.induct) (auto split: if_splits)

text \<open>The header dialog ends at an empty name; the map is sorted by name.\<close>

definition prompt_headers :: "desk \<Rightarrow> (string \<times> string) list" where
  "prompt_headers E = fold (\<lambda>(k, v). hdr_insert k v) (takeWhile (\<lambda>(k, v). k \<noteq> []) (dk_headers E)) []"

text \<open>\<open>str::parse\<close> of a signed and of an unsigned type.\<close>

definition parse_within :: "int \<Rightarrow> int \<Rightarrow> string \<Rightarrow> int option" where
  "parse_within lo hi s =
     (case (case s of
              [] \<Rightarrow> None
            | c # r \<Rightarrow> (if c = CHR ''-'' \<and> lo < 0 then map_option uminus (parse_digits r)
                       else if c = CHR ''+'' then parse_digits r
                       else parse_digits s)) of
        None \<Rightarrow> None
      | Some n \<Rightarrow> if lo \<le> n \<and> n < hi then Some n else None)"

section \<open>Profiles\<close>

definition profile_create :: "desk \<Rightarrow> string option \<Rightarrow> string action" where
  "profile_create E name =
     next_with (case flag name of Some n \<Rightarrow> give n | None \<Rightarrow> text_of E Name_Field) (\<lambda>n.
     next_with (looking (get_profile_by_name n)) (\<lambda>found.
     next_with (ensure (found = None) (Profile_Exists n)) (\<lambda>_.
     next_with (text_of E Description_Field) (\<lambda>desc.
     next_with (answer_of E Wants_Password) (\<lambda>protect.
     next_with (if protect
                then next_with (text_of E New_Password_Field) (\<lambda>pw.
                     next_with (from_result (hash_password (dk_vault E) (dk_salt E) pw)) (\<lambda>h. give (Some h)))
                else give None) (\<lambda>h.
     next_with (answer_of E Wants_Limit) (\<lambda>limit.
     next_with (if limit then need No_Answer (dk_rpm E) else give 0) (\<lambda>rpm.
     next_with (doing (create_profile n (flag (Some desc)) h (fst (dk_token E)) (snd (dk_token E)) (dk_now E))) (\<lambda>p.
     next_with (if rpm > 0 then doing (set_profile_rpm_limit (pf_id p) rpm (dk_now E)) else give ()) (\<lambda>_.
     give (pf_id p)))))))))))"

definition token_rotate :: "desk \<Rightarrow> string \<Rightarrow> string action" where
  "token_rotate E name =
     next_with (require_profile name) (\<lambda>p.
     next_with (unlocked E p) (\<lambda>_.
     doing (rotate_profile_token (pf_id p) (fst (dk_token E)) (snd (dk_token E)) (dk_now E))))"

definition profile_limit :: "desk \<Rightarrow> string \<Rightarrow> int option \<Rightarrow> unit action" where
  "profile_limit E name rpm =
     next_with (require_profile name) (\<lambda>p.
       case rpm of
         None \<Rightarrow> give ()
       | Some n \<Rightarrow>
           next_with (ensure (0 \<le> n) Negative_Limit) (\<lambda>_. doing (set_profile_rpm_limit (pf_id p) n (dk_now E))))"

definition profile_edit :: "desk \<Rightarrow> string option \<Rightarrow> unit action" where
  "profile_edit E name =
     next_with (resolve_profile E name) (\<lambda>p.
     next_with (unlocked E p) (\<lambda>_.
     next_with (text_of E Name_Field) (\<lambda>n.
     next_with (looking (get_profile_by_name n)) (\<lambda>found.
     next_with (ensure (n = pf_name p \<or> found = None) (Profile_Exists n)) (\<lambda>_.
     next_with (text_of E Description_Field) (\<lambda>desc.
     next_with (answer_of E Wants_Password) (\<lambda>protect.
     next_with (if n \<noteq> pf_name p then doing (rename_profile (pf_id p) n (dk_now E)) else give ()) (\<lambda>_.
     next_with (doing (set_profile_description (pf_id p) (flag (Some desc)) (dk_now E))) (\<lambda>_.
       if protect then
         next_with (answer_of E Sets_Password) (\<lambda>change.
           if change then
             next_with (text_of E New_Password_Field) (\<lambda>pw.
             next_with (from_result (hash_password (dk_vault E) (dk_salt E) pw)) (\<lambda>h.
             doing (set_profile_password (pf_id p) h (dk_now E))))
           else give ())
       else if pf_password_hash p \<noteq> None then doing (clear_profile_password (pf_id p) (dk_now E))
       else give ())))))))))"

text \<open>A deletion asks, unless \<open>--yes\<close> was given; saying no ends the command without an error.\<close>

definition if_sure :: "desk \<Rightarrow> bool \<Rightarrow> unit action \<Rightarrow> unit action" where
  "if_sure E yes m =
     (if yes then m else next_with (answer_of E Really_Delete) (\<lambda>sure. if sure then m else give ()))"

definition profile_delete :: "desk \<Rightarrow> string option \<Rightarrow> bool \<Rightarrow> unit action" where
  "profile_delete E name yes =
     next_with (resolve_profile E name) (\<lambda>p.
     next_with (unlocked E p) (\<lambda>_.
     if_sure E yes (doing (delete_profile (pf_id p)))))"

section \<open>Proxies\<close>

definition proxy_create :: "desk \<Rightarrow> string option \<Rightarrow> unit action" where
  "proxy_create E profile_name =
     next_with (resolve_profile E profile_name) (\<lambda>p.
     next_with (unlocked E p) (\<lambda>_.
     next_with (text_of E Name_Field) (\<lambda>n.
     next_with (looking (get_proxy_named (pf_id p) n)) (\<lambda>found.
     next_with (ensure (found = None) (Proxy_Exists n)) (\<lambda>_.
     next_with (text_of E Description_Field) (\<lambda>desc.
     next_with (doing (create_proxy (pf_id p) n (flag (Some desc)))) (\<lambda>_. give ())))))))"

definition proxy_edit :: "desk \<Rightarrow> string option \<Rightarrow> unit action" where
  "proxy_edit E profile_name =
     next_with (resolve_profile E profile_name) (\<lambda>p.
     next_with (unlocked E p) (\<lambda>_.
     next_with (pick_proxy E p) (\<lambda>x.
     next_with (text_of E Name_Field) (\<lambda>n.
     next_with (looking (get_proxy_named (pf_id p) n)) (\<lambda>found.
     next_with (ensure (n = px_name x \<or> found = None) (Proxy_Exists n)) (\<lambda>_.
     next_with (text_of E Description_Field) (\<lambda>desc.
     doing (update_proxy (px_id x) n (flag (Some desc))))))))))"

definition proxy_delete :: "desk \<Rightarrow> string option \<Rightarrow> unit action" where
  "proxy_delete E profile_name =
     next_with (resolve_profile E profile_name) (\<lambda>p.
     next_with (unlocked E p) (\<lambda>_.
     next_with (pick_proxy E p) (\<lambda>x.
     if_sure E False (doing (delete_proxy (px_id x))))))"

end
