(* ===== verification/Console_Routes.thy ===== *)
theory Console_Routes
  imports Console_Commands
begin

text \<open>
  The commands of the console on routes and the models in them (\<open>src/cli/route.rs\<close>). A model
  is added by flags, as a reference to another route, or in the dialog; moving one rewrites
  priorities so that the chain reads in the new order.
\<close>

section \<open>Finding the route\<close>

definition resolve_proxy :: "desk \<Rightarrow> string option \<Rightarrow> string option \<Rightarrow> (profile \<times> proxy) action" where
  "resolve_proxy E profile_name proxy_name =
     next_with (resolve_profile E profile_name) (\<lambda>p.
     next_with (case flag proxy_name of
                  Some n \<Rightarrow> next_with (looking (get_proxy_named (pf_id p) n)) (need (Unknown_Proxy n))
                | None \<Rightarrow> pick_proxy E p) (\<lambda>x. give (p, x)))"

definition resolve_named_route :: "desk \<Rightarrow> proxy \<Rightarrow> string option \<Rightarrow> route action" where
  "resolve_named_route E x route_name =
     (case flag route_name of
        Some n \<Rightarrow> next_with (reading (get_route_named (px_id x) n)) (need (Unknown_Route n))
      | None \<Rightarrow> pick_route E x)"

text \<open>Where an entry leads, as the menus show it; a provider that cannot be read is unknown.\<close>

definition provider_name :: "cipher \<Rightarrow> route_entry \<Rightarrow> db \<Rightarrow> store_error + string" where
  "provider_name c e d =
     (case re_target_route_id e of
        Some i \<Rightarrow>
          res_bind (get_route_by_id i d) (\<lambda>found.
            case found of
              None \<Rightarrow> Inr ''(missing route)''
            | Some r \<Rightarrow>
                (case get_proxy (rt_proxy_id r) d of
                   None \<Rightarrow> Inr ([CHR 0xE2, CHR 0x86, CHR 0x92] @ '' '' @ rt_name r)
                 | Some x \<Rightarrow> Inr ([CHR 0xE2, CHR 0x86, CHR 0x92] @ '' '' @ px_name x @ ''/'' @ rt_name r)))
      | None \<Rightarrow>
          (case and_then (re_provider_id e) (\<lambda>i. case get_provider c i d of Inr (Some p) \<Rightarrow> Some p | _ \<Rightarrow> None) of
             Some p \<Rightarrow> Inr (pv_name p)
           | None \<Rightarrow> Inr ''(unknown)''))"

definition pick_entry :: "desk \<Rightarrow> route \<Rightarrow> route_entry action" where
  "pick_entry E r =
     next_with (reading (route_entries (rt_id r))) (\<lambda>es.
       if es = [] then refuse Nothing_Configured
       else if length es = 1 then give (es ! 0)
       else next_with (reading (\<lambda>d. map_res (\<lambda>e. provider_name (dk_cipher E) e d) es)) (\<lambda>_. row_of E Entries es))"

definition chosen_entry :: "desk \<Rightarrow> route \<Rightarrow> string option \<Rightarrow> route_entry action" where
  "chosen_entry E r model =
     (case flag model of
        Some m \<Rightarrow>
          next_with (reading (route_entries (rt_id r))) (\<lambda>es.
          need (Unknown_Model m) (find (\<lambda>e. re_model_id e = m) es))
      | None \<Rightarrow> pick_entry E r)"

section \<open>Routes\<close>

definition pick_strategy :: "desk \<Rightarrow> routing_strategy action" where
  "pick_strategy E = row_of E Strategies [Priority, RoundRobin, Weighted, Economy]"

definition prompt_capabilities :: "desk \<Rightarrow> route_capabilities action" where
  "prompt_capabilities E =
     next_with (answer_of E Has_Tools) (\<lambda>t.
     next_with (answer_of E Has_Vision) (\<lambda>v.
     next_with (answer_of E Has_Json) (\<lambda>j.
     give \<lparr>cap_tools = t, cap_vision = v, cap_json_mode = j, cap_max_context = None\<rparr>)))"

text \<open>One round of the dialog that adds a model (the question whether there is one is the caller's).\<close>

definition prompt_route_entry :: "desk \<Rightarrow> profile \<Rightarrow> int \<Rightarrow> int \<Rightarrow> string action" where
  "prompt_route_entry E p rid priority =
     next_with (reading (list_providers (dk_cipher E) (pf_id p))) (\<lambda>own.
     next_with (ensure (own \<noteq> []) Nothing_Configured) (\<lambda>_.
     next_with (pick_provider E p) (\<lambda>v.
     next_with (from_result (prompt_model_id (dk_get E) v (dk_models E))) (\<lambda>model.
     next_with (text_of E Weight_Field) (\<lambda>w.
     next_with (prompt_capabilities E) (\<lambda>caps.
     next_with (doing (add_route_entry rid (pv_id v) model priority (or_else (dk_float E w) (FFin 1)) caps)) (\<lambda>_.
     give model)))))))"

text \<open>
  The rounds of the wizard: one desk for each model the user adds, until the answer is no.
\<close>

fun add_rounds :: "desk list \<Rightarrow> profile \<Rightarrow> int \<Rightarrow> int \<Rightarrow> unit action" where
  "add_rounds [] p rid priority = give ()"
| "add_rounds (E # Es) p rid priority =
     next_with (prompt_route_entry E p rid priority) (\<lambda>_. add_rounds Es p rid (priority + 1))"

definition route_create :: "desk \<Rightarrow> desk list \<Rightarrow> string option \<Rightarrow> unit action" where
  "route_create E Es proxy_name =
     next_with (resolve_proxy E None proxy_name) (\<lambda>(p, x).
     next_with (unlocked E p) (\<lambda>_.
     next_with (text_of E Name_Field) (\<lambda>n.
     next_with (reading (get_route_named (px_id x) n)) (\<lambda>found.
     next_with (ensure (found = None) (Route_Exists n)) (\<lambda>_.
     next_with (text_of E Description_Field) (\<lambda>desc.
     next_with (text_of E Identity_Field) (\<lambda>ident.
     next_with (doing (create_route (px_id x) n (flag (Some desc)) Priority (flag (Some ident)))) (\<lambda>r.
     add_rounds Es p (rt_id r) 1))))))))"

definition route_edit :: "desk \<Rightarrow> string option \<Rightarrow> unit action" where
  "route_edit E proxy_name =
     next_with (resolve_proxy E None proxy_name) (\<lambda>(p, x).
     next_with (unlocked E p) (\<lambda>_.
     next_with (pick_route E x) (\<lambda>r.
     next_with (text_of E Name_Field) (\<lambda>n.
     next_with (if n = rt_name r then give None else reading (get_route_named (px_id x) n)) (\<lambda>found.
     next_with (ensure (found = None) (Route_Exists n)) (\<lambda>_.
     next_with (text_of E Description_Field) (\<lambda>desc.
     next_with (pick_strategy E) (\<lambda>s.
     next_with (text_of E Identity_Field) (\<lambda>ident.
     doing (update_route (rt_id r) n (flag (Some desc)) s (if ident = [] then rt_identity r else Some ident)))))))))))"

definition route_delete :: "desk \<Rightarrow> string option \<Rightarrow> unit action" where
  "route_delete E proxy_name =
     next_with (resolve_proxy E None proxy_name) (\<lambda>(p, x).
     next_with (unlocked E p) (\<lambda>_.
     next_with (pick_route E x) (\<lambda>r.
     if_sure E False (doing (delete_route (rt_id r))))))"

definition route_share :: "desk \<Rightarrow> string option \<Rightarrow> string option \<Rightarrow> string option \<Rightarrow> bool option \<Rightarrow> unit action" where
  "route_share E profile_name proxy_name route_name share =
     next_with (resolve_proxy E profile_name proxy_name) (\<lambda>(p, x).
     next_with (unlocked E p) (\<lambda>_.
     next_with (resolve_named_route E x route_name) (\<lambda>r.
     next_with (case share of Some s \<Rightarrow> give s | None \<Rightarrow> answer_of E Shares_It) (\<lambda>s.
     doing (set_route_shared (rt_id r) s)))))"

definition economy_limits ::
  "desk \<Rightarrow> string option \<Rightarrow> string option \<Rightarrow> string option \<Rightarrow> nat option \<Rightarrow> int option \<Rightarrow> unit action" where
  "economy_limits E profile_name proxy_name route_name max_tokens cache_ttl =
     next_with (resolve_proxy E profile_name proxy_name) (\<lambda>(p, x).
     next_with (resolve_named_route E x route_name) (\<lambda>r.
     next_with (case max_tokens of
                  Some m \<Rightarrow> give m
                | None \<Rightarrow> next_with (text_of E Max_Tokens_Field)
                    (\<lambda>s. give (or_else (map_option nat (parse_within 0 (2 ^ 32) s)) (rt_max_tokens r)))) (\<lambda>m.
     next_with (case cache_ttl of
                  Some t \<Rightarrow> give t
                | None \<Rightarrow> next_with (text_of E Ttl_Field) (\<lambda>s. give (or_else (parse_i64 s) (rt_cache_ttl_secs r)))) (\<lambda>t.
     doing (set_route_economy (rt_id r) m (max 0 t))))))"

section \<open>Models\<close>

text \<open>
  \<open>resolve_route_ref\<close>: a route of the same profile, or a shared one of another, and the label
  the entry will carry.
\<close>

definition resolve_route_ref :: "profile \<Rightarrow> string \<Rightarrow> (route \<times> string) action" where
  "resolve_route_ref me target =
     next_with (from_result (route_path (pf_name me) target)) (\<lambda>(profile_name, proxy_name, route_name).
     next_with (require_profile profile_name) (\<lambda>owner.
     next_with (looking (get_proxy_named (pf_id owner) proxy_name)) (\<lambda>found.
     next_with (need (Unknown_Proxy proxy_name) found) (\<lambda>x.
     next_with (reading (get_route_named (px_id x) route_name)) (\<lambda>found_route.
     next_with (need (Unknown_Route route_name) found_route) (\<lambda>r.
     next_with (ensure (pf_id owner = pf_id me \<or> rt_shared r) (Not_Shared target)) (\<lambda>_.
     give (r, if pf_id owner = pf_id me then proxy_name @ ''/'' @ route_name
              else profile_name @ ''/'' @ proxy_name @ ''/'' @ route_name))))))))"

definition price_added :: "f64 option \<Rightarrow> int \<Rightarrow> unit action" where
  "price_added price i = (case price of None \<Rightarrow> give () | Some p \<Rightarrow> doing (set_route_entry_price i p))"

definition next_priority :: "route \<Rightarrow> int action" where
  "next_priority r = next_with (reading (route_entries (rt_id r))) (\<lambda>es. give (int (length es) + 1))"

text \<open>With \<open>--from-route\<close>.\<close>

definition add_nested_model :: "profile \<Rightarrow> route \<Rightarrow> string \<Rightarrow> f64 option \<Rightarrow> f64 option \<Rightarrow> unit action" where
  "add_nested_model me r target weight price =
     next_with (resolve_route_ref me target) (\<lambda>(target_route, label).
     next_with (next_priority r) (\<lambda>priority.
     next_with (doing (add_route_entry_ref (rt_id r) (rt_id target_route) label priority (or_else weight (FFin 1)))) (\<lambda>e.
     price_added price (re_id e))))"

text \<open>With \<open>--model\<close>.\<close>

definition add_flagged_model ::
  "desk \<Rightarrow> profile \<Rightarrow> route \<Rightarrow> string option \<Rightarrow> string \<Rightarrow> f64 option \<Rightarrow> f64 option \<Rightarrow> bool \<Rightarrow> unit action" where
  "add_flagged_model E p r provider_flag model weight price yes =
     next_with (reading (list_providers_for (dk_cipher E) (pf_id p))) (\<lambda>ps.
     next_with (case flag provider_flag of
                  Some n \<Rightarrow> need (Unknown_Provider n) (find (\<lambda>v. pv_name v = n) ps)
                | None \<Rightarrow> if length ps = 1 then give (ps ! 0) else refuse Choose_Provider) (\<lambda>v.
     next_with (next_priority r) (\<lambda>priority.
     next_with (if yes then give \<lparr>cap_tools = False, cap_vision = False, cap_json_mode = False, cap_max_context = None\<rparr>
                else prompt_capabilities E) (\<lambda>caps.
     next_with (doing (add_route_entry (rt_id r) (pv_id v) model priority (or_else weight (FFin 1)) caps)) (\<lambda>e.
     price_added price (re_id e))))))"

text \<open>In the dialog; whether there is a model to add is the first answer.\<close>

definition add_prompted_model :: "desk \<Rightarrow> bool \<Rightarrow> profile \<Rightarrow> route \<Rightarrow> f64 option \<Rightarrow> unit action" where
  "add_prompted_model E another p r price =
     next_with (next_priority r) (\<lambda>priority.
       if another then
         next_with (prompt_route_entry E p (rt_id r) priority) (\<lambda>model.
         next_with (if price = None then give [] else reading (route_entries (rt_id r))) (\<lambda>es.
           case find (\<lambda>e. re_model_id e = model) es of
             None \<Rightarrow> give ()
           | Some e \<Rightarrow> price_added price (re_id e)))
       else give ())"

definition model_add ::
  "desk \<Rightarrow> bool \<Rightarrow> string option \<Rightarrow> string option \<Rightarrow> string option \<Rightarrow> string option \<Rightarrow> string option \<Rightarrow>
     f64 option \<Rightarrow> f64 option \<Rightarrow> bool \<Rightarrow> string option \<Rightarrow> unit action" where
  "model_add E another profile_name proxy_name route_name provider_flag model_id weight price yes from_route =
     next_with (resolve_proxy E profile_name proxy_name) (\<lambda>(p, x).
     next_with (unlocked E p) (\<lambda>_.
     next_with (resolve_named_route E x route_name) (\<lambda>r.
       case flag from_route of
         Some target \<Rightarrow> add_nested_model p r target weight price
       | None \<Rightarrow>
           (case model_id of
              Some model \<Rightarrow> add_flagged_model E p r provider_flag model weight price yes
            | None \<Rightarrow> add_prompted_model E another p r price))))"

definition model_remove ::
  "desk \<Rightarrow> string option \<Rightarrow> string option \<Rightarrow> string option \<Rightarrow> string option \<Rightarrow> bool \<Rightarrow> unit action" where
  "model_remove E profile_name proxy_name route_name model_id yes =
     next_with (resolve_proxy E profile_name proxy_name) (\<lambda>(p, x).
     next_with (unlocked E p) (\<lambda>_.
     next_with (resolve_named_route E x route_name) (\<lambda>r.
     next_with (chosen_entry E r model_id) (\<lambda>e.
     if_sure E yes (doing (delete_route_entry (re_id e)))))))"

text \<open>
  Moving: every other entry at or behind the target position goes one position back, and the
  moved entry takes the target's number; entries before it keep the number they have.
\<close>

definition shift_entry :: "route_entry \<Rightarrow> int \<Rightarrow> nat \<times> route_entry \<Rightarrow> unit \<Rightarrow> unit action" where
  "shift_entry moved target ie u =
     (case ie of (i, e) \<Rightarrow>
        let p = int i + 1
        in if re_id e \<noteq> re_id moved \<and> p \<ge> target then doing (set_route_entry_priority (re_id e) (p + 1)) else give ())"

definition move_entry :: "route_entry list \<Rightarrow> route_entry \<Rightarrow> int \<Rightarrow> unit action" where
  "move_entry es moved target =
     next_with (ensure (1 \<le> target \<and> target \<le> int (length es)) (Bad_Position target)) (\<lambda>_.
     next_with (each (shift_entry moved target) (enumerate 0 es) ()) (\<lambda>_.
     doing (set_route_entry_priority (re_id moved) target)))"

definition model_move ::
  "desk \<Rightarrow> string option \<Rightarrow> string option \<Rightarrow> string option \<Rightarrow> string option \<Rightarrow> int option \<Rightarrow> unit action" where
  "model_move E profile_name proxy_name route_name model_id position =
     next_with (resolve_proxy E profile_name proxy_name) (\<lambda>(p, x).
     next_with (unlocked E p) (\<lambda>_.
     next_with (resolve_named_route E x route_name) (\<lambda>r.
     next_with (reading (route_entries (rt_id r))) (\<lambda>es.
       if es = [] then give ()
       else next_with (case flag model_id of
                         Some m \<Rightarrow> need (Unknown_Model m) (find (\<lambda>e. re_model_id e = m) es)
                       | None \<Rightarrow> pick_entry E r) (\<lambda>e.
            next_with (case position of
                         Some n \<Rightarrow> give n
                       | None \<Rightarrow> next_with (text_of E Position_Field)
                           (\<lambda>s. give (or_else (parse_within (- (2 ^ 31)) (2 ^ 31) s) (- 1)))) (\<lambda>target.
            move_entry es e target))))))"

definition model_price ::
  "desk \<Rightarrow> string option \<Rightarrow> string option \<Rightarrow> string option \<Rightarrow> string option \<Rightarrow> f64 option \<Rightarrow> unit action" where
  "model_price E profile_name proxy_name route_name model_id price =
     next_with (resolve_proxy E profile_name proxy_name) (\<lambda>(p, x).
     next_with (resolve_named_route E x route_name) (\<lambda>r.
     next_with (chosen_entry E r model_id) (\<lambda>e.
     next_with (case price of
                  Some v \<Rightarrow> give v
                | None \<Rightarrow> next_with (text_of E Price_Field) (\<lambda>s. give (or_else (dk_float E s) (re_price_per_1m e)))) (\<lambda>v.
     doing (set_route_entry_price (re_id e) v)))))"

end
