(* ===== verification/Console_Providers.thy ===== *)
theory Console_Providers
  imports Console_Commands
begin

text \<open>
  The commands of the console on providers and egress masks (\<open>src/cli/provider.rs\<close>,
  \<open>src/cli/mask.rs\<close>). The answers of the probes a mask test or audit sends are arguments.
\<close>

section \<open>Providers\<close>

definition resolve_mask_id :: "desk \<Rightarrow> profile \<Rightarrow> string option \<Rightarrow> int option action" where
  "resolve_mask_id E p given =
     next_with (reading (list_masking_servers_for (dk_cipher E) (pf_id p))) (\<lambda>ms.
       case flag given of
         Some n \<Rightarrow>
           if n = ''none'' then give None
           else next_with (need (Unknown_Mask n) (find (\<lambda>m. mk_name m = n) ms)) (\<lambda>m. give (Some (mk_id m)))
       | None \<Rightarrow>
           if ms = [] then give None
           else row_of E Masks (None # map (\<lambda>m. Some (mk_id m)) ms))"

definition pick_kind :: "desk \<Rightarrow> provider_kind action" where
  "pick_kind E = row_of E Kinds [OpenAI, OpenAIResponses, Anthropic, Google, Custom]"

text \<open>\<open>--header\<close>: \<open>Name: value\<close>, in the order given; a later one of the same name wins.\<close>

fun parse_headers :: "string list \<Rightarrow> (string \<times> string) list \<Rightarrow> console_error + (string \<times> string) list" where
  "parse_headers [] acc = Inr acc"
| "parse_headers (h # hs) acc =
     (case split_once CHR '':'' h of
        None \<Rightarrow> Inl (Bad_Header h)
      | Some (k, v) \<Rightarrow> parse_headers hs (hdr_insert (trim k) (trim v) acc))"

record provider_flags =
  pa_profile :: "string option"
  pa_name :: "string option"
  pa_base_url :: "string option"
  pa_auth_token :: "string option"
  pa_kind :: "string option"
  pa_description :: "string option"
  pa_headers :: "string list"
  pa_mask :: "string option"
  pa_share :: "bool option"

definition provider_from_flags :: "desk \<Rightarrow> provider_flags \<Rightarrow> profile \<Rightarrow> string \<Rightarrow> string \<Rightarrow> string \<Rightarrow> new_provider action" where
  "provider_from_flags E F p name base_url token =
     next_with (from_result (parse_kind (pa_kind F))) (\<lambda>kind.
     next_with (from_result (parse_headers (pa_headers F) [])) (\<lambda>hs.
     next_with (resolve_mask_id E p (pa_mask F)) (\<lambda>hop.
     give \<lparr>np_name = name, np_description = pa_description F, np_base_url = trim_end_matches CHR ''/'' base_url,
       np_auth_token = token, np_kind = kind, np_extra_headers = hs, np_mask_id = hop,
       np_shared = or_else (pa_share F) False\<rparr>)))"

definition provider_from_dialog :: "desk \<Rightarrow> provider_flags \<Rightarrow> profile \<Rightarrow> new_provider action" where
  "provider_from_dialog E F p =
     next_with (case flag (pa_name F) of Some n \<Rightarrow> give n | None \<Rightarrow> text_of E Name_Field) (\<lambda>name.
     next_with (text_of E Base_Url_Field) (\<lambda>url.
     next_with (from_result (prompt_token False (dk_pasted E))) (\<lambda>token.
     next_with (pick_kind E) (\<lambda>kind.
     next_with (text_of E Description_Field) (\<lambda>desc.
     next_with (resolve_mask_id E p (pa_mask F)) (\<lambda>hop.
     next_with (case pa_share F of Some s \<Rightarrow> give s | None \<Rightarrow> answer_of E Shares_It) (\<lambda>s.
     give \<lparr>np_name = name, np_description = flag (Some desc), np_base_url = url, np_auth_token = token, np_kind = kind,
       np_extra_headers = prompt_headers E, np_mask_id = hop, np_shared = s\<rparr>)))))))"

definition provider_add :: "desk \<Rightarrow> provider_flags \<Rightarrow> unit action" where
  "provider_add E F =
     next_with (resolve_profile E (pa_profile F)) (\<lambda>p.
     next_with (unlocked E p) (\<lambda>_.
     next_with (case (pa_name F, pa_base_url F, pa_auth_token F) of
                  (Some name, Some url, Some token) \<Rightarrow> provider_from_flags E F p name url token
                | _ \<Rightarrow> provider_from_dialog E F p) (\<lambda>spec.
     next_with (doing (create_provider (dk_cipher E) (dk_nonce E) (pf_id p) spec)) (\<lambda>_. give ()))))"

text \<open>
  The mask of an edited provider is the one picked, else the one its traffic leaves through
  now - its own or the profile's default.
\<close>

definition provider_edit :: "desk \<Rightarrow> string option \<Rightarrow> unit action" where
  "provider_edit E profile_name =
     next_with (resolve_profile E profile_name) (\<lambda>p.
     next_with (unlocked E p) (\<lambda>_.
     next_with (pick_provider E p) (\<lambda>v.
     next_with (text_of E Name_Field) (\<lambda>name.
     next_with (text_of E Base_Url_Field) (\<lambda>url.
     next_with (from_result (prompt_token True (dk_pasted E))) (\<lambda>token.
     next_with (pick_kind E) (\<lambda>kind.
     next_with (text_of E Description_Field) (\<lambda>desc.
     next_with (resolve_mask_id E p None) (\<lambda>hop.
     next_with (answer_of E Shares_It) (\<lambda>s.
     doing (update_provider (dk_cipher E) (dk_nonce E) (pv_id v)
       \<lparr>np_name = name, np_description = flag (Some desc), np_base_url = url,
        np_auth_token = (if token = [] then pv_auth_token v else token), np_kind = kind,
        np_extra_headers = prompt_headers E,
        np_mask_id = (case hop of Some m \<Rightarrow> Some m | None \<Rightarrow> map_option mk_id (pv_mask v)), np_shared = s\<rparr>)))))))))))"

definition chosen_provider :: "desk \<Rightarrow> profile \<Rightarrow> string option \<Rightarrow> provider action" where
  "chosen_provider E p given =
     (case flag given of
        Some n \<Rightarrow>
          next_with (reading (list_providers (dk_cipher E) (pf_id p))) (\<lambda>ps.
          need (Unknown_Provider n) (find (\<lambda>v. pv_name v = n) ps))
      | None \<Rightarrow> pick_provider E p)"

definition provider_delete :: "desk \<Rightarrow> string option \<Rightarrow> string option \<Rightarrow> bool \<Rightarrow> unit action" where
  "provider_delete E profile_name given yes =
     next_with (resolve_profile E profile_name) (\<lambda>p.
     next_with (unlocked E p) (\<lambda>_.
     next_with (chosen_provider E p given) (\<lambda>v.
     if_sure E yes (doing (delete_provider (pv_id v))))))"

definition provider_share :: "desk \<Rightarrow> string option \<Rightarrow> string option \<Rightarrow> bool option \<Rightarrow> unit action" where
  "provider_share E profile_name given share =
     next_with (resolve_profile E profile_name) (\<lambda>p.
     next_with (unlocked E p) (\<lambda>_.
     next_with (chosen_provider E p given) (\<lambda>v.
     next_with (case share of Some s \<Rightarrow> give s | None \<Rightarrow> answer_of E Shares_It) (\<lambda>s.
     doing (set_provider_shared (pv_id v) s)))))"

section \<open>Masks\<close>

definition resolve_mask :: "desk \<Rightarrow> profile \<Rightarrow> string option \<Rightarrow> masking_server action" where
  "resolve_mask E p given =
     next_with (reading (list_masking_servers (dk_cipher E) (pf_id p))) (\<lambda>ms.
       case flag given of
         Some n \<Rightarrow> need (Unknown_Mask n) (find (\<lambda>m. mk_name m = n) ms)
       | None \<Rightarrow> if ms = [] then refuse Nothing_Configured else row_of E Masks ms)"

record mask_flags =
  ma_profile :: "string option"
  ma_name :: "string option"
  ma_kind :: "string option"
  ma_endpoint_url :: "string option"
  ma_secret :: "string option"
  ma_max_body_bytes :: int
  ma_expected_egress_ip :: "string option"

definition MASK_KINDS :: "string list" where
  "MASK_KINDS = [''cf_worker'', ''lambda'', ''cloud_run'', ''nginx'', ''vps'', ''commercial'', ''custom'']"

definition mask_from_dialog :: "desk \<Rightarrow> mask_flags \<Rightarrow> new_mask action" where
  "mask_from_dialog E F =
     next_with (case ma_name F of Some n \<Rightarrow> give n | None \<Rightarrow> text_of E Name_Field) (\<lambda>name.
     next_with (row_of E Kinds MASK_KINDS) (\<lambda>kind.
     next_with (text_of E Endpoint_Field) (\<lambda>url.
     next_with (from_result (prompt_token False (dk_pasted E))) (\<lambda>secret.
     next_with (text_of E Max_Body_Field) (\<lambda>max_body.
     give \<lparr>nm_name = name, nm_kind = kind, nm_endpoint_url = trim_end_matches CHR ''/'' url, nm_secret = secret,
       nm_max_body_bytes = or_else (parse_i64 (trim max_body)) 0, nm_expected_egress_ip = None, nm_shared = False\<rparr>)))))"

definition mask_add :: "desk \<Rightarrow> mask_flags \<Rightarrow> unit action" where
  "mask_add E F =
     next_with (resolve_profile E (ma_profile F)) (\<lambda>p.
     next_with (case (ma_name F, ma_endpoint_url F, ma_secret F) of
                  (Some name, Some url, Some secret) \<Rightarrow>
                    give \<lparr>nm_name = name, nm_kind = or_else (ma_kind F) ''custom'',
                      nm_endpoint_url = trim_end_matches CHR ''/'' url, nm_secret = secret,
                      nm_max_body_bytes = ma_max_body_bytes F, nm_expected_egress_ip = ma_expected_egress_ip F,
                      nm_shared = False\<rparr>
                | _ \<Rightarrow> mask_from_dialog E F) (\<lambda>spec.
     next_with (doing (create_masking_server (dk_cipher E) (dk_nonce E) (pf_id p) spec)) (\<lambda>_. give ())))"

record mask_changes =
  mc_kind :: "string option"
  mc_endpoint_url :: "string option"
  mc_secret :: "string option"
  mc_max_body_bytes :: "int option"
  mc_expected_egress_ip :: "string option"
  mc_share :: "bool option"

definition mask_set :: "desk \<Rightarrow> string option \<Rightarrow> string option \<Rightarrow> mask_changes \<Rightarrow> unit action" where
  "mask_set E profile_name given C =
     next_with (resolve_profile E profile_name) (\<lambda>p.
     next_with (resolve_mask E p given) (\<lambda>m.
     next_with (case mc_endpoint_url C of
                  Some u \<Rightarrow> give (trim_end_matches CHR ''/'' u)
                | None \<Rightarrow> text_of E Endpoint_Field) (\<lambda>url.
     doing (update_masking_server (dk_cipher E) (dk_nonce E) (mk_id m)
       \<lparr>nm_name = mk_name m, nm_kind = or_else (mc_kind C) (mk_kind m), nm_endpoint_url = url,
        nm_secret = or_else (flag (mc_secret C)) (mk_secret m),
        nm_max_body_bytes = or_else (mc_max_body_bytes C) (mk_max_body_bytes m),
        nm_expected_egress_ip =
          (case mc_expected_egress_ip C of
             Some ip \<Rightarrow> if ip = ''none'' \<or> ip = [] then None else Some ip
           | None \<Rightarrow> mk_expected_egress_ip m),
        nm_shared = or_else (mc_share C) (mk_shared m)\<rparr>))))"

definition mask_set_default :: "desk \<Rightarrow> string option \<Rightarrow> string option \<Rightarrow> unit action" where
  "mask_set_default E profile_name given =
     next_with (resolve_profile E profile_name) (\<lambda>p.
     next_with (if given = Some ''none'' \<or> given = Some [] then give None
                else next_with (resolve_mask E p given) (\<lambda>m. give (Some (mk_id m)))) (\<lambda>hop.
     doing (set_profile_default_masking (pf_id p) hop (dk_now E))))"

definition mask_delete :: "desk \<Rightarrow> string option \<Rightarrow> string option \<Rightarrow> bool \<Rightarrow> unit action" where
  "mask_delete E profile_name given yes =
     next_with (resolve_profile E profile_name) (\<lambda>p.
     next_with (resolve_mask E p given) (\<lambda>m.
     if_sure E yes (doing (delete_masking_server (mk_id m)))))"

text \<open>What a mask says of its own network, or the error of the probe.\<close>

record egress_identity =
  eg_ip :: string
  eg_asn :: "string option"
  eg_country :: "string option"

type_synonym probe_answer = "string + egress_identity"

text \<open>
  \<open>mask test\<close>: the probes are sent one by one up to the first that fails; the last identity is
  recorded, also when the expected address was not among them.
\<close>

definition mask_test :: "desk \<Rightarrow> string option \<Rightarrow> string option \<Rightarrow> bool \<Rightarrow> probe_answer list \<Rightarrow> unit action" where
  "mask_test E profile_name given check_egress answers =
     next_with (resolve_profile E profile_name) (\<lambda>p.
     next_with (resolve_mask E p given) (\<lambda>m.
     next_with (from_result (map_res (\<lambda>a. case a of Inl e \<Rightarrow> Inl (Probe_Failed e) | Inr i \<Rightarrow> Inr i) answers)) (\<lambda>ids.
     next_with (ensure (ids \<noteq> []) No_Probe_Made) (\<lambda>_.
     next_with (doing (record_mask_probe (mk_id m) (eg_ip (last ids)) (eg_asn (last ids)) (eg_country (last ids)) (dk_now E))) (\<lambda>_.
       case (check_egress, mk_expected_egress_ip m) of
         (True, Some expected) \<Rightarrow> ensure (expected \<in> eg_ip ` set ids) (Wrong_Egress expected)
       | _ \<Rightarrow> give ())))))"

text \<open>
  \<open>mask audit\<close>: every mask is probed once; what answers is recorded. The networks (AS
  numbers) that more than one mask reported are the error.
\<close>

definition audit_record :: "desk \<Rightarrow> masking_server \<times> probe_answer \<Rightarrow> unit \<Rightarrow> unit action" where
  "audit_record E ma u =
     (case ma of (m, a) \<Rightarrow>
        case a of
          Inl e \<Rightarrow> give ()
        | Inr i \<Rightarrow> trying (record_mask_probe (mk_id m) (eg_ip i) (eg_asn i) (eg_country i) (dk_now E)))"

definition asn_of :: "probe_answer \<Rightarrow> string option" where
  "asn_of a = (case a of Inl e \<Rightarrow> None | Inr i \<Rightarrow> eg_asn i)"

definition masks_in :: "(masking_server \<times> probe_answer) list \<Rightarrow> string \<Rightarrow> string list" where
  "masks_in rows asn = map (\<lambda>(m, a). mk_name m) (filter (\<lambda>(m, a). asn_of a = Some asn) rows)"

definition shared_asns :: "(masking_server \<times> probe_answer) list \<Rightarrow> string list" where
  "shared_asns rows =
     filter (\<lambda>asn. length (masks_in rows asn) > 1)
       (sort (remdups (concat (map (\<lambda>(m, a). case asn_of a of None \<Rightarrow> [] | Some x \<Rightarrow> [x]) rows))))"

definition duplicate_asns :: "(masking_server \<times> probe_answer) list \<Rightarrow> string list" where
  "duplicate_asns rows = map (\<lambda>asn. asn @ '': '' @ join '', '' (masks_in rows asn)) (shared_asns rows)"

definition mask_audit :: "desk \<Rightarrow> string option \<Rightarrow> (masking_server \<Rightarrow> probe_answer) \<Rightarrow> unit action" where
  "mask_audit E profile_name answer =
     next_with (resolve_profile E profile_name) (\<lambda>p.
     next_with (reading (list_masking_servers (dk_cipher E) (pf_id p))) (\<lambda>ms.
       if ms = [] then give ()
       else (let rows = map (\<lambda>m. (m, answer m)) ms
             in next_with (each (audit_record E) rows ()) (\<lambda>_.
                ensure (duplicate_asns rows = []) (Shared_Networks (duplicate_asns rows))))))"

end
