(* ===== verification/Portable.thy ===== *)
theory Portable
  imports Setup_Frame Upstream_Props
begin

text \<open>
  Moving a profile between machines (\<open>src/cli/config.rs\<close>): the portable form of a profile
  with its whole tree, its JSON form, the sealed file, and reading the tree out of one store
  and building it in another. The text of JSON is the library's (a \<open>codec\<close>), and so is the
  conversion of an integer to a float; a reader is given the objects the writer makes (the
  array form serde would also take is not modelled). The clock, salt, nonces and random
  numbers are arguments.
\<close>

section \<open>The portable form\<close>

record portable_mask =
  qm_name :: string
  qm_kind :: string
  qm_endpoint_url :: string
  qm_secret :: string
  qm_max_body_bytes :: int
  qm_expected_egress_ip :: "string option"
  qm_shared :: bool

record portable_provider =
  qp_name :: string
  qp_description :: "string option"
  qp_base_url :: string
  qp_auth_token :: string
  qp_kind :: provider_kind
  qp_extra_headers :: "(string \<times> string) list"
  qp_mask :: "string option"
  qp_shared :: bool

record portable_entry =
  qe_provider_name :: string
  qe_model_id :: string
  qe_priority :: int
  qe_weight :: f64
  qe_capabilities :: route_capabilities
  qe_price_per_1m :: f64
  qe_route :: "string option"

record portable_route =
  qr_name :: string
  qr_description :: "string option"
  qr_strategy :: routing_strategy
  qr_identity :: "string option"
  qr_max_tokens :: nat
  qr_cache_ttl_secs :: int
  qr_entries :: "portable_entry list"

record portable_proxy =
  qx_name :: string
  qx_description :: "string option"
  qx_routes :: "portable_route list"

record portable_profile =
  qf_name :: string
  qf_description :: "string option"
  qf_masks :: "portable_mask list"
  qf_default_mask :: "string option"
  qf_providers :: "portable_provider list"
  qf_proxies :: "portable_proxy list"

section \<open>Its JSON form\<close>

text \<open>Writing: an absent option is null; a float JSON cannot express is null too.\<close>

fun opt_to_json :: "string option \<Rightarrow> json" where
  "opt_to_json None = JNull"
| "opt_to_json (Some s) = JStr s"

fun f64_to_json :: "f64 \<Rightarrow> json" where
  "f64_to_json (FFin q) = JFloat q"
| "f64_to_json _ = JNull"

fun kind_name :: "provider_kind \<Rightarrow> string" where
  "kind_name OpenAI = ''OpenAI''"
| "kind_name Anthropic = ''Anthropic''"
| "kind_name Google = ''Google''"
| "kind_name OpenAIResponses = ''OpenAIResponses''"
| "kind_name Custom = ''Custom''"

fun strategy_name :: "routing_strategy \<Rightarrow> string" where
  "strategy_name Priority = ''Priority''"
| "strategy_name RoundRobin = ''RoundRobin''"
| "strategy_name Weighted = ''Weighted''"
| "strategy_name Economy = ''Economy''"

definition caps_to_json :: "route_capabilities \<Rightarrow> json" where
  "caps_to_json k = object [(''tools'', JBool (cap_tools k)), (''vision'', JBool (cap_vision k)),
     (''json_mode'', JBool (cap_json_mode k)),
     (''max_context'', case cap_max_context k of None \<Rightarrow> JNull | Some n \<Rightarrow> JInt (int n))]"

text \<open>\<open>skip_serializing_if\<close>\<close>

definition unless_none :: "string \<Rightarrow> string option \<Rightarrow> (string \<times> json) list" where
  "unless_none k x = (case x of None \<Rightarrow> [] | Some s \<Rightarrow> [(k, JStr s)])"

definition unless_empty :: "string \<Rightarrow> json list \<Rightarrow> (string \<times> json) list" where
  "unless_empty k xs = (if xs = [] then [] else [(k, JArr xs)])"

definition mask_to_json :: "portable_mask \<Rightarrow> json" where
  "mask_to_json m = object ([(''name'', JStr (qm_name m)), (''kind'', JStr (qm_kind m)),
     (''endpoint_url'', JStr (qm_endpoint_url m)), (''secret'', JStr (qm_secret m)),
     (''max_body_bytes'', JInt (qm_max_body_bytes m))]
     @ unless_none ''expected_egress_ip'' (qm_expected_egress_ip m) @ [(''shared'', JBool (qm_shared m))])"

definition provider_to_json :: "portable_provider \<Rightarrow> json" where
  "provider_to_json p = object ([(''name'', JStr (qp_name p)), (''description'', opt_to_json (qp_description p)),
     (''base_url'', JStr (qp_base_url p)), (''auth_token'', JStr (qp_auth_token p)), (''kind'', JStr (kind_name (qp_kind p))),
     (''extra_headers'', JObj (map (\<lambda>(k, v). (k, JStr v)) (qp_extra_headers p)))]
     @ unless_none ''masking_server'' (qp_mask p) @ [(''shared'', JBool (qp_shared p))])"

definition entry_to_json :: "portable_entry \<Rightarrow> json" where
  "entry_to_json e = object ([(''provider_name'', JStr (qe_provider_name e)), (''model_id'', JStr (qe_model_id e)),
     (''priority'', JInt (qe_priority e)), (''weight'', f64_to_json (qe_weight e)),
     (''capabilities'', caps_to_json (qe_capabilities e)), (''price_per_1m'', f64_to_json (qe_price_per_1m e))]
     @ unless_none ''route'' (qe_route e))"

definition route_to_json :: "portable_route \<Rightarrow> json" where
  "route_to_json r = object [(''name'', JStr (qr_name r)), (''description'', opt_to_json (qr_description r)),
     (''strategy'', JStr (strategy_name (qr_strategy r))), (''identity'', opt_to_json (qr_identity r)),
     (''max_tokens'', JInt (int (qr_max_tokens r))), (''cache_ttl_secs'', JInt (qr_cache_ttl_secs r)),
     (''entries'', JArr (map entry_to_json (qr_entries r)))]"

definition proxy_to_json :: "portable_proxy \<Rightarrow> json" where
  "proxy_to_json x = object [(''name'', JStr (qx_name x)), (''description'', opt_to_json (qx_description x)),
     (''routes'', JArr (map route_to_json (qx_routes x)))]"

definition profile_to_json :: "portable_profile \<Rightarrow> json" where
  "profile_to_json b = object ([(''name'', JStr (qf_name b)), (''description'', opt_to_json (qf_description b))]
     @ unless_empty ''masking_servers'' (map mask_to_json (qf_masks b))
     @ unless_none ''default_masking_server'' (qf_default_mask b)
     @ [(''providers'', JArr (map provider_to_json (qf_providers b))), (''proxies'', JArr (map proxy_to_json (qf_proxies b)))])"

text \<open>Reading: a required member, one that may be missing or null, and one with a default.\<close>

definition req :: "string \<Rightarrow> (json \<Rightarrow> 'a option) \<Rightarrow> json \<Rightarrow> 'a option" where
  "req k rd v = and_then (get k v) rd"

definition maybe :: "string \<Rightarrow> (json \<Rightarrow> 'a option) \<Rightarrow> json \<Rightarrow> 'a option option" where
  "maybe k rd v =
     (case get k v of None \<Rightarrow> Some None | Some w \<Rightarrow> (if w = JNull then Some None else map_option Some (rd w)))"

definition dflt :: "string \<Rightarrow> 'a \<Rightarrow> (json \<Rightarrow> 'a option) \<Rightarrow> json \<Rightarrow> 'a option" where
  "dflt k z rd v = (case get k v of None \<Rightarrow> Some z | Some w \<Rightarrow> rd w)"

fun list_of :: "(json \<Rightarrow> 'a option) \<Rightarrow> json \<Rightarrow> 'a list option" where
  "list_of rd (JArr xs) = all_some (map rd xs)"
| "list_of rd _ = None"

fun int_in :: "int \<Rightarrow> int \<Rightarrow> json \<Rightarrow> int option" where
  "int_in lo hi (JInt n) = (if lo \<le> n \<and> n < hi then Some n else None)"
| "int_in lo hi _ = None"

definition as_i32 :: "json \<Rightarrow> int option" where
  "as_i32 v = int_in (- (2 ^ 31)) (2 ^ 31) v"

definition as_u32 :: "json \<Rightarrow> nat option" where
  "as_u32 v = map_option nat (int_in 0 (2 ^ 32) v)"

fun as_f64 :: "(int \<Rightarrow> f64) \<Rightarrow> json \<Rightarrow> f64 option" where
  "as_f64 fl (JFloat q) = Some (FFin q)"
| "as_f64 fl (JInt n) = Some (fl n)"
| "as_f64 fl _ = None"

definition kind_of_json :: "json \<Rightarrow> provider_kind option" where
  "kind_of_json v = and_then (as_str v) (\<lambda>s. find (\<lambda>k. kind_name k = s) [OpenAI, Anthropic, Google, OpenAIResponses, Custom])"

definition strategy_of_json :: "json \<Rightarrow> routing_strategy option" where
  "strategy_of_json v = and_then (as_str v) (\<lambda>s. find (\<lambda>k. strategy_name k = s) [Priority, RoundRobin, Weighted, Economy])"

fun headers_of_json :: "json \<Rightarrow> (string \<times> string) list option" where
  "headers_of_json (JObj m) = all_some (map (\<lambda>(k, v). map_option (Pair k) (as_str v)) m)"
| "headers_of_json _ = None"

definition caps_of_json :: "json \<Rightarrow> route_capabilities option" where
  "caps_of_json v =
     and_then (req ''tools'' as_bool v) (\<lambda>t. and_then (req ''vision'' as_bool v) (\<lambda>i.
     and_then (req ''json_mode'' as_bool v) (\<lambda>j. and_then (maybe ''max_context'' as_u32 v) (\<lambda>n.
     Some \<lparr>cap_tools = t, cap_vision = i, cap_json_mode = j, cap_max_context = n\<rparr>))))"

definition mask_of_json :: "json \<Rightarrow> portable_mask option" where
  "mask_of_json v =
     and_then (req ''name'' as_str v) (\<lambda>name. and_then (req ''kind'' as_str v) (\<lambda>kind.
     and_then (req ''endpoint_url'' as_str v) (\<lambda>url. and_then (req ''secret'' as_str v) (\<lambda>secret.
     and_then (dflt ''max_body_bytes'' 0 as_i64 v) (\<lambda>limit. and_then (maybe ''expected_egress_ip'' as_str v) (\<lambda>ip.
     and_then (dflt ''shared'' False as_bool v) (\<lambda>shared.
     Some \<lparr>qm_name = name, qm_kind = kind, qm_endpoint_url = url, qm_secret = secret, qm_max_body_bytes = limit,
       qm_expected_egress_ip = ip, qm_shared = shared\<rparr>)))))))"

definition provider_of_json :: "json \<Rightarrow> portable_provider option" where
  "provider_of_json v =
     and_then (req ''name'' as_str v) (\<lambda>name. and_then (maybe ''description'' as_str v) (\<lambda>desc.
     and_then (req ''base_url'' as_str v) (\<lambda>url. and_then (req ''auth_token'' as_str v) (\<lambda>token.
     and_then (req ''kind'' kind_of_json v) (\<lambda>kind. and_then (req ''extra_headers'' headers_of_json v) (\<lambda>hs.
     and_then (maybe ''masking_server'' as_str v) (\<lambda>hop. and_then (dflt ''shared'' False as_bool v) (\<lambda>shared.
     Some \<lparr>qp_name = name, qp_description = desc, qp_base_url = url, qp_auth_token = token, qp_kind = kind,
       qp_extra_headers = hs, qp_mask = hop, qp_shared = shared\<rparr>))))))))"

definition entry_of_json :: "(int \<Rightarrow> f64) \<Rightarrow> json \<Rightarrow> portable_entry option" where
  "entry_of_json fl v =
     and_then (dflt ''provider_name'' [] as_str v) (\<lambda>name. and_then (req ''model_id'' as_str v) (\<lambda>model.
     and_then (req ''priority'' as_i32 v) (\<lambda>priority. and_then (req ''weight'' (as_f64 fl) v) (\<lambda>weight.
     and_then (req ''capabilities'' caps_of_json v) (\<lambda>caps. and_then (dflt ''price_per_1m'' (FFin 0) (as_f64 fl) v) (\<lambda>price.
     and_then (maybe ''route'' as_str v) (\<lambda>r.
     Some \<lparr>qe_provider_name = name, qe_model_id = model, qe_priority = priority, qe_weight = weight,
       qe_capabilities = caps, qe_price_per_1m = price, qe_route = r\<rparr>)))))))"

definition route_of_json :: "(int \<Rightarrow> f64) \<Rightarrow> json \<Rightarrow> portable_route option" where
  "route_of_json fl v =
     and_then (req ''name'' as_str v) (\<lambda>name. and_then (maybe ''description'' as_str v) (\<lambda>desc.
     and_then (req ''strategy'' strategy_of_json v) (\<lambda>strategy. and_then (maybe ''identity'' as_str v) (\<lambda>identity.
     and_then (dflt ''max_tokens'' 0 as_u32 v) (\<lambda>limit. and_then (dflt ''cache_ttl_secs'' 0 as_i64 v) (\<lambda>ttl.
     and_then (req ''entries'' (list_of (entry_of_json fl)) v) (\<lambda>es.
     Some \<lparr>qr_name = name, qr_description = desc, qr_strategy = strategy, qr_identity = identity, qr_max_tokens = limit,
       qr_cache_ttl_secs = ttl, qr_entries = es\<rparr>)))))))"

definition proxy_of_json :: "(int \<Rightarrow> f64) \<Rightarrow> json \<Rightarrow> portable_proxy option" where
  "proxy_of_json fl v =
     and_then (req ''name'' as_str v) (\<lambda>name. and_then (maybe ''description'' as_str v) (\<lambda>desc.
     and_then (req ''routes'' (list_of (route_of_json fl)) v) (\<lambda>rs.
     Some \<lparr>qx_name = name, qx_description = desc, qx_routes = rs\<rparr>)))"

definition profile_of_json :: "(int \<Rightarrow> f64) \<Rightarrow> json \<Rightarrow> portable_profile option" where
  "profile_of_json fl v =
     and_then (req ''name'' as_str v) (\<lambda>name. and_then (maybe ''description'' as_str v) (\<lambda>desc.
     and_then (dflt ''masking_servers'' [] (list_of mask_of_json) v) (\<lambda>ms. and_then (maybe ''default_masking_server'' as_str v) (\<lambda>hop.
     and_then (req ''providers'' (list_of provider_of_json) v) (\<lambda>ps. and_then (req ''proxies'' (list_of (proxy_of_json fl)) v) (\<lambda>xs.
     Some \<lparr>qf_name = name, qf_description = desc, qf_masks = ms, qf_default_mask = hop, qf_providers = ps, qf_proxies = xs\<rparr>))))))"

section \<open>Reading the tree out\<close>

definition export_mask :: "masking_server \<Rightarrow> portable_mask" where
  "export_mask m = \<lparr>qm_name = mk_name m, qm_kind = mk_kind m, qm_endpoint_url = mk_endpoint_url m, qm_secret = mk_secret m,
     qm_max_body_bytes = mk_max_body_bytes m, qm_expected_egress_ip = mk_expected_egress_ip m, qm_shared = mk_shared m\<rparr>"

definition export_provider :: "provider \<Rightarrow> portable_provider" where
  "export_provider p = \<lparr>qp_name = pv_name p, qp_description = pv_description p, qp_base_url = pv_base_url p,
     qp_auth_token = pv_auth_token p, qp_kind = pv_kind p, qp_extra_headers = pv_extra_headers p,
     qp_mask = map_option mk_name (pv_mask p), qp_shared = pv_shared p\<rparr>"

definition entry_with :: "route_entry \<Rightarrow> string \<Rightarrow> string option \<Rightarrow> portable_entry" where
  "entry_with e name r = \<lparr>qe_provider_name = name, qe_model_id = re_model_id e, qe_priority = re_priority e,
     qe_weight = re_weight e, qe_capabilities = re_capabilities e, qe_price_per_1m = re_price_per_1m e, qe_route = r\<rparr>"

text \<open>The label of a nested entry's target; a target of another profile is named with its owner.\<close>

definition target_label :: "profile \<Rightarrow> db \<Rightarrow> int \<Rightarrow> console_error + string" where
  "target_label me d i =
     res_bind (as_console (get_route_by_id i d)) (\<lambda>found.
     res_bind (ok_or Dangling_Entry found) (\<lambda>target.
     res_bind (ok_or Dangling_Entry (get_proxy (rt_proxy_id target) d)) (\<lambda>x.
       if px_profile_id x = pf_id me then Inr (px_name x @ ''/'' @ rt_name target)
       else (let owner = (case get_profile_by_id (px_profile_id x) d of None \<Rightarrow> px_profile_id x | Some p \<Rightarrow> pf_name p)
             in Inr (owner @ ''/'' @ px_name x @ ''/'' @ rt_name target)))))"

definition export_entry :: "cipher \<Rightarrow> profile \<Rightarrow> db \<Rightarrow> route_entry \<Rightarrow> console_error + portable_entry" where
  "export_entry c me d e =
     (case re_target_route_id e of
        Some i \<Rightarrow> res_bind (target_label me d i) (\<lambda>label. Inr (entry_with e [] (Some label)))
      | None \<Rightarrow>
          (case re_provider_id e of
             None \<Rightarrow> Inl Dangling_Entry
           | Some i \<Rightarrow>
               (case get_provider c i d of
                  Inr (Some p) \<Rightarrow> Inr (entry_with e (pv_name p) None)
                | _ \<Rightarrow> Inl Dangling_Entry)))"

definition export_route :: "cipher \<Rightarrow> profile \<Rightarrow> db \<Rightarrow> route \<Rightarrow> console_error + portable_route" where
  "export_route c me d r =
     res_bind (as_console (route_entries (rt_id r) d)) (\<lambda>es.
     res_bind (map_res (export_entry c me d) es) (\<lambda>qs.
     Inr \<lparr>qr_name = rt_name r, qr_description = rt_description r, qr_strategy = rt_strategy r, qr_identity = rt_identity r,
       qr_max_tokens = rt_max_tokens r, qr_cache_ttl_secs = rt_cache_ttl_secs r, qr_entries = qs\<rparr>))"

definition export_proxy :: "cipher \<Rightarrow> profile \<Rightarrow> db \<Rightarrow> proxy \<Rightarrow> console_error + portable_proxy" where
  "export_proxy c me d x =
     res_bind (as_console (list_routes (px_id x) d)) (\<lambda>rs.
     res_bind (map_res (export_route c me d) rs) (\<lambda>qs.
     Inr \<lparr>qx_name = px_name x, qx_description = px_description x, qx_routes = qs\<rparr>))"

definition export_bundle :: "cipher \<Rightarrow> profile \<Rightarrow> db \<Rightarrow> console_error + portable_profile" where
  "export_bundle c me d =
     res_bind (as_console (list_providers c (pf_id me) d)) (\<lambda>ps.
     res_bind (as_console (list_masking_servers c (pf_id me) d)) (\<lambda>ms.
     res_bind (map_res (export_proxy c me d) (list_proxies (pf_id me) d)) (\<lambda>xs.
     Inr \<lparr>qf_name = pf_name me, qf_description = pf_description me, qf_masks = map export_mask ms,
       qf_default_mask = and_then (pf_default_mask me) (\<lambda>i. map_option mk_name (find (\<lambda>m. mk_id m = i) ms)),
       qf_providers = map export_provider ps, qf_proxies = xs\<rparr>)))"

section \<open>The sealed file\<close>

record portable_file =
  fx_format :: string
  fx_version :: nat
  fx_salt :: string
  fx_data :: string

record seal_kit =
  sk_vault :: vault
  sk_aead :: aead
  sk_codec :: codec
  sk_float :: "int \<Rightarrow> f64"

definition seal_bundle :: "seal_kit \<Rightarrow> bytes \<Rightarrow> bytes \<Rightarrow> portable_profile \<Rightarrow> string \<Rightarrow> console_error + portable_file" where
  "seal_bundle K salt nonce b password =
     res_bind (derive_key (sk_vault K) password salt) (\<lambda>raw.
     res_bind (as_console (lift_crypto (key_from_bytes raw))) (\<lambda>key.
     Inr \<lparr>fx_format = ''agos-profile'', fx_version = 1, fx_salt = vt_hex (sk_vault K) salt,
       fx_data = vt_hex (sk_vault K) (encrypt (sk_aead K) key nonce (js_print (sk_codec K) (profile_to_json b)))\<rparr>))"

definition unseal_bundle :: "seal_kit \<Rightarrow> portable_file \<Rightarrow> string \<Rightarrow> console_error + portable_profile" where
  "unseal_bundle K f password =
     (if fx_format f \<noteq> ''agos-profile'' then Inl (Not_An_Export (fx_format f))
      else if fx_version f \<noteq> 1 then Inl (Bad_Version (fx_version f))
      else res_bind (ok_or Bad_Encoding (vt_unhex (sk_vault K) (fx_salt f))) (\<lambda>salt.
           res_bind (derive_key (sk_vault K) password salt) (\<lambda>raw.
           res_bind (as_console (lift_crypto (key_from_bytes raw))) (\<lambda>key.
           res_bind (ok_or Bad_Encoding (vt_unhex (sk_vault K) (fx_data f))) (\<lambda>ct.
           res_bind (as_console (lift_crypto (decrypt (sk_aead K) key ct))) (\<lambda>plaintext.
           ok_or Bad_Bundle (and_then (js_parse (sk_codec K) plaintext) (profile_of_json (sk_float K)))))))))"

section \<open>Building the tree elsewhere\<close>

record import_draws =
  im_now :: int
  im_token :: "nat \<times> nat"
  im_mask_nonce :: "nat \<Rightarrow> bytes"
  im_provider_nonce :: "nat \<Rightarrow> bytes"

type_synonym name_ids = "string \<Rightarrow> int option"

definition import_mask :: "cipher \<Rightarrow> import_draws \<Rightarrow> string \<Rightarrow> nat \<times> portable_mask \<Rightarrow> name_ids \<Rightarrow> name_ids action" where
  "import_mask c R pid im known =
     (case im of (i, m) \<Rightarrow>
        next_with (doing (create_masking_server c (im_mask_nonce R i) pid
          \<lparr>nm_name = qm_name m, nm_kind = qm_kind m, nm_endpoint_url = qm_endpoint_url m, nm_secret = qm_secret m,
           nm_max_body_bytes = qm_max_body_bytes m, nm_expected_egress_ip = qm_expected_egress_ip m,
           nm_shared = qm_shared m\<rparr>)) (\<lambda>made.
        give (known(mk_name made \<mapsto> mk_id made))))"

definition import_provider ::
  "cipher \<Rightarrow> import_draws \<Rightarrow> string \<Rightarrow> name_ids \<Rightarrow> nat \<times> portable_provider \<Rightarrow> name_ids \<Rightarrow> name_ids action" where
  "import_provider c R pid hops ip known =
     (case ip of (i, p) \<Rightarrow>
        next_with (doing (create_provider c (im_provider_nonce R i) pid
          \<lparr>np_name = qp_name p, np_description = qp_description p, np_base_url = qp_base_url p,
           np_auth_token = qp_auth_token p, np_kind = qp_kind p, np_extra_headers = qp_extra_headers p,
           np_mask_id = and_then (qp_mask p) hops, np_shared = qp_shared p\<rparr>)) (\<lambda>made.
        give (known(pv_name made \<mapsto> pv_id made))))"

text \<open>A nested entry waits: the route it is in, the reference, priority, weight and label.\<close>

type_synonym waiting_ref = "int \<times> string \<times> int \<times> f64 \<times> string"

definition import_entry :: "name_ids \<Rightarrow> int \<Rightarrow> portable_entry \<Rightarrow> waiting_ref list \<Rightarrow> waiting_ref list action" where
  "import_entry known rid e pending =
     (case qe_route e of
        Some r \<Rightarrow>
          (if length (split_on CHR ''/'' r) = 2
           then give (pending @ [(rid, r, qe_priority e, qe_weight e, qe_model_id e)])
           else refuse (Bad_Reference r))
      | None \<Rightarrow>
          next_with (need (Unknown_Provider (qe_provider_name e)) (known (qe_provider_name e))) (\<lambda>i.
          next_with (doing (add_route_entry rid i (qe_model_id e) (qe_priority e) (qe_weight e) (qe_capabilities e))) (\<lambda>made.
          next_with (if FFin 0 < qe_price_per_1m e then trying (set_route_entry_price (re_id made) (qe_price_per_1m e)) else give ()) (\<lambda>_.
          give pending))))"

definition import_route :: "name_ids \<Rightarrow> int \<Rightarrow> portable_route \<Rightarrow> waiting_ref list \<Rightarrow> waiting_ref list action" where
  "import_route known xid r pending =
     next_with (doing (create_route xid (qr_name r) (qr_description r) (qr_strategy r) (qr_identity r))) (\<lambda>made.
     next_with (if qr_max_tokens r > 0 \<or> qr_cache_ttl_secs r > 0
                then trying (set_route_economy (rt_id made) (qr_max_tokens r) (qr_cache_ttl_secs r)) else give ()) (\<lambda>_.
     each (import_entry known (rt_id made)) (qr_entries r) pending))"

definition import_proxy :: "name_ids \<Rightarrow> string \<Rightarrow> portable_proxy \<Rightarrow> waiting_ref list \<Rightarrow> waiting_ref list action" where
  "import_proxy known pid x pending =
     next_with (doing (create_proxy pid (qx_name x) (qx_description x))) (\<lambda>made.
     each (import_route known (px_id made)) (qx_routes x) pending)"

definition import_ref :: "string \<Rightarrow> waiting_ref \<Rightarrow> unit \<Rightarrow> unit action" where
  "import_ref pid ref u =
     (case ref of (rid, label, priority, weight, model) \<Rightarrow>
        next_with (need (Bad_Reference label) (split_once CHR ''/'' label)) (\<lambda>(proxy_name, route_name).
        next_with (looking (list_proxies pid)) (\<lambda>xs.
        next_with (need (Unknown_Proxy proxy_name) (find (\<lambda>x. px_name x = proxy_name) xs)) (\<lambda>target.
        next_with (reading (get_route_named (px_id target) route_name)) (\<lambda>found.
        next_with (need (Unknown_Route route_name) found) (\<lambda>target_route.
        next_with (doing (add_route_entry_ref rid (rt_id target_route) model priority weight)) (\<lambda>_. give ())))))))"

definition import_tree :: "cipher \<Rightarrow> import_draws \<Rightarrow> string \<Rightarrow> portable_profile \<Rightarrow> unit action" where
  "import_tree c R pid b =
     next_with (each (import_mask c R pid) (enumerate 0 (qf_masks b)) (\<lambda>_. None)) (\<lambda>hops.
     next_with (case and_then (qf_default_mask b) hops of
                  None \<Rightarrow> give () | Some i \<Rightarrow> doing (set_profile_default_masking pid (Some i) (im_now R))) (\<lambda>_.
     next_with (each (import_provider c R pid hops) (enumerate 0 (qf_providers b)) (\<lambda>_. None)) (\<lambda>known.
     next_with (each (import_proxy known pid) (qf_proxies b) []) (\<lambda>pending.
     each (import_ref pid) pending ()))))"

definition import_bundle :: "cipher \<Rightarrow> import_draws \<Rightarrow> portable_profile \<Rightarrow> string \<Rightarrow> string action" where
  "import_bundle c R b name =
     next_with (looking (get_profile_by_name name)) (\<lambda>taken.
     next_with (ensure (taken = None) (Profile_Exists name)) (\<lambda>_.
     next_with (doing (create_profile name (qf_description b) None (fst (im_token R)) (snd (im_token R)) (im_now R))) (\<lambda>me.
     next_with (import_tree c R (pf_id me) b) (\<lambda>_.
     give (pf_id me)))))"

section \<open>The JSON form is read back\<close>

text \<open>
  What the types of the code promise of a bundle - integers in their range, headers as a
  map - and that no weight or price is a NaN or an infinity, which JSON cannot express.
\<close>

definition finite_f64 :: "f64 \<Rightarrow> bool" where
  "finite_f64 x \<longleftrightarrow> (case x of FFin q \<Rightarrow> True | _ \<Rightarrow> False)"

definition entry_printable :: "portable_entry \<Rightarrow> bool" where
  "entry_printable e \<longleftrightarrow> - (2 ^ 31) \<le> qe_priority e \<and> qe_priority e < 2 ^ 31 \<and> finite_f64 (qe_weight e)
     \<and> finite_f64 (qe_price_per_1m e) \<and> (case cap_max_context (qe_capabilities e) of None \<Rightarrow> True | Some n \<Rightarrow> n < 2 ^ 32)"

definition route_printable :: "portable_route \<Rightarrow> bool" where
  "route_printable r \<longleftrightarrow> qr_max_tokens r < 2 ^ 32 \<and> in_i64 (qr_cache_ttl_secs r) \<and> list_all entry_printable (qr_entries r)"

definition printable :: "portable_profile \<Rightarrow> bool" where
  "printable b \<longleftrightarrow> list_all (\<lambda>m. in_i64 (qm_max_body_bytes m)) (qf_masks b)
     \<and> list_all (\<lambda>p. sorted (map fst (qp_extra_headers p)) \<and> distinct (map fst (qp_extra_headers p))) (qf_providers b)
     \<and> list_all (\<lambda>x. list_all route_printable (qx_routes x)) (qf_proxies b)"

lemma read_object:
  assumes "distinct (map fst es)"
  shows "req k rd (object es) = and_then (map_of es k) rd"
    "maybe k rd (object es) = (case map_of es k of None \<Rightarrow> Some None | Some w \<Rightarrow> (if w = JNull then Some None else map_option Some (rd w)))"
    "dflt k z rd (object es) = (case map_of es k of None \<Rightarrow> Some z | Some w \<Rightarrow> rd w)"
  using map_of_insert_all[OF assms, of "[]" k]
  by (auto simp: req_def maybe_def dflt_def object_def split: option.splits)

lemma all_some_id: "(\<And>x. x \<in> set xs \<Longrightarrow> f (g x) = Some x) \<Longrightarrow> all_some (map f (map g xs)) = Some xs"
  by (induction xs) simp_all

lemma kind_read [simp]: "kind_of_json (JStr (kind_name k)) = Some k"
  by (cases k) (simp_all add: kind_of_json_def and_then_def)

lemma strategy_read [simp]: "strategy_of_json (JStr (strategy_name k)) = Some k"
  by (cases k) (simp_all add: strategy_of_json_def and_then_def)

lemma f64_read: "finite_f64 x \<Longrightarrow> f64_to_json x \<noteq> JNull \<and> as_f64 fl (f64_to_json x) = Some x"
  by (cases x) (simp_all add: finite_f64_def)

lemma opt_read: "(if opt_to_json x = JNull then Some None else map_option Some (as_str (opt_to_json x))) = Some x"
  by (cases x) simp_all

lemma caps_read:
  assumes "case cap_max_context k of None \<Rightarrow> True | Some n \<Rightarrow> n < 2 ^ 32"
  shows "caps_of_json (caps_to_json k) = Some k"
proof (cases "cap_max_context k")
  case None
  then show ?thesis by (simp add: caps_of_json_def caps_to_json_def read_object and_then_def)
next
  case (Some n)
  then have "int n < 2 ^ 32" using assms by simp
  with Some show ?thesis by (simp add: caps_of_json_def caps_to_json_def read_object and_then_def as_u32_def)
qed

lemma mask_read:
  assumes "in_i64 (qm_max_body_bytes m)"
  shows "mask_of_json (mask_to_json m) = Some m"
  using assms by (cases "qm_expected_egress_ip m")
    (simp_all add: mask_of_json_def mask_to_json_def unless_none_def read_object and_then_def)

lemma headers_read: "headers_of_json (JObj (map (\<lambda>(k, v). (k, JStr v)) hs)) = Some hs"
  by (simp add: case_prod_unfold o_def) (induction hs; simp)

lemma provider_read: "provider_of_json (provider_to_json p) = Some p"
  by (cases "qp_mask p"; cases "qp_description p")
    (simp_all add: provider_of_json_def provider_to_json_def unless_none_def read_object and_then_def headers_read del: headers_of_json.simps)

lemma entry_read:
  assumes "entry_printable e"
  shows "entry_of_json fl (entry_to_json e) = Some e"
  using assms f64_read[of "qe_weight e" fl] f64_read[of "qe_price_per_1m e" fl] caps_read[of "qe_capabilities e"]
  by (cases "qe_route e")
    (simp_all add: entry_of_json_def entry_to_json_def unless_none_def read_object and_then_def entry_printable_def as_i32_def)

lemma route_read:
  assumes "route_printable r"
  shows "route_of_json fl (route_to_json r) = Some r"
proof -
  have "all_some (map (entry_of_json fl) (map entry_to_json (qr_entries r))) = Some (qr_entries r)"
    by (rule all_some_id) (use assms in \<open>simp add: route_printable_def list_all_iff entry_read\<close>)
  moreover have "int (qr_max_tokens r) < 2 ^ 32" using assms by (simp add: route_printable_def)
  ultimately show ?thesis
    using assms by (cases "qr_description r"; cases "qr_identity r")
      (simp_all add: route_of_json_def route_to_json_def read_object and_then_def as_u32_def route_printable_def)
qed

lemma proxy_read:
  assumes "list_all route_printable (qx_routes x)"
  shows "proxy_of_json fl (proxy_to_json x) = Some x"
proof -
  have "all_some (map (route_of_json fl) (map route_to_json (qx_routes x))) = Some (qx_routes x)"
    by (rule all_some_id) (use assms in \<open>simp add: list_all_iff route_read\<close>)
  then show ?thesis
    by (cases "qx_description x") (simp_all add: proxy_of_json_def proxy_to_json_def read_object and_then_def)
qed

lemma profile_read:
  assumes "printable b"
  shows "profile_of_json fl (profile_to_json b) = Some b"
proof -
  have ms: "all_some (map mask_of_json (map mask_to_json (qf_masks b))) = Some (qf_masks b)"
    by (rule all_some_id) (use assms in \<open>simp add: printable_def list_all_iff mask_read\<close>)
  have ps: "all_some (map provider_of_json (map provider_to_json (qf_providers b))) = Some (qf_providers b)"
    by (rule all_some_id) (simp add: provider_read)
  have xs: "all_some (map (proxy_of_json fl) (map proxy_to_json (qf_proxies b))) = Some (qf_proxies b)"
    by (rule all_some_id) (use assms in \<open>simp add: printable_def list_all_iff proxy_read\<close>)
  show ?thesis
    using ms ps xs
    by (cases "qf_description b"; cases "qf_default_mask b"; cases "qf_masks b = []")
      (simp_all add: profile_of_json_def profile_to_json_def unless_none_def unless_empty_def read_object and_then_def)
qed

section \<open>Sealing and opening\<close>

lemma printable_json_ok:
  assumes "printable b"
  shows "json_ok (profile_to_json b)"
proof -
  have opt: "json_ok (opt_to_json x)" for x by (cases x) simp_all
  have f64: "json_ok (f64_to_json x)" for x by (cases x) simp_all
  have caps: "json_ok (caps_to_json k)" for k
    unfolding caps_to_json_def by (rule json_ok_object) (auto split: option.splits)
  have entry: "json_ok (entry_to_json e)" for e
    unfolding entry_to_json_def by (rule json_ok_object) (auto simp: unless_none_def f64 caps split: option.splits)
  have route: "json_ok (route_to_json r)" for r
    unfolding route_to_json_def by (rule json_ok_object) (auto simp: opt entry list_all_iff)
  have proxy: "json_ok (proxy_to_json x)" for x
    unfolding proxy_to_json_def by (rule json_ok_object) (auto simp: opt route list_all_iff)
  have mask: "json_ok (mask_to_json m)" for m
    unfolding mask_to_json_def by (rule json_ok_object) (auto simp: unless_none_def split: option.splits)
  have provider: "json_ok (provider_to_json p)" if "p \<in> set (qf_providers b)" for p
  proof -
    have "json_ok (JObj (map (\<lambda>(k, v). (k, JStr v)) (qp_extra_headers p)))"
      using assms that by (simp add: printable_def list_all_iff obj_ok_def case_prod_unfold o_def)
    then show ?thesis
      unfolding provider_to_json_def
      by (intro json_ok_object) (auto simp: opt unless_none_def simp del: json_ok.simps(2) split: option.splits)
  qed
  show ?thesis
    unfolding profile_to_json_def
    by (rule json_ok_object) (auto simp: opt unless_none_def unless_empty_def list_all_iff mask provider proxy split: option.splits if_splits)
qed


definition demo_kit :: seal_kit where
  "demo_kit = \<lparr>sk_vault = toy_vault, sk_aead = tagging_aead, sk_codec = demo_codec, sk_float = (\<lambda>n. FFin (of_int n))\<rparr>"

definition demo_bundle :: portable_profile where
  "demo_bundle =
     \<lparr>qf_name = ''me'', qf_description = None,
      qf_masks = [\<lparr>qm_name = ''hop'', qm_kind = ''vps'', qm_endpoint_url = ''https://hop'', qm_secret = ''s3'', qm_max_body_bytes = 0,
         qm_expected_egress_ip = None, qm_shared = False\<rparr>],
      qf_default_mask = None,
      qf_providers = [\<lparr>qp_name = ''up'', qp_description = None, qp_base_url = ''https://up'', qp_auth_token = ''sk'', qp_kind = OpenAI,
         qp_extra_headers = [(''X-A'', ''1'')], qp_mask = Some ''hop'', qp_shared = False\<rparr>],
      qf_proxies = [\<lparr>qx_name = ''p'', qx_description = None, qx_routes =
        [\<lparr>qr_name = ''a'', qr_description = None, qr_strategy = Economy, qr_identity = None, qr_max_tokens = 100, qr_cache_ttl_secs = 60,
           qr_entries =
             [\<lparr>qe_provider_name = ''up'', qe_model_id = ''m'', qe_priority = 1, qe_weight = FFin 1, qe_capabilities = default_caps,
                qe_price_per_1m = FFin 3, qe_route = None\<rparr>,
              \<lparr>qe_provider_name = [], qe_model_id = ''p/b'', qe_priority = 2, qe_weight = FFin 1, qe_capabilities = default_caps,
                qe_price_per_1m = FFin 0, qe_route = Some ''p/b''\<rparr>]\<rparr>,
         \<lparr>qr_name = ''b'', qr_description = None, qr_strategy = Priority, qr_identity = None, qr_max_tokens = 0, qr_cache_ttl_secs = 0,
           qr_entries =
             [\<lparr>qe_provider_name = ''up'', qe_model_id = ''m-mini'', qe_priority = 1, qe_weight = FFin 1, qe_capabilities = default_caps,
                qe_price_per_1m = price_cheap, qe_route = None\<rparr>]\<rparr>]\<rparr>]\<rparr>"

lemma demo_printable: "printable demo_bundle"
  by (simp add: demo_bundle_def printable_def route_printable_def entry_printable_def finite_f64_def in_i64_def
      default_caps_def price_cheap_def)


end
