(* ===== verification/Console_Props.thy ===== *)
theory Console_Props
  imports Console_Routes Console_Providers Portable
begin

text \<open>
  What the commands of the console have in common: whatever is typed, the store stays sound;
  and a command that asks for the profile's password changes nothing without it. Then two
  commands on their own: where a moved model ends up, and what a reference to a route means.
\<close>

section \<open>Commands\<close>

datatype command =
    Profile_Create "string option" | Token_Rotate string | Profile_Limit string "int option"
  | Profile_Edit "string option" | Profile_Delete "string option" bool
  | Proxy_Create "string option" | Proxy_Edit "string option" | Proxy_Delete "string option"
  | Route_Create "desk list" "string option" | Route_Edit "string option" | Route_Delete "string option"
  | Route_Share "string option" "string option" "string option" "bool option"
  | Route_Economy "string option" "string option" "string option" "nat option" "int option"
  | Model_Add bool "string option" "string option" "string option" "string option" "string option" "f64 option" "f64 option"
      bool "string option"
  | Model_Remove "string option" "string option" "string option" "string option" bool
  | Model_Move "string option" "string option" "string option" "string option" "int option"
  | Model_Price "string option" "string option" "string option" "string option" "f64 option"
  | Provider_Add provider_flags | Provider_Edit "string option" | Provider_Delete "string option" "string option" bool
  | Provider_Share "string option" "string option" "bool option"
  | Mask_Add mask_flags | Mask_Set "string option" "string option" mask_changes
  | Mask_Set_Default "string option" "string option" | Mask_Delete "string option" "string option" bool
  | Mask_Test "string option" "string option" bool "probe_answer list"
  | Mask_Audit "string option" "masking_server \<Rightarrow> probe_answer"

definition forget :: "'a action \<Rightarrow> unit action" where
  "forget m = next_with m (\<lambda>_. give ())"

fun run_command :: "desk \<Rightarrow> command \<Rightarrow> unit action" where
  "run_command E (Profile_Create n) = forget (profile_create E n)"
| "run_command E (Token_Rotate n) = forget (token_rotate E n)"
| "run_command E (Profile_Limit n rpm) = profile_limit E n rpm"
| "run_command E (Profile_Edit n) = profile_edit E n"
| "run_command E (Profile_Delete n yes) = profile_delete E n yes"
| "run_command E (Proxy_Create p) = proxy_create E p"
| "run_command E (Proxy_Edit p) = proxy_edit E p"
| "run_command E (Proxy_Delete p) = proxy_delete E p"
| "run_command E (Route_Create Es x) = route_create E Es x"
| "run_command E (Route_Edit x) = route_edit E x"
| "run_command E (Route_Delete x) = route_delete E x"
| "run_command E (Route_Share p x r s) = route_share E p x r s"
| "run_command E (Route_Economy p x r m t) = economy_limits E p x r m t"
| "run_command E (Model_Add a p x r v m w pr yes from) = model_add E a p x r v m w pr yes from"
| "run_command E (Model_Remove p x r m yes) = model_remove E p x r m yes"
| "run_command E (Model_Move p x r m n) = model_move E p x r m n"
| "run_command E (Model_Price p x r m pr) = model_price E p x r m pr"
| "run_command E (Provider_Add F) = provider_add E F"
| "run_command E (Provider_Edit p) = provider_edit E p"
| "run_command E (Provider_Delete p v yes) = provider_delete E p v yes"
| "run_command E (Provider_Share p v s) = provider_share E p v s"
| "run_command E (Mask_Add F) = mask_add E F"
| "run_command E (Mask_Set p m C) = mask_set E p m C"
| "run_command E (Mask_Set_Default p m) = mask_set_default E p m"
| "run_command E (Mask_Delete p m yes) = mask_delete E p m yes"
| "run_command E (Mask_Test p m ip answers) = mask_test E p m ip answers"
| "run_command E (Mask_Audit p answer) = mask_audit E p answer"

section \<open>Integrity\<close>

lemma sound_do [acts_rules]:
  "(\<And>d. db_ok d \<Longrightarrow> db_ok (snd (m d))) \<Longrightarrow> acts db_ok (doing m) (\<lambda>_. True)"
  "(\<And>d. db_ok d \<Longrightarrow> db_ok (snd (m d))) \<Longrightarrow> acts db_ok (trying m) (\<lambda>_. True)"
  by (rule acts_do; simp)+

lemma sound_next: "acts I m (\<lambda>_. True) \<Longrightarrow> (\<And>x. acts I (k x) (\<lambda>_. True)) \<Longrightarrow> acts I (next_with m k) (\<lambda>_. True)"
  by (rule acts_next)

lemma sound_each: "(\<And>x s. acts I (f x s) (\<lambda>_. True)) \<Longrightarrow> acts I (each f xs s) (\<lambda>_. True)"
  by (rule acts_each) auto

lemma sound_pure:
  "acts I (give x) (\<lambda>_. True)" "acts I (refuse e) (\<lambda>_. True)" "acts I (from_result r) (\<lambda>_. True)"
  "acts I (need e y) (\<lambda>_. True)" "acts I (ensure b e) (\<lambda>_. True)" "acts I (looking q) (\<lambda>_. True)"
  "acts I (reading q') (\<lambda>_. True)"
  by (auto intro: acts_pure acts_read)

lemma sound_if: "acts I m Q \<Longrightarrow> acts I k Q \<Longrightarrow> acts I (if b then m else k) Q"
  by simp

lemma sound_dialogs:
  "acts I (text_of E f) (\<lambda>_. True)" "acts I (answer_of E q) (\<lambda>_. True)" "acts I (row_of E m xs) (\<lambda>_. True)"
  "acts I (pick_among E m xs) (\<lambda>_. True)" "acts I (unlocked E p) (\<lambda>_. True)"
  by (auto simp: text_of_def answer_of_def row_of_def pick_among_def unlocked_def intro!: sound_pure split: option.split)

lemmas sound = sound_next sound_each sound_pure sound_dialogs sound_do sound_if

lemma sound_finding:
  "acts I (resolve_profile E n) (\<lambda>_. True)" "acts I (pick_proxy E p) (\<lambda>_. True)" "acts I (pick_route E x) (\<lambda>_. True)"
  "acts I (pick_provider E p) (\<lambda>_. True)" "acts I (require_profile name) (\<lambda>_. True)"
  by (auto simp: resolve_profile_def pick_profile_def pick_proxy_def pick_route_def pick_provider_def require_profile_def
      intro!: sound split: option.split)

lemma sound_forget: "acts I m (\<lambda>_. True) \<Longrightarrow> acts I (forget m) (\<lambda>_. True)"
  unfolding forget_def by (intro sound)

lemma sound_profiles:
  "acts db_ok (profile_create E n) (\<lambda>_. True)" "acts db_ok (token_rotate E name) (\<lambda>_. True)"
  "acts db_ok (profile_limit E name rpm) (\<lambda>_. True)" "acts db_ok (profile_edit E n) (\<lambda>_. True)"
  "acts db_ok (profile_delete E n yes) (\<lambda>_. True)" "acts db_ok (proxy_create E n) (\<lambda>_. True)"
  "acts db_ok (proxy_edit E n) (\<lambda>_. True)" "acts db_ok (proxy_delete E n) (\<lambda>_. True)"
  by (auto simp: profile_create_def token_rotate_def profile_limit_def profile_edit_def profile_delete_def proxy_create_def
      proxy_edit_def proxy_delete_def if_sure_def keeps intro!: sound sound_finding split: option.split)

lemma sound_route_finding:
  "acts I (resolve_proxy E n x) (\<lambda>_. True)" "acts I (resolve_named_route E y r) (\<lambda>_. True)" "acts I (pick_entry E s) (\<lambda>_. True)"
  "acts I (chosen_entry E s m) (\<lambda>_. True)" "acts I (pick_strategy E) (\<lambda>_. True)" "acts I (prompt_capabilities E) (\<lambda>_. True)"
  "acts I (next_priority s) (\<lambda>_. True)" "acts I (resolve_route_ref me target) (\<lambda>_. True)"
  by (auto simp: resolve_proxy_def resolve_named_route_def pick_entry_def chosen_entry_def pick_strategy_def prompt_capabilities_def
      next_priority_def resolve_route_ref_def intro!: sound sound_finding split: option.split prod.split)

lemma sound_prompted: "acts db_ok (prompt_route_entry E p rid priority) (\<lambda>_. True)"
  by (auto simp: prompt_route_entry_def keeps intro!: sound sound_finding sound_route_finding)

lemma sound_rounds: "acts db_ok (add_rounds Es p rid priority) (\<lambda>_. True)"
  by (induction Es arbitrary: priority) (auto intro!: sound sound_prompted)

lemma sound_routes:
  "acts db_ok (route_create E Es x) (\<lambda>_. True)" "acts db_ok (route_edit E x) (\<lambda>_. True)"
  "acts db_ok (route_delete E x) (\<lambda>_. True)" "acts db_ok (route_share E p x r s) (\<lambda>_. True)"
  "acts db_ok (economy_limits E p x r mt ttl) (\<lambda>_. True)"
  by (auto simp: route_create_def route_edit_def route_delete_def route_share_def economy_limits_def if_sure_def keeps
      intro!: sound sound_finding sound_route_finding sound_rounds split: option.split prod.split)

lemma sound_models:
  "acts db_ok (model_add E a p x r v m w pr yes from) (\<lambda>_. True)" "acts db_ok (model_remove E p x r m yes) (\<lambda>_. True)"
  "acts db_ok (model_move E p x r m n) (\<lambda>_. True)" "acts db_ok (model_price E p x r m pr) (\<lambda>_. True)"
  by (auto simp: model_add_def add_nested_model_def add_flagged_model_def add_prompted_model_def price_added_def model_remove_def
      model_move_def move_entry_def shift_entry_def Let_def model_price_def if_sure_def keeps
      intro!: sound sound_finding sound_route_finding sound_prompted split: option.split prod.split)

lemma sound_providers:
  "acts db_ok (provider_add E F) (\<lambda>_. True)" "acts db_ok (provider_edit E n) (\<lambda>_. True)"
  "acts db_ok (provider_delete E n v yes) (\<lambda>_. True)" "acts db_ok (provider_share E n v s) (\<lambda>_. True)"
  by (auto simp: provider_add_def provider_from_flags_def provider_from_dialog_def resolve_mask_id_def pick_kind_def
      provider_edit_def provider_delete_def provider_share_def chosen_provider_def if_sure_def keeps
      intro!: sound sound_finding split: option.split prod.split)

lemma sound_masks:
  "acts db_ok (mask_add E F) (\<lambda>_. True)" "acts db_ok (mask_set E n m C) (\<lambda>_. True)"
  "acts db_ok (mask_set_default E n m) (\<lambda>_. True)" "acts db_ok (mask_delete E n m yes) (\<lambda>_. True)"
  "acts db_ok (mask_test E n m ip answers) (\<lambda>_. True)" "acts db_ok (mask_audit E n answer) (\<lambda>_. True)"
  by (auto simp: mask_add_def mask_from_dialog_def mask_set_def mask_set_default_def mask_delete_def mask_test_def
      mask_audit_def audit_record_def resolve_mask_def if_sure_def Let_def keeps
      intro!: sound sound_finding split: option.split prod.split sum.split bool.split)

text \<open>
  Whatever is typed into the console, the store stays sound: each command, with any flags
  and any answers, whether it ends in success or at an error half-way, leaves every foreign
  key, unique name and stored tag as the schema promises them.
\<close>

theorem console_keeps_integrity:
  assumes "db_ok d" shows "db_ok (snd (run_command E cmd d))"
proof -
  have "acts db_ok (run_command E cmd) (\<lambda>_. True)"
    by (cases cmd) (simp_all add: sound_forget sound_profiles sound_routes sound_models sound_providers sound_masks)
  then show ?thesis using assms by (simp add: acts_def)
qed

section \<open>The password\<close>

text \<open>
  The commands that ask for it: all but the creation of a profile, the request limit, the
  economy limits and prices of a route, and everything on masks.
\<close>

fun asks_password :: "command \<Rightarrow> bool" where
  "asks_password (Profile_Create n) = False"
| "asks_password (Profile_Limit n rpm) = False"
| "asks_password (Route_Economy p x r m t) = False"
| "asks_password (Model_Price p x r m pr) = False"
| "asks_password (Mask_Add F) = False"
| "asks_password (Mask_Set p m C) = False"
| "asks_password (Mask_Set_Default p m) = False"
| "asks_password (Mask_Delete p m yes) = False"
| "asks_password (Mask_Test p m ip answers) = False"
| "asks_password (Mask_Audit p answer) = False"
| "asks_password _ = True"

text \<open>The profile such a command works on.\<close>

fun chosen_profile :: "desk \<Rightarrow> command \<Rightarrow> profile action" where
  "chosen_profile E (Token_Rotate n) = require_profile n"
| "chosen_profile E (Profile_Edit n) = resolve_profile E n"
| "chosen_profile E (Profile_Delete n yes) = resolve_profile E n"
| "chosen_profile E (Proxy_Create n) = resolve_profile E n"
| "chosen_profile E (Proxy_Edit n) = resolve_profile E n"
| "chosen_profile E (Proxy_Delete n) = resolve_profile E n"
| "chosen_profile E (Route_Share n x r s) = resolve_profile E n"
| "chosen_profile E (Model_Add a n x r v m w pr yes from) = resolve_profile E n"
| "chosen_profile E (Model_Remove n x r m yes) = resolve_profile E n"
| "chosen_profile E (Model_Move n x r m i) = resolve_profile E n"
| "chosen_profile E (Provider_Add F) = resolve_profile E (pa_profile F)"
| "chosen_profile E (Provider_Edit n) = resolve_profile E n"
| "chosen_profile E (Provider_Delete n v yes) = resolve_profile E n"
| "chosen_profile E (Provider_Share n v s) = resolve_profile E n"
| "chosen_profile E _ = resolve_profile E None"

definition admitted :: "desk \<Rightarrow> profile \<Rightarrow> bool" where
  "admitted E p \<longleftrightarrow> (\<forall>h. pf_password_hash p = Some h \<longrightarrow>
     (\<exists>typed\<in>set (take 3 (dk_passwords E)). verify_password (dk_vault E) h typed = Inr True))"

lemma attempts_admit:
  "password_attempts v name h n typed = Inr () \<Longrightarrow> \<exists>x\<in>set (take n typed). verify_password v h x = Inr True"
  by (induction v name h n typed rule: password_attempts.induct) (auto simp: res_bind_def split: sum.splits if_splits)

lemma unlocked_cases: "unlocked E p = give () \<and> admitted E p \<or> (\<exists>e. unlocked E p = refuse e)"
proof (cases "ensure_password_ok (dk_vault E) (dk_passwords E) p")
  case (Inr u)
  then have "admitted E p"
    using attempts_admit[of "dk_vault E" "pf_name p" _ 3 "dk_passwords E"]
    by (auto simp: admitted_def ensure_password_ok_def)
  then show ?thesis using Inr by (simp add: unlocked_def)
qed (auto simp: unlocked_def)

lemma reads_only:
  assumes "acts (\<lambda>d'. d' = d) m (\<lambda>_. True)"
  shows "\<exists>r. m d = (r, d)"
  using assms by (auto simp: acts_def prod_eq_iff)

text \<open>Finding does not write; what follows the password is behind it.\<close>

lemma gate:
  assumes "\<And>I. acts I m (\<lambda>_. True)" "snd (next_with m (\<lambda>p. next_with (unlocked E p) (\<lambda>u. k p u)) d) \<noteq> d"
  shows "\<exists>p. m d = (Inr p, d) \<and> admitted E p"
proof -
  obtain r where r: "m d = (r, d)" using reads_only[OF assms(1)] by blast
  show ?thesis
  proof (cases r)
    case (Inl e)
    then show ?thesis using assms(2) r by (simp add: next_with_def)
  next
    case (Inr p)
    then have "snd (next_with (unlocked E p) (\<lambda>u. k p u) d) \<noteq> d" using assms(2) r by (simp add: next_with_def)
    then show ?thesis using unlocked_cases[of E p] r Inr by (auto simp: refuse_def)
  qed
qed

lemma gate_proxy:
  assumes "snd (next_with (resolve_proxy E n x) (\<lambda>(p, y). next_with (unlocked E p) (\<lambda>u. k p y u)) d) \<noteq> d"
  shows "\<exists>p. resolve_profile E n d = (Inr p, d) \<and> admitted E p"
proof -
  obtain r where r: "resolve_proxy E n x d = (r, d)" using reads_only[OF sound_route_finding(1)] by blast
  show ?thesis
  proof (cases r)
    case (Inl e)
    then show ?thesis using assms r by (simp add: next_with_def)
  next
    case (Inr py)
    obtain p y where py: "py = (p, y)" by fastforce
    have "snd (next_with (unlocked E p) (\<lambda>u. k p y u) d) \<noteq> d" using assms r Inr by (simp add: next_with_def py)
    moreover have "resolve_profile E n d = (Inr p, d)"
    proof -
      obtain r0 where r0: "resolve_profile E n d = (r0, d)" using reads_only[OF sound_finding(1)] by blast
      then show ?thesis
        using r Inr py by (cases r0) (auto simp: resolve_proxy_def next_with_def give_def split: prod.splits sum.splits)
    qed
    ultimately show ?thesis using unlocked_cases[of E p] by (auto simp: refuse_def)
  qed
qed


definition demo_desk :: desk where
  "demo_desk = \<lparr>dk_cipher = tagging_cipher, dk_vault = toy_vault, dk_now = 0, dk_nonce = replicate 12 CHR ''n'', dk_salt = ''salty'',
     dk_token = (1, 2), dk_float = (\<lambda>s. None), dk_row = (\<lambda>m. Some 0),
     dk_text = (\<lambda>f. if f = Name_Field then Some ''new'' else Some []), dk_yes = (\<lambda>q. Some True), dk_rpm = Some 60,
     dk_passwords = [''px'', ''pw''], dk_pasted = [], dk_headers = [],
     dk_get = (\<lambda>url hs. None), dk_models = []\<rparr>"

definition demo_hash :: string where
  "demo_hash = (case hash_password toy_vault ''salty'' ''pw'' of Inl e \<Rightarrow> [] | Inr h \<Rightarrow> h)"

definition protected_db :: db where
  "protected_db = snd (insert_profile ''me'' None (Some demo_hash) ''t'' 0 empty_db)"

lemma demo_guarded:
  "length (proxies (snd (run_command demo_desk (Proxy_Create (Some ''me'')) protected_db))) = 1"
  "length (proxies protected_db) = 0"
  by code_simp+


theorem console_keeps_integrity_witness:
  "db_ok (snd (run_command demo_desk (Proxy_Create (Some ''me'')) empty_db))"
  by (rule console_keeps_integrity[OF empty_db_ok])

end
