(* ===== verification/Portable_Tree.thy ===== *)
theory Portable_Tree
  imports Portable
begin

text \<open>
  The tree of a profile as one value: its proxies in the order of their rows, each with its
  routes, each with its entries (\<open>view\<close>). The operations an import uses are refined by
  operations on this value; what an export reads of the tree is read from it.
\<close>

section \<open>The view\<close>

type_synonym tree = "(proxy \<times> (route_row \<times> entry_row list) list) list"

definition route_view :: "db \<Rightarrow> route_row \<Rightarrow> route_row \<times> entry_row list" where
  "route_view d r = (r, filter (\<lambda>e. en_route_id e = ro_id r) (entries d))"

definition proxy_view :: "db \<Rightarrow> proxy \<Rightarrow> proxy \<times> (route_row \<times> entry_row list) list" where
  "proxy_view d x = (x, map (route_view d) (filter (\<lambda>r. ro_proxy_id r = px_id x) (routes d)))"

definition view :: "string \<Rightarrow> db \<Rightarrow> tree" where
  "view pid d = map (proxy_view d) (filter (\<lambda>x. px_profile_id x = pid) (proxies d))"

text \<open>Changing every route, and every list of entries, of a tree.\<close>

definition map_routes :: "(route_row \<times> entry_row list \<Rightarrow> route_row \<times> entry_row list) \<Rightarrow> tree \<Rightarrow> tree" where
  "map_routes f t = map (\<lambda>(x, rs). (x, map f rs)) t"

definition tree_routes :: "tree \<Rightarrow> route_row list" where
  "tree_routes t = concat (map (\<lambda>(x, rs). map fst rs) t)"

lemma map_routes_append [simp]:
  "map_routes f (t @ t') = map_routes f t @ map_routes f t'" "map_routes f [(x, rs)] = [(x, map f rs)]" "map_routes f [] = []"
  by (simp_all add: map_routes_def)

lemma tree_routes_append [simp]:
  "tree_routes (t @ t') = tree_routes t @ tree_routes t'" "tree_routes [(x, rs)] = map fst rs" "tree_routes [] = []"
  by (simp_all add: tree_routes_def)

lemma tree_routes_mem: "r \<in> set (tree_routes t) \<longleftrightarrow> (\<exists>x rs es. (x, rs) \<in> set t \<and> (r, es) \<in> set rs)"
  by (force simp: tree_routes_def)

lemma map_routes_id: "(\<And>r es. r \<in> set (tree_routes t) \<Longrightarrow> f (r, es) = (r, es)) \<Longrightarrow> map_routes f t = t"
  unfolding map_routes_def tree_routes_mem by (intro map_idI) (fastforce intro!: map_idI)

lemma view_proxies: "map fst (view pid d) = filter (\<lambda>x. px_profile_id x = pid) (proxies d)"
  by (simp add: view_def proxy_view_def o_def)

lemma view_routes: "(x, rs) \<in> set (view pid d) \<Longrightarrow> map fst rs = filter (\<lambda>r. ro_proxy_id r = px_id x) (routes d)"
  by (auto simp: view_def proxy_view_def route_view_def o_def)

lemma view_entries:
  "(x, rs) \<in> set (view pid d) \<Longrightarrow> (r, es) \<in> set rs \<Longrightarrow> es = filter (\<lambda>e. en_route_id e = ro_id r) (entries d)"
  by (auto simp: view_def proxy_view_def route_view_def)

lemma tree_routes_view: "r \<in> set (tree_routes (view pid d)) \<Longrightarrow> r \<in> set (routes d)"
  by (auto simp: tree_routes_def view_def proxy_view_def route_view_def)

section \<open>What the operations do to it\<close>

lemma view_frame [simp]:
  "view pid (d\<lparr>masks := m\<rparr>) = view pid d" "view pid (d\<lparr>providers := p\<rparr>) = view pid d"
  "view pid (d\<lparr>profiles := f\<rparr>) = view pid d" "view pid (d\<lparr>seq_masks := n\<rparr>) = view pid d"
  "view pid (d\<lparr>seq_providers := n\<rparr>) = view pid d" "view pid (d\<lparr>seq_proxies := n\<rparr>) = view pid d"
  "view pid (d\<lparr>seq_routes := n\<rparr>) = view pid d" "view pid (d\<lparr>seq_entries := n\<rparr>) = view pid d"
  by (simp_all add: view_def proxy_view_def[abs_def] route_view_def[abs_def])

lemma view_new_entry:
  "view pid (d\<lparr>entries := entries d @ [e]\<rparr>)
     = map_routes (\<lambda>(r, es). (r, if ro_id r = en_route_id e then es @ [e] else es)) (view pid d)"
  by (auto simp: view_def proxy_view_def route_view_def map_routes_def)

lemma view_new_route:
  assumes "db_ok d" "ro_id r = seq_routes d + 1"
  shows "view pid (d\<lparr>routes := routes d @ [r]\<rparr>)
     = map (\<lambda>(x, rs). (x, if px_id x = ro_proxy_id r then rs @ [(r, [])] else rs)) (view pid d)"
proof -
  have "filter (\<lambda>e. en_route_id e = ro_id r) (entries d) = []"
    using entry_rowD[OF assms(1)] route_rowD[OF assms(1)] assms(2) by (force simp: filter_empty_conv entry_ok_def route_ids_def)
  then show ?thesis by (auto simp: view_def proxy_view_def route_view_def)
qed

lemma view_new_proxy:
  assumes "db_ok d" "px_id x = seq_proxies d + 1" "px_profile_id x = pid"
  shows "view pid (d\<lparr>proxies := proxies d @ [x]\<rparr>) = view pid d @ [(x, [])]"
proof -
  have "filter (\<lambda>r. ro_proxy_id r = px_id x) (routes d) = []"
    using route_rowD[OF assms(1)] proxy_rowD[OF assms(1)] assms(2) by (force simp: filter_empty_conv route_ok_def proxy_ids_def)
  then show ?thesis by (simp add: view_def proxy_view_def[abs_def] route_view_def[abs_def] assms(3))
qed

text \<open>Ids in a tree are distinct.\<close>

lemma view_distinct:
  assumes "db_ok d"
  shows "distinct (map (px_id \<circ> fst) (view pid d))" "distinct (map ro_id (tree_routes (view pid d)))"
proof -
  show px: "distinct (map (px_id \<circ> fst) (view pid d))"
    using db_keys(7)[OF assms] view_proxies[of pid d] by (metis distinct_map_filter map_map)
  have "distinct (map ro_id (tree_routes t))"
    if "distinct (map (px_id \<circ> fst) t)" "\<forall>(x, rs)\<in>set t. map fst rs = filter (\<lambda>r. ro_proxy_id r = px_id x) (routes d)" for t :: tree
    using that
  proof (induction t)
    case (Cons p t)
    obtain x rs where p: "p = (x, rs)" by fastforce
    have rs: "map fst rs = filter (\<lambda>r. ro_proxy_id r = px_id x) (routes d)" using Cons.prems(2) by (simp add: p)
    have far: "r' \<noteq> ro_id r" if r': "r' \<in> ro_id ` set (tree_routes t)" and r: "r \<in> set (map fst rs)" for r r'
    proof -
      obtain q y ys es where q: "r' = ro_id q" "(y, ys) \<in> set t" "(q, es) \<in> set ys"
        using r' by (auto simp: tree_routes_mem)
      have "map fst ys = filter (\<lambda>r. ro_proxy_id r = px_id y) (routes d)" using Cons.prems(2) q(2) by auto
      then have "q \<in> set (routes d)" "ro_proxy_id q = px_id y" using q(3) by (force dest: arg_cong[where f = set])+
      moreover have "r \<in> set (routes d)" "ro_proxy_id r = px_id x" using r rs by simp_all
      moreover have "px_id y \<noteq> px_id x" using Cons.prems(1) q(2) by (auto simp: p image_iff)
      ultimately show ?thesis using key_unique[OF db_keys(9)[OF assms], of q r] q(1) by auto
    qed
    have "distinct (map ro_id (map fst rs))" unfolding rs by (rule distinct_map_filter[OF db_keys(9)[OF assms]])
    moreover have "distinct (map ro_id (tree_routes t))" using Cons by simp
    moreover have "set (map ro_id (map fst rs)) \<inter> set (map ro_id (tree_routes t)) = {}"
      unfolding set_map[of ro_id] using far by blast
    moreover have "tree_routes (p # t) = map fst rs @ tree_routes t" by (simp add: p tree_routes_def)
    ultimately show ?case by (simp del: map_map list.map_comp)
  qed simp
  then show "distinct (map ro_id (tree_routes (view pid d)))" using px view_routes by fastforce
qed

end
