(* ===== verification/Portable_Build.thy ===== *)
theory Portable_Build
  imports Portable_Tree
begin

text \<open>
  An import that has what it needs runs through, and what it leaves behind: the rows of the
  new masks and providers, and the tree of the profile, each row the image of its part of
  the bundle.
\<close>

section \<open>Lists\<close>

lemma map_res_InrI: "list_all2 (\<lambda>x y. f x = Inr y) xs ys \<Longrightarrow> map_res f xs = Inr ys"
  by (induction rule: list_all2_induct) simp_all

lemma list_all2_insort:
  assumes "list_all2 P xs ys" "P x y" "\<And>a b. P a b \<Longrightarrow> k a = k' b"
  shows "list_all2 P (insort_key k x xs) (insort_key k' y ys)"
  using assms(1) by (induction rule: list_all2_induct) (simp_all add: assms(2,3) assms(3)[OF assms(2)])

lemma list_all2_sort_key:
  assumes "list_all2 P xs ys" "\<And>a b. P a b \<Longrightarrow> k a = k' b"
  shows "list_all2 P (sort_key k xs) (sort_key k' ys)"
  using assms(1) by (induction rule: list_all2_induct) (simp_all add: sort_key_def list_all2_insort[OF _ _ assms(2)])

lemma list_all2_filter:
  assumes "list_all2 P xs ys" "\<And>a b. P a b \<Longrightarrow> Q a = R b"
  shows "list_all2 P (filter Q xs) (filter R ys)"
  using assms(1) by (induction rule: list_all2_induct) (simp_all add: assms(2))

section \<open>Entries\<close>

abbreviation direct :: "portable_entry \<Rightarrow> bool" where
  "direct e \<equiv> qe_route e = None"

text \<open>What a direct entry of the bundle becomes.\<close>

definition direct_img :: "name_ids \<Rightarrow> portable_entry \<Rightarrow> entry_row \<Rightarrow> bool" where
  "direct_img known e row \<longleftrightarrow> en_provider_id row = known (qe_provider_name e) \<and> known (qe_provider_name e) \<noteq> None
     \<and> en_target_route_id row = None \<and> en_model_id row = qe_model_id e \<and> en_priority row = qe_priority e
     \<and> en_weight row = qe_weight e \<and> en_capabilities row = Some (qe_capabilities e)
     \<and> f64_max0 (en_price_per_1m row) = qe_price_per_1m e"

text \<open>What importing an entry needs of it.\<close>

definition entry_fits :: "name_ids \<Rightarrow> int set \<Rightarrow> portable_entry \<Rightarrow> bool" where
  "entry_fits known P e \<longleftrightarrow> qe_weight e \<noteq> FNaN \<and>
     (case qe_route e of
        None \<Rightarrow> (\<exists>i\<in>P. known (qe_provider_name e) = Some i)
          \<and> (FFin 0 < qe_price_per_1m e \<or> qe_price_per_1m e = default_price_for (qe_model_id e))
      | Some r \<Rightarrow> length (split_on CHR ''/'' r) = 2)"

definition refs_of :: "int \<Rightarrow> portable_entry list \<Rightarrow> waiting_ref list" where
  "refs_of rid qs = map (\<lambda>e. (rid, the (qe_route e), qe_priority e, qe_weight e, qe_model_id e)) (filter (\<lambda>e. \<not> direct e) qs)"

lemma refs_of_simps [simp]:
  "refs_of rid [] = []"
  "refs_of rid (e # qs) = (if direct e then refs_of rid qs
     else (rid, the (qe_route e), qe_priority e, qe_weight e, qe_model_id e) # refs_of rid qs)"
  by (simp_all add: refs_of_def)

text \<open>What building a tree leaves as it is.\<close>

definition same_rest :: "db \<Rightarrow> db \<Rightarrow> bool" where
  "same_rest d d' \<longleftrightarrow> profiles d' = profiles d \<and> providers d' = providers d \<and> masks d' = masks d"

lemma same_rest_refl [simp]: "same_rest d d"
  by (simp add: same_rest_def)

lemma same_rest_trans: "same_rest d d' \<Longrightarrow> same_rest d' d'' \<Longrightarrow> same_rest d d''"
  by (simp add: same_rest_def)

lemma same_rest_ids: "same_rest d d' \<Longrightarrow> provider_ids d' = provider_ids d \<and> profile_ids d' = profile_ids d"
  by (simp add: same_rest_def id_sets)

lemma default_price_pos: "f64_max0 (default_price_for m) = default_price_for m"
  by (simp add: default_price_for_def Let_def f64_max0_def price_cheap_def)

lemma f64_pos: "FFin 0 < x \<Longrightarrow> f64_max0 x = x"
  by (cases x) (simp_all add: f64_max0_def less_f64_def)

lemma map_routes_last:
  assumes "distinct (map ro_id (tree_routes (vs @ [(x, rs @ [(r, es)])])))"
  shows "map_routes (\<lambda>(q, es). (q, if ro_id q = ro_id r then f es else es)) (vs @ [(x, rs @ [(r, es)])])
    = vs @ [(x, rs @ [(r, f es)])]"
proof -
  let ?f = "\<lambda>(q, es). (q, if ro_id q = ro_id r then f es else es)"
  have "map_routes ?f vs = vs"
  proof (rule map_routes_id)
    fix q es assume "q \<in> set (tree_routes vs)"
    then have "ro_id q \<noteq> ro_id r" using assms by (auto simp: image_iff)
    then show "?f (q, es) = (q, es)" by simp
  qed
  moreover have "map ?f rs = rs"
  proof (rule map_idI)
    fix p assume "p \<in> set rs"
    then have "ro_id (fst p) \<noteq> ro_id r" using assms by (auto simp: image_iff)
    then show "?f p = p" by (simp add: case_prod_unfold)
  qed
  ultimately show ?thesis by simp
qed

lemma import_entry_run:
  assumes ok: "db_ok d" and v: "view pid d = vs @ [(x, rs @ [(r, es)])]"
    and fits: "entry_fits known (provider_ids d) e" "direct e"
  shows "\<exists>row d'. import_entry known (ro_id r) e pending d = (Inr pending, d') \<and> db_ok d' \<and> same_rest d d'
    \<and> view pid d' = vs @ [(x, rs @ [(r, es @ [row])])] \<and> direct_img known e row"
proof -
  obtain i where i: "known (qe_provider_name e) = Some i" "i \<in> provider_ids d"
    using fits by (auto simp: entry_fits_def)
  have "r \<in> set (routes d)" using v tree_routes_view[of r pid d] by simp
  then have rid: "ro_id r \<in> route_ids d" by (simp add: route_ids_def)
  let ?row = "\<lambda>price. \<lparr>en_id = seq_entries d + 1, en_route_id = ro_id r, en_provider_id = Some i,
       en_target_route_id = None, en_model_id = qe_model_id e, en_priority = qe_priority e,
       en_weight = qe_weight e, en_status = status_tag Healthy, en_capabilities = Some (qe_capabilities e),
       en_price_per_1m = price, en_cooldown_until = 0\<rparr>"
  define price where "price = (if FFin 0 < qe_price_per_1m e then f64_max0 (qe_price_per_1m e) else default_price_for (qe_model_id e))"
  let ?d' = "d\<lparr>entries := entries d @ [?row price], seq_entries := seq_entries d + 1\<rparr>"
  have old: "\<forall>e\<in>set (entries d). en_id e \<noteq> seq_entries d + 1" using entry_rowD[OF ok] by force
  have w: "qe_weight e \<noteq> FNaN" using fits by (simp add: entry_fits_def)
  have run: "import_entry known (ro_id r) e pending d = (Inr pending, ?d')"
    using i rid fits(2) w old
    by (simp add: import_entry_def add_route_entry_def next_with_def doing_def give_def trying_def set_route_entry_price_def
        upd_entry_def upd_behind price_def Let_def)
  have ok': "db_ok ?d'"
    by (rule insert_entry_ok[OF ok]) (use i(2) rid w in \<open>simp_all add: entry_ok_def one_target_def\<close>)
  have "view pid ?d' = vs @ [(x, rs @ [(r, es @ [?row price])])]"
    using view_new_entry[of pid d "?row price"] map_routes_last[of vs x rs r es "\<lambda>es. es @ [?row price]"] view_distinct(2)[OF ok, of pid]
    by (simp add: v eq_commute[of "ro_id r"])
  moreover have "direct_img known e (?row price)"
    using i(1) fits by (auto simp: direct_img_def price_def f64_pos default_price_pos entry_fits_def)
  ultimately show ?thesis using run ok' by (auto simp: same_rest_def)
qed

lemma import_entries_run:
  assumes "db_ok d" "view pid d = vs @ [(x, rs @ [(r, es)])]" "\<forall>e\<in>set qs. entry_fits known (provider_ids d) e"
  shows "\<exists>rows d'. each (import_entry known (ro_id r)) qs pending d = (Inr (pending @ refs_of (ro_id r) qs), d')
    \<and> db_ok d' \<and> same_rest d d' \<and> view pid d' = vs @ [(x, rs @ [(r, es @ rows)])]
    \<and> list_all2 (direct_img known) (filter direct qs) rows"
  using assms
proof (induction qs arbitrary: d es pending)
  case Nil
  then show ?case by (auto simp: give_def)
next
  case (Cons e qs)
  show ?case
  proof (cases "qe_route e")
    case None
    obtain row d1 where one: "import_entry known (ro_id r) e pending d = (Inr pending, d1)" "db_ok d1" "same_rest d d1"
        "view pid d1 = vs @ [(x, rs @ [(r, es @ [row])])]" "direct_img known e row"
      using import_entry_run[OF Cons.prems(1,2), of known e pending] Cons.prems(3) None by auto
    have "\<forall>e\<in>set qs. entry_fits known (provider_ids d1) e" using Cons.prems(3) same_rest_ids[OF one(3)] by simp
    from Cons.IH[OF one(2) one(4) this, of pending] obtain rows d' where
      "each (import_entry known (ro_id r)) qs pending d1 = (Inr (pending @ refs_of (ro_id r) qs), d')"
      "db_ok d'" "same_rest d1 d'" "view pid d' = vs @ [(x, rs @ [(r, (es @ [row]) @ rows)])]"
      "list_all2 (direct_img known) (filter direct qs) rows" by auto
    then show ?thesis
      using one None by (intro exI[of _ "row # rows"] exI[of _ d']) (auto simp: next_with_simps intro: same_rest_trans)
  next
    case (Some l)
    have "import_entry known (ro_id r) e pending d
        = (Inr (pending @ [(ro_id r, l, qe_priority e, qe_weight e, qe_model_id e)]), d)"
      using Cons.prems(3) Some by (simp add: import_entry_def entry_fits_def give_def)
    then show ?thesis
      using Cons.IH[OF Cons.prems(1,2), of "pending @ [(ro_id r, l, qe_priority e, qe_weight e, qe_model_id e)]"] Cons.prems(3) Some
      by (simp add: next_with_simps)
  qed
qed

section \<open>Routes\<close>

text \<open>What a route of the bundle becomes, as long as its nested entries wait.\<close>

definition route_img :: "name_ids \<Rightarrow> portable_route \<Rightarrow> route_row \<times> entry_row list \<Rightarrow> bool" where
  "route_img known q p \<longleftrightarrow> (case p of (r, es) \<Rightarrow>
     ro_name r = qr_name q \<and> ro_description r = qr_description q \<and> ro_strategy r = strategy_tag (qr_strategy q)
     \<and> ro_identity r = qr_identity q \<and> ro_max_tokens r = int (qr_max_tokens q) \<and> ro_cache_ttl_secs r = qr_cache_ttl_secs q
     \<and> list_all2 (direct_img known) (filter direct (qr_entries q)) es)"

definition route_fits :: "name_ids \<Rightarrow> int set \<Rightarrow> portable_route \<Rightarrow> bool" where
  "route_fits known P q \<longleftrightarrow> 0 \<le> qr_cache_ttl_secs q \<and> (\<forall>e\<in>set (qr_entries q). entry_fits known P e)"

text \<open>The references that wait after the routes \<open>rs\<close> were made from \<open>qs\<close>.\<close>

definition refs_of_routes :: "portable_route list \<Rightarrow> (route_row \<times> entry_row list) list \<Rightarrow> waiting_ref list" where
  "refs_of_routes qs rs = concat (map (\<lambda>(q, r, es). refs_of (ro_id r) (qr_entries q)) (zip qs rs))"

lemma refs_of_routes_simps [simp]:
  "refs_of_routes [] rs = []" "refs_of_routes (q # qs) ((r, es) # rs) = refs_of (ro_id r) (qr_entries q) @ refs_of_routes qs rs"
  by (simp_all add: refs_of_routes_def)

lemma last_proxy:
  assumes "distinct (map (px_id \<circ> fst) (vs @ [(x, rs)]))"
  shows "map (\<lambda>(y, ss). (y, if px_id y = px_id x then ss @ [z] else ss)) (vs @ [(x, rs)]) = vs @ [(x, rs @ [z])]"
proof -
  have "map (\<lambda>(y, ss). (y, if px_id y = px_id x then ss @ [z] else ss)) vs = vs"
  proof (rule map_idI)
    fix p assume "p \<in> set vs"
    then have "px_id (fst p) \<noteq> px_id x" using assms by (auto simp: image_iff)
    then show "(\<lambda>(y, ss). (y, if px_id y = px_id x then ss @ [z] else ss)) p = p" by (simp add: case_prod_unfold)
  qed
  then show ?thesis by simp
qed

lemma import_route_run:
  assumes ok: "db_ok d" and v: "view pid d = vs @ [(x, rs)]" and fits: "route_fits known (provider_ids d) q"
    and fresh: "qr_name q \<notin> ro_name ` fst ` set rs"
  shows "\<exists>r es d'. import_route known (px_id x) q pending d = (Inr (pending @ refs_of (ro_id r) (qr_entries q)), d')
    \<and> db_ok d' \<and> same_rest d d' \<and> view pid d' = vs @ [(x, rs @ [(r, es)])] \<and> route_img known q (r, es)"
proof -
  have x: "x \<in> set (proxies d)" using v view_proxies[of pid d] by (metis filter_is_subset fst_conv in_set_conv_decomp list.set_map image_eqI subsetD)
  have rs: "map fst rs = filter (\<lambda>r. ro_proxy_id r = px_id x) (routes d)" using view_routes[of x rs pid d] v by simp
  have new_name: "(px_id x, qr_name q) \<notin> (\<lambda>r. (ro_proxy_id r, ro_name r)) ` set (routes d)"
  proof
    assume "(px_id x, qr_name q) \<in> (\<lambda>r. (ro_proxy_id r, ro_name r)) ` set (routes d)"
    then obtain r where "r \<in> set (map fst rs)" "ro_name r = qr_name q" unfolding rs by auto
    then show False using fresh by force
  qed
  define row where "row = (\<lambda>mt ttl. \<lparr>ro_id = seq_routes d + 1, ro_proxy_id = px_id x, ro_name = qr_name q,
     ro_description = qr_description q, ro_strategy = strategy_tag (qr_strategy q), ro_identity = qr_identity q,
     ro_max_tokens = mt, ro_cache_ttl_secs = ttl, ro_shared = False, ro_prompt_cache = ''auto''\<rparr>)"
  let ?r = "row (int (qr_max_tokens q)) (qr_cache_ttl_secs q)"
  let ?d1 = "\<lambda>r. d\<lparr>routes := routes d @ [r], seq_routes := seq_routes d + 1\<rparr>"
  have made: "create_route (px_id x) (qr_name q) (qr_description q) (qr_strategy q) (qr_identity q) d
      = (Inr \<lparr>rt_id = seq_routes d + 1, rt_proxy_id = px_id x, rt_name = qr_name q, rt_description = qr_description q,
          rt_strategy = qr_strategy q, rt_identity = qr_identity q, rt_max_tokens = 0, rt_cache_ttl_secs = 0,
          rt_shared = False, rt_prompt_cache = default_policy\<rparr>, ?d1 (row 0 0))"
    using new_name x by (simp add: create_route_def Let_def row_def proxy_ids_def)
  have old: "\<forall>r\<in>set (routes d). ro_id r \<noteq> seq_routes d + 1" using route_rowD[OF ok] by force
  have eco: "snd (set_route_economy (seq_routes d + 1) (qr_max_tokens q) (qr_cache_ttl_secs q) (?d1 (row 0 0))) = ?d1 ?r"
    using old by (simp add: set_route_economy_def upd_route_def require_changed_def upd_behind row_def)
  have ok0: "db_ok (?d1 (row 0 0))" using create_route_ok[OF ok] made by (metis snd_conv)
  have ok1: "db_ok (?d1 ?r)"
    using set_route_economy_ok[OF ok0, of "seq_routes d + 1" "qr_max_tokens q" "qr_cache_ttl_secs q"] unfolding eco .
  have tuned: "(if qr_max_tokens q > 0 \<or> qr_cache_ttl_secs q > 0
      then trying (set_route_economy (seq_routes d + 1) (qr_max_tokens q) (qr_cache_ttl_secs q)) else give ()) (?d1 (row 0 0)) = (Inr (), ?d1 ?r)"
    using eco fits by (auto simp: trying_def give_def route_fits_def)
  have "view pid (?d1 ?r) = map (\<lambda>(y, ss). (y, if px_id y = px_id x then ss @ [(?r, [])] else ss)) (vs @ [(x, rs)])"
    using view_new_route[OF ok, of ?r pid] v by (simp add: row_def)
  then have v1: "view pid (?d1 ?r) = vs @ [(x, rs @ [(?r, [])])]"
    using last_proxy[of vs x rs "(?r, [])"] view_distinct(1)[OF ok, of pid] by (simp add: v)
  have "\<forall>e\<in>set (qr_entries q). entry_fits known (provider_ids (?d1 ?r)) e" using fits by (simp add: route_fits_def provider_ids_def)
  from import_entries_run[OF ok1 v1 this, of pending] obtain rows d' where
    es: "each (import_entry known (ro_id ?r)) (qr_entries q) pending (?d1 ?r) = (Inr (pending @ refs_of (ro_id ?r) (qr_entries q)), d')"
      "db_ok d'" "same_rest (?d1 ?r) d'" "view pid d' = vs @ [(x, rs @ [(?r, rows)])]"
      "list_all2 (direct_img known) (filter direct (qr_entries q)) rows" by auto
  have "ro_id ?r = seq_routes d + 1" by (simp add: row_def)
  then have "import_route known (px_id x) q pending d = (Inr (pending @ refs_of (ro_id ?r) (qr_entries q)), d')"
    using made tuned es(1) by (simp add: import_route_def next_with_def doing_def split del: if_split cong: if_cong)
  moreover have "route_img known q (?r, rows)" using es(5) by (simp add: route_img_def row_def)
  moreover have "same_rest d d'" using es(3) by (simp add: same_rest_def)
  ultimately show ?thesis using es(2,4) by blast
qed

lemma import_routes_run:
  assumes "db_ok d" "view pid d = vs @ [(x, rs)]" "\<forall>q\<in>set qs. route_fits known (provider_ids d) q"
    and "distinct (map (ro_name \<circ> fst) rs @ map qr_name qs)"
  shows "\<exists>rs' d'. each (import_route known (px_id x)) qs pending d = (Inr (pending @ refs_of_routes qs rs'), d')
    \<and> db_ok d' \<and> same_rest d d' \<and> view pid d' = vs @ [(x, rs @ rs')] \<and> list_all2 (route_img known) qs rs'"
  using assms
proof (induction qs arbitrary: d rs pending)
  case Nil
  then show ?case by (auto simp: give_def)
next
  case (Cons q qs)
  have "qr_name q \<notin> ro_name ` fst ` set rs" using Cons.prems(4) by (auto simp: image_iff)
  with import_route_run[OF Cons.prems(1,2), of known q pending] Cons.prems(3) obtain r es d1 where
    one: "import_route known (px_id x) q pending d = (Inr (pending @ refs_of (ro_id r) (qr_entries q)), d1)" "db_ok d1" "same_rest d d1"
      "view pid d1 = vs @ [(x, rs @ [(r, es)])]" "route_img known q (r, es)" by auto
  have "\<forall>q\<in>set qs. route_fits known (provider_ids d1) q" using Cons.prems(3) same_rest_ids[OF one(3)] by simp
  moreover have "distinct (map (ro_name \<circ> fst) (rs @ [(r, es)]) @ map qr_name qs)"
    using Cons.prems(4) one(5) by (auto simp: route_img_def o_def)
  ultimately obtain rs' d' where
    "each (import_route known (px_id x)) qs (pending @ refs_of (ro_id r) (qr_entries q)) d1
       = (Inr ((pending @ refs_of (ro_id r) (qr_entries q)) @ refs_of_routes qs rs'), d')"
    "db_ok d'" "same_rest d1 d'" "view pid d' = vs @ [(x, (rs @ [(r, es)]) @ rs')]" "list_all2 (route_img known) qs rs'"
    using Cons.IH[OF one(2,4), of "pending @ refs_of (ro_id r) (qr_entries q)"] by blast
  then show ?case
    using one by (intro exI[of _ "(r, es) # rs'"] exI[of _ d']) (auto simp: next_with_simps intro: same_rest_trans)
qed

section \<open>Proxies\<close>

definition proxy_img :: "name_ids \<Rightarrow> portable_proxy \<Rightarrow> proxy \<times> (route_row \<times> entry_row list) list \<Rightarrow> bool" where
  "proxy_img known q p \<longleftrightarrow> (case p of (x, rs) \<Rightarrow>
     px_name x = qx_name q \<and> px_description x = qx_description q \<and> list_all2 (route_img known) (qx_routes q) rs)"

definition proxy_fits :: "name_ids \<Rightarrow> int set \<Rightarrow> portable_proxy \<Rightarrow> bool" where
  "proxy_fits known P q \<longleftrightarrow> distinct (map qr_name (qx_routes q)) \<and> (\<forall>r\<in>set (qx_routes q). route_fits known P r)"

definition refs_of_proxies :: "portable_proxy list \<Rightarrow> tree \<Rightarrow> waiting_ref list" where
  "refs_of_proxies qs t = concat (map (\<lambda>(q, x, rs). refs_of_routes (qx_routes q) rs) (zip qs t))"

lemma refs_of_proxies_simps [simp]:
  "refs_of_proxies [] t = []" "refs_of_proxies (q # qs) ((x, rs) # t) = refs_of_routes (qx_routes q) rs @ refs_of_proxies qs t"
  by (simp_all add: refs_of_proxies_def)

lemma import_proxy_run:
  assumes ok: "db_ok d" and pid: "pid \<in> profile_ids d" and fits: "proxy_fits known (provider_ids d) q"
    and fresh: "qx_name q \<notin> px_name ` fst ` set (view pid d)"
  shows "\<exists>x rs d'. import_proxy known pid q pending d = (Inr (pending @ refs_of_routes (qx_routes q) rs), d')
    \<and> db_ok d' \<and> same_rest d d' \<and> view pid d' = view pid d @ [(x, rs)] \<and> proxy_img known q (x, rs)"
proof -
  have new_name: "(pid, qx_name q) \<notin> (\<lambda>x. (px_profile_id x, px_name x)) ` set (proxies d)"
  proof
    assume "(pid, qx_name q) \<in> (\<lambda>x. (px_profile_id x, px_name x)) ` set (proxies d)"
    then obtain x where "x \<in> set (map fst (view pid d))" "px_name x = qx_name q" unfolding view_proxies by auto
    then show False using fresh by force
  qed
  let ?x = "\<lparr>px_id = seq_proxies d + 1, px_profile_id = pid, px_name = qx_name q, px_description = qx_description q\<rparr>"
  let ?d1 = "d\<lparr>proxies := proxies d @ [?x], seq_proxies := seq_proxies d + 1\<rparr>"
  have made: "create_proxy pid (qx_name q) (qx_description q) d = (Inr ?x, ?d1)"
    using new_name pid by (simp add: create_proxy_def Let_def)
  have ok1: "db_ok ?d1" using create_proxy_ok[OF ok, of pid "qx_name q" "qx_description q"] made by simp
  have v1: "view pid ?d1 = view pid d @ [(?x, [])]" using view_new_proxy[OF ok, of ?x pid] by simp
  have "\<forall>r\<in>set (qx_routes q). route_fits known (provider_ids ?d1) r" using fits by (simp add: proxy_fits_def provider_ids_def)
  from import_routes_run[OF ok1 v1 this, of pending] fits obtain rs d' where
    "each (import_route known (px_id ?x)) (qx_routes q) pending ?d1 = (Inr (pending @ refs_of_routes (qx_routes q) rs), d')"
    "db_ok d'" "same_rest ?d1 d'" "view pid d' = view pid d @ [(?x, rs)]" "list_all2 (route_img known) (qx_routes q) rs"
    by (auto simp: proxy_fits_def)
  then show ?thesis
    using made by (intro exI[of _ ?x] exI[of _ rs] exI[of _ d'])
      (simp add: import_proxy_def next_with_def doing_def proxy_img_def same_rest_def)
qed

lemma import_proxies_run:
  assumes "db_ok d" "pid \<in> profile_ids d" "\<forall>q\<in>set qs. proxy_fits known (provider_ids d) q"
    and "distinct (map (px_name \<circ> fst) (view pid d) @ map qx_name qs)"
  shows "\<exists>t d'. each (import_proxy known pid) qs pending d = (Inr (pending @ refs_of_proxies qs t), d')
    \<and> db_ok d' \<and> same_rest d d' \<and> view pid d' = view pid d @ t \<and> list_all2 (proxy_img known) qs t"
  using assms
proof (induction qs arbitrary: d pending)
  case Nil
  then show ?case by (auto simp: give_def)
next
  case (Cons q qs)
  have "qx_name q \<notin> px_name ` fst ` set (view pid d)" using Cons.prems(4) by (auto simp: image_iff)
  with import_proxy_run[OF Cons.prems(1,2), of known q pending] Cons.prems(3) obtain x rs d1 where
    one: "import_proxy known pid q pending d = (Inr (pending @ refs_of_routes (qx_routes q) rs), d1)" "db_ok d1" "same_rest d d1"
      "view pid d1 = view pid d @ [(x, rs)]" "proxy_img known q (x, rs)" by auto
  have "\<forall>q\<in>set qs. proxy_fits known (provider_ids d1) q" "pid \<in> profile_ids d1"
    using Cons.prems(2,3) same_rest_ids[OF one(3)] by simp_all
  moreover have "distinct (map (px_name \<circ> fst) (view pid d1) @ map qx_name qs)"
    using Cons.prems(4) one(4,5) by (auto simp: proxy_img_def o_def)
  ultimately obtain t d' where
    "each (import_proxy known pid) qs (pending @ refs_of_routes (qx_routes q) rs) d1
       = (Inr ((pending @ refs_of_routes (qx_routes q) rs) @ refs_of_proxies qs t), d')"
    "db_ok d'" "same_rest d1 d'" "view pid d' = view pid d1 @ t" "list_all2 (proxy_img known) qs t"
    using Cons.IH[OF one(2), of "pending @ refs_of_routes (qx_routes q) rs"] by blast
  then show ?case
    using one by (intro exI[of _ "(x, rs) # t"] exI[of _ d']) (auto simp: next_with_simps intro: same_rest_trans)
qed

section \<open>References\<close>

text \<open>The label \<open>l\<close> names the route with id \<open>i\<close> in the tree.\<close>

definition labelled :: "tree \<Rightarrow> string \<Rightarrow> int \<Rightarrow> bool" where
  "labelled t l i \<longleftrightarrow> (\<exists>x rs r es. (x, rs) \<in> set t \<and> (r, es) \<in> set rs \<and> l = px_name x @ ''/'' @ ro_name r
     \<and> CHR ''/'' \<notin> set (px_name x) \<and> ro_id r = i)"

definition ref_img :: "tree \<Rightarrow> waiting_ref \<Rightarrow> entry_row \<Rightarrow> bool" where
  "ref_img t ref row \<longleftrightarrow> (case ref of (rid, label, priority, weight, model) \<Rightarrow>
     en_route_id row = rid \<and> en_provider_id row = None
     \<and> (\<exists>i. en_target_route_id row = Some i \<and> labelled t label i) \<and> en_model_id row = model
     \<and> en_priority row = priority \<and> en_weight row = weight \<and> en_capabilities row = Some default_caps
     \<and> f64_max0 (en_price_per_1m row) = FFin 0)"

definition ref_fits :: "tree \<Rightarrow> waiting_ref \<Rightarrow> bool" where
  "ref_fits t ref \<longleftrightarrow> (case ref of (rid, label, priority, weight, model) \<Rightarrow>
     rid \<in> ro_id ` set (tree_routes t) \<and> weight \<noteq> FNaN \<and> (\<exists>i. labelled t label i))"

definition put_rows :: "entry_row list \<Rightarrow> tree \<Rightarrow> tree" where
  "put_rows rows = map_routes (\<lambda>(r, es). (r, es @ filter (\<lambda>e. en_route_id e = ro_id r) rows))"

lemma put_rows_Nil: "put_rows [] t = t"
  by (auto simp: put_rows_def intro: map_routes_id)

lemma put_rows_put_rows: "put_rows b (put_rows a t) = put_rows (a @ b) t"
  by (auto simp: put_rows_def map_routes_def)

lemma view_put_row: "view pid (d\<lparr>entries := entries d @ [e]\<rparr>) = put_rows [e] (view pid d)"
  unfolding view_new_entry put_rows_def by (rule arg_cong[where f = "\<lambda>f. map_routes f (view pid d)"]) (auto simp: fun_eq_iff)

lemma put_rows_mem: "(x, rs) \<in> set (put_rows rows t) \<longleftrightarrow> (\<exists>ss. (x, ss) \<in> set t \<and> rs = map (\<lambda>(r, es). (r, es @ filter (\<lambda>e. en_route_id e = ro_id r) rows)) ss)"
  by (auto simp: put_rows_def map_routes_def)

lemma put_rows_same [simp]: "tree_routes (put_rows rows t) = tree_routes t" "labelled (put_rows rows t) = labelled t"
proof -
  show "tree_routes (put_rows rows t) = tree_routes t"
    by (induction t) (auto simp: put_rows_def map_routes_def tree_routes_def)
  show "labelled (put_rows rows t) = labelled t"
    by (intro ext) (fastforce simp: labelled_def put_rows_mem)
qed

lemma put_rows_fits [simp]: "ref_img (put_rows rows t) = ref_img t" "ref_fits (put_rows rows t) = ref_fits t"
  by (simp_all add: ref_img_def[abs_def] ref_fits_def[abs_def])

lemma find_key:
  assumes "distinct (map k xs)" "x \<in> set xs" "\<And>y. P y \<longleftrightarrow> k y = k x"
  shows "find P xs = Some x"
proof (cases "find P xs")
  case None
  then show ?thesis using assms(2,3) by (auto simp: find_None_iff)
next
  case (Some y)
  then have "y \<in> set xs" "k y = k x" using assms(3) by (auto dest!: find_mem)
  then show ?thesis using Some key_unique[OF assms(1)] assms(2) by metis
qed

lemma import_ref_run:
  assumes ok: "db_ok d" and fits: "ref_fits (view pid d) ref"
  shows "\<exists>row d'. import_ref pid ref () d = (Inr (), d') \<and> db_ok d' \<and> same_rest d d'
    \<and> view pid d' = put_rows [row] (view pid d) \<and> ref_img (view pid d) ref row"
proof -
  obtain rid label priority weight model where ref: "ref = (rid, label, priority, weight, model)" by (cases ref)
  obtain i where i: "labelled (view pid d) label i" and w: "weight \<noteq> FNaN" and rid: "rid \<in> ro_id ` set (tree_routes (view pid d))"
    using fits by (auto simp: ref_fits_def ref)
  obtain x rs r es where t: "(x, rs) \<in> set (view pid d)" "(r, es) \<in> set rs" "label = px_name x @ ''/'' @ ro_name r"
      "CHR ''/'' \<notin> set (px_name x)" "ro_id r = i" using i by (auto simp: labelled_def)
  have x: "x \<in> set (proxies d)" "px_profile_id x = pid" using view_proxies[of pid d] t(1) by (force dest: arg_cong[where f = set])+
  have r: "r \<in> set (routes d)" "ro_proxy_id r = px_id x" using view_routes[OF t(1)] t(2) by (force dest: arg_cong[where f = set])+
  have rid': "rid \<in> route_ids d" using rid tree_routes_view[of _ pid d] by (auto simp: route_ids_def)
  have split: "split_once CHR ''/'' label = Some (px_name x, ro_name r)"
    using t(3,4) by (simp add: split_once_join)
  have proxy: "find (\<lambda>y. px_name y = px_name x) (list_proxies pid d) = Some x"
  proof (rule find_key[where k = px_name])
    have "distinct (map (\<lambda>p. (px_profile_id p, px_name p)) (filter (\<lambda>p. px_profile_id p = pid) (proxies d)))"
      by (rule distinct_map_filter[OF db_keys(8)[OF ok]])
    then have "distinct (map px_name (filter (\<lambda>p. px_profile_id p = pid) (proxies d)))"
      unfolding distinct_map by (auto simp: inj_on_def)
    then show "distinct (map px_name (list_proxies pid d))"
      unfolding list_proxies_def distinct_map by simp
  qed (use x in \<open>auto simp: list_proxies_def\<close>)
  have "find (\<lambda>q. ro_proxy_id q = px_id x \<and> ro_name q = ro_name r) (routes d) = Some r"
    by (rule find_key[OF db_keys(10)[OF ok] r(1)]) (auto simp: r(2))
  moreover obtain y where y: "map_route_row r = Inr y" "rt_id y = i"
    using route_rowD[OF ok r(1)] t(5) by (auto simp: route_ok_def map_route_row_def ok_or_def)
  ultimately have route: "get_route_named (px_id x) (ro_name r) d = Inr (Some y)"
    by (simp add: get_route_named_def opt_route_def)
  let ?row = "\<lparr>en_id = seq_entries d + 1, en_route_id = rid, en_provider_id = None, en_target_route_id = Some i, en_model_id = model,
     en_priority = priority, en_weight = weight, en_status = status_tag Healthy, en_capabilities = Some default_caps,
     en_price_per_1m = FFin 0, en_cooldown_until = 0\<rparr>"
  let ?d' = "d\<lparr>entries := entries d @ [?row], seq_entries := seq_entries d + 1\<rparr>"
  have i': "i \<in> route_ids d" using r(1) t(5) by (auto simp: route_ids_def)
  have run: "import_ref pid ref () d = (Inr (), ?d')"
    using split proxy route y(2) w rid' i'
    by (simp add: import_ref_def ref next_with_def looking_def reading_def doing_def give_def add_route_entry_ref_def Let_def)
  have ok': "db_ok ?d'"
    by (rule insert_entry_ok[OF ok]) (use w rid' i' in \<open>simp_all add: entry_ok_def one_target_def\<close>)
  have "view pid ?d' = put_rows [?row] (view pid d)" using view_put_row[of pid d ?row] by simp
  moreover have "ref_img (view pid d) ref ?row" using i by (simp add: ref_img_def ref f64_max0_def)
  ultimately show ?thesis using run ok' by (auto simp: same_rest_def)
qed

lemma import_refs_run:
  assumes "db_ok d" "\<forall>ref\<in>set refs. ref_fits (view pid d) ref"
  shows "\<exists>rows d'. each (import_ref pid) refs () d = (Inr (), d') \<and> db_ok d' \<and> same_rest d d'
    \<and> view pid d' = put_rows rows (view pid d) \<and> list_all2 (ref_img (view pid d)) refs rows"
  using assms
proof (induction refs arbitrary: d)
  case Nil
  then show ?case by (auto simp: give_def put_rows_Nil)
next
  case (Cons ref refs)
  then obtain row d1 where one: "import_ref pid ref () d = (Inr (), d1)" "db_ok d1" "same_rest d d1"
      "view pid d1 = put_rows [row] (view pid d)" "ref_img (view pid d) ref row"
    using import_ref_run[OF Cons.prems(1), of pid ref] by auto
  have "\<forall>ref\<in>set refs. ref_fits (view pid d1) ref" using Cons.prems(2) one(4) by simp
  from Cons.IH[OF one(2) this] obtain rows d' where "each (import_ref pid) refs () d1 = (Inr (), d')" "db_ok d'" "same_rest d1 d'"
      "view pid d' = put_rows rows (view pid d1)" "list_all2 (ref_img (view pid d1)) refs rows" by auto
  then show ?case
    using one by (intro exI[of _ "row # rows"] exI[of _ d']) (auto simp: next_with_simps put_rows_put_rows intro: same_rest_trans)
qed

end
