(* ===== verification/Portable_Rows.thy ===== *)
theory Portable_Rows
  imports Portable_Build
begin

text \<open>
  The other half of an import that runs through: the rows of the masks and of the providers,
  in the order of the bundle, each readable again as what it was made from, and the tables
  of ids by name the later steps look up.
\<close>

section \<open>Lists\<close>

lemma list_all2_mem: "list_all2 P xs ys \<Longrightarrow> x \<in> set xs \<Longrightarrow> \<exists>y\<in>set ys. P x y"
  by (induction rule: list_all2_induct) auto

lemma list_all2_mem2: "list_all2 P xs ys \<Longrightarrow> y \<in> set ys \<Longrightarrow> \<exists>x\<in>set xs. P x y"
  by (induction rule: list_all2_induct) auto

section \<open>Masks\<close>

definition mask_img :: "cipher \<Rightarrow> portable_mask \<Rightarrow> mask_row \<Rightarrow> bool" where
  "mask_img c q m \<longleftrightarrow> mr_name m = qm_name q \<and> (\<exists>k. build_mask c m = Inr k \<and> export_mask k = q)"

definition mask_fits :: "portable_mask \<Rightarrow> bool" where
  "mask_fits q \<longleftrightarrow> valid_utf8 (qm_secret q) \<and> 0 \<le> qm_max_body_bytes q"

definition draws_ok :: "import_draws \<Rightarrow> bool" where
  "draws_ok R \<longleftrightarrow> (\<forall>i. length (im_mask_nonce R i) = NONCE_LEN \<and> length (im_provider_nonce R i) = NONCE_LEN)"

text \<open>The table of ids an import keeps is the one of the rows of the profile.\<close>

definition hop_ids :: "string \<Rightarrow> db \<Rightarrow> name_ids \<Rightarrow> bool" where
  "hop_ids pid d known \<longleftrightarrow> (\<forall>n i. known n = Some i \<longleftrightarrow> (\<exists>m\<in>set (masks d). mr_profile_id m = pid \<and> mr_name m = n \<and> mr_id m = i))"

definition provider_row_ids :: "string \<Rightarrow> db \<Rightarrow> name_ids \<Rightarrow> bool" where
  "provider_row_ids pid d known \<longleftrightarrow> (\<forall>n i. known n = Some i \<longleftrightarrow> (\<exists>p\<in>set (providers d). pr_profile_id p = pid \<and> pr_name p = n \<and> pr_id p = i))"

lemma build_mask_ids: "build_mask c m = Inr k \<Longrightarrow> mk_id k = mr_id m \<and> mk_name k = mr_name m"
  by (auto simp: build_mask_def res_bind_def split: sum.splits)

lemma import_mask_run:
  assumes ok: "db_ok d" "cipher_ok c" "draws_ok R" and pid: "pid \<in> profile_ids d" and fits: "mask_fits q"
    and fresh: "(pid, qm_name q) \<notin> (\<lambda>m. (mr_profile_id m, mr_name m)) ` set (masks d)" and known: "hop_ids pid d known"
  shows "\<exists>m d'. import_mask c R pid (i, q) known d = (Inr (known(qm_name q \<mapsto> mr_id m)), d')
    \<and> d' = d\<lparr>masks := masks d @ [m], seq_masks := seq_masks d + 1\<rparr> \<and> db_ok d' \<and> hop_ids pid d' (known(qm_name q \<mapsto> mr_id m))
    \<and> mr_profile_id m = pid \<and> mask_img c q m"
proof -
  let ?spec = "\<lparr>nm_name = qm_name q, nm_kind = qm_kind q, nm_endpoint_url = qm_endpoint_url q, nm_secret = qm_secret q,
      nm_max_body_bytes = qm_max_body_bytes q, nm_expected_egress_ip = qm_expected_egress_ip q, nm_shared = qm_shared q\<rparr>"
  define m where "m = \<lparr>mr_id = seq_masks d + 1, mr_profile_id = pid, mr_name = qm_name q, mr_kind = qm_kind q,
      mr_endpoint_url = qm_endpoint_url q, mr_enc_secret = encrypt (ci_aead c) (ci_key c) (im_mask_nonce R i) (qm_secret q),
      mr_max_body_bytes = max 0 (qm_max_body_bytes q), mr_expected_egress_ip = qm_expected_egress_ip q, mr_verified_ip = None,
      mr_verified_asn = None, mr_verified_country = None, mr_verified_at = None, mr_shared = qm_shared q\<rparr>"
  let ?d' = "d\<lparr>masks := masks d @ [m], seq_masks := seq_masks d + 1\<rparr>"
  have "decrypt (ci_aead c) (ci_key c) (mr_enc_secret m) = Inr (qm_secret q)"
    using ok fits by (simp add: m_def cipher_ok_def draws_ok_def mask_fits_def decrypt_encrypt)
  then obtain k where k: "build_mask c m = Inr k" "export_mask k = q"
    using fits by (simp add: build_mask_def m_def lift_crypto_def export_mask_def mask_fits_def)
  have run: "snd (create_masking_server c (im_mask_nonce R i) pid ?spec d) = ?d'"
    and res: "fst (create_masking_server c (im_mask_nonce R i) pid ?spec d) = res_bind (get_masking_server c (seq_masks d + 1) ?d') (ok_or Vanished)"
    using fresh pid by (simp_all add: create_masking_server_def Let_def m_def)
  have ok': "db_ok ?d'" using create_masking_server_ok[OF ok(1)] run by metis
  have "find (\<lambda>n. mr_id n = seq_masks d + 1) (masks ?d') = Some m"
    by (rule find_key[OF db_keys(5)[OF ok']]) (simp_all add: m_def)
  then have "get_masking_server c (seq_masks d + 1) ?d' = Inr (Some k)" using k(1) by (simp add: get_masking_server_def)
  then have "create_masking_server c (im_mask_nonce R i) pid ?spec d = (Inr k, ?d')"
    using run res by (simp add: prod_eq_iff ok_or_def)
  moreover have "mk_id k = mr_id m" "mk_name k = qm_name q" using build_mask_ids[OF k(1)] by (simp_all add: m_def)
  ultimately have "import_mask c R pid (i, q) known d = (Inr (known(qm_name q \<mapsto> mr_id m)), ?d')"
    by (simp add: import_mask_def next_with_def doing_def give_def)
  moreover have "hop_ids pid ?d' (known(qm_name q \<mapsto> mr_id m))"
    using known fresh by (auto simp: hop_ids_def m_def image_iff)
  moreover have "mr_profile_id m = pid" "mask_img c q m" using k by (auto simp: mask_img_def m_def)
  ultimately show ?thesis using ok' by blast
qed

lemma import_masks_run:
  assumes "db_ok d" "cipher_ok c" "draws_ok R" "pid \<in> profile_ids d" "\<forall>q\<in>set qs. mask_fits q" "distinct (map qm_name qs)"
    and "\<forall>q\<in>set qs. (pid, qm_name q) \<notin> (\<lambda>m. (mr_profile_id m, mr_name m)) ` set (masks d)" "hop_ids pid d known"
  shows "\<exists>ms n known' d'. each (import_mask c R pid) (enumerate k qs) known d = (Inr known', d')
    \<and> d' = d\<lparr>masks := masks d @ ms, seq_masks := n\<rparr> \<and> db_ok d' \<and> hop_ids pid d' known'
    \<and> (\<forall>m\<in>set ms. mr_profile_id m = pid) \<and> list_all2 (mask_img c) qs ms"
  using assms
proof (induction qs arbitrary: d k known)
  case Nil
  then show ?case by (intro exI[of _ "[]"] exI[of _ "seq_masks d"] exI[of _ known] exI[of _ d]) (simp add: give_def)
next
  case (Cons q qs)
  obtain m d1 where one: "import_mask c R pid (k, q) known d = (Inr (known(qm_name q \<mapsto> mr_id m)), d1)"
      "d1 = d\<lparr>masks := masks d @ [m], seq_masks := seq_masks d + 1\<rparr>" "db_ok d1" "hop_ids pid d1 (known(qm_name q \<mapsto> mr_id m))"
      "mr_profile_id m = pid" "mask_img c q m"
    using import_mask_run[OF Cons.prems(1-4), of q known k] Cons.prems(5-8) by auto
  have pid': "pid \<in> profile_ids d1" using Cons.prems(4) one(2) by (simp add: profile_ids_def)
  have goods: "\<forall>q\<in>set qs. mask_fits q" "distinct (map qm_name qs)" using Cons.prems(5,6) by simp_all
  have fresh: "\<forall>q\<in>set qs. (pid, qm_name q) \<notin> (\<lambda>m. (mr_profile_id m, mr_name m)) ` set (masks d1)"
    using Cons.prems(6,7) one(2,6) by (auto simp: mask_img_def image_iff)
  obtain ms n known' d' where rest: "each (import_mask c R pid) (enumerate (Suc k) qs) (known(qm_name q \<mapsto> mr_id m)) d1 = (Inr known', d')"
      "d' = d1\<lparr>masks := masks d1 @ ms, seq_masks := n\<rparr>" "db_ok d'" "hop_ids pid d' known'" "\<forall>m\<in>set ms. mr_profile_id m = pid"
      "list_all2 (mask_img c) qs ms"
    using Cons.IH[OF one(3) Cons.prems(2,3) pid' goods fresh one(4), of "Suc k"] by blast
  show ?case
    using one rest
    by (intro exI[of _ "m # ms"] exI[of _ n] exI[of _ known'] exI[of _ d']) (simp add: next_with_simps)
qed

section \<open>Providers\<close>

definition provider_img :: "cipher \<Rightarrow> db \<Rightarrow> portable_provider \<Rightarrow> provider_row \<Rightarrow> bool" where
  "provider_img c d q p \<longleftrightarrow> pr_name p = qp_name q \<and> (\<exists>v. build_joined c d p = Inr v \<and> export_provider v = q)"

definition provider_fits :: "name_ids \<Rightarrow> profile \<Rightarrow> portable_provider \<Rightarrow> bool" where
  "provider_fits hops me q \<longleftrightarrow> valid_utf8 (qp_auth_token q)
     \<and> (case qp_mask q of None \<Rightarrow> pf_default_mask me = None | Some n \<Rightarrow> hops n \<noteq> None)"

lemma joined_cong:
  assumes "masks d' = masks d" "profiles d' = profiles d"
  shows "build_joined c d' = build_joined c d"
  using assms by (auto simp: build_joined_def mask_join_def effective_mask_id_def get_profile_by_id_def fun_eq_iff split: option.split)

lemma import_provider_run:
  assumes ok: "db_ok d" "cipher_ok c" "draws_ok R" and me: "get_profile_by_id pid d = Some me"
    and fits: "provider_fits hops me q" "hop_ids pid d hops" "\<forall>m\<in>set (masks d). mr_profile_id m = pid \<longrightarrow> (\<exists>k. build_mask c m = Inr k)"
    and fresh: "(pid, qp_name q) \<notin> (\<lambda>p. (pr_profile_id p, pr_name p)) ` set (providers d)" and known: "provider_row_ids pid d known"
  shows "\<exists>p d'. import_provider c R pid hops (i, q) known d = (Inr (known(qp_name q \<mapsto> pr_id p)), d')
    \<and> d' = d\<lparr>providers := providers d @ [p], seq_providers := seq_providers d + 1\<rparr> \<and> db_ok d'
    \<and> provider_row_ids pid d' (known(qp_name q \<mapsto> pr_id p)) \<and> pr_profile_id p = pid \<and> provider_img c d q p"
proof -
  have pid: "pid \<in> profile_ids d" using me by (auto simp: get_profile_by_id_def profile_ids_def dest!: find_mem)
  let ?hop = "and_then (qp_mask q) hops"
  let ?spec = "\<lparr>np_name = qp_name q, np_description = qp_description q, np_base_url = qp_base_url q, np_auth_token = qp_auth_token q,
      np_kind = qp_kind q, np_extra_headers = qp_extra_headers q, np_mask_id = ?hop, np_shared = qp_shared q\<rparr>"
  define p where "p = \<lparr>pr_id = seq_providers d + 1, pr_profile_id = pid, pr_name = qp_name q, pr_description = qp_description q,
      pr_base_url = qp_base_url q, pr_enc_token = encrypt (ci_aead c) (ci_key c) (im_provider_nonce R i) (qp_auth_token q),
      pr_kind_tag = provider_kind_tag (qp_kind q), pr_extra = Some (qp_extra_headers q), pr_mask_id = ?hop, pr_shared = qp_shared q\<rparr>"
  let ?d' = "d\<lparr>providers := providers d @ [p], seq_providers := seq_providers d + 1\<rparr>"
  have token: "decrypt (ci_aead c) (ci_key c) (pr_enc_token p) = Inr (qp_auth_token q)"
    using ok fits by (simp add: p_def cipher_ok_def draws_ok_def provider_fits_def decrypt_encrypt)
  obtain v where v: "build_joined c d p = Inr v" "export_provider v = q"
  proof (cases "qp_mask q")
    case None
    then have "mask_join d p = None" using fits(1) me by (simp add: mask_join_def effective_mask_id_def p_def provider_fits_def and_then_def)
    then show ?thesis
      using that token None by (simp add: build_joined_def build_provider_def lift_crypto_def p_def ok_or_def export_provider_def)
  next
    case (Some n)
    then obtain j where j: "hops n = Some j" using fits(1) by (auto simp: provider_fits_def)
    then obtain m where m: "m \<in> set (masks d)" "mr_profile_id m = pid" "mr_name m = n" "mr_id m = j" using fits(2) by (auto simp: hop_ids_def)
    then obtain k where k: "build_mask c m = Inr k" using fits(3) by auto
    have "find (\<lambda>m. mr_id m = j) (masks d) = Some m" by (rule find_key[OF db_keys(5)[OF ok(1)] m(1)]) (simp add: m(4))
    then have "mask_join d p = Some m" using Some j by (simp add: mask_join_def effective_mask_id_def p_def and_then_def)
    then show ?thesis
      using that token Some k build_mask_ids[OF k] m(3)
      by (simp add: build_joined_def build_provider_def lift_crypto_def p_def ok_or_def export_provider_def)
  qed
  have "ref_ok ?hop (mask_ids d)"
  proof (cases ?hop)
    case (Some j)
    then obtain n where "hops n = Some j" by (cases "qp_mask q") (auto simp: and_then_def)
    then have "j \<in> mask_ids d" using fits(2) by (auto simp: hop_ids_def mask_ids_def)
    then show ?thesis using Some by simp
  qed simp
  then have run: "snd (create_provider c (im_provider_nonce R i) pid ?spec d) = ?d'"
    and res: "fst (create_provider c (im_provider_nonce R i) pid ?spec d) = res_bind (get_provider c (seq_providers d + 1) ?d') (ok_or Vanished)"
    using fresh pid by (simp_all add: create_provider_def Let_def p_def)
  have ok': "db_ok ?d'" using create_provider_ok[OF ok(1)] run by metis
  have "find (\<lambda>n. pr_id n = seq_providers d + 1) (providers ?d') = Some p"
    by (rule find_key[OF db_keys(3)[OF ok']]) (simp_all add: p_def)
  then have "get_provider c (seq_providers d + 1) ?d' = Inr (Some v)" using v(1) joined_cong[of ?d' d c] by (simp add: get_provider_def)
  then have "create_provider c (im_provider_nonce R i) pid ?spec d = (Inr v, ?d')"
    using run res by (simp add: prod_eq_iff ok_or_def)
  moreover have "pv_id v = pr_id p" "pv_name v = qp_name q" using build_joined_id[OF v(1)] by (simp_all add: p_def)
  ultimately have "import_provider c R pid hops (i, q) known d = (Inr (known(qp_name q \<mapsto> pr_id p)), ?d')"
    by (simp add: import_provider_def next_with_def doing_def give_def)
  moreover have "provider_row_ids pid ?d' (known(qp_name q \<mapsto> pr_id p))"
    using known fresh by (auto simp: provider_row_ids_def p_def image_iff)
  moreover have "pr_profile_id p = pid" "provider_img c d q p" using v by (auto simp: provider_img_def p_def)
  ultimately show ?thesis using ok' by blast
qed

lemma import_providers_run:
  assumes "db_ok d" "cipher_ok c" "draws_ok R" "get_profile_by_id pid d = Some me"
    and "\<forall>q\<in>set qs. provider_fits hops me q" "hop_ids pid d hops" "\<forall>m\<in>set (masks d). mr_profile_id m = pid \<longrightarrow> (\<exists>k. build_mask c m = Inr k)"
    and "distinct (map qp_name qs)"
    and "\<forall>q\<in>set qs. (pid, qp_name q) \<notin> (\<lambda>p. (pr_profile_id p, pr_name p)) ` set (providers d)" "provider_row_ids pid d known"
  shows "\<exists>ps n known' d'. each (import_provider c R pid hops) (enumerate k qs) known d = (Inr known', d')
    \<and> d' = d\<lparr>providers := providers d @ ps, seq_providers := n\<rparr> \<and> db_ok d' \<and> provider_row_ids pid d' known'
    \<and> (\<forall>p\<in>set ps. pr_profile_id p = pid) \<and> list_all2 (provider_img c d) qs ps"
  using assms
proof (induction qs arbitrary: d k known)
  case Nil
  then show ?case by (intro exI[of _ "[]"] exI[of _ "seq_providers d"] exI[of _ known] exI[of _ d]) (simp add: give_def)
next
  case (Cons q qs)
  obtain p d1 where one: "import_provider c R pid hops (k, q) known d = (Inr (known(qp_name q \<mapsto> pr_id p)), d1)"
      "d1 = d\<lparr>providers := providers d @ [p], seq_providers := seq_providers d + 1\<rparr>" "db_ok d1"
      "provider_row_ids pid d1 (known(qp_name q \<mapsto> pr_id p))" "pr_profile_id p = pid" "provider_img c d q p"
    using import_provider_run[OF Cons.prems(1-4), of hops q known k] Cons.prems(5-10) by auto
  have img: "provider_img c d1 = provider_img c d" using joined_cong[of d1 d c] one(2) by (simp add: provider_img_def[abs_def])
  have frame: "get_profile_by_id pid d1 = Some me" "hop_ids pid d1 hops" "\<forall>m\<in>set (masks d1). mr_profile_id m = pid \<longrightarrow> (\<exists>k. build_mask c m = Inr k)"
    using Cons.prems(4,6,7) one(2) by (simp_all add: get_profile_by_id_def hop_ids_def)
  have goods: "\<forall>q\<in>set qs. provider_fits hops me q" "distinct (map qp_name qs)" using Cons.prems(5,8) by simp_all
  have fresh: "\<forall>q\<in>set qs. (pid, qp_name q) \<notin> (\<lambda>p. (pr_profile_id p, pr_name p)) ` set (providers d1)"
    using Cons.prems(8,9) one(2,6) by (auto simp: provider_img_def image_iff)
  obtain ps n known' d' where rest:
      "each (import_provider c R pid hops) (enumerate (Suc k) qs) (known(qp_name q \<mapsto> pr_id p)) d1 = (Inr known', d')"
      "d' = d1\<lparr>providers := providers d1 @ ps, seq_providers := n\<rparr>" "db_ok d'" "provider_row_ids pid d' known'"
      "\<forall>p\<in>set ps. pr_profile_id p = pid" "list_all2 (provider_img c d) qs ps"
    using Cons.IH[OF one(3) Cons.prems(2,3) frame(1) goods(1) frame(2,3) goods(2) fresh one(4), of "Suc k"] unfolding img by blast
  show ?case
    using one rest
    by (intro exI[of _ "p # ps"] exI[of _ n] exI[of _ known'] exI[of _ d']) (simp add: next_with_simps)
qed

end
