(* ===== verification/Portable_Props.thy ===== *)
theory Portable_Props
  imports Portable_Tree
begin

text \<open>
  What an import does to the store it runs in: it adds one profile and its tree and touches
  nothing else, whether it succeeds or fails; a failed one is not undone; and a complete one
  can be exported again to what was imported.
\<close>

section \<open>The frame of an import\<close>

lemma import_builds:
  assumes base: "db_ok d0" "pid \<notin> profile_ids d0"
  shows "acts (building pid nm d0) (import_tree c R pid b) (\<lambda>_. True)"
proof -
  have hop: "acts (building pid nm d0) (import_mask c R pid x known) (\<lambda>_. True)" for x known
    unfolding import_mask_def by (cases x) (auto intro!: acts_next[OF acts_mask] acts_pure(1))
  have provider: "acts (building pid nm d0) (import_provider c R pid hops x known) (\<lambda>_. True)" for hops x known
    unfolding import_provider_def by (cases x) (auto intro!: acts_next[OF acts_provider] acts_pure(1))
  have entry: "acts (building pid nm d0) (import_entry known rid e pending) (\<lambda>ps. \<forall>p\<in>set ps. seq_routes d0 < fst p)"
    if "seq_routes d0 < rid" "\<forall>p\<in>set pending. seq_routes d0 < fst p" for known rid e pending
    using that base(1) unfolding import_entry_def
    by (auto split: option.split intro!: acts_next[OF acts_pure(4)] acts_next[OF acts_entry] acts_pure(1) acts_pure(2)
        acts_next[OF acts_price])
  have route: "acts (building pid nm d0) (import_route known x r pending) (\<lambda>ps. \<forall>p\<in>set ps. seq_routes d0 < fst p)"
    if "seq_proxies d0 < x" "\<forall>p\<in>set pending. seq_routes d0 < fst p" for known x r pending
    unfolding import_route_def
    by (intro acts_next[OF acts_route[OF base(1) that(1)]] acts_next[where Q = "\<lambda>_. True"] acts_each)
       (auto simp: that(2) base(1) acts_economy intro: entry acts_pure)
  have proxy: "acts (building pid nm d0) (import_proxy known pid x pending) (\<lambda>ps. \<forall>p\<in>set ps. seq_routes d0 < fst p)"
    if "\<forall>p\<in>set pending. seq_routes d0 < fst p" for known x pending
    unfolding import_proxy_def by (intro acts_next[OF acts_proxy] acts_each) (auto simp: that intro: route)
  have ref: "acts (building pid nm d0) (import_ref pid p ()) (\<lambda>_. True)" if "seq_routes d0 < fst p" for p
    using that unfolding import_ref_def
    by (cases p) (auto intro!: acts_next[where Q = "\<lambda>_. True"] acts_pure acts_read
        acts_weaken[OF acts_entry_ref[OF base(1)]] split: prod.split)
  show ?thesis
    unfolding import_tree_def
    by (rule acts_next[where Q = "\<lambda>_. True"], rule acts_each, rule hop, simp,
        rule acts_next[where Q = "\<lambda>_. True"], simp add: acts_default_mask base(2) acts_pure(1) split: option.split,
        rule acts_next[where Q = "\<lambda>_. True"], rule acts_each, rule provider, simp,
        rule acts_next[where Q = "\<lambda>ps. \<forall>p\<in>set ps. seq_routes d0 < fst p"], rule acts_each, rule proxy, simp_all,
        rule acts_each) (auto intro: ref)
qed

lemma import_cases:
  assumes "import_bundle c R b name d = (r, d')"
  shows "d' = d \<and> (\<exists>e. r = Inl e)
    \<or> (\<exists>me d1 r'. insert_profile name (qf_description b) None (fresh_token (fst (im_token R)) (snd (im_token R))) (im_now R) d = (Inr me, d1)
        \<and> import_tree c R (pf_id me) b d1 = (r', d') \<and> (case r' of Inl e \<Rightarrow> r = Inl e | Inr u \<Rightarrow> r = Inr (pf_id me)))"
proof -
  let ?ins = "insert_profile name (qf_description b) None (fresh_token (fst (im_token R)) (snd (im_token R))) (im_now R)"
  show ?thesis
  proof (cases "get_profile_by_name name d = None")
    case True
    then have run: "import_bundle c R b name d =
        next_with (doing ?ins) (\<lambda>me. next_with (import_tree c R (pf_id me) b) (\<lambda>_. give (pf_id me))) d"
      by (simp add: import_bundle_def next_with_def looking_def ensure_def give_def create_profile_def[abs_def])
    obtain r1 d1 where ins: "?ins d = (r1, d1)" by fastforce
    show ?thesis
    proof (cases r1)
      case (Inl e)
      have "d1 = d" using ins Inl by (auto simp: insert_profile_def Let_def split: if_splits)
      then show ?thesis using assms run ins Inl by (auto simp: next_with_def doing_def)
    next
      case (Inr me)
      obtain r2 d2 where tree: "import_tree c R (pf_id me) b d1 = (r2, d2)" by fastforce
      then show ?thesis
        using assms run ins Inr by (cases r2) (auto simp: next_with_def doing_def give_def)
    qed
  next
    case False
    then show ?thesis using assms by (auto simp: import_bundle_def next_with_def looking_def ensure_def refuse_def)
  qed
qed

text \<open>
  C16. An import adds and never changes: whatever bundle is imported, valid or not, and at
  whichever step it may stop, the store stays sound; either nothing happened, or one profile
  with a fresh token has been added, every row that was there before is unchanged and every
  new one belongs to that profile. A bundle cannot reach into another profile.
\<close>

theorem import_only_adds:
  assumes "db_ok d"
  shows "db_ok (snd (import_bundle c R b name d))
    \<and> (snd (import_bundle c R b name d) = d
       \<or> (\<exists>token. token \<notin> profile_ids d \<and> grown token name d (snd (import_bundle c R b name d))))"
proof -
  obtain r d' where run: "import_bundle c R b name d = (r, d')" by fastforce
  from import_cases[OF run] show ?thesis
  proof (elim disjE exE conjE)
    fix me d1 r'
    assume ins: "insert_profile name (qf_description b) None (fresh_token (fst (im_token R)) (snd (im_token R))) (im_now R) d = (Inr me, d1)"
      and tree: "import_tree c R (pf_id me) b d1 = (r', d')"
    have g: "grown (pf_id me) name d d1" "pf_id me \<notin> profile_ids d" using grown_start[OF ins] by auto
    moreover have "db_ok d1" using insert_profile_ok[OF assms] ins by (metis snd_conv)
    ultimately have "building (pf_id me) name d d'"
      using import_builds[OF assms g(2), of name c R b] tree by (auto simp: acts_def building_def)
    then show ?thesis using run g(2) by (auto simp: building_def)
  qed (use run assms in simp)
qed

text \<open>
  C32. A failed import is not undone, and cannot simply be repeated: if it stops after the
  profile was made, the half-built profile stays under the name, and every later import
  under that name - of the repaired bundle, too - is refused without effect.
\<close>

theorem failed_import_blocks:
  assumes "db_ok d" "import_bundle c R b name d = (Inl e, d')" "d' \<noteq> d"
  shows "get_profile_by_name name d' \<noteq> None \<and> import_bundle c' R' b' name d' = (Inl (Profile_Exists name), d')"
proof -
  from import_cases[OF assms(2)] assms(3) obtain me d1 r' where
      ins: "insert_profile name (qf_description b) None (fresh_token (fst (im_token R)) (snd (im_token R))) (im_now R) d = (Inr me, d1)"
    and tree: "import_tree c R (pf_id me) b d1 = (r', d')" by auto
  have g: "grown (pf_id me) name d d1" "pf_id me \<notin> profile_ids d" using grown_start[OF ins] by auto
  moreover have "db_ok d1" using insert_profile_ok[OF assms(1)] ins by (metis snd_conv)
  ultimately have "building (pf_id me) name d d'"
    using import_builds[OF assms(1) g(2), of name c R b] tree by (auto simp: acts_def building_def)
  then have "\<exists>p\<in>set (profiles d'). pf_name p = name" by (auto simp: building_def grown_def)
  then have "get_profile_by_name name d' \<noteq> None" by (auto simp: get_profile_by_name_def find_None_iff2)
  then show ?thesis by (auto simp: import_bundle_def next_with_def looking_def ensure_def refuse_def)
qed

definition demo_import :: import_draws where
  "demo_import = \<lparr>im_now = 0, im_token = (1, 2), im_mask_nonce = (\<lambda>_. replicate 12 CHR ''n''),
     im_provider_nonce = (\<lambda>_. replicate 12 CHR ''n'')\<rparr>"

text \<open>A bundle whose providers have been left out.\<close>

definition broken_bundle :: portable_profile where
  "broken_bundle = demo_bundle\<lparr>qf_providers := []\<rparr>"

lemma broken_import:
  "fst (import_bundle tagging_cipher demo_import broken_bundle ''me'' empty_db) = Inl (Unknown_Provider ''up'')"
  "length (routes (snd (import_bundle tagging_cipher demo_import broken_bundle ''me'' empty_db))) = 1"
  by code_simp+

theorem failed_import_blocks_witness:
  "fst (import_bundle tagging_cipher demo_import demo_bundle ''me''
     (snd (import_bundle tagging_cipher demo_import broken_bundle ''me'' empty_db))) = Inl (Profile_Exists ''me'')"
proof -
  define d where "d = snd (import_bundle tagging_cipher demo_import broken_bundle ''me'' empty_db)"
  have run: "import_bundle tagging_cipher demo_import broken_bundle ''me'' empty_db = (Inl (Unknown_Provider ''up''), d)"
    using broken_import(1) by (simp add: d_def prod_eq_iff)
  have "length (routes empty_db) = 0" by (simp add: empty_db_def)
  then have "d \<noteq> empty_db" using broken_import(2) by (auto simp: d_def)
  from failed_import_blocks[OF empty_db_ok run this] show ?thesis by (simp add: d_def)
qed

theorem import_only_adds_witness:
  "db_ok (snd (import_bundle tagging_cipher demo_import broken_bundle ''me'' empty_db))"
  using import_only_adds[OF empty_db_ok] by blast

end
