(* ===== verification/Portable_Roundtrip.thy ===== *)
theory Portable_Roundtrip
  imports Portable_Rows Portable_Props
begin

text \<open>
  Moving a profile loses nothing: importing a bundle that contains all it refers to succeeds,
  and exporting the new profile gives the bundle back under the new name.
\<close>

section \<open>Bundles that stand alone\<close>

text \<open>
  A nested entry names a route of the bundle, and is as an export writes one: no provider, no
  price, no capabilities of its own. A direct entry names a provider of the bundle, and its
  price is set or the one its model has by default. Masks, providers, proxies and routes
  come by name, entries by priority, and of one priority the direct ones first.
\<close>

definition nested_within :: "portable_profile \<Rightarrow> portable_entry \<Rightarrow> bool" where
  "nested_within b e \<longleftrightarrow> qe_provider_name e = [] \<and> qe_capabilities e = default_caps \<and> qe_price_per_1m e = FFin 0
     \<and> (\<exists>x\<in>set (qf_proxies b). \<exists>r\<in>set (qx_routes x). qe_route e = Some (qx_name x @ ''/'' @ qr_name r)
          \<and> CHR ''/'' \<notin> set (qx_name x) \<and> CHR ''/'' \<notin> set (qr_name r))"

definition entry_within :: "portable_profile \<Rightarrow> portable_entry \<Rightarrow> bool" where
  "entry_within b e \<longleftrightarrow> qe_weight e \<noteq> FNaN \<and>
     (if direct e then qe_provider_name e \<in> qp_name ` set (qf_providers b)
        \<and> (FFin 0 < qe_price_per_1m e \<or> qe_price_per_1m e = default_price_for (qe_model_id e))
      else nested_within b e)"

definition route_within :: "portable_profile \<Rightarrow> portable_route \<Rightarrow> bool" where
  "route_within b r \<longleftrightarrow> qr_max_tokens r < 2 ^ 32 \<and> 0 \<le> qr_cache_ttl_secs r \<and> (\<forall>e\<in>set (qr_entries r). entry_within b e)
     \<and> sorted (map (\<lambda>e. (qe_priority e, \<not> direct e)) (qr_entries r))"

definition mask_known :: "portable_profile \<Rightarrow> string option \<Rightarrow> bool" where
  "mask_known b h = (case h of None \<Rightarrow> True | Some n \<Rightarrow> n \<in> qm_name ` set (qf_masks b))"

definition by_name :: "string list \<Rightarrow> bool" where
  "by_name ns = sorted_wrt (<) ns"

definition stands_alone :: "portable_profile \<Rightarrow> bool" where
  "stands_alone b \<longleftrightarrow>
     by_name (map qm_name (qf_masks b)) \<and> (\<forall>m\<in>set (qf_masks b). mask_fits m)
   \<and> mask_known b (qf_default_mask b)
   \<and> by_name (map qp_name (qf_providers b)) \<and> (\<forall>p\<in>set (qf_providers b). valid_utf8 (qp_auth_token p) \<and> mask_known b (qp_mask p)
       \<and> (qp_mask p = None \<longrightarrow> qf_default_mask b = None))
   \<and> by_name (map qx_name (qf_proxies b)) \<and> (\<forall>x\<in>set (qf_proxies b). by_name (map qr_name (qx_routes x))
       \<and> (\<forall>r\<in>set (qx_routes x). route_within b r))"

lemma by_name_distinct: "by_name ns \<Longrightarrow> sorted ns \<and> distinct ns"
  by (simp add: by_name_def strict_sorted_iff)

lemma split_on_free: "c \<notin> set s \<Longrightarrow> split_on c s = [s]"
  by (induction s) auto

lemma split_on_label: "CHR ''/'' \<notin> set a \<Longrightarrow> CHR ''/'' \<notin> set b \<Longrightarrow> split_on CHR ''/'' (a @ CHR ''/'' # b) = [a, b]"
  by (induction a) (auto simp: split_on_free)

text \<open>An import makes the direct entries first; in order of priority they come out as they were.\<close>

lemma filter_sorted_flag: "sorted (map Q xs) \<Longrightarrow> filter (\<lambda>x. \<not> Q x) xs @ filter Q xs = xs"
proof (induction xs)
  case (Cons x xs)
  show ?case
  proof (cases "Q x")
    case True
    then have "\<forall>y\<in>set xs. Q y" using Cons.prems by (auto simp: le_bool_def)
    then show ?thesis using True by (simp add: filter_id_conv filter_empty_conv)
  next
    case False
    then show ?thesis using Cons by simp
  qed
qed simp

lemma entries_order:
  assumes "sorted (map (\<lambda>e. (qe_priority e, \<not> direct e)) es)"
  shows "sort_key qe_priority (filter direct es @ filter (\<lambda>e. \<not> direct e) es) = es"
proof (rule properties_for_sort_key)
  show "mset es = mset (filter direct es @ filter (\<lambda>e. \<not> direct e) es)" by simp
  show "sorted (map qe_priority es)"
    using assms by (simp add: sorted_map) (erule sorted_wrt_mono_rel[rotated], auto)
  fix k assume "k \<in> set es"
  let ?P = "\<lambda>e. qe_priority k = qe_priority e"
  have "sorted (map (\<lambda>e. \<not> direct e) (filter ?P es))"
    using sorted_filter[OF assms, of ?P] unfolding sorted_map by (rule sorted_wrt_mono_rel[rotated]) auto
  from filter_sorted_flag[OF this]
  have "filter (\<lambda>e. \<not> \<not> direct e) (filter ?P es) @ filter (\<lambda>e. \<not> direct e) (filter ?P es) = filter ?P es" .
  then show "filter ?P es = filter ?P (filter direct es @ filter (\<lambda>e. \<not> direct e) es)"
    by (simp add: conj_commute)
qed

section \<open>Reading back\<close>

lemma map_res_back:
  "list_all2 (\<lambda>q m. \<exists>k. f m = Inr k \<and> g k = q) qs ms \<Longrightarrow> \<exists>ks. map_res f ms = Inr ks \<and> map g ks = qs"
  by (induction rule: list_all2_induct) auto

lemma map_res_two:
  "list_all2 (\<lambda>q r. \<exists>y. f r = Inr y \<and> g y = Inr q) qs rs \<Longrightarrow> \<exists>ys. map_res f rs = Inr ys \<and> map_res g ys = Inr qs"
proof (induction rule: list_all2_induct)
  case (Cons q qs r rs)
  then obtain y ys where "f r = Inr y" "g y = Inr q" "map_res f rs = Inr ys" "map_res g ys = Inr qs" by auto
  then show ?case by (intro exI[of _ "y # ys"]) simp
qed simp

lemma masks_back:
  assumes "filter (\<lambda>m. mr_profile_id m = pid) (masks D) = ms" "list_all2 (mask_img c) qs ms" "sorted (map qm_name qs)"
  shows "\<exists>ks. list_masking_servers c pid D = Inr ks \<and> map export_mask ks = qs \<and> map mk_id ks = map mr_id ms"
proof -
  have "map mr_name ms = map qm_name qs" using assms(2) by (induction rule: list_all2_induct) (auto simp: mask_img_def)
  then have "sort_key mr_name ms = ms" using assms(3) by (simp add: sort_key_id_if_sorted)
  moreover have "list_all2 (\<lambda>q m. \<exists>k. build_mask c m = Inr k \<and> export_mask k = q) qs ms"
    using assms(2) by (rule list_all2_mono) (auto simp: mask_img_def)
  then obtain ks where "map_res (build_mask c) ms = Inr ks" "map export_mask ks = qs" using map_res_back by blast
  ultimately show ?thesis
    using assms(1) map_res_map[of "build_mask c" ms ks mk_id mr_id] by (auto simp: list_masking_servers_def dest: build_mask_ids)
qed

lemma providers_back:
  assumes "filter (\<lambda>p. pr_profile_id p = pid) (providers D) = ps" "list_all2 (provider_img c D) qs ps" "sorted (map qp_name qs)"
  shows "\<exists>vs. list_providers c pid D = Inr vs \<and> map export_provider vs = qs"
proof -
  have "map pr_name ps = map qp_name qs" using assms(2) by (induction rule: list_all2_induct) (auto simp: provider_img_def)
  then have "sort_key pr_name ps = ps" using assms(3) by (simp add: sort_key_id_if_sorted)
  moreover have "list_all2 (\<lambda>q p. \<exists>v. build_joined c D p = Inr v \<and> export_provider v = q) qs ps"
    using assms(2) by (rule list_all2_mono) (auto simp: provider_img_def)
  ultimately show ?thesis using assms(1) map_res_back by (fastforce simp: list_providers_def)
qed

text \<open>The entry \<open>q\<close> of a bundle is what the row is exported as.\<close>

definition entry_back :: "cipher \<Rightarrow> profile \<Rightarrow> db \<Rightarrow> portable_entry \<Rightarrow> entry_row \<Rightarrow> bool" where
  "entry_back c me D q row \<longleftrightarrow> (\<exists>y. map_route_entry_row row = Inr y \<and> export_entry c me D y = Inr q) \<and> qe_priority q = en_priority row"

lemma direct_back:
  assumes ok: "db_ok D" and known: "provider_row_ids pid D known"
    and opens: "\<forall>p\<in>set (providers D). pr_profile_id p = pid \<longrightarrow> (\<exists>v. build_joined c D p = Inr v)"
    and q: "direct_img known q row" "direct q"
  shows "entry_back c me D q row"
proof -
  obtain i where i: "known (qe_provider_name q) = Some i" "en_provider_id row = Some i" "en_target_route_id row = None"
    using q by (auto simp: direct_img_def)
  then obtain p where p: "p \<in> set (providers D)" "pr_profile_id p = pid" "pr_name p = qe_provider_name q" "pr_id p = i"
    using known by (auto simp: provider_row_ids_def)
  then obtain v where v: "build_joined c D p = Inr v" using opens by auto
  have "find (\<lambda>p. pr_id p = i) (providers D) = Some p" by (rule find_key[OF db_keys(3)[OF ok] p(1)]) (simp add: p(4))
  then have "get_provider c i D = Inr (Some v)" using v by (simp add: get_provider_def)
  moreover have "pv_name v = qe_provider_name q" using build_joined_id[OF v] p(3) by simp
  ultimately show ?thesis
    using q i by (auto simp: entry_back_def direct_img_def map_route_entry_row_def ok_or_def export_entry_def entry_with_def)
qed

lemma nested_back:
  assumes ok: "db_ok D" and me: "pf_id me = pid"
    and q: "ref_img (view pid D) (rid, the (qe_route q), qe_priority q, qe_weight q, qe_model_id q) row" "nested_within b q"
  shows "entry_back c me D q row"
proof -
  obtain l where l: "qe_route q = Some l" using q(2) by (auto simp: nested_within_def)
  then obtain i where i: "en_target_route_id row = Some i" "labelled (view pid D) l i" using q(1) by (auto simp: ref_img_def)
  obtain x rs r es where t: "(x, rs) \<in> set (view pid D)" "(r, es) \<in> set rs" "l = px_name x @ ''/'' @ ro_name r" "ro_id r = i"
    using i(2) by (auto simp: labelled_def)
  have x: "x \<in> set (proxies D)" "px_profile_id x = pid" using view_proxies[of pid D] t(1) by (force dest: arg_cong[where f = set])+
  have r: "r \<in> set (routes D)" "ro_proxy_id r = px_id x" using view_routes[OF t(1)] t(2) by (force dest: arg_cong[where f = set])+
  obtain y where y: "map_route_row r = Inr y" "rt_proxy_id y = px_id x" "rt_name y = ro_name r"
    using route_rowD[OF ok r(1)] r(2) by (auto simp: route_ok_def map_route_row_def ok_or_def)
  have "find (\<lambda>r. ro_id r = i) (routes D) = Some r" by (rule find_key[OF db_keys(9)[OF ok] r(1)]) (simp add: t(4))
  then have "get_route_by_id i D = Inr (Some y)" using y(1) by (simp add: get_route_by_id_def opt_route_def)
  moreover have "get_proxy (px_id x) D = Some x" unfolding get_proxy_def by (rule find_key[OF db_keys(7)[OF ok] x(1)]) simp
  ultimately have "target_label me D i = Inr l" using y x(2) me t(3) by (simp add: target_label_def ok_or_def)
  then show ?thesis
    using q l i(1)
    by (auto simp: entry_back_def ref_img_def nested_within_def map_route_entry_row_def ok_or_def export_entry_def entry_with_def)
qed

lemma route_back:
  assumes ok: "db_ok D" and t: "(x, rs) \<in> set (view pid D)" "(r, es) \<in> set rs" and img: "route_img known q (r, es')"
    and fits: "route_within b q"
    and es: "list_all2 (entry_back c me D) (filter direct (qr_entries q) @ filter (\<lambda>e. \<not> direct e) (qr_entries q)) es"
  shows "\<exists>y. map_route_row r = Inr y \<and> export_route c me D y = Inr q"
proof -
  have rows: "es = filter (\<lambda>e. en_route_id e = ro_id r) (entries D)" by (rule view_entries[OF t])
  have "list_all2 (entry_back c me D) (qr_entries q) (sort_key en_priority es)"
    using list_all2_sort_key[OF es, of qe_priority en_priority] entries_order[of "qr_entries q"] fits
    by (auto simp: entry_back_def route_within_def)
  then have "list_all2 (\<lambda>q row. \<exists>y. map_route_entry_row row = Inr y \<and> export_entry c me D y = Inr q) (qr_entries q) (sort_key en_priority es)"
    by (rule list_all2_mono) (auto simp: entry_back_def)
  from map_res_two[OF this] obtain ys where
    ys: "map_res map_route_entry_row (sort_key en_priority es) = Inr ys" "map_res (export_entry c me D) ys = Inr (qr_entries q)" by blast
  define y where "y = \<lparr>rt_id = ro_id r, rt_proxy_id = ro_proxy_id r, rt_name = ro_name r, rt_description = ro_description r,
    rt_strategy = qr_strategy q, rt_identity = ro_identity r, rt_max_tokens = nat (max 0 (ro_max_tokens r) mod 2 ^ 32),
    rt_cache_ttl_secs = max 0 (ro_cache_ttl_secs r), rt_shared = ro_shared r, rt_prompt_cache = policy_from_tag (ro_prompt_cache r)\<rparr>"
  have "map_route_row r = Inr y" using img by (simp add: map_route_row_def route_img_def ok_or_def y_def)
  moreover have "nat (int (qr_max_tokens q) mod 2 ^ 32) = qr_max_tokens q" using fits by (simp add: route_within_def)
  then have "export_route c me D y = Inr q"
    using ys img fits rows by (simp add: export_route_def route_entries_def y_def route_img_def route_within_def)
  ultimately show ?thesis by blast
qed

lemma proxy_back:
  assumes t: "(x, rs) \<in> set (view pid D)" and q: "px_name x = qx_name q" "px_description x = qx_description q"
    and names: "map (ro_name \<circ> fst) rs = map qr_name (qx_routes q)" "sorted (map qr_name (qx_routes q))"
    and rs: "list_all2 (\<lambda>q (r, es). \<exists>y. map_route_row r = Inr y \<and> export_route c me D y = Inr q) (qx_routes q) rs"
  shows "export_proxy c me D x = Inr q"
proof -
  have "sort_key ro_name (map fst rs) = map fst rs" using names by (simp add: sort_key_id_if_sorted o_def)
  moreover have "list_all2 (\<lambda>q r. \<exists>y. map_route_row r = Inr y \<and> export_route c me D y = Inr q) (qx_routes q) (map fst rs)"
    using rs by (simp add: list_all2_map2 case_prod_unfold)
  then obtain ys where "map_res map_route_row (map fst rs) = Inr ys" "map_res (export_route c me D) ys = Inr (qx_routes q)"
    using map_res_two by blast
  ultimately show ?thesis using q view_routes[OF t] by (simp add: export_proxy_def list_routes_def)
qed

text \<open>The waiting references of one route are the nested entries of its part of the bundle.\<close>

lemma pick_block:
  assumes "distinct (map k Z)" "z \<in> set Z" "\<And>y x. y \<in> set Z \<Longrightarrow> x \<in> set (g y) \<Longrightarrow> P x \<longleftrightarrow> k y = k z"
  shows "filter P (concat (map g Z)) = g z"
  using assms
proof (induction Z)
  case (Cons w Z)
  show ?case
  proof (cases "w = z")
    case True
    have "filter P (g y) = []" if "y \<in> set Z" for y
    proof -
      have "k y \<noteq> k z" using Cons.prems(1) that True by (auto simp: image_iff)
      then show ?thesis using Cons.prems(3)[of y] that by (auto simp: filter_empty_conv)
    qed
    then have "filter P (concat (map g Z)) = []" by (auto simp: filter_concat)
    moreover have "filter P (g w) = g w" using Cons.prems(3)[of w] True by (auto simp: filter_id_conv)
    ultimately show ?thesis using True by simp
  next
    case False
    then have "z \<in> set Z" using Cons.prems(2) by simp
    then have "k w \<noteq> k z" using Cons.prems(1) by auto
    then have "filter P (g w) = []" using Cons.prems(3)[of w] by (auto simp: filter_empty_conv)
    then show ?thesis using Cons \<open>z \<in> set Z\<close> by simp
  qed
qed simp

definition pairs :: "portable_proxy list \<Rightarrow> tree \<Rightarrow> (portable_route \<times> route_row \<times> entry_row list) list" where
  "pairs qs t = concat (map (\<lambda>(q, x, rs). zip (qx_routes q) rs) (zip qs t))"

lemma pairs_simps [simp]: "pairs [] t = []" "pairs qs [] = []" "pairs (q # qs) ((x, rs) # t) = zip (qx_routes q) rs @ pairs qs t"
  by (simp_all add: pairs_def)

lemma refs_pairs: "refs_of_proxies qs t = concat (map (\<lambda>(q, r, es). refs_of (ro_id r) (qr_entries q)) (pairs qs t))"
proof (induction qs arbitrary: t)
  case (Cons q qs)
  then show ?case by (cases t) (auto simp: refs_of_proxies_def refs_of_routes_def)
qed simp

lemma pairs_routes: "list_all2 (proxy_img known) qs t \<Longrightarrow> map (fst \<circ> snd) (pairs qs t) = tree_routes t"
proof (induction rule: list_all2_induct)
  case (Cons q qs p t)
  obtain x rs where p: "p = (x, rs)" by fastforce
  then have "length (qx_routes q) = length rs" using Cons.hyps by (auto simp: proxy_img_def dest: list_all2_lengthD)
  then have "map (fst \<circ> snd) (zip (qx_routes q) rs) = map fst rs" by (metis map_map map_snd_zip)
  then show ?case using Cons.IH by (simp add: p tree_routes_def o_def)
qed simp

lemma waiting_rows:
  assumes t: "list_all2 (proxy_img known) qs t" "distinct (map ro_id (tree_routes t))"
    and rows: "list_all2 (ref_img T) (refs_of_proxies qs t) rows" and q: "(q, r, es) \<in> set (pairs qs t)"
  shows "list_all2 (ref_img T) (refs_of (ro_id r) (qr_entries q)) (filter (\<lambda>e. en_route_id e = ro_id r) rows)"
proof -
  have "filter (\<lambda>ref. fst ref = ro_id r) (refs_of_proxies qs t) = (\<lambda>(q, r, es). refs_of (ro_id r) (qr_entries q)) (q, r, es)"
    unfolding refs_pairs
    by (rule pick_block[where k = "ro_id \<circ> (fst \<circ> snd)"])
       (use t(2) pairs_routes[OF t(1)] q in \<open>auto simp: refs_of_def simp flip: map_map\<close>)
  moreover have "list_all2 (ref_img T) (filter (\<lambda>ref. fst ref = ro_id r) (refs_of_proxies qs t)) (filter (\<lambda>e. en_route_id e = ro_id r) rows)"
    by (rule list_all2_filter[OF rows]) (auto simp: ref_img_def)
  ultimately show ?thesis by simp
qed

lemma nested_rows:
  assumes "db_ok D" "pf_id me = pid" "\<forall>e\<in>set es. entry_within b e" "list_all2 (ref_img (view pid D)) (refs_of rid es) rows"
  shows "list_all2 (entry_back c me D) (filter (\<lambda>e. \<not> direct e) es) rows"
proof -
  have "list_all2 (\<lambda>e row. ref_img (view pid D) (rid, the (qe_route e), qe_priority e, qe_weight e, qe_model_id e) row)
      (filter (\<lambda>e. \<not> direct e) es) rows"
    using assms(4) by (simp add: refs_of_def list_all2_map1)
  then show ?thesis
    by (rule list.rel_mono_strong) (use assms(3) in \<open>auto intro!: nested_back[OF assms(1,2)] simp: entry_within_def split: if_splits\<close>)
qed

section \<open>The profile that carries a bundle\<close>

definition carries :: "cipher \<Rightarrow> portable_profile \<Rightarrow> profile \<Rightarrow> db \<Rightarrow> bool" where
  "carries c b me D \<longleftrightarrow> (\<exists>hops known t rows.
     pf_description me = qf_description b \<and> pf_default_mask me = and_then (qf_default_mask b) hops \<and> hop_ids (pf_id me) D hops
   \<and> list_all2 (mask_img c) (qf_masks b) (filter (\<lambda>m. mr_profile_id m = pf_id me) (masks D))
   \<and> provider_row_ids (pf_id me) D known
   \<and> list_all2 (provider_img c D) (qf_providers b) (filter (\<lambda>p. pr_profile_id p = pf_id me) (providers D))
   \<and> view (pf_id me) D = put_rows rows t \<and> list_all2 (proxy_img known) (qf_proxies b) t
   \<and> list_all2 (ref_img t) (refs_of_proxies (qf_proxies b) t) rows)"

lemma default_back:
  assumes ok: "db_ok D" and hops: "hop_ids pid D hops" and h: "mask_known b h"
    and ms: "list_all2 (mask_img c) (qf_masks b) (filter (\<lambda>m. mr_profile_id m = pid) (masks D))"
    and ks: "map export_mask ks = qf_masks b" "map mk_id ks = map mr_id (filter (\<lambda>m. mr_profile_id m = pid) (masks D))"
  shows "and_then (and_then h hops) (\<lambda>i. map_option mk_name (find (\<lambda>m. mk_id m = i) ks)) = h"
proof (cases h)
  case (Some n)
  let ?ms = "filter (\<lambda>m. mr_profile_id m = pid) (masks D)"
  have row_names: "map mr_name ?ms = map qm_name (qf_masks b)" using ms by (induction rule: list_all2_induct) (auto simp: mask_img_def)
  have names: "map mk_name ks = map mr_name ?ms" unfolding row_names ks(1)[symmetric] by (simp add: export_mask_def)
  have "n \<in> set (map mr_name ?ms)" unfolding row_names using h Some by (simp add: mask_known_def)
  then obtain m where m: "m \<in> set ?ms" "mr_name m = n" by auto
  then have hop: "hops n = Some (mr_id m)" using hops by (auto simp: hop_ids_def)
  obtain j where j: "j < length ?ms" "?ms ! j = m" using m(1) by (metis in_set_conv_nth)
  have len: "length ks = length ?ms" using ks(2) by (metis length_map)
  have k: "ks ! j \<in> set ks" "mk_id (ks ! j) = mr_id m" "mk_name (ks ! j) = n"
    using j m(2) len ks(2) names by (metis nth_mem, metis nth_map, metis nth_map)
  have "distinct (map mk_id ks)" unfolding ks(2) by (rule distinct_map_filter[OF db_keys(5)[OF ok]])
  then have "find (\<lambda>m'. mk_id m' = mr_id m) ks = Some (ks ! j)" by (rule find_key[OF _ k(1)]) (simp add: k(2))
  then show ?thesis using Some hop k(3) by (simp add: and_then_def)
qed (simp add: and_then_def)

lemma mask_img_opens:
  assumes "list_all2 (mask_img c) qs (filter (\<lambda>m. mr_profile_id m = pid) (masks d))" "m \<in> set (masks d)" "mr_profile_id m = pid"
  shows "\<exists>k. build_mask c m = Inr k"
proof -
  have "m \<in> set (filter (\<lambda>m. mr_profile_id m = pid) (masks d))" using assms(2,3) by simp
  from list_all2_mem2[OF assms(1) this] show ?thesis by (auto simp: mask_img_def)
qed

lemma provider_img_opens:
  assumes "list_all2 (provider_img c d) qs (filter (\<lambda>p. pr_profile_id p = pid) (providers d))" "p \<in> set (providers d)" "pr_profile_id p = pid"
  shows "\<exists>v. build_joined c d p = Inr v"
proof -
  have "p \<in> set (filter (\<lambda>p. pr_profile_id p = pid) (providers d))" using assms(2,3) by simp
  from list_all2_mem2[OF assms(1) this] show ?thesis by (auto simp: provider_img_def)
qed

text \<open>A proxy of the bundle and its part of the tree.\<close>

lemma carried_proxy:
  assumes ok: "db_ok D" and known: "provider_row_ids (pf_id me) D known"
    and opens: "\<forall>p\<in>set (providers D). pr_profile_id p = pf_id me \<longrightarrow> (\<exists>v. build_joined c D p = Inr v)"
    and v: "view (pf_id me) D = put_rows rows t" "list_all2 (proxy_img known) qs t" "list_all2 (ref_img t) (refs_of_proxies qs t) rows"
    and fits: "\<forall>x\<in>set qs. by_name (map qr_name (qx_routes x)) \<and> (\<forall>r\<in>set (qx_routes x). route_within b r)"
    and q: "(q, x, rs) \<in> set (zip qs t)"
  shows "export_proxy c me D x = Inr q"
proof (rule proxy_back)
  let ?add = "\<lambda>(r, es). (r, es @ filter (\<lambda>e. en_route_id e = ro_id r) rows)"
  have qt: "q \<in> set qs" "(x, rs) \<in> set t" using q by (auto dest: set_zip_leftD set_zip_rightD)
  have img: "proxy_img known q (x, rs)" using v(2) q by (auto simp: list_all2_iff)
  have rs: "list_all2 (route_img known) (qx_routes q) rs" using img by (simp add: proxy_img_def)
  show D: "(x, map ?add rs) \<in> set (view (pf_id me) D)" using qt(2) by (auto simp: v(1) put_rows_mem)
  show "px_name x = qx_name q" "px_description x = qx_description q" using img by (simp_all add: proxy_img_def)
  have "map (ro_name \<circ> fst) rs = map qr_name (qx_routes q)"
    using rs by (induction rule: list_all2_induct) (auto simp: route_img_def)
  then show "map (ro_name \<circ> fst) (map ?add rs) = map qr_name (qx_routes q)" by (simp add: o_def case_prod_unfold)
  show "sorted (map qr_name (qx_routes q))" using fits qt(1) by_name_distinct by blast
  have distinct: "distinct (map ro_id (tree_routes t))"
    using view_distinct(2)[OF ok, of "pf_id me"] by (simp add: v(1))
  have one_route: "\<exists>y. map_route_row r = Inr y \<and> export_route c me D y = Inr rq"
    if r: "(rq, r, es) \<in> set (zip (qx_routes q) rs)" for rq r es
  proof (rule route_back[OF ok D])
    have rq: "rq \<in> set (qx_routes q)" "(r, es) \<in> set rs" using r by (auto dest: set_zip_leftD set_zip_rightD)
    show "(r, es @ filter (\<lambda>e. en_route_id e = ro_id r) rows) \<in> set (map ?add rs)" using rq(2) by force
    show img: "route_img known rq (r, es)" using rs r by (auto simp: list_all2_iff)
    show within: "route_within b rq" using fits qt(1) rq(1) by blast
    have "(rq, r, es) \<in> set (pairs qs t)" using q r by (force simp: pairs_def)
    from waiting_rows[OF v(2) distinct v(3) this]
    have "list_all2 (ref_img (view (pf_id me) D)) (refs_of (ro_id r) (qr_entries rq)) (filter (\<lambda>e. en_route_id e = ro_id r) rows)"
      by (simp add: v(1))
    then have "list_all2 (entry_back c me D) (filter (\<lambda>e. \<not> direct e) (qr_entries rq)) (filter (\<lambda>e. en_route_id e = ro_id r) rows)"
      using within by (intro nested_rows[OF ok refl, where b = b]) (simp_all add: route_within_def)
    moreover have "list_all2 (direct_img known) (filter direct (qr_entries rq)) es" using img by (simp add: route_img_def)
    then have "list_all2 (entry_back c me D) (filter direct (qr_entries rq)) es"
      by (rule list.rel_mono_strong) (use direct_back[OF ok known opens] in auto)
    ultimately show "list_all2 (entry_back c me D) (filter direct (qr_entries rq) @ filter (\<lambda>e. \<not> direct e) (qr_entries rq))
        (es @ filter (\<lambda>e. en_route_id e = ro_id r) rows)" by (rule list_all2_appendI[rotated])
  qed
  show "list_all2 (\<lambda>q (r, es). \<exists>y. map_route_row r = Inr y \<and> export_route c me D y = Inr q) (qx_routes q) (map ?add rs)"
    using rs one_route by (auto simp: list_all2_iff zip_map2)
qed

lemma carries_export:
  assumes ok: "db_ok D" and b: "stands_alone b" and carries: "carries c b me D"
  shows "export_bundle c me D = Inr (b\<lparr>qf_name := pf_name me\<rparr>)"
proof -
  let ?pid = "pf_id me"
  obtain hops known t rows where
      me: "pf_description me = qf_description b" "pf_default_mask me = and_then (qf_default_mask b) hops" "hop_ids ?pid D hops"
    and ms: "list_all2 (mask_img c) (qf_masks b) (filter (\<lambda>m. mr_profile_id m = ?pid) (masks D))"
    and ps: "provider_row_ids ?pid D known" "list_all2 (provider_img c D) (qf_providers b) (filter (\<lambda>p. pr_profile_id p = ?pid) (providers D))"
    and v: "view ?pid D = put_rows rows t" "list_all2 (proxy_img known) (qf_proxies b) t"
      "list_all2 (ref_img t) (refs_of_proxies (qf_proxies b) t) rows"
    using carries by (auto simp: carries_def)
  obtain ks where ks: "list_masking_servers c ?pid D = Inr ks" "map export_mask ks = qf_masks b"
      "map mk_id ks = map mr_id (filter (\<lambda>m. mr_profile_id m = ?pid) (masks D))"
    using masks_back[OF refl ms] b by_name_distinct by (auto simp: stands_alone_def)
  obtain vs where vs: "list_providers c ?pid D = Inr vs" "map export_provider vs = qf_providers b"
    using providers_back[OF refl ps(2)] b by_name_distinct by (auto simp: stands_alone_def)
  have hop_back: "and_then (pf_default_mask me) (\<lambda>i. map_option mk_name (find (\<lambda>m. mk_id m = i) ks)) = qf_default_mask b"
    unfolding me(2) by (rule default_back[OF ok me(3) _ ms ks(2,3)]) (use b in \<open>simp add: stands_alone_def\<close>)
  have opens: "\<forall>p\<in>set (providers D). pr_profile_id p = ?pid \<longrightarrow> (\<exists>v. build_joined c D p = Inr v)"
    using provider_img_opens[OF ps(2)] by blast
  have fits: "\<forall>x\<in>set (qf_proxies b). by_name (map qr_name (qx_routes x)) \<and> (\<forall>r\<in>set (qx_routes x). route_within b r)"
    using b by (simp add: stands_alone_def)
  have "list_all2 (\<lambda>q x. export_proxy c me D x = Inr q) (qf_proxies b) (map fst t)"
    using carried_proxy[OF ok ps(1) opens v fits] list_all2_lengthD[OF v(2)] by (auto simp: list_all2_iff zip_map2)
  then have xs: "map_res (export_proxy c me D) (map fst t) = Inr (qf_proxies b)"
    using map_res_back[of "export_proxy c me D" id "qf_proxies b" "map fst t"] by (auto elim!: list_all2_mono)
  have "map px_name (map fst t) = map qx_name (qf_proxies b)"
    using v(2) by (induction rule: list_all2_induct) (auto simp: proxy_img_def)
  then have "sort_key px_name (map fst t) = map fst t"
    using b by_name_distinct by (intro sort_key_id_if_sorted) (auto simp: stands_alone_def simp del: map_map)
  moreover have "map fst (put_rows rows t) = map fst t" by (simp add: put_rows_def map_routes_def case_prod_unfold o_def)
  ultimately have "list_proxies ?pid D = map fst t" using view_proxies[of ?pid D] by (simp add: list_proxies_def v(1))
  then show ?thesis using ks vs hop_back xs me(1) by (simp add: export_bundle_def)
qed

section \<open>An import carries its bundle\<close>

text \<open>The profile with this id owns nothing yet.\<close>

definition owns_nothing :: "string \<Rightarrow> db \<Rightarrow> bool" where
  "owns_nothing pid d \<longleftrightarrow> (\<forall>m\<in>set (masks d). mr_profile_id m \<noteq> pid) \<and> (\<forall>p\<in>set (providers d). pr_profile_id p \<noteq> pid)
     \<and> (\<forall>x\<in>set (proxies d). px_profile_id x \<noteq> pid)"

lemma default_run:
  assumes ok: "db_ok d" and me: "p \<in> set (profiles d)" "pf_default_mask p = None" and hops: "hop_ids (pf_id p) d hops"
  shows "\<exists>q d'. (case and_then h hops of None \<Rightarrow> give () | Some i \<Rightarrow> doing (set_profile_default_masking (pf_id p) (Some i) now)) d = (Inr (), d')
    \<and> db_ok d' \<and> d' = d\<lparr>profiles := profiles d'\<rparr> \<and> q \<in> set (profiles d') \<and> pf_id q = pf_id p \<and> pf_name q = pf_name p
    \<and> pf_description q = pf_description p \<and> pf_default_mask q = and_then h hops"
proof (cases "and_then h hops")
  case None
  then show ?thesis using ok me by (intro exI[of _ p] exI[of _ d]) (simp add: give_def)
next
  case (Some i)
  then obtain n where "hops n = Some i" by (cases h) (auto simp: and_then_def)
  then have i: "i \<in> mask_ids d" using hops by (auto simp: hop_ids_def mask_ids_def)
  let ?d' = "d\<lparr>profiles := upd_where (\<lambda>q. pf_id q = pf_id p) (\<lambda>q. q\<lparr>pf_default_mask := Some i, pf_updated_at := now\<rparr>) (profiles d)\<rparr>"
  have run: "set_profile_default_masking (pf_id p) (Some i) now d = (Inr (), ?d')"
    using i me(1) by (auto simp: set_profile_default_masking_def upd_profile_def require_changed_def n_where_0)
  then have "db_ok ?d'" using set_profile_default_masking_ok[OF ok, of "pf_id p" "Some i" now] by simp
  moreover have "p\<lparr>pf_default_mask := Some i, pf_updated_at := now\<rparr> \<in> set (profiles ?d')" using me(1) by (auto simp: set_upd_where)
  ultimately show ?thesis
    using run Some by (intro exI[of _ "p\<lparr>pf_default_mask := Some i, pf_updated_at := now\<rparr>"] exI[of _ ?d']) (simp add: doing_def)
qed

lemma labels_in_tree:
  assumes t: "list_all2 (proxy_img known) (qf_proxies b) t" and e: "nested_within b e"
  shows "\<exists>l i. qe_route e = Some l \<and> labelled t l i"
proof -
  obtain x r where x: "x \<in> set (qf_proxies b)" "r \<in> set (qx_routes x)" "qe_route e = Some (qx_name x @ ''/'' @ qr_name r)"
      "CHR ''/'' \<notin> set (qx_name x)" using e by (auto simp: nested_within_def)
  obtain p where p: "p \<in> set t" "proxy_img known x p" using list_all2_mem[OF t x(1)] by blast
  obtain y rs where y: "p = (y, rs)" by fastforce
  then have "list_all2 (route_img known) (qx_routes x) rs" "px_name y = qx_name x" using p(2) by (simp_all add: proxy_img_def)
  moreover obtain s where s: "s \<in> set rs" "route_img known r s"
    using list_all2_mem[OF calculation(1) x(2)] by blast
  moreover obtain q es where "s = (q, es)" by fastforce
  ultimately have "labelled t (qx_name x @ ''/'' @ qr_name r) (ro_id q)"
    using p(1) y x(4) unfolding labelled_def by (intro exI[of _ y] exI[of _ rs] exI[of _ q] exI[of _ es]) (simp add: route_img_def)
  then show ?thesis using x(3) by blast
qed

lemma pairs_mem:
  assumes "(q, r, es) \<in> set (pairs qs t)"
  shows "(\<exists>x\<in>set qs. q \<in> set (qx_routes x)) \<and> r \<in> set (tree_routes t)"
proof -
  obtain x y rs where z: "(x, y, rs) \<in> set (zip qs t)" "(q, r, es) \<in> set (zip (qx_routes x) rs)"
    using assms by (auto simp: pairs_def)
  have "x \<in> set qs" "(y, rs) \<in> set t" using set_zip_leftD[OF z(1)] set_zip_rightD[OF z(1)] by simp_all
  moreover have "q \<in> set (qx_routes x)" "(r, es) \<in> set rs" using set_zip_leftD[OF z(2)] set_zip_rightD[OF z(2)] by simp_all
  ultimately show ?thesis unfolding tree_routes_mem by blast
qed

lemma refs_fit:
  assumes t: "list_all2 (proxy_img known) (qf_proxies b) t" and b: "\<forall>x\<in>set (qf_proxies b). \<forall>r\<in>set (qx_routes x). route_within b r"
    and ref: "ref \<in> set (refs_of_proxies (qf_proxies b) t)"
  shows "ref_fits t ref"
proof -
  obtain q r es e where q: "(q, r, es) \<in> set (pairs (qf_proxies b) t)" "e \<in> set (qr_entries q)" "\<not> direct e"
      "ref = (ro_id r, the (qe_route e), qe_priority e, qe_weight e, qe_model_id e)"
    using ref by (auto simp: refs_pairs refs_of_def)
  have e: "entry_within b e" using b q(2) pairs_mem[OF q(1)] by (auto simp: route_within_def)
  then have "qe_weight e \<noteq> FNaN" "nested_within b e" using q(3) by (simp_all add: entry_within_def)
  then show ?thesis using labels_in_tree[OF t, of e] pairs_mem[OF q(1)] q(4) by (auto simp: ref_fits_def)
qed

lemma proxies_fit:
  assumes b: "stands_alone b" and known: "provider_row_ids pid D known"
    and ps: "list_all2 (provider_img c d) (qf_providers b) ps" "set ps \<subseteq> set (providers D)" "\<forall>p\<in>set ps. pr_profile_id p = pid"
    and x: "x \<in> set (qf_proxies b)"
  shows "proxy_fits known (provider_ids D) x"
proof -
  have "entry_fits known (provider_ids D) e" if "entry_within b e" for e
  proof (cases "qe_route e")
    case None
    then obtain q where q: "q \<in> set (qf_providers b)" "qp_name q = qe_provider_name e"
      using \<open>entry_within b e\<close> by (auto simp: entry_within_def)
    then obtain p where "p \<in> set ps" "pr_name p = qe_provider_name e"
      using list_all2_mem[OF ps(1) q(1)] by (auto simp: provider_img_def)
    then have "known (qe_provider_name e) = Some (pr_id p)" "pr_id p \<in> provider_ids D"
      using ps(2,3) known by (auto simp: provider_row_ids_def provider_ids_def)
    then show ?thesis using None \<open>entry_within b e\<close> by (auto simp: entry_fits_def entry_within_def)
  next
    case (Some l)
    then show ?thesis using \<open>entry_within b e\<close> by (auto simp: entry_fits_def entry_within_def nested_within_def split_on_label)
  qed
  then show ?thesis
    using b x by_name_distinct by (auto simp: proxy_fits_def route_fits_def stands_alone_def route_within_def)
qed

lemma import_tree_run:
  assumes ok: "db_ok d" "cipher_ok c" "draws_ok R" and b: "stands_alone b"
    and p: "p \<in> set (profiles d)" "pf_default_mask p = None" "pf_description p = qf_description b" "owns_nothing (pf_id p) d"
  shows "\<exists>q D. import_tree c R (pf_id p) b d = (Inr (), D) \<and> db_ok D \<and> q \<in> set (profiles D) \<and> pf_id q = pf_id p
    \<and> pf_name q = pf_name p \<and> carries c b q D"
proof -
  let ?pid = "pf_id p"
  have pid: "?pid \<in> profile_ids d" using p(1) by (auto simp: profile_ids_def)
  have b_masks: "\<forall>q\<in>set (qf_masks b). mask_fits q" "distinct (map qm_name (qf_masks b))"
    and b_providers: "distinct (map qp_name (qf_providers b))" and b_proxies: "distinct (map qx_name (qf_proxies b))"
    and b_routes: "\<forall>x\<in>set (qf_proxies b). \<forall>r\<in>set (qx_routes x). route_within b r"
    using b by_name_distinct by (auto simp: stands_alone_def)
  have none: "\<forall>q\<in>set (qf_masks b). (?pid, qm_name q) \<notin> (\<lambda>m. (mr_profile_id m, mr_name m)) ` set (masks d)" "hop_ids ?pid d (\<lambda>_. None)"
    using p(4) by (auto simp: owns_nothing_def hop_ids_def)
  obtain ms n hops d1 where masks: "each (import_mask c R ?pid) (enumerate 0 (qf_masks b)) (\<lambda>_. None) d = (Inr hops, d1)"
      "d1 = d\<lparr>masks := masks d @ ms, seq_masks := n\<rparr>" "db_ok d1" "hop_ids ?pid d1 hops" "\<forall>m\<in>set ms. mr_profile_id m = ?pid"
      "list_all2 (mask_img c) (qf_masks b) ms"
    using import_masks_run[OF ok pid b_masks none, of 0] by blast
  obtain q d2 where hop: "(case and_then (qf_default_mask b) hops of None \<Rightarrow> give ()
        | Some i \<Rightarrow> doing (set_profile_default_masking ?pid (Some i) (im_now R))) d1 = (Inr (), d2)"
      "db_ok d2" "d2 = d1\<lparr>profiles := profiles d2\<rparr>" "q \<in> set (profiles d2)" "pf_id q = ?pid" "pf_name q = pf_name p"
      "pf_description q = pf_description p" "pf_default_mask q = and_then (qf_default_mask b) hops"
    using default_run[OF masks(3) _ p(2) masks(4), where h = "qf_default_mask b" and now = "im_now R"] p(1) masks(2) by auto
  have d2: "masks d2 = masks d @ ms" "providers d2 = providers d" "proxies d2 = proxies d" "hop_ids ?pid d2 hops"
    using arg_cong[OF hop(3), of masks] arg_cong[OF hop(3), of providers] arg_cong[OF hop(3), of proxies] masks(2,4)
    by (simp_all add: hop_ids_def)
  have owned: "filter (\<lambda>m. mr_profile_id m = ?pid) (masks d2) = ms"
    using p(4) masks(5) by (auto simp: d2 owns_nothing_def filter_empty_conv filter_id_conv)
  have me: "get_profile_by_id ?pid d2 = Some q"
    unfolding get_profile_by_id_def by (rule find_key[OF db_keys(1)[OF hop(2)] hop(4)]) (simp add: hop(5))
  have names: "known n \<noteq> None" if "hop_ids ?pid d2 known" "n \<in> qm_name ` set (qf_masks b)" for known n
  proof -
    obtain q where q: "q \<in> set (qf_masks b)" "qm_name q = n" using \<open>n \<in> _\<close> by auto
    then obtain m where m: "m \<in> set ms" "mr_name m = n" using list_all2_mem[OF masks(6) q(1)] by (auto simp: mask_img_def)
    then have "known n = Some (mr_id m)" using \<open>hop_ids ?pid d2 known\<close> masks(5) by (auto simp: hop_ids_def d2)
    then show ?thesis by simp
  qed
  have fits: "\<forall>x\<in>set (qf_providers b). provider_fits hops q x"
    using b names[OF d2(4)] hop(8)
    by (fastforce simp: stands_alone_def provider_fits_def mask_known_def and_then_def split: option.splits)
  have readable: "\<forall>m\<in>set (masks d2). mr_profile_id m = ?pid \<longrightarrow> (\<exists>k. build_mask c m = Inr k)"
    using mask_img_opens[of c "qf_masks b" ?pid d2] masks(6) unfolding owned by blast
  have no_provider: "\<forall>q\<in>set (qf_providers b). (?pid, qp_name q) \<notin> (\<lambda>p. (pr_profile_id p, pr_name p)) ` set (providers d2)"
      "provider_row_ids ?pid d2 (\<lambda>_. None)"
    using p(4) by (auto simp: d2 owns_nothing_def provider_row_ids_def)
  obtain ps n' known d3 where providers: "each (import_provider c R ?pid hops) (enumerate 0 (qf_providers b)) (\<lambda>_. None) d2 = (Inr known, d3)"
      "d3 = d2\<lparr>providers := providers d2 @ ps, seq_providers := n'\<rparr>" "db_ok d3" "provider_row_ids ?pid d3 known"
      "\<forall>p\<in>set ps. pr_profile_id p = ?pid" "list_all2 (provider_img c d2) (qf_providers b) ps"
    using import_providers_run[OF hop(2) ok(2,3) me fits d2(4) readable b_providers no_provider, of 0] by blast
  have v3: "view ?pid d3 = []" using p(4) by (simp add: providers(2) view_def d2 owns_nothing_def)
  have "pf_id q \<in> profile_ids d3" using hop(4) by (simp add: providers(2) profile_ids_def)
  then have pid3: "?pid \<in> profile_ids d3" using hop(5) by simp
  have fits3: "\<forall>x\<in>set (qf_proxies b). proxy_fits known (provider_ids d3) x"
    using proxies_fit[OF b providers(4,6) _ providers(5)] by (simp add: providers(2))
  obtain t d4 where proxies: "each (import_proxy known ?pid) (qf_proxies b) [] d3 = (Inr (refs_of_proxies (qf_proxies b) t), d4)"
      "db_ok d4" "same_rest d3 d4" "view ?pid d4 = t" "list_all2 (proxy_img known) (qf_proxies b) t"
    using import_proxies_run[OF providers(3) pid3 fits3, of "[]"] b_proxies by (auto simp: v3)
  have fits4: "\<forall>ref\<in>set (refs_of_proxies (qf_proxies b) t). ref_fits (view ?pid d4) ref"
    using refs_fit[OF proxies(5) b_routes] by (simp add: proxies(4))
  obtain rows D where refs: "each (import_ref ?pid) (refs_of_proxies (qf_proxies b) t) () d4 = (Inr (), D)" "db_ok D" "same_rest d4 D"
      "view ?pid D = put_rows rows t" "list_all2 (ref_img t) (refs_of_proxies (qf_proxies b) t) rows"
    using import_refs_run[OF proxies(2) fits4] by (auto simp: proxies(4))
  have D: "profiles D = profiles d2" "masks D = masks d2" "providers D = providers d3"
    using same_rest_trans[OF proxies(3) refs(3)] by (simp_all add: same_rest_def providers(2))
  have "filter (\<lambda>r. pr_profile_id r = ?pid) (providers D) = ps"
    using p(4) providers(5) by (auto simp: D providers(2) d2 owns_nothing_def filter_empty_conv filter_id_conv)
  moreover have "provider_img c D = provider_img c d2" using joined_cong[of D d2 c] D by (simp add: provider_img_def[abs_def])
  ultimately have "carries c b q D"
    unfolding carries_def hop(5)
    using hop(7,8) p(3) d2(4) owned masks(6) providers(4,6) refs(4,5) proxies(5)
    by (intro exI[of _ hops] exI[of _ known] exI[of _ t] exI[of _ rows]) (simp add: D hop_ids_def provider_row_ids_def)
  moreover have "import_tree c R ?pid b d = (Inr (), D)"
    using masks(1) hop(1) providers(1) proxies(1) refs(1) by (simp add: import_tree_def next_with_def)
  ultimately show ?thesis using refs(2) hop(4-6) D(1) by auto
qed


lemma demo_stands_alone: "stands_alone demo_bundle"
proof -
  have "valid_utf8 ''s3''" "valid_utf8 ''sk''" by (rule valid_utf8_ascii; simp add: code_def)+
  moreover have "by_name [''a'', ''b'']" by (simp add: by_name_def)
  moreover have "''m-mini'' = ascii_lower ''m-mini''" by code_simp
  moreover have "default_price_for ''m-mini'' = price_cheap" by code_simp
  ultimately show ?thesis
    by (simp add: stands_alone_def demo_bundle_def by_name_def mask_fits_def mask_known_def route_within_def entry_within_def
        nested_within_def less_f64_def)
qed


end
