(* ===== verification/Console_Chains.thy ===== *)
theory Console_Chains
  imports Console_Props Portable_Roundtrip
begin

text \<open>
  Three commands on their own: where a moved model ends up in its chain, what a reference to
  a route means, and when an audit of masks complains.
\<close>

section \<open>Moving a model\<close>

text \<open>The priority an entry has after the shift, by its id.\<close>

fun shifted :: "route_entry \<Rightarrow> int \<Rightarrow> nat \<Rightarrow> route_entry list \<Rightarrow> int \<Rightarrow> int \<Rightarrow> int" where
  "shifted moved t n [] i p = p"
| "shifted moved t n (x # es) i p =
     shifted moved t (Suc n) es i (if i = re_id x \<and> re_id x \<noteq> re_id moved \<and> t \<le> int n + 1 then int n + 2 else p)"

lemma each_shift:
  "each (shift_entry moved t) (enumerate n es) () d
     = (Inr (), d\<lparr>entries := map (\<lambda>e. e\<lparr>en_priority := shifted moved t n es (en_id e) (en_priority e)\<rparr>) (entries d)\<rparr>)"
proof (induction es arbitrary: n d)
  case Nil
  then show ?case by (simp add: give_def)
next
  case (Cons x es)
  let ?hit = "re_id x \<noteq> re_id moved \<and> t \<le> int n + 1"
  let ?d1 = "d\<lparr>entries := map (\<lambda>e. e\<lparr>en_priority := if en_id e = re_id x \<and> ?hit then int n + 2 else en_priority e\<rparr>) (entries d)\<rparr>"
  have "shift_entry moved t (n, x) () d = (Inr (), ?d1)"
    by (auto simp: shift_entry_def Let_def doing_def give_def set_route_entry_priority_def upd_entry_def upd_where_def intro!: map_cong)
  then show ?case by (simp add: next_with_simps Cons.IH o_def)
qed

lemma shifted_other: "i \<notin> re_id ` set es \<Longrightarrow> shifted moved t n es i p = p"
  by (induction es arbitrary: n) auto

lemma shifted_at:
  assumes "distinct (map re_id es)" "j < length es" "re_id (es ! j) \<noteq> re_id moved"
  shows "shifted moved t n es (re_id (es ! j)) p = (if t \<le> int (n + j) + 1 then int (n + j) + 2 else p)"
  using assms
proof (induction es arbitrary: n j p)
  case (Cons x es)
  show ?case
  proof (cases j)
    case 0
    then show ?thesis using Cons.prems by (simp add: shifted_other)
  next
    case (Suc i)
    then have "re_id (es ! i) \<noteq> re_id x" using Cons.prems(1,2) by (auto simp: image_iff) (metis nth_mem)
    then show ?thesis using Suc Cons.IH[of i "Suc n" p] Cons.prems by simp
  qed
qed simp

definition placed :: "nat \<Rightarrow> 'a \<Rightarrow> 'a list \<Rightarrow> 'a list" where
  "placed j x xs = take j xs @ x # drop j xs"

text \<open>Taking the element at \<open>k\<close> out and putting it back so that it ends up at \<open>j\<close>.\<close>

definition relocate :: "nat \<Rightarrow> nat \<Rightarrow> 'a list \<Rightarrow> 'a list" where
  "relocate k j xs = placed j (xs ! k) (take k xs @ drop (Suc k) xs)"

lemma relocate_map: "k < length xs \<Longrightarrow> relocate k j (map f xs) = map f (relocate k j xs)"
  by (simp add: relocate_def placed_def take_map drop_map)

lemma relocate_mset: "k < length xs \<Longrightarrow> mset (relocate k j xs) = mset xs"
proof -
  assume k: "k < length xs"
  have "mset (relocate k j xs) = add_mset (xs ! k) (mset (take j (take k xs @ drop (Suc k) xs) @ drop j (take k xs @ drop (Suc k) xs)))"
    by (simp add: relocate_def placed_def del: append_take_drop_id take_append drop_append)
  also have "\<dots> = mset (take k xs @ xs ! k # drop (Suc k) xs)" unfolding append_take_drop_id by simp
  also have "take k xs @ xs ! k # drop (Suc k) xs = xs" using id_take_nth_drop[OF k] by simp
  finally show ?thesis .
qed

lemma sort_key_distinct:
  assumes "mset ys = mset xs" "sorted_wrt (<) (map f ys)"
  shows "sort_key f xs = ys"
proof (rule properties_for_sort_key[OF assms(1)])
  have s: "sorted (map f ys)" "distinct (map f ys)" using assms(2) by (simp_all add: strict_sorted_iff)
  show "sorted (map f ys)" by (rule s)
  fix k assume k: "k \<in> set ys"
  have one: "filter (\<lambda>x. f k = f x) ys = [k]" using s(2) k
    by (induction ys) (auto simp: filter_empty_conv image_iff)
  have "mset (filter (\<lambda>x. f k = f x) xs) = {#k#}"
    using one assms(1) by (metis mset_filter mset_single_iff)
  then show "filter (\<lambda>x. f k = f x) ys = filter (\<lambda>x. f k = f x) xs"
    unfolding one by (metis mset_single_iff_right)
qed

text \<open>The numbers the move gives: those before the target, the target, those behind it.\<close>

definition new_number :: "nat \<Rightarrow> nat \<Rightarrow> nat \<Rightarrow> int" where
  "new_number k t j = (if j = k then int t else if t \<le> j + 1 then int j + 2 else int j + 1)"

definition landing :: "nat \<Rightarrow> nat \<Rightarrow> nat" where
  "landing k t = (if t \<le> k + 1 then t - 1 else t - 2)"

lemma upt_sorted: "(\<And>i j. a \<le> i \<Longrightarrow> i < j \<Longrightarrow> j < b \<Longrightarrow> P i j) \<Longrightarrow> sorted_wrt P [a..<b]"
  by (simp add: sorted_wrt_iff_nth_less)

lemma numbers_sorted:
  assumes "k < n" "1 \<le> t" "t \<le> n"
  shows "sorted_wrt (<) (map (new_number k t) (relocate k (landing k t) [0..<n]))"
proof (cases "t \<le> k + 1")
  case True
  then have "relocate k (landing k t) [0..<n] = [0..<t - 1] @ k # [t - 1..<k] @ [Suc k..<n]"
    using assms by (simp add: relocate_def placed_def landing_def take_upt drop_upt min_def)
  then show ?thesis using True assms by (auto simp: sorted_wrt_append sorted_wrt_map new_number_def intro!: upt_sorted)
next
  case False
  define s where "s = t - 2"
  then have t: "t = s + 2" "k \<le> s" using False by simp_all
  have "[Suc k..<s] @ (if Suc k \<le> s then [s] else []) = [Suc k..<Suc s]" using t(2) by auto
  then have "relocate k (landing k t) [0..<n] = [0..<k] @ [Suc k..<t - 1] @ k # [t - 1..<n]"
    using assms False t by (auto simp: relocate_def placed_def landing_def take_upt drop_upt min_def)
  then show ?thesis using False assms by (auto simp: sorted_wrt_append sorted_wrt_map new_number_def intro!: upt_sorted)
qed

text \<open>
  C11. Moving a model, exactly. In a chain numbered without gaps, moving the model at
  position \<open>k + 1\<close> to position \<open>t\<close> puts it there if it moves towards the front or stays; if
  it moves towards the end it lands one position short, at \<open>t - 1\<close>, so that a model can
  never be moved to the last place. The other models keep their order, and no other route
  changes.
\<close>

theorem model_moved:
  assumes "db_ok d" "route_entries r d = Inr es" "map re_priority es = map (\<lambda>i. int i + 1) [0..<length es]"
    and "k < length es" "1 \<le> t" "t \<le> length es"
  shows "\<exists>d' es'. move_entry es (es ! k) (int t) d = (Inr (), d') \<and> route_entries r d' = Inr es'
    \<and> map re_id es' = relocate k (if t \<le> k + 1 then t - 1 else t - 2) (map re_id es)
    \<and> (\<forall>q. q \<noteq> r \<longrightarrow> route_entries q d' = route_entries q d)"
proof -
  define rows where "rows = filter (\<lambda>e. en_route_id e = r) (entries d)"
  define srt where "srt = sort_key en_priority rows"
  let ?moved = "es ! k"
  define \<rho> where "\<rho> e = e\<lparr>en_priority := if en_id e = re_id ?moved then int t
    else shifted ?moved (int t) 0 es (en_id e) (en_priority e)\<rparr>" for e :: entry_row
  let ?d' = "d\<lparr>entries := map \<rho> (entries d)\<rparr>"
  have "map_res map_route_entry_row srt = Inr es" using assms(2) by (simp add: route_entries_def rows_def srt_def)
  then have es: "list_all2 (\<lambda>row e. map_route_entry_row row = Inr e) srt es" by (rule map_res_InrD)
  then have len: "length srt = length es" by (rule list_all2_lengthD)
  have ids: "map re_id es = map en_id srt"
    using es by (induction rule: list_all2_induct) (auto simp: map_route_entry_row_def ok_or_def res_bind_def split: option.splits)
  have prios: "map re_priority es = map en_priority srt"
    using es by (induction rule: list_all2_induct) (auto simp: map_route_entry_row_def ok_or_def res_bind_def split: option.splits)
  have mset_srt: "mset srt = mset rows" by (simp add: srt_def)
  have "distinct (map en_id rows)" unfolding rows_def by (rule distinct_map_filter[OF db_keys(11)[OF assms(1)]])
  then have distinct: "distinct (map re_id es)"
    unfolding ids using mset_srt by (metis mset_eq_imp_distinct_iff mset_map)
  have id_at: "en_id (srt ! j) = re_id (es ! j)" if "j < length es" for j
    using ids that len by (metis nth_map)
  have prio_at: "en_priority (srt ! j) = int j + 1" if "j < length es" for j
    using prios assms(3) that len by (metis (no_types, lifting) add_0 diff_zero length_upt nth_map nth_upt)
  have run: "move_entry es ?moved (int t) d = (Inr (), ?d')"
    using assms(5,6)
    by (simp add: move_entry_def each_shift next_with_simps doing_def set_route_entry_priority_def upd_entry_def upd_where_def \<rho>_def o_def
        if_distrib cong: if_cong)
  have ok': "db_ok ?d'"
  proof -
    have "acts db_ok (move_entry es ?moved (int t)) (\<lambda>_. True)"
      by (auto simp: move_entry_def shift_entry_def Let_def keeps intro!: sound split: prod.split)
    then show ?thesis using assms(1) run by (metis acts_def snd_conv)
  qed
  obtain es' where es': "route_entries r ?d' = Inr es'" using route_entries_total[OF ok'] by blast
  have number: "en_priority (\<rho> (srt ! j)) = new_number k t j" if "j < length es" for j
  proof (cases "j = k")
    case True
    then show ?thesis using that id_at by (simp add: \<rho>_def new_number_def)
  next
    case False
    then have "re_id (es ! j) \<noteq> re_id ?moved" using distinct that assms(4) by (metis length_map nth_eq_iff_index_eq nth_map)
    then show ?thesis
      using False that shifted_at[OF distinct that, of ?moved "int t" 0] by (auto simp: \<rho>_def id_at prio_at new_number_def)
  qed
  let ?L = "relocate k (landing k t) srt"
  have at_index: "map ((!) srt) [0..<length es] = srt" using map_nth[of srt] by (simp add: len)
  have order: "?L = map ((!) srt) (relocate k (landing k t) [0..<length es])"
    using relocate_map[of k "[0..<length es]" "landing k t" "(!) srt"] assms(4) unfolding at_index by simp
  have "sort_key en_priority (map \<rho> rows) = map \<rho> ?L"
  proof (rule sort_key_distinct)
    show "mset (map \<rho> ?L) = mset (map \<rho> rows)" using relocate_mset[of k srt "landing k t"] assms(4) len mset_srt by simp
    have "set (relocate k (landing k t) [0..<length es]) = {0..<length es}"
      using relocate_mset[of k "[0..<length es]" "landing k t"] assms(4) by (metis atLeastLessThan_upt length_upt minus_nat.diff_0 set_mset_mset)
    then have "map en_priority (map \<rho> ?L) = map (new_number k t) (relocate k (landing k t) [0..<length es])"
      unfolding order by (auto simp: number)
    then show "sorted_wrt (<) (map en_priority (map \<rho> ?L))" using numbers_sorted[OF assms(4-6)] by simp
  qed
  moreover have "filter (\<lambda>e. en_route_id e = q) (map \<rho> (entries d)) = map \<rho> (filter (\<lambda>e. en_route_id e = q) (entries d))" for q
    by (simp add: filter_map o_def \<rho>_def)
  ultimately have "map_res map_route_entry_row (map \<rho> ?L) = Inr es'" using es' by (simp add: route_entries_def rows_def)
  then have "list_all2 (\<lambda>row e. map_route_entry_row row = Inr e) (map \<rho> ?L) es'" by (rule map_res_InrD)
  then have "map re_id es' = map en_id (map \<rho> ?L)"
    by (induction rule: list_all2_induct) (auto simp: map_route_entry_row_def ok_or_def res_bind_def split: option.splits)
  also have "\<dots> = relocate k (landing k t) (map re_id es)"
    unfolding ids using relocate_map[of k srt "landing k t" en_id] assms(4) len by (simp add: o_def \<rho>_def)
  finally have new_order: "map re_id es' = relocate k (landing k t) (map re_id es)" .
  have "route_entries q ?d' = route_entries q d" if "q \<noteq> r" for q
  proof -
    have "\<rho> e = e" if e: "e \<in> set (entries d)" "en_route_id e = q" for e
    proof -
      have "en_id e \<notin> re_id ` set es"
      proof
        assume "en_id e \<in> re_id ` set es"
        then have "en_id e \<in> set (map en_id srt)" unfolding ids[symmetric] by simp
        then obtain x where x: "x \<in> set (entries d)" "en_route_id x = r" "en_id x = en_id e" by (auto simp: srt_def rows_def)
        then show False using key_unique[OF db_keys(11)[OF assms(1)] x(1) e(1)] e(2) \<open>q \<noteq> r\<close> by auto
      qed
      then show ?thesis using assms(4) by (auto simp: \<rho>_def shifted_other)
    qed
    then have "map \<rho> (filter (\<lambda>e. en_route_id e = q) (entries d)) = filter (\<lambda>e. en_route_id e = q) (entries d)"
      by (intro map_idI) auto
    then show ?thesis by (simp add: route_entries_def filter_map o_def \<rho>_def)
  qed
  then show ?thesis using run es' new_order by (auto simp: landing_def)
qed

definition chain_db :: db where
  "chain_db =
     snd (add_route_entry 1 1 ''b'' 2 (FFin 1) default_caps
     (snd (add_route_entry 1 1 ''a'' 1 (FFin 1) default_caps
     (snd (create_route 1 ''r'' None Priority None
     (snd (create_proxy ''t'' ''p'' None
     (snd (create_provider tagging_cipher (replicate 12 CHR ''n'') ''t''
        \<lparr>np_name = ''up'', np_description = None, np_base_url = ''u'', np_auth_token = ''sk'', np_kind = OpenAI,
         np_extra_headers = [], np_mask_id = None, np_shared = False\<rparr>
     (snd (insert_profile ''me'' None None ''t'' 0 empty_db)))))))))))"

lemma chain_db_ok: "db_ok chain_db"
  unfolding chain_db_def by (intro keeps empty_db_ok)

lemma chain_entries: "case route_entries 1 chain_db of Inl e \<Rightarrow> False | Inr es \<Rightarrow> map re_id es = [1, 2] \<and> map re_priority es = [1, 2]"
  by code_simp

text \<open>The first of two models, moved to the last place, stays the first.\<close>

theorem model_moved_witness:
  "\<exists>es d' es'. route_entries 1 chain_db = Inr es \<and> map re_id es = [1, 2]
    \<and> move_entry es (es ! 0) (int 2) chain_db = (Inr (), d') \<and> route_entries 1 d' = Inr es' \<and> map re_id es' = [1, 2]"
proof -
  obtain es where es: "route_entries 1 chain_db = Inr es" "map re_id es = [1, 2]" "map re_priority es = [1, 2]"
    using chain_entries by (auto split: sum.splits)
  have "length (map re_id es) = 2" unfolding es(2) by simp
  then have n: "length es = 2" by simp
  have "map re_priority es = map (\<lambda>i. int i + 1) [0..<length es]" by (simp add: es(3) n upt_rec)
  from model_moved[OF chain_db_ok es(1) this, of 0 2] show ?thesis
    using es n by (auto simp: relocate_def placed_def)
qed

section \<open>References to routes\<close>

lemma split_on_label3:
  "CHR ''/'' \<notin> set a \<Longrightarrow> CHR ''/'' \<notin> set b \<Longrightarrow> CHR ''/'' \<notin> set c \<Longrightarrow>
     split_on CHR ''/'' (a @ CHR ''/'' # b @ CHR ''/'' # c) = [a, b, c]"
  by (induction a) (auto simp: split_on_label)

lemma get_route_named_row:
  assumes "db_ok d" "get_route_named x n d = Inr (Some r)"
  shows "rt_proxy_id r = x \<and> rt_name r = n \<and> get_route_by_id (rt_id r) d = Inr (Some r)"
proof -
  obtain row where row: "find (\<lambda>r. ro_proxy_id r = x \<and> ro_name r = n) (routes d) = Some row" "map_route_row row = Inr r"
    using assms(2) by (auto simp: get_route_named_def opt_route_def res_bind_def split: option.splits sum.splits)
  have r: "rt_id r = ro_id row" "rt_proxy_id r = ro_proxy_id row" "rt_name r = ro_name row"
    using row(2) by (auto simp: map_route_row_def ok_or_def res_bind_def split: option.splits)
  have "row \<in> set (routes d)" "ro_proxy_id row = x" "ro_name row = n" using row(1) by (auto dest!: find_mem)
  moreover have "find (\<lambda>q. ro_id q = rt_id r) (routes d) = Some row"
    by (rule find_key[OF db_keys(9)[OF assms(1)] calculation(1)]) (simp add: r)
  ultimately show ?thesis using row(2) r by (simp add: get_route_by_id_def opt_route_def)
qed

lemma resolve_ref_cases:
  assumes "resolve_route_ref me target d = (Inr (r, label), d')"
  shows "d' = d \<and> (\<exists>p x n owner px. route_path (pf_name me) target = Inr (p, x, n) \<and> get_profile_by_name p d = Some owner
    \<and> get_proxy_named (pf_id owner) x d = Some px \<and> get_route_named (px_id px) n d = Inr (Some r)
    \<and> (pf_id owner = pf_id me \<or> rt_shared r)
    \<and> label = (if pf_id owner = pf_id me then x @ ''/'' @ n else p @ ''/'' @ x @ ''/'' @ n))"
  using assms
  by (auto simp: resolve_route_ref_def require_profile_def next_with_Inr from_result_def need_def ensure_def action_runs
      split: sum.splits option.splits if_splits) blast+

text \<open>
  C12. A reference to a route names what it says. When the console accepts
  \<open>proxy/route\<close> or \<open>profile/proxy/route\<close>, nothing has changed yet; the route is the caller's
  own or one its owner has shared; the label stored with the entry resolves to the same route
  again, and is the very label an export of the entry writes.
\<close>

theorem route_reference_sound:
  assumes "db_ok d" "me \<in> set (profiles d)" "resolve_route_ref me target d = (Inr (r, label), d')"
  shows "d' = d \<and> (\<exists>x. get_proxy (rt_proxy_id r) d = Some x \<and> (px_profile_id x = pf_id me \<or> rt_shared r))
    \<and> resolve_route_ref me label d = (Inr (r, label), d) \<and> target_label me d (rt_id r) = Inr label"
proof -
  obtain p x n owner px where d: "d' = d" and path: "route_path (pf_name me) target = Inr (p, x, n)"
    and owner: "get_profile_by_name p d = Some owner" and px: "get_proxy_named (pf_id owner) x d = Some px"
    and r: "get_route_named (px_id px) n d = Inr (Some r)" and visible: "pf_id owner = pf_id me \<or> rt_shared r"
    and label: "label = (if pf_id owner = pf_id me then x @ ''/'' @ n else p @ ''/'' @ x @ ''/'' @ n)"
    using resolve_ref_cases[OF assms(3)] by blast
  have owner_row: "owner \<in> set (profiles d)" "pf_name owner = p" using owner by (auto simp: get_profile_by_name_def dest!: find_mem)
  have px_row: "px \<in> set (proxies d)" "px_profile_id px = pf_id owner" "px_name px = x" using px by (auto simp: get_proxy_named_def dest!: find_mem)
  have row: "rt_proxy_id r = px_id px" "rt_name r = n" "get_route_by_id (rt_id r) d = Inr (Some r)"
    using get_route_named_row[OF assms(1) r] by simp_all
  have proxy: "get_proxy (rt_proxy_id r) d = Some px"
    unfolding get_proxy_def by (rule find_key[OF db_keys(7)[OF assms(1)] px_row(1)]) (simp add: row)
  have owner_id: "get_profile_by_id (pf_id owner) d = Some owner"
    unfolding get_profile_by_id_def by (rule find_key[OF db_keys(1)[OF assms(1)] owner_row(1)]) simp
  have plain: "CHR ''/'' \<notin> set x" "CHR ''/'' \<notin> set n" "p \<noteq> pf_name me \<longrightarrow> CHR ''/'' \<notin> set p"
    using path split_on_no_sep[of _ "CHR ''/''" target] by (auto simp: route_path_def split: list.splits)
  have own: "owner = me" if "pf_id owner = pf_id me"
    using key_unique[OF db_keys(1)[OF assms(1)] owner_row(1) assms(2) that] .
  have foreign: "p \<noteq> pf_name me" if "pf_id owner \<noteq> pf_id me"
    using key_unique[OF db_keys(2)[OF assms(1)] owner_row(1) assms(2)] owner_row(2) that by auto
  have "route_path (pf_name me) label = Inr (p, x, n)"
  proof (cases "pf_id owner = pf_id me")
    case True
    then show ?thesis using label own owner_row(2) plain by (simp add: route_path_def split_on_label)
  next
    case False
    then show ?thesis using label foreign plain by (simp add: route_path_def split_on_label3)
  qed
  then have again: "resolve_route_ref me label d = (Inr (r, label), d)"
    using owner px r visible label
    by (auto simp: resolve_route_ref_def require_profile_def next_with_def looking_def reading_def give_def need_def ensure_def)
  have "target_label me d (rt_id r) = Inr label"
    using row proxy px_row owner_row owner_id label by (simp add: target_label_def ok_or_def)
  then show ?thesis using d again proxy px_row(2) visible by auto
qed

lemma chain_ref:
  "case get_profile_by_name ''me'' chain_db of None \<Rightarrow> False
   | Some me \<Rightarrow> (case resolve_route_ref me ''me/p/r'' chain_db of (Inl e, d') \<Rightarrow> False | (Inr (r, label), d') \<Rightarrow> label = ''p/r'' \<and> rt_id r = 1)"
  by code_simp

theorem route_reference_sound_witness:
  "\<exists>me r. me \<in> set (profiles chain_db) \<and> resolve_route_ref me ''p/r'' chain_db = (Inr (r, ''p/r''), chain_db)
    \<and> target_label me chain_db 1 = Inr ''p/r''"
proof -
  obtain me r d' where me: "get_profile_by_name ''me'' chain_db = Some me"
      and ref: "resolve_route_ref me ''me/p/r'' chain_db = (Inr (r, ''p/r''), d')" "rt_id r = 1"
    using chain_ref by (auto split: option.splits prod.splits sum.splits)
  have "me \<in> set (profiles chain_db)" using me by (auto simp: get_profile_by_name_def dest!: find_mem)
  from route_reference_sound[OF chain_db_ok this ref(1)] this show ?thesis using ref(2) by auto
qed

section \<open>Audits\<close>

definition networks :: "(masking_server \<times> probe_answer) list \<Rightarrow> string list" where
  "networks rows = concat (map (\<lambda>(m, a). case asn_of a of None \<Rightarrow> [] | Some x \<Rightarrow> [x]) rows)"

lemma masks_in_count: "length (masks_in rows asn) = count (mset (networks rows)) asn"
  by (induction rows) (auto simp: masks_in_def networks_def split: option.split)

text \<open>An audit complains exactly when two masks reported the same network.\<close>

lemma audit_complains: "duplicate_asns rows = [] \<longleftrightarrow> distinct (networks rows)"
proof -
  have "duplicate_asns rows = [] \<longleftrightarrow> (\<forall>asn\<in>set (networks rows). count (mset (networks rows)) asn \<le> 1)"
    by (auto simp: duplicate_asns_def shared_asns_def filter_empty_conv masks_in_count simp flip: networks_def)
  also have "\<dots> \<longleftrightarrow> distinct (networks rows)"
  proof
    assume l: "\<forall>asn\<in>set (networks rows). count (mset (networks rows)) asn \<le> 1"
    have "count (mset (networks rows)) asn = (if asn \<in> set (networks rows) then 1 else 0)" for asn
    proof (cases "asn \<in> set (networks rows)")
      case True
      then have "0 < count (mset (networks rows)) asn" by simp
      then show ?thesis using l True by (simp add: le_antisym Suc_leI)
    next
      case False
      then show ?thesis by (simp add: not_in_iff)
    qed
    then show "distinct (networks rows)" unfolding distinct_count_atmost_1 by blast
  qed (simp add: distinct_count_atmost_1)
  finally show ?thesis .
qed

end
